(* ===== verification/Prelude.thy ===== *)
theory Prelude
  imports Main "HOL-Library.Word"
begin

text \<open>
  Shared vocabulary of the development: the machine integers of core/common.hh, byte
  buffers, the ways an execution can fail to return a value, segments of byte lists, and
  the little-endian representation of unsigned integers that a memcpy of a packed
  struct produces on the x86-64 hosts the library targets.
\<close>

section \<open>Machine types (core/common.hh)\<close>

type_synonym u8 = "8 word"
type_synonym u16 = "16 word"
type_synonym u32 = "32 word"
type_synonym u64 = "64 word"
type_synonym usize = "32 word"
type_synonym c_int = "32 word"

text \<open>\<open>ByteBuffer\<close> is a \<open>std::string\<close>: a sequence of bytes.\<close>

type_synonym bytes = "u8 list"

text \<open>A pointer is an address; \<open>None\<close> is the null pointer.\<close>

type_synonym ptr = "nat option"

text \<open>A string literal used as a byte buffer.\<close>

definition bstr :: "string \<Rightarrow> bytes" where
  "bstr s = map of_char s"

section \<open>Abnormal outcomes\<close>

text \<open>
  \<open>Undefined\<close>: the C++ standard gives the execution no meaning (out-of-bounds access,
  dereferencing an end iterator, falling off the end of a non-void function);
  \<open>Aborted\<close>: a failed \<open>RDMA_ASSERT\<close> or \<open>assert\<close> calls \<open>abort\<close>;
  \<open>Thrown\<close>: a \<open>std::exception\<close> (\<open>std::bad_optional_access\<close>, from \<open>value()\<close> on an
  empty option, or \<open>std::out_of_range\<close>, from \<open>at\<close>) that a \<open>catch\<close> may intercept;
  \<open>Diverged\<close>: the call does not return.
\<close>

datatype fault = Undefined | Aborted | Thrown | Diverged

type_synonym 'a outcome = "fault + 'a"

definition bindE :: "'a outcome \<Rightarrow> ('a \<Rightarrow> 'b outcome) \<Rightarrow> 'b outcome" where
  "bindE m f = (case m of Inl e \<Rightarrow> Inl e | Inr x \<Rightarrow> f x)"

definition opt_value :: "'a option \<Rightarrow> 'a outcome" where
  "opt_value x = (case x of None \<Rightarrow> Inl Thrown | Some v \<Rightarrow> Inr v)"

definition assertE :: "bool \<Rightarrow> unit outcome" where
  "assertE b = (if b then Inr () else Inl Aborted)"

lemma bindE_simps [simp]:
  "bindE (Inl e) f = Inl e" "bindE (Inr x) f = f x"
  by (simp_all add: bindE_def)

lemma bindE_Inr_iff: "bindE m f = Inr y \<longleftrightarrow> (\<exists>x. m = Inr x \<and> f x = Inr y)"
  by (auto simp: bindE_def split: sum.splits)

lemma opt_value_simps [simp]:
  "opt_value None = Inl Thrown" "opt_value (Some v) = Inr v"
  by (simp_all add: opt_value_def)

lemma assertE_simps [simp]: "assertE True = Inr ()" "assertE False = Inl Aborted"
  by (simp_all add: assertE_def)

section \<open>Operations on a state\<close>

text \<open>
  An operation that changes a state and may end abnormally; the changes made before the
  abnormal end stay.
\<close>

type_synonym ('s, 'a) act = "'s \<Rightarrow> 'a outcome \<times> 's"

definition retA :: "'a \<Rightarrow> ('s, 'a) act" where
  "retA x s = (Inr x, s)"

definition failA :: "fault \<Rightarrow> ('s, 'a) act" where
  "failA e s = (Inl e, s)"

definition bindA :: "('s, 'a) act \<Rightarrow> ('a \<Rightarrow> ('s, 'b) act) \<Rightarrow> ('s, 'b) act" where
  "bindA m f s = (case m s of (Inl e, s') \<Rightarrow> (Inl e, s') | (Inr x, s') \<Rightarrow> f x s')"

text \<open>A call that always returns, and a result that needs no state.\<close>

definition callA :: "('s \<Rightarrow> 'a \<times> 's) \<Rightarrow> ('s, 'a) act" where
  "callA g s = (case g s of (x, s') \<Rightarrow> (Inr x, s'))"

definition liftA :: "'a outcome \<Rightarrow> ('s, 'a) act" where
  "liftA m s = (m, s)"

text \<open>\<open>try { m } catch (std::exception) { h }\<close>\<close>

definition catchA :: "('s, 'a) act \<Rightarrow> ('s, 'a) act \<Rightarrow> ('s, 'a) act" where
  "catchA m h s = (case m s of (Inl Thrown, s') \<Rightarrow> h s' | r \<Rightarrow> r)"

named_theorems act_simps "evaluation of operations on a state"

lemma retA_apply [act_simps]: "retA x s = (Inr x, s)"
  by (simp add: retA_def)

lemma failA_apply [act_simps]: "failA e s = (Inl e, s)"
  by (simp add: failA_def)

lemma liftA_apply [act_simps]: "liftA m s = (m, s)"
  by (simp add: liftA_def)

lemma callA_apply [act_simps]: "callA g s = (Inr (fst (g s)), snd (g s))"
  by (simp add: callA_def split: prod.splits)

lemma bindA_Inr [act_simps]: "m s = (Inr x, s') \<Longrightarrow> bindA m f s = f x s'"
  by (simp add: bindA_def)

lemma bindA_Inl [act_simps]: "m s = (Inl e, s') \<Longrightarrow> bindA m f s = (Inl e, s')"
  by (simp add: bindA_def)

lemma bindA_InrE:
  assumes "bindA m f s = (Inr y, s')"
  obtains x s1 where "m s = (Inr x, s1)" "f x s1 = (Inr y, s')"
  using assms by (auto simp: bindA_def split: prod.splits sum.splits)

lemma bindA_callA [act_simps]: "bindA (callA g) f s = f (fst (g s)) (snd (g s))"
  by (simp add: bindA_def callA_def split: prod.splits)

lemma bindA_retA [act_simps]: "bindA (retA x) f s = f x s"
  by (simp add: bindA_def retA_def)

lemma bindA_failA [act_simps]: "bindA (failA e) f s = (Inl e, s)"
  by (simp add: bindA_def failA_def)

lemma bindA_liftA_Inr [act_simps]: "bindA (liftA (Inr x)) f s = f x s"
  by (simp add: bindA_def liftA_def)

lemma bindA_liftA_Inl [act_simps]: "bindA (liftA (Inl e)) f s = (Inl e, s)"
  by (simp add: bindA_def liftA_def)

lemma catchA_apply [act_simps]:
  "m s = (Inl Thrown, s') \<Longrightarrow> catchA m h s = h s'"
  "m s = (Inr x, s') \<Longrightarrow> catchA m h s = (Inr x, s')"
  by (simp_all add: catchA_def)

section \<open>Collections of facts\<close>

named_theorems layout_simps "segments of concatenated encodings"
named_theorems sz_simps "sizes of packed structures"

section \<open>Segments of lists\<close>

definition seg :: "nat \<Rightarrow> nat \<Rightarrow> 'a list \<Rightarrow> 'a list" where
  "seg off n xs = take n (drop off xs)"

lemma length_seg [simp]: "length (seg off n xs) = min n (length xs - off)"
  by (simp add: seg_def)

lemma seg_append1 [layout_simps]: "off + n \<le> length xs \<Longrightarrow> seg off n (xs @ ys) = seg off n xs"
  by (simp add: seg_def)

lemma seg_append2 [layout_simps]:
  "length xs \<le> off \<Longrightarrow> seg off n (xs @ ys) = seg (off - length xs) n ys"
  by (simp add: seg_def)

lemma seg_all [layout_simps]: "length xs = n \<Longrightarrow> seg 0 n xs = xs"
  by (simp add: seg_def)

lemma seg_seg [layout_simps]: "a + n \<le> m \<Longrightarrow> seg a n (seg b m xs) = seg (b + a) n xs"
  by (simp add: seg_def take_drop add.commute min_def)

lemma seg_join: "seg a n xs @ seg (a + n) m xs = seg a (n + m) xs"
  by (simp add: seg_def take_add add.commute [of a])

lemma seg_join_numeral [layout_simps]:
  "a + n = b \<Longrightarrow> seg a n xs @ seg b m xs = seg a (n + m) xs"
  by (auto simp: seg_join)

lemma seg_join_rest [layout_simps]:
  "a + n = b \<Longrightarrow> seg a n xs @ seg b m xs @ ys = seg a (n + m) xs @ ys"
  by (auto simp: seg_join simp flip: append_assoc)

lemma seg_take: "off + n \<le> m \<Longrightarrow> seg off n (take m xs) = seg off n xs"
  by (simp add: seg_def take_drop min_def)

text \<open>Overwriting the front of a buffer, as \<open>memcpy(dst, src, n)\<close> does.\<close>

definition memcpy :: "'a list \<Rightarrow> 'a list \<Rightarrow> nat \<Rightarrow> 'a list" where
  "memcpy dst src n = take n src @ drop n dst"

lemma memcpy_exact: "length src = n \<Longrightarrow> length dst = n \<Longrightarrow> memcpy dst src n = src"
  by (simp add: memcpy_def)

lemma length_memcpy: "n \<le> length src \<Longrightarrow> n \<le> length dst \<Longrightarrow> length (memcpy dst src n) = length dst"
  by (simp add: memcpy_def)

section \<open>Little-endian integers\<close>

primrec le_bytes :: "nat \<Rightarrow> nat \<Rightarrow> bytes" where
  "le_bytes 0 x = []"
| "le_bytes (Suc n) x = of_nat x # le_bytes n (x div 256)"

primrec of_le :: "bytes \<Rightarrow> nat" where
  "of_le [] = 0"
| "of_le (b # bs) = unat b + 256 * of_le bs"

lemma length_le_bytes [simp]: "length (le_bytes n x) = n"
  by (induction n arbitrary: x) auto

lemma unat_byte_less: "unat (b :: u8) < 256"
  using unsigned_less [of b, where ?'a = nat] by simp

lemma of_le_less: "of_le bs < 256 ^ length bs"
proof (induction bs)
  case Nil
  then show ?case by simp
next
  case (Cons b bs)
  have "unat b + 256 * of_le bs < 256 * (of_le bs + 1)"
    using unat_byte_less [of b] by simp
  also have "\<dots> \<le> 256 * 256 ^ length bs"
    using Cons.IH by (intro mult_le_mono2) simp
  finally show ?case by simp
qed

lemma of_le_le_bytes: "of_le (le_bytes n x) = x mod 256 ^ n"
proof (induction n arbitrary: x)
  case 0
  then show ?case by simp
next
  case (Suc n)
  have "unat (of_nat x :: u8) = x mod 256"
    by (simp add: unat_of_nat)
  then show ?case
    by (simp add: Suc.IH mod_mult2_eq)
qed

lemma le_bytes_of_le: "length bs = n \<Longrightarrow> le_bytes n (of_le bs) = bs"
proof (induction bs arbitrary: n)
  case Nil
  then show ?case by simp
next
  case (Cons b bs)
  have "(unat b + 256 * of_le bs) div 256 = of_le bs"
    using unat_byte_less [of b] by simp
  moreover have "(of_nat (unat b + 256 * of_le bs) :: u8) = b"
    by (rule word_unat_eq_iff [THEN iffD2]) (simp add: unat_of_nat unat_byte_less del: of_nat_add)
  ultimately show ?case
    using Cons by auto
qed

text \<open>
  The object representation of an unsigned integer of \<open>n\<close> bytes, and its inverse.
\<close>

definition enc_word :: "'a::len word \<Rightarrow> bytes" where
  "enc_word w = le_bytes (LENGTH('a) div 8) (unat w)"

definition dec_word :: "bytes \<Rightarrow> 'a::len word" where
  "dec_word bs = of_nat (of_le bs)"

lemma length_enc_word [simp]: "length (enc_word (w :: 'a::len word)) = LENGTH('a) div 8"
  by (simp add: enc_word_def)

lemma dec_enc_word [simp]:
  assumes "8 dvd LENGTH('a::len)"
  shows "dec_word (enc_word (w :: 'a word)) = w"
proof -
  have "(256 :: nat) ^ (LENGTH('a) div 8) = 2 ^ (8 * (LENGTH('a) div 8))"
    by (simp add: power_mult)
  also have "\<dots> = 2 ^ LENGTH('a)"
    using assms by simp
  finally have "unat w mod 256 ^ (LENGTH('a) div 8) = unat w"
    using unsigned_less [of w, where ?'a = nat] by simp
  then show ?thesis
    by (simp add: dec_word_def enc_word_def of_le_le_bytes)
qed

lemma enc_dec_word:
  assumes "8 dvd LENGTH('a::len)" "length bs = LENGTH('a) div 8"
  shows "enc_word (dec_word bs :: 'a word) = bs"
proof -
  have "(256 :: nat) ^ (LENGTH('a) div 8) = 2 ^ (8 * (LENGTH('a) div 8))"
    by (simp add: power_mult)
  then have "of_le bs < 2 ^ LENGTH('a)"
    using of_le_less [of bs] assms by simp
  then show ?thesis
    using assms by (simp add: enc_word_def dec_word_def unat_of_nat le_bytes_of_le)
qed

lemma enc_dec_u8 [simp]: "length bs = 1 \<Longrightarrow> enc_word (dec_word bs :: u8) = bs"
  by (simp add: enc_dec_word)

lemma enc_dec_u16 [simp]: "length bs = 2 \<Longrightarrow> enc_word (dec_word bs :: u16) = bs"
  by (simp add: enc_dec_word)

lemma enc_dec_u32 [simp]: "length bs = 4 \<Longrightarrow> enc_word (dec_word bs :: u32) = bs"
  by (simp add: enc_dec_word)

lemma enc_dec_u64 [simp]: "length bs = 8 \<Longrightarrow> enc_word (dec_word bs :: u64) = bs"
  by (simp add: enc_dec_word)

section \<open>Words\<close>

lemma unat_add_1: "(i :: 'a::len word) < n \<Longrightarrow> unat (i + 1) = Suc (unat i)"
proof -
  assume "i < n"
  then have "unat i + 1 \<le> unat n"
    by (simp add: word_less_nat_alt)
  then have "unat i + 1 < 2 ^ LENGTH('a)"
    using unsigned_less [of n, where ?'a = nat] by linarith
  then show ?thesis
    by (metis Suc_eq_plus1 of_nat_Suc of_nat_unat ucast_id unat_of_nat mod_less add.commute)
qed

lemma unat_ucast_up:
  assumes "LENGTH('a) \<le> LENGTH('b)"
  shows "unat (ucast (w :: 'a::len word) :: 'b::len word) = unat w"
proof -
  have "unat w < 2 ^ LENGTH('b)"
    using unsigned_less [of w, where ?'a = nat] power_increasing [OF assms, of "2 :: nat"]
    by linarith
  then show ?thesis
    by (simp add: unsigned_ucast_eq take_bit_nat_eq_self)
qed

end
