(* ===== verification/Results.thy ===== *)
theory Results
  imports Prelude
begin

text \<open>
  core/result.hh: the five result codes and the \<open>Result<Desc>\<close> pair of a code and a
  description, with the constructors every operation of the library returns through.
\<close>

datatype io_code = IO_Ok | IO_Err | IO_Timeout | IO_NearOk | IO_NotReady

fun io_name :: "io_code \<Rightarrow> bytes" where
  "io_name IO_Ok = bstr ''Ok''"
| "io_name IO_Err = bstr ''Err''"
| "io_name IO_Timeout = bstr ''Timeout''"
| "io_name IO_NearOk = bstr ''NearOk''"
| "io_name IO_NotReady = bstr ''NotReady''"

record 'd result =
  code :: io_code
  desc :: 'd

definition Ok :: "'d \<Rightarrow> 'd result" where
  "Ok d = \<lparr>code = IO_Ok, desc = d\<rparr>"

definition NearOk :: "'d \<Rightarrow> 'd result" where
  "NearOk d = \<lparr>code = IO_NearOk, desc = d\<rparr>"

definition Err :: "'d \<Rightarrow> 'd result" where
  "Err d = \<lparr>code = IO_Err, desc = d\<rparr>"

definition Timeout :: "'d \<Rightarrow> 'd result" where
  "Timeout d = \<lparr>code = IO_Timeout, desc = d\<rparr>"

definition NotReady :: "'d \<Rightarrow> 'd result" where
  "NotReady d = \<lparr>code = IO_NotReady, desc = d\<rparr>"

definition transfer :: "'a result \<Rightarrow> 'b \<Rightarrow> 'b result" where
  "transfer a d = \<lparr>code = code a, desc = d\<rparr>"

definition transfer_raw :: "'a result \<Rightarrow> unit result" where
  "transfer_raw a = \<lparr>code = code a, desc = ()\<rparr>"

lemmas result_defs = Ok_def NearOk_def Err_def Timeout_def NotReady_def
  transfer_def transfer_raw_def

lemma result_code [simp]:
  "code (Ok d) = IO_Ok" "code (NearOk d) = IO_NearOk" "code (Err d) = IO_Err"
  "code (Timeout d) = IO_Timeout" "code (NotReady d) = IO_NotReady"
  "code (transfer a e) = code a" "code (transfer_raw a) = code a"
  by (simp_all add: result_defs)

lemma result_desc [simp]:
  "desc (Ok d) = d" "desc (NearOk d) = d" "desc (Err d) = d"
  "desc (Timeout d) = d" "desc (NotReady d) = d" "desc (transfer a e) = e"
  by (simp_all add: result_defs)

lemma Ok_inject [simp]: "Ok d = Ok e \<longleftrightarrow> d = e"
  by (simp add: Ok_def)

lemma result_distinct [simp]:
  "Ok d \<noteq> Err e" "Ok d \<noteq> Timeout e" "Ok d \<noteq> NotReady e" "Err d \<noteq> Ok e"
  "Timeout d \<noteq> Ok e" "NotReady d \<noteq> Ok e" "Err d \<noteq> Timeout e" "Timeout d \<noteq> Err e"
  "Err d \<noteq> NotReady e" "NotReady d \<noteq> Err e"
  by (simp_all add: result_defs)

lemma io_name_inject: "io_name a = io_name b \<longleftrightarrow> a = b"
  by (cases a; cases b) (simp_all add: bstr_def)

end
