(* ===== verification/Marshal.thy ===== *)
theory Marshal
  imports Results
begin

text \<open>
  core/utils/marshal.hh: copying packed structs to and from byte buffers. A C++ type
  \<open>T\<close> that is dumped is given by its size and its object representation (\<open>enc\<close>) and
  by the value a representation denotes (\<open>dec\<close>); \<open>wf\<close> says which HOL values are
  values of \<open>T\<close> (arrays of the declared length). The locale \<open>packed\<close> is the contract of
  a packed, trivially copyable struct; Structs and Proto interpret it for every struct
  the library puts on the wire.
\<close>

section \<open>Operations\<close>

text \<open>\<open>ByteBuffer(size, '0')\<close> fills the buffer with the character 0, the byte 48.\<close>

definition alloc :: "usize \<Rightarrow> bytes" where
  "alloc sz = replicate (unat sz) 48"

definition forward :: "bytes \<Rightarrow> usize \<Rightarrow> bytes option" where
  "forward buf off =
     (if unat off < length buf then Some (seg (unat off) (length buf - unat off) buf)
      else None)"

definition safe_set_byte :: "bytes \<Rightarrow> usize \<Rightarrow> u8 \<Rightarrow> bool \<times> bytes" where
  "safe_set_byte buf off data =
     (if unat off < length buf then (True, buf[unat off := data]) else (False, buf))"

definition dump :: "nat \<Rightarrow> ('a \<Rightarrow> bytes) \<Rightarrow> 'a \<Rightarrow> bytes" where
  "dump sz enc t = (let buf = alloc (of_nat sz) in memcpy buf (enc t) sz)"

definition dump_null :: "nat \<Rightarrow> ('a \<Rightarrow> bytes) \<Rightarrow> 'a \<Rightarrow> bytes" where
  "dump_null sz enc t0 = dump sz enc t0"

definition dedump :: "nat \<Rightarrow> (bytes \<Rightarrow> 'a) \<Rightarrow> bytes \<Rightarrow> 'a option" where
  "dedump sz dec b = (if length b \<ge> sz then Some (dec (seg 0 sz b)) else None)"

section \<open>Facts about buffers\<close>

lemma length_alloc [simp]: "length (alloc n) = unat n"
  by (simp add: alloc_def)

lemma forward_drop: "forward buf off = (if unat off < length buf then Some (drop (unat off) buf) else None)"
  by (simp add: forward_def seg_def)

lemma safe_set_byte_frame:
  "safe_set_byte buf off d = (ok, buf') \<Longrightarrow>
     length buf' = length buf \<and> (\<forall>i. i \<noteq> unat off \<longrightarrow> buf' ! i = buf ! i)"
  by (auto simp: safe_set_byte_def split: if_splits)

section \<open>The contract of a packed struct\<close>

locale packed =
  fixes sz :: nat
    and enc :: "'a \<Rightarrow> bytes"
    and dec :: "bytes \<Rightarrow> 'a"
    and wf :: "'a \<Rightarrow> bool"
  assumes sz_usize: "sz < 2 ^ 32"
    and length_enc: "wf x \<Longrightarrow> length (enc x) = sz"
    and dec_enc: "wf x \<Longrightarrow> dec (enc x) = x"
    and wf_dec: "length bs = sz \<Longrightarrow> wf (dec bs)"
    and enc_dec: "length bs = sz \<Longrightarrow> enc (dec bs) = bs"
begin

lemma dump_enc: "wf x \<Longrightarrow> dump sz enc x = enc x"
  using sz_usize by (simp add: dump_def memcpy_exact length_enc unat_of_nat)

lemma length_dump: "wf x \<Longrightarrow> length (dump sz enc x) = sz"
  by (simp add: dump_enc length_enc)

text \<open>Round trip, also when bytes follow the struct in the buffer.\<close>

lemma dedump_dump_append: "wf x \<Longrightarrow> dedump sz dec (dump sz enc x @ rest) = Some x"
  by (simp add: dedump_def length_dump layout_simps) (simp add: dump_enc dec_enc)

lemma dedump_dump: "wf x \<Longrightarrow> dedump sz dec (dump sz enc x) = Some x"
  using dedump_dump_append [of x "[]"] by simp

text \<open>Decoding fails exactly on short buffers, and any long enough buffer is a value.\<close>

lemma dedump_None_iff: "dedump sz dec b = None \<longleftrightarrow> length b < sz"
  by (auto simp: dedump_def)

lemma dump_dedump: "dedump sz dec b = Some x \<Longrightarrow> wf x \<and> dump sz enc x = take sz b"
  by (auto simp: dedump_def dump_enc wf_dec enc_dec split: if_splits) (simp add: seg_def)

lemma dump_inject: "wf x \<Longrightarrow> wf y \<Longrightarrow> dump sz enc x = dump sz enc y \<longleftrightarrow> x = y"
  by (metis dump_enc dec_enc)

end

text \<open>The integers themselves.\<close>

interpretation u8_packed: packed 1 "enc_word :: u8 \<Rightarrow> bytes" dec_word "\<lambda>_. True"
  by unfold_locales simp_all

interpretation u16_packed: packed 2 "enc_word :: u16 \<Rightarrow> bytes" dec_word "\<lambda>_. True"
  by unfold_locales simp_all

interpretation u32_packed: packed 4 "enc_word :: u32 \<Rightarrow> bytes" dec_word "\<lambda>_. True"
  by unfold_locales simp_all

interpretation u64_packed: packed 8 "enc_word :: u64 \<Rightarrow> bytes" dec_word "\<lambda>_. True"
  by unfold_locales simp_all

end
