(* ===== verification/MultiMsg.thy ===== *)
theory MultiMsg
  imports Marshal
begin

text \<open>
  core/bootstrap/multi_msg.hh: several byte buffers packed into one. The buffer starts
  with a 33-byte header (a count and eight offset/size pairs of 16 bits); the messages
  follow back to back. \<open>header\<close> is a pointer into the buffer's own storage, so the model
  reads and writes the header as the first 33 bytes of \<open>mm_buf\<close>, and records in
  \<open>mm_live\<close> whether that pointer still points there: appending beyond the reserved
  capacity moves the string's storage.
\<close>

section \<open>Constants and data\<close>

definition kMaxMultiMsg :: nat where
  "kMaxMultiMsg = 8"

record msg_entry =
  e_offset :: u16
  e_sz :: u16

record msgs_header =
  h_num :: u8
  h_entries :: "msg_entry list"

text \<open>\<open>sizeof(MsgEntry)\<close> and \<open>sizeof(MsgsHeader)\<close>: the structs are packed.\<close>

definition entry_size :: nat where
  "entry_size = 4"

definition header_size :: nat where
  "header_size = 33"

definition null_entry :: msg_entry where
  "null_entry = \<lparr>e_offset = 0, e_sz = 0\<rparr>"

definition null_header :: msgs_header where
  "null_header = \<lparr>h_num = 0, h_entries = replicate kMaxMultiMsg null_entry\<rparr>"

definition max_entry_sz :: usize where
  "max_entry_sz = 65535"

text \<open>Object representations.\<close>

definition enc_entry :: "msg_entry \<Rightarrow> bytes" where
  "enc_entry e = enc_word (e_offset e) @ enc_word (e_sz e)"

definition dec_entry :: "bytes \<Rightarrow> msg_entry" where
  "dec_entry b = \<lparr>e_offset = dec_word (seg 0 2 b), e_sz = dec_word (seg 2 2 b)\<rparr>"

primrec dec_entries :: "nat \<Rightarrow> bytes \<Rightarrow> msg_entry list" where
  "dec_entries 0 b = []"
| "dec_entries (Suc n) b = dec_entry (seg 0 4 b) # dec_entries n (drop 4 b)"

definition enc_header :: "msgs_header \<Rightarrow> bytes" where
  "enc_header h = enc_word (h_num h) @ concat (map enc_entry (h_entries h))"

definition dec_header :: "bytes \<Rightarrow> msgs_header" where
  "dec_header b = \<lparr>h_num = dec_word (seg 0 1 b), h_entries = dec_entries 8 (seg 1 32 b)\<rparr>"

definition wf_header :: "msgs_header \<Rightarrow> bool" where
  "wf_header h \<longleftrightarrow> length (h_entries h) = kMaxMultiMsg"

section \<open>The header's operations\<close>

definition has_free_entry :: "msgs_header \<Rightarrow> bool" where
  "has_free_entry h \<longleftrightarrow> unat (h_num h) < kMaxMultiMsg"

text \<open>The offset of the new entry is an \<open>int\<close> sum cut to 16 bits.\<close>

definition append_one :: "msgs_header \<Rightarrow> u16 \<Rightarrow> bool \<times> msgs_header" where
  "append_one h sz =
     (if \<not> has_free_entry h then (False, h)
      else
        let n = unat (h_num h);
            off = (if h_num h \<noteq> 0
                   then e_offset (h_entries h ! (n - 1)) + e_sz (h_entries h ! (n - 1))
                   else of_nat header_size)
        in (True, h\<lparr>h_num := h_num h + 1,
                    h_entries := (h_entries h)[n := \<lparr>e_offset = off, e_sz = sz\<rparr>]\<rparr>))"

text \<open>The loop of \<open>sanity_check\<close>: entries \<open>es\<close> still to check, running 16-bit offset.\<close>

fun sanity_loop :: "msg_entry list \<Rightarrow> u16 \<Rightarrow> u16 option" where
  "sanity_loop [] cur_off = Some cur_off"
| "sanity_loop (e # es) cur_off =
     (if e_offset e \<noteq> cur_off then None else sanity_loop es (cur_off + e_sz e))"

definition sanity_check :: "msgs_header \<Rightarrow> usize \<Rightarrow> bool" where
  "sanity_check h sz =
     (if unat (h_num h) > kMaxMultiMsg then False
      else
        (case sanity_loop (take (unat (h_num h)) (h_entries h)) (of_nat header_size) of
           None \<Rightarrow> False
         | Some cur_off \<Rightarrow> unat cur_off \<le> unat sz))"

section \<open>MultiMsg objects\<close>

text \<open>
  \<open>mm_cap\<close>: the capacity of the buffer; \<open>mm_alloc\<close>: the flag the destructor consults.
  A string that must grow beyond its capacity is reallocated with the requested size or
  twice the old capacity, whichever is larger, as libstdc++ does.
\<close>

record mmsg =
  mm_buf :: bytes
  mm_cap :: nat
  mm_live :: bool
  mm_alloc :: bool

definition str_grow :: "nat \<Rightarrow> nat \<Rightarrow> nat" where
  "str_grow cap n = (if n \<le> cap then cap else max n (2 * cap))"

definition mm_header :: "mmsg \<Rightarrow> msgs_header" where
  "mm_header m = dec_header (seg 0 header_size (mm_buf m))"

definition mmsg_init :: "nat \<Rightarrow> usize \<Rightarrow> mmsg \<Rightarrow> mmsg" where
  "mmsg_init MAXSZ reserve_sz m =
     (let true_reserve_sz = min (max (unat reserve_sz) header_size) MAXSZ
      in m\<lparr>mm_cap := str_grow (mm_cap m) true_reserve_sz, mm_live := True\<rparr>)"

definition mmsg_new :: "nat \<Rightarrow> usize \<Rightarrow> mmsg" where
  "mmsg_new MAXSZ reserve_sz =
     (let b = dump_null header_size enc_header null_header
      in mmsg_init MAXSZ reserve_sz
           \<lparr>mm_buf = b, mm_cap = length b, mm_live = True, mm_alloc = False\<rparr>)"

text \<open>The private constructor from an existing buffer.\<close>

definition mmsg_view :: "bytes \<Rightarrow> mmsg" where
  "mmsg_view total_msg =
     \<lparr>mm_buf = total_msg, mm_cap = length total_msg, mm_live = True, mm_alloc = False\<rparr>"

text \<open>
  Reading the header of an existing buffer goes through a raw pointer, so a buffer that
  is shorter than the header may be read out of bounds. A \<open>std::string\<close> stores one NUL
  byte after its contents, which may be read. \<open>rd\<close> reads \<open>n\<close> bytes at \<open>off\<close>.
\<close>

definition rd :: "bytes \<Rightarrow> nat \<Rightarrow> nat \<Rightarrow> bytes outcome" where
  "rd b off n = (if off + n \<le> length b + 1 then Inr (seg off n (b @ [0])) else Inl Undefined)"

fun raw_sanity_loop :: "bytes \<Rightarrow> nat \<Rightarrow> nat \<Rightarrow> u16 \<Rightarrow> u16 option outcome" where
  "raw_sanity_loop b 0 i cur_off = Inr (Some cur_off)"
| "raw_sanity_loop b (Suc n) i cur_off =
     bindE (rd b (1 + 4 * i) 2) (\<lambda>o_bytes.
       if dec_word o_bytes \<noteq> cur_off then Inr None
       else bindE (rd b (3 + 4 * i) 2) (\<lambda>s_bytes.
         raw_sanity_loop b n (Suc i) (cur_off + dec_word s_bytes)))"

definition raw_sanity_check :: "bytes \<Rightarrow> bool outcome" where
  "raw_sanity_check b =
     bindE (rd b 0 1) (\<lambda>n_byte.
       let num = unat (dec_word n_byte :: u8) in
       if num > kMaxMultiMsg then Inr False
       else bindE (raw_sanity_loop b num 0 (of_nat header_size)) (\<lambda>r.
         case r of None \<Rightarrow> Inr False
         | Some cur_off \<Rightarrow> Inr (unat cur_off \<le> unat (of_nat (length b) :: usize))))"

definition create_from :: "nat \<Rightarrow> bytes \<Rightarrow> mmsg option outcome" where
  "create_from MAXSZ b =
     (if length b > MAXSZ then Inr None
      else
        let res = mmsg_view b in
        bindE (raw_sanity_check (mm_buf res)) (\<lambda>sane.
          if \<not> sane then Inr None else Inr (Some res)))"

definition create_exact :: "nat \<Rightarrow> usize \<Rightarrow> mmsg option" where
  "create_exact MAXSZ sz =
     (if unat sz + header_size > MAXSZ then None
      else Some (mmsg_new MAXSZ (of_nat (unat sz + header_size))))"

text \<open>
  \<open>append\<close>: the header is updated through the pointer before the buffer grows, and growing
  beyond the capacity leaves that pointer dangling.
\<close>

definition mmsg_append :: "nat \<Rightarrow> mmsg \<Rightarrow> bytes \<Rightarrow> (bool \<times> mmsg) outcome" where
  "mmsg_append MAXSZ m msg =
     (if length (mm_buf m) + length msg > MAXSZ then Inr (False, m)
      else if \<not> mm_live m then Inl Undefined
      else
        (case append_one (mm_header m) (of_nat (length msg)) of
           (False, _) \<Rightarrow> Inr (False, m)
         | (True, h') \<Rightarrow>
             let buf' = memcpy (mm_buf m) (enc_header h') header_size @ msg
             in Inr (True, m\<lparr>mm_buf := buf',
                             mm_live := (length buf' \<le> mm_cap m),
                             mm_cap := str_grow (mm_cap m) (length buf')\<rparr>)))"

definition num_msg :: "mmsg \<Rightarrow> usize" where
  "num_msg m = ucast (h_num (mm_header m))"

text \<open>
  \<open>ByteBuffer(buf->data() + entry.offset, entry.sz)\<close>: copying out of the buffer's storage
  is defined only inside it.
\<close>

definition copy_out :: "bytes \<Rightarrow> nat \<Rightarrow> nat \<Rightarrow> bytes outcome" where
  "copy_out b off n = (if off + n \<le> length b + 1 then Inr (seg off n (b @ [0])) else Inl Undefined)"

definition query_one :: "mmsg \<Rightarrow> usize \<Rightarrow> bytes option outcome" where
  "query_one m idx =
     (if \<not> mm_live m then Inl Undefined
      else if idx \<ge> num_msg m then Inr None
      else if unat idx \<ge> kMaxMultiMsg then Inl Undefined
      else
        let entry = h_entries (mm_header m) ! unat idx
        in bindE (copy_out (mm_buf m) (unat (e_offset entry)) (unat (e_sz entry)))
             (\<lambda>b. Inr (Some b)))"

text \<open>The destructor frees the buffer only when \<open>alloc\<close> is set.\<close>

definition mmsg_destroy :: "mmsg \<Rightarrow> bool" where
  "mmsg_destroy m = mm_alloc m"

section \<open>Packed structs\<close>

lemma sizes [simp]: "entry_size = 4" "header_size = 33" "kMaxMultiMsg = 8"
  by (simp_all add: entry_size_def header_size_def kMaxMultiMsg_def)

interpretation entry_packed: packed entry_size enc_entry dec_entry "\<lambda>_. True"
  by unfold_locales
    (simp_all add: enc_entry_def dec_entry_def layout_simps)

lemma length_enc_entry [simp]: "length (enc_entry e) = 4"
  using entry_packed.length_enc by simp

lemma dec_enc_entry [simp]: "dec_entry (enc_entry e) = e"
  using entry_packed.dec_enc by simp

lemma length_dec_entries [simp]: "length (dec_entries n b) = n"
  by (induction n arbitrary: b) auto

lemma length_enc_entries [simp]: "length (concat (map enc_entry es)) = 4 * length es"
  by (induction es) auto

lemma dec_enc_entries: "dec_entries (length es) (concat (map enc_entry es) @ rest) = es"
proof (induction es)
  case Nil
  then show ?case by simp
next
  case (Cons e es)
  then show ?case by (simp add: layout_simps)
qed

lemma enc_dec_entries: "length b = 4 * n \<Longrightarrow> concat (map enc_entry (dec_entries n b)) = b"
proof (induction n arbitrary: b)
  case 0
  then show ?case by simp
next
  case (Suc n)
  then have "enc_entry (dec_entry (seg 0 4 b)) = seg 0 4 b"
    using entry_packed.enc_dec [of "seg 0 4 b"] by simp
  with Suc show ?case by (simp add: seg_def)
qed

interpretation header_packed: packed header_size enc_header dec_header wf_header
proof unfold_locales
  fix h :: msgs_header and b :: bytes
  show "header_size < 2 ^ 32" by simp
  show "wf_header h \<Longrightarrow> length (enc_header h) = header_size"
    by (simp add: enc_header_def wf_header_def)
  show "length b = header_size \<Longrightarrow> wf_header (dec_header b)"
    by (simp add: dec_header_def wf_header_def)
  show "wf_header h \<Longrightarrow> dec_header (enc_header h) = h"
    using dec_enc_entries [of "h_entries h" "[]"]
    by (simp add: enc_header_def dec_header_def wf_header_def layout_simps)
  show "length b = header_size \<Longrightarrow> enc_header (dec_header b) = b"
    by (simp add: enc_header_def dec_header_def enc_dec_entries layout_simps)
qed

lemma wf_null_header: "wf_header null_header"
  by (simp add: wf_header_def null_header_def)

text \<open>Nothing ever sets \<open>alloc\<close>, so the destructor never frees a buffer.\<close>

section \<open>What a buffer contains\<close>

text \<open>
  \<open>layout off msgs\<close>: the entries of messages stored back to back from \<open>off\<close>.
  \<open>encodes b msgs rest\<close>: the buffer \<open>b\<close> is a header describing \<open>msgs\<close>, the messages,
  and then arbitrary bytes \<open>rest\<close> (a datagram is decoded from a fixed 4096-byte buffer).
\<close>

primrec layout :: "nat \<Rightarrow> bytes list \<Rightarrow> msg_entry list" where
  "layout off [] = []"
| "layout off (m # ms) =
     \<lparr>e_offset = of_nat off, e_sz = of_nat (length m)\<rparr> # layout (off + length m) ms"

definition hdr :: "bytes \<Rightarrow> msgs_header" where
  "hdr b = dec_header (seg 0 header_size b)"

definition encodes :: "bytes \<Rightarrow> bytes list \<Rightarrow> bytes \<Rightarrow> bool" where
  "encodes b msgs rest \<longleftrightarrow>
     header_size \<le> length b \<and> drop header_size b = concat msgs @ rest \<and>
     length msgs \<le> kMaxMultiMsg \<and> header_size + length (concat msgs) < 2 ^ 16 \<and>
     unat (h_num (hdr b)) = length msgs \<and>
     take (length msgs) (h_entries (hdr b)) = layout header_size msgs"

lemma mm_header_hdr: "mm_header m = hdr (mm_buf m)"
  by (simp add: mm_header_def hdr_def)

lemma wf_hdr: "header_size \<le> length b \<Longrightarrow> wf_header (hdr b)"
  unfolding hdr_def by (rule header_packed.wf_dec) simp

lemma hdr_append: "header_size \<le> length b \<Longrightarrow> hdr (b @ r) = hdr b"
  by (simp add: hdr_def layout_simps)

lemma hdr_memcpy:
  "wf_header h \<Longrightarrow> hdr (memcpy b (enc_header h) header_size @ r) = h"
  using header_packed.length_enc [of h] header_packed.dec_enc [of h]
  by (simp add: hdr_def memcpy_def seg_def)

lemma length_layout [simp]: "length (layout off ms) = length ms"
  by (induction ms arbitrary: off) auto

lemma layout_append: "layout off (xs @ ys) = layout off xs @ layout (off + length (concat xs)) ys"
  by (induction xs arbitrary: off) (auto simp: add.assoc)

lemma layout_nth:
  "i < length ms \<Longrightarrow>
     layout off ms ! i = \<lparr>e_offset = of_nat (off + length (concat (take i ms))),
                          e_sz = of_nat (length (ms ! i))\<rparr>"
proof (induction ms arbitrary: off i)
  case Nil
  then show ?case by simp
next
  case (Cons m ms)
  then show ?case by (cases i) (auto simp: add.assoc)
qed

lemma length_concat_take: "i < length ms \<Longrightarrow>
   length (concat (take i ms)) + length (ms ! i) \<le> length (concat ms)"
proof (induction ms arbitrary: i)
  case Nil
  then show ?case by simp
next
  case (Cons m ms)
  then show ?case by (cases i) auto
qed

lemma seg_concat_nth: "i < length ms \<Longrightarrow>
   seg (length (concat (take i ms))) (length (ms ! i)) (concat ms @ r) = ms ! i"
proof (induction ms arbitrary: i)
  case Nil
  then show ?case by simp
next
  case (Cons m ms)
  then show ?case
    by (cases i) (auto simp: seg_def)
qed

lemma encodes_length: "encodes b msgs rest \<Longrightarrow> length b = 33 + length (concat msgs) + length rest"
  by (auto simp: encodes_def dest!: arg_cong [where f = length])

lemma encodes_extend: "encodes b msgs rest \<Longrightarrow> encodes (b @ r) msgs (rest @ r)"
  by (auto simp: encodes_def hdr_append)

lemma encodes_null: "encodes (dump_null header_size enc_header null_header) [] []"
proof -
  let ?b = "dump_null header_size enc_header null_header"
  have len: "length ?b = 33"
    using header_packed.length_dump [OF wf_null_header] by (simp add: dump_null_def)
  have "hdr ?b = null_header"
    using len header_packed.dec_enc [OF wf_null_header] header_packed.dump_enc [OF wf_null_header]
    by (simp add: hdr_def dump_null_def layout_simps)
  with len show ?thesis
    by (simp add: encodes_def null_header_def)
qed

section \<open>append_one and append\<close>

lemma encodes_entry:
  assumes "encodes b msgs rest" "i < length msgs"
  shows "unat (e_offset (h_entries (hdr b) ! i)) = 33 + length (concat (take i msgs))"
    and "unat (e_sz (h_entries (hdr b) ! i)) = length (msgs ! i)"
proof -
  have "h_entries (hdr b) ! i = take (length msgs) (h_entries (hdr b)) ! i"
    using assms(2) by simp
  also have "\<dots> = layout 33 msgs ! i"
    using assms(1) by (simp add: encodes_def)
  finally have e: "h_entries (hdr b) ! i = \<lparr>e_offset = of_nat (33 + length (concat (take i msgs))),
                                           e_sz = of_nat (length (msgs ! i))\<rparr>"
    using assms(2) by (simp add: layout_nth)
  have "33 + length (concat (take i msgs)) < 2 ^ 16" "length (msgs ! i) < 2 ^ 16"
    using assms length_concat_take [OF assms(2)] by (auto simp: encodes_def)
  then show "unat (e_offset (h_entries (hdr b) ! i)) = 33 + length (concat (take i msgs))"
    and "unat (e_sz (h_entries (hdr b) ! i)) = length (msgs ! i)"
    by (simp_all add: e unat_of_nat del: of_nat_add of_nat_numeral)
qed

lemma append_one_full: "encodes b msgs rest \<Longrightarrow> length msgs = 8 \<Longrightarrow> append_one (hdr b) sz = (False, hdr b)"
  by (simp add: append_one_def has_free_entry_def encodes_def)

lemma append_one_encodes:
  assumes enc: "encodes b msgs []" and room: "length msgs < 8"
  shows "append_one (hdr b) (of_nat (length m)) =
           (True, (hdr b)\<lparr>h_num := of_nat (Suc (length msgs)),
                          h_entries := (h_entries (hdr b))[length msgs :=
                            \<lparr>e_offset = of_nat (33 + length (concat msgs)),
                             e_sz = of_nat (length m)\<rparr>]\<rparr>)"
proof -
  have num: "unat (h_num (hdr b)) = length msgs"
    using enc by (simp add: encodes_def)
  then have num': "h_num (hdr b) = of_nat (length msgs)"
    using of_nat_unat [of "h_num (hdr b)", where ?'a = u8] by simp
  show ?thesis
  proof (cases msgs rule: rev_cases)
    case Nil
    with num' show ?thesis
      by (simp add: append_one_def has_free_entry_def)
  next
    case (snoc ms x)
    then have i: "length ms < length msgs" by simp
    have "e_offset (h_entries (hdr b) ! length ms) + e_sz (h_entries (hdr b) ! length ms)
            = of_nat (unat (e_offset (h_entries (hdr b) ! length ms)) +
                      unat (e_sz (h_entries (hdr b) ! length ms)))"
      by (simp del: encodes_def)
    also have "\<dots> = of_nat (33 + length (concat msgs))"
      using snoc by (simp only: encodes_entry [OF enc i]) (simp add: add.assoc)
    finally have off: "e_offset (h_entries (hdr b) ! length ms) + e_sz (h_entries (hdr b) ! length ms)
            = of_nat (33 + length (concat msgs))" .
    have "h_num (hdr b) \<noteq> 0"
      using num snoc by auto
    with snoc off num num' room show ?thesis
      by (simp add: append_one_def has_free_entry_def Let_def)
  qed
qed

lemma encodes_append:
  assumes enc: "encodes b msgs []" and room: "length msgs < 8"
    and fits: "length b + length m < 2 ^ 16"
  shows "\<exists>h'. append_one (hdr b) (of_nat (length m)) = (True, h') \<and>
              encodes (memcpy b (enc_header h') header_size @ m) (msgs @ [m]) []"
proof -
  define h' where "h' = (hdr b)\<lparr>h_num := of_nat (Suc (length msgs)),
                          h_entries := (h_entries (hdr b))[length msgs :=
                            \<lparr>e_offset = of_nat (33 + length (concat msgs)),
                             e_sz = of_nat (length m)\<rparr>]\<rparr>"
  have wf: "wf_header (hdr b)"
    using enc by (intro wf_hdr) (simp add: encodes_def)
  then have wf': "wf_header h'"
    by (simp add: wf_header_def h'_def)
  have len: "length (enc_header h') = 33"
    using header_packed.length_enc [OF wf'] by simp
  have num': "unat (of_nat (Suc (length msgs)) :: u8) = Suc (length msgs)"
    using room by (simp add: unat_of_nat del: of_nat_Suc)
  have "length msgs < length (h_entries (hdr b))"
    using wf room by (simp add: wf_header_def)
  then have "take (Suc (length msgs)) (h_entries h') = layout 33 (msgs @ [m])"
    using enc by (simp add: h'_def take_Suc_conv_app_nth encodes_def layout_append)
  moreover have "drop 33 (memcpy b (enc_header h') 33 @ m) = concat (msgs @ [m])"
    using enc len by (simp add: memcpy_def encodes_def)
  moreover have "33 + length (concat (msgs @ [m])) < 2 ^ 16"
    using encodes_length [OF enc] fits by simp
  ultimately have "encodes (memcpy b (enc_header h') header_size @ m) (msgs @ [m]) []"
    using room num' len enc hdr_memcpy [OF wf', of b m]
    by (simp add: encodes_def) (simp add: h'_def memcpy_def)
  with append_one_encodes [OF enc room, of m] show ?thesis
    by (simp add: h'_def)
qed

section \<open>Reading messages back\<close>

lemma sanity_loop_layout:
  "sanity_loop (layout off ms) (of_nat off) = Some (of_nat (off + length (concat ms)))"
  by (induction ms arbitrary: off) (simp_all add: add.assoc flip: of_nat_add)

lemma sanity_check_encodes:
  assumes "encodes b msgs rest" "length b < 2 ^ 32"
  shows "sanity_check (hdr b) (of_nat (length b))"
proof -
  define n where "n = 33 + length (concat msgs)"
  have n: "n \<le> length b"
    using encodes_length [OF assms(1)] by (simp add: n_def)
  have n16: "n < 2 ^ 16"
    using assms(1) unfolding encodes_def n_def by simp
  have num: "unat (h_num (hdr b)) = length msgs" "length msgs \<le> 8"
    and es: "take (length msgs) (h_entries (hdr b)) = layout 33 msgs"
    using assms(1) by (simp_all add: encodes_def)
  have "sanity_loop (layout 33 msgs) (of_nat header_size) = Some (of_nat n)"
    using sanity_loop_layout [of 33 msgs] by (simp only: n_def sizes)
  moreover have "unat (of_nat n :: u16) = n" "unat (of_nat (length b) :: usize) = length b"
    using n16 assms(2) by (simp_all add: unat_of_nat)
  ultimately show ?thesis
    using n num by (simp add: sanity_check_def es sizes(3) del: sizes(2))
qed

lemma rd_in: "off + n \<le> length b \<Longrightarrow> rd b off n = Inr (seg off n b)"
  by (simp add: rd_def layout_simps)

lemma hdr_entries_nth: "33 \<le> length b \<Longrightarrow> i < 8 \<Longrightarrow>
   h_entries (hdr b) ! i = dec_entry (seg (1 + 4 * i) 4 b)"
proof -
  have nth: "i < n \<Longrightarrow> dec_entries n c ! i = dec_entry (seg (4 * i) 4 c)" for n i c
  proof (induction n arbitrary: i c)
    case 0
    then show ?case by simp
  next
    case (Suc n)
    then show ?case by (cases i) (auto simp: seg_def add.commute)
  qed
  show "33 \<le> length b \<Longrightarrow> i < 8 \<Longrightarrow> ?thesis"
    by (simp add: hdr_def dec_header_def nth layout_simps)
qed

lemma raw_sanity_loop_entries:
  assumes "33 \<le> length b" "i + n \<le> 8"
  shows "raw_sanity_loop b n i off =
           Inr (sanity_loop (take n (drop i (h_entries (hdr b)))) off)"
  using assms(2)
proof (induction n arbitrary: i off)
  case 0
  then show ?case by simp
next
  case (Suc n)
  have "length (h_entries (hdr b)) = 8"
    using wf_hdr [of b] assms(1) by (simp add: wf_header_def)
  then have "drop i (h_entries (hdr b)) = h_entries (hdr b) ! i # drop (Suc i) (h_entries (hdr b))"
    using Suc.prems by (simp add: Cons_nth_drop_Suc)
  then show ?case
    using Suc assms(1)
    by (simp add: rd_in hdr_entries_nth dec_entry_def layout_simps add.commute numeral_3_eq_3)
qed

text \<open>
  On a buffer that holds a whole header, the check through the raw pointer is the check
  of the decoded header and never reads out of bounds.
\<close>

lemma raw_sanity_check_hdr:
  assumes "33 \<le> length b"
  shows "raw_sanity_check b = Inr (sanity_check (hdr b) (of_nat (length b)))"
proof -
  have "(dec_word (seg 0 1 b) :: u8) = h_num (hdr b)"
    by (simp add: hdr_def dec_header_def layout_simps)
  then show ?thesis
    using assms raw_sanity_loop_entries [of b 0]
    by (simp add: raw_sanity_check_def rd_in sanity_check_def split: option.split)
qed

lemma create_from_hdr:
  "33 \<le> length b \<Longrightarrow> create_from MAXSZ b =
     Inr (if length b \<le> MAXSZ \<and> sanity_check (hdr b) (of_nat (length b))
          then Some (mmsg_view b) else None)"
  by (simp add: create_from_def raw_sanity_check_hdr mmsg_view_def)

lemma create_from_encodes:
  "encodes b msgs rest \<Longrightarrow> length b \<le> MAXSZ \<Longrightarrow> MAXSZ < 2 ^ 32 \<Longrightarrow>
     create_from MAXSZ b = Inr (Some (mmsg_view b))"
  using sanity_check_encodes [of b msgs rest]
  by (simp add: create_from_hdr encodes_def)

lemma num_msg_encodes: "encodes (mm_buf m) msgs rest \<Longrightarrow> unat (num_msg m) = length msgs"
  by (simp add: num_msg_def mm_header_hdr encodes_def unsigned_ucast_eq take_bit_nat_eq_self unat_byte_less [THEN less_trans])

lemma query_one_encodes:
  assumes enc: "encodes (mm_buf m) msgs rest" and live: "mm_live m"
  shows "query_one m idx = Inr (if unat idx < length msgs then Some (msgs ! unat idx) else None)"
proof (cases "unat idx < length msgs")
  case True
  let ?b = "mm_buf m"
  have b: "?b = take 33 ?b @ concat msgs @ rest"
    using enc by (metis append_take_drop_id encodes_def sizes(2))
  have "seg (33 + length (concat (take (unat idx) msgs))) (length (msgs ! unat idx)) ?b = msgs ! unat idx"
    using True enc by (subst b) (simp add: layout_simps seg_concat_nth encodes_def)
  moreover have "33 + length (concat (take (unat idx) msgs)) + length (msgs ! unat idx) \<le> length ?b"
    using encodes_length [OF enc] length_concat_take [OF True] by simp
  ultimately have "copy_out ?b (33 + length (concat (take (unat idx) msgs))) (length (msgs ! unat idx))
                     = Inr (msgs ! unat idx)"
    by (simp add: copy_out_def layout_simps)
  moreover have "\<not> num_msg m \<le> idx" "unat idx < 8"
    using True num_msg_encodes [OF enc] enc by (auto simp: word_le_nat_alt encodes_def)
  ultimately show ?thesis
    using live True by (simp add: query_one_def mm_header_hdr encodes_entry [OF enc True])
next
  case False
  then show ?thesis
    using live num_msg_encodes [OF enc] by (simp add: query_one_def word_le_nat_alt)
qed

section \<open>Soundness of the check without overflow\<close>

definition total_sz :: "msg_entry list \<Rightarrow> nat" where
  "total_sz es = sum_list (map (unat \<circ> e_sz) es)"

lemma total_sz_simps [simp]:
  "total_sz [] = 0" "total_sz (e # es) = unat (e_sz e) + total_sz es"
  by (simp_all add: total_sz_def)

lemma sanity_loop_Cons:
  "sanity_loop (e # es) (of_nat off) = Some c \<Longrightarrow>
     e_offset e = of_nat off \<and> sanity_loop es (of_nat (off + unat (e_sz e))) = Some c"
  by (simp split: if_splits)

lemma sanity_loop_mono:
  "sanity_loop es (of_nat off) = Some c \<Longrightarrow> off + total_sz es < 2 ^ 16 \<Longrightarrow> off \<le> unat c"
proof (induction es arbitrary: off)
  case Nil
  then show ?case by (auto simp: unat_of_nat)
next
  case (Cons e es)
  from sanity_loop_Cons [OF Cons.prems(1)] Cons.IH [of "off + unat (e_sz e)"] Cons.prems(2)
  show ?case by (simp add: add.assoc)
qed

lemma sanity_loop_bounds:
  "sanity_loop es (of_nat off) = Some c \<Longrightarrow> off + total_sz es < 2 ^ 16 \<Longrightarrow> i < length es \<Longrightarrow>
     unat (e_offset (es ! i)) + unat (e_sz (es ! i)) \<le> unat c"
proof (induction es arbitrary: off i)
  case Nil
  then show ?case by simp
next
  case (Cons e es)
  note inv = sanity_loop_Cons [OF Cons.prems(1)]
  have rest: "(off + unat (e_sz e)) + total_sz es < 2 ^ 16"
    using Cons.prems(2) by simp
  show ?case
  proof (cases i)
    case 0
    have "unat (e_offset e) = off"
      using inv Cons.prems(2) by (simp add: unat_of_nat)
    then show ?thesis
      using sanity_loop_mono [OF _ rest] inv 0 by fastforce
  next
    case (Suc j)
    then show ?thesis
      using Cons.IH [OF _ rest, of j] inv Cons.prems(3) by simp
  qed
qed

section \<open>The component's properties\<close>

text \<open>The sequence of appends a sender makes, each under an \<open>RDMA_ASSERT\<close>.\<close>

fun append_all :: "nat \<Rightarrow> mmsg \<Rightarrow> bytes list \<Rightarrow> mmsg outcome" where
  "append_all MAXSZ m [] = Inr m"
| "append_all MAXSZ m (x # xs) =
     bindE (mmsg_append MAXSZ m x) (\<lambda>(ok, m').
       bindE (assertE ok) (\<lambda>_. append_all MAXSZ m' xs))"

lemma str_grow_ge: "cap \<le> str_grow cap n" "n \<le> str_grow cap n"
  by (auto simp: str_grow_def)

lemma mmsg_append_room:
  assumes "encodes (mm_buf m) msgs []" "mm_live m"
    and "length (mm_buf m) + length x \<le> MAXSZ" "length msgs < 8" "MAXSZ < 2 ^ 16"
  obtains m' where "mmsg_append MAXSZ m x = Inr (True, m')"
    and "encodes (mm_buf m') (msgs @ [x]) []"
    and "mm_live m' \<longleftrightarrow> length (mm_buf m') \<le> mm_cap m" "mm_cap m \<le> mm_cap m'"
proof -
  have "length (mm_buf m) + length x < 2 ^ 16"
    using assms by simp
  from encodes_append [OF assms(1,4) this] obtain h' where
    h': "append_one (hdr (mm_buf m)) (of_nat (length x)) = (True, h')"
      "encodes (memcpy (mm_buf m) (enc_header h') header_size @ x) (msgs @ [x]) []"
    by blast
  then show thesis
    using assms that [of "m\<lparr>mm_buf := memcpy (mm_buf m) (enc_header h') header_size @ x,
        mm_live := (length (memcpy (mm_buf m) (enc_header h') header_size @ x) \<le> mm_cap m),
        mm_cap := str_grow (mm_cap m) (length (memcpy (mm_buf m) (enc_header h') header_size @ x))\<rparr>"]
    by (simp add: mmsg_append_def mm_header_hdr Let_def str_grow_ge)
qed

lemma encodes_new: "encodes (mm_buf (mmsg_new MAXSZ r)) [] []"
  using encodes_null by (simp add: mmsg_new_def mmsg_init_def Let_def)

lemma mmsg_new_live [simp]: "mm_live (mmsg_new MAXSZ r)"
  by (simp add: mmsg_new_def mmsg_init_def Let_def)

lemma mmsg_new_cap: "min (max (unat r) 33) MAXSZ \<le> mm_cap (mmsg_new MAXSZ r)"
  by (simp add: mmsg_new_def mmsg_init_def Let_def str_grow_ge)

text \<open>A reservation beyond the bare header at least doubles the 33 bytes of the header.\<close>

lemma mmsg_new_cap_66:
  "33 < unat r \<Longrightarrow> unat r \<le> MAXSZ \<Longrightarrow> max (unat r) 66 \<le> mm_cap (mmsg_new MAXSZ r)"
  using encodes_length [OF encodes_new, of MAXSZ r]
  by (simp add: mmsg_new_def mmsg_init_def Let_def str_grow_def)

text \<open>Two messages in a buffer created with an exact reservation, as the RPC layer does.\<close>

lemma exact_two:
  assumes "0 < sz" "sz + header_size \<le> MAXSZ" "MAXSZ < 2 ^ 16"
    and "33 + length x + length y \<le> MAXSZ"
    and "length x \<le> 33"
  shows "\<exists>m0 m1 m2. create_exact MAXSZ (of_nat sz) = Some m0 \<and>
           mmsg_append MAXSZ m0 x = Inr (True, m1) \<and> mmsg_append MAXSZ m1 y = Inr (True, m2) \<and>
           encodes (mm_buf m1) [x] [] \<and> encodes (mm_buf m2) [x, y] []"
proof -
  let ?m0 = "mmsg_new MAXSZ (of_nat (sz + 33))"
  have u: "unat (of_nat sz :: usize) = sz" "unat (of_nat (sz + 33) :: usize) = sz + 33"
    using assms by (simp_all add: unat_of_nat del: of_nat_add)
  have c: "create_exact MAXSZ (of_nat sz) = Some ?m0"
    using assms(2) u by (simp add: create_exact_def del: of_nat_add)
  have l0: "length (mm_buf ?m0) = 33"
    using encodes_length [OF encodes_new] by simp
  obtain m1 where m1: "mmsg_append MAXSZ ?m0 x = Inr (True, m1)" "encodes (mm_buf m1) [x] []"
      "mm_live m1 \<longleftrightarrow> length (mm_buf m1) \<le> mm_cap ?m0"
    using mmsg_append_room [OF encodes_new mmsg_new_live, of MAXSZ "of_nat (sz + 33)" x MAXSZ] assms l0
    by auto
  have l1: "length (mm_buf m1) = 33 + length x"
    using encodes_length [OF m1(2)] by simp
  have "33 + length x \<le> mm_cap ?m0"
    using mmsg_new_cap_66 [of "of_nat (sz + 33)" MAXSZ] u assms(1,2,5) by (simp del: of_nat_add)
  then have "mm_live m1"
    using m1(3) l1 by simp
  from mmsg_append_room [OF m1(2) this, of y MAXSZ] obtain m2 where
    "mmsg_append MAXSZ m1 y = Inr (True, m2)" "encodes (mm_buf m2) [x, y] []"
    using assms l1 by auto
  with c m1 show ?thesis
    by blast
qed

lemma append_all_encodes:
  assumes "encodes (mm_buf m) done []" "mm_live m" "MAXSZ < 2 ^ 16"
    and "length done + length msgs \<le> 8"
    and "length (mm_buf m) + length (concat msgs) \<le> min MAXSZ (mm_cap m)"
  shows "\<exists>m'. append_all MAXSZ m msgs = Inr m' \<and> mm_live m' \<and> encodes (mm_buf m') (done @ msgs) []"
  using assms
proof (induction msgs arbitrary: m "done")
  case Nil
  then show ?case by simp
next
  case (Cons x xs)
  have room: "length (mm_buf m) + length x \<le> MAXSZ" "length done < 8"
    using Cons.prems by simp_all
  obtain m1 where m1: "mmsg_append MAXSZ m x = Inr (True, m1)" "encodes (mm_buf m1) (done @ [x]) []"
      "mm_live m1 \<longleftrightarrow> length (mm_buf m1) \<le> mm_cap m" "mm_cap m \<le> mm_cap m1"
    using mmsg_append_room [OF Cons.prems(1,2) room Cons.prems(3)] by blast
  have len: "length (mm_buf m1) = length (mm_buf m) + length x"
    using encodes_length [OF m1(2)] encodes_length [OF Cons.prems(1)] by simp
  have "\<exists>m'. append_all MAXSZ m1 xs = Inr m' \<and> mm_live m' \<and> encodes (mm_buf m') ((done @ [x]) @ xs) []"
    using Cons.prems m1 len by (intro Cons.IH) simp_all
  then show ?case
    by (simp add: m1(1))
qed

lemma hdr_one_entry:
  assumes "28 \<le> length r"
  shows "h_num (hdr (1 # x # y # z # w # r)) = 1"
    and "take 1 (h_entries (hdr (1 # x # y # z # w # r))) =
           [\<lparr>e_offset = dec_word [x, y], e_sz = dec_word [z, w]\<rparr>]"
proof -
  let ?b = "1 # x # y # z # w # r"
  show "h_num (hdr ?b) = 1"
    by (simp add: hdr_def dec_header_def seg_def dec_word_def)
  have "length (h_entries (hdr ?b)) = 8"
    using wf_hdr [of ?b] assms by (simp add: wf_header_def)
  moreover have "h_entries (hdr ?b) ! 0 = \<lparr>e_offset = dec_word [x, y], e_sz = dec_word [z, w]\<rparr>"
    using assms by (simp add: hdr_entries_nth) (simp add: dec_entry_def seg_def)
  ultimately show "take 1 (h_entries (hdr ?b)) = [\<lparr>e_offset = dec_word [x, y], e_sz = dec_word [z, w]\<rparr>]"
    by (cases "h_entries (hdr ?b)") simp_all
qed

text \<open>
  C10: appending a message to a MultiMsg that holds \<open>msgs\<close> stores exactly \<open>msgs @ [msg]\<close>
  when there is room for the bytes and a free header entry, and otherwise returns false
  and leaves the object unchanged. The header pointer stays valid exactly as long as the
  bytes fit in the reserved capacity.
\<close>
theorem mmsg_append_refines:
  assumes "encodes (mm_buf m) msgs []" and "mm_live m" and "MAXSZ < 2 ^ 16"
  shows "if header_size + length (concat msgs) + length msg \<le> MAXSZ \<and> length msgs < kMaxMultiMsg
         then \<exists>m'. mmsg_append MAXSZ m msg = Inr (True, m') \<and>
                   encodes (mm_buf m') (msgs @ [msg]) [] \<and>
                   (mm_live m' \<longleftrightarrow> length (mm_buf m') \<le> mm_cap m)
         else mmsg_append MAXSZ m msg = Inr (False, m)"
proof -
  have len: "length (mm_buf m) = 33 + length (concat msgs)"
    using encodes_length [OF assms(1)] by simp
  show ?thesis
  proof (cases "33 + length (concat msgs) + length msg \<le> MAXSZ \<and> length msgs < 8")
    case True
    then have room: "length (mm_buf m) + length msg \<le> MAXSZ" "length msgs < 8"
      using len by simp_all
    from True show ?thesis
      using mmsg_append_room [OF assms(1,2) room assms(3)] by (simp add: len) metis
  next
    case False
    have "length msgs \<le> 8"
      using assms(1) by (simp add: encodes_def)
    with False len assms append_one_full [OF assms(1)] show ?thesis
      by (auto simp: mmsg_append_def mm_header_hdr)
  qed
qed

theorem mmsg_append_refines_witness:
  "\<exists>m'. mmsg_append 64 (mmsg_new 64 40) [7, 8, 9] = Inr (True, m') \<and>
        encodes (mm_buf m') [[7, 8, 9]] [] \<and>
        (mm_live m' \<longleftrightarrow> length (mm_buf m') \<le> mm_cap (mmsg_new 64 40))"
  using mmsg_append_refines [OF encodes_new [of 64 40], of 64 "[7, 8, 9]"] by simp

text \<open>
  C9: encoding and decoding are inverse. Up to eight messages appended to a fresh
  MultiMsg whose reservation covers them are all accepted, and decoding the buffer, with
  any bytes behind it up to the maximum size, gives exactly these messages in order and
  nothing after them.
\<close>
theorem mmsg_roundtrip:
  assumes "length msgs \<le> kMaxMultiMsg"
    and "header_size + length (concat msgs) \<le> unat reserve" and "unat reserve \<le> MAXSZ"
    and "header_size + length (concat msgs) + length junk \<le> MAXSZ" and "MAXSZ < 2 ^ 16"
  shows "\<exists>m v. append_all MAXSZ (mmsg_new MAXSZ reserve) msgs = Inr m \<and>
           create_from MAXSZ (mm_buf m @ junk) = Inr (Some v) \<and>
           unat (num_msg v) = length msgs \<and>
           (\<forall>idx. query_one v idx =
              Inr (if unat idx < length msgs then Some (msgs ! unat idx) else None))"
proof -
  let ?m0 = "mmsg_new MAXSZ reserve"
  have "length (mm_buf ?m0) + length (concat msgs) \<le> min MAXSZ (mm_cap ?m0)"
    using assms encodes_length [OF encodes_new] mmsg_new_cap [of reserve MAXSZ] by simp
  then obtain m where m: "append_all MAXSZ ?m0 msgs = Inr m" "encodes (mm_buf m) msgs []"
    using append_all_encodes [OF encodes_new mmsg_new_live] assms by fastforce
  have ext: "encodes (mm_buf m @ junk) msgs junk"
    using encodes_extend [OF m(2)] by simp
  then have "create_from MAXSZ (mm_buf m @ junk) = Inr (Some (mmsg_view (mm_buf m @ junk)))"
    using assms encodes_length [OF ext] by (intro create_from_encodes) simp_all
  moreover have "encodes (mm_buf (mmsg_view (mm_buf m @ junk))) msgs junk"
    using ext by (simp add: mmsg_view_def)
  ultimately show ?thesis
    using m(1) num_msg_encodes query_one_encodes [of "mmsg_view (mm_buf m @ junk)" msgs junk]
    by (auto simp: mmsg_view_def intro!: exI)
qed

theorem mmsg_roundtrip_witness:
  "\<exists>m v. append_all 1024 (mmsg_new 1024 1024) [[1], [2, 3]] = Inr m \<and>
     create_from 1024 (mm_buf m @ [0, 0]) = Inr (Some v) \<and>
     unat (num_msg v) = length [[1], [2, 3 :: u8]] \<and>
     (\<forall>idx. query_one v idx =
        Inr (if unat idx < length [[1], [2, 3 :: u8]] then Some ([[1], [2, 3]] ! unat idx) else None))"
  by (rule mmsg_roundtrip) simp_all

text \<open>
  The sanity check made through the raw header pointer agrees with the check of the
  decoded header, and reads nothing out of bounds, on every buffer that holds a header.
\<close>
theorem raw_sanity_check_equiv:
  assumes "header_size \<le> length b"
  shows "raw_sanity_check b =
           Inr (sanity_check (dec_header (seg 0 header_size b)) (of_nat (length b)))"
  using raw_sanity_check_hdr [of b] assms by (simp add: hdr_def)

theorem raw_sanity_check_equiv_witness:
  "raw_sanity_check (replicate 40 0) =
     Inr (sanity_check (dec_header (seg 0 header_size (replicate 40 0))) 40)"
  using raw_sanity_check_equiv [of "replicate 40 0"] by simp

text \<open>
  C35: without 16-bit overflow the check is sound. When \<open>create_from\<close> accepts a buffer
  whose entry sizes and header together stay below 65536, no query of any index reads
  outside the buffer.
\<close>
theorem create_from_sound:
  assumes "header_size \<le> length b"
    and "create_from MAXSZ b = Inr (Some m)" and "MAXSZ < 2 ^ 32"
    and "header_size + total_sz (take (unat (h_num (mm_header m))) (h_entries (mm_header m))) < 2 ^ 16"
  shows "\<exists>r. query_one m idx = Inr r"
proof -
  have chk: "sanity_check (hdr b) (of_nat (length b))" and m: "m = mmsg_view b" and len: "length b \<le> MAXSZ"
    using assms(1,2) by (auto simp: create_from_hdr split: if_splits)
  define es where "es = take (unat (h_num (hdr b))) (h_entries (hdr b))"
  have n8: "unat (h_num (hdr b)) \<le> 8"
    using chk by (simp add: sanity_check_def split: if_splits)
  obtain c where c: "sanity_loop es (of_nat 33) = Some c" "unat c \<le> length b"
    using chk len assms(3) by (auto simp: sanity_check_def es_def unat_of_nat split: if_splits option.splits)
  have bound: "33 + total_sz es < 2 ^ 16"
    using assms(4) by (simp add: m mm_header_hdr mmsg_view_def es_def)
  have nlen: "length es = unat (h_num (hdr b))"
    using n8 wf_hdr [OF assms(1)] by (simp add: es_def wf_header_def)
  show ?thesis
  proof (cases "idx \<ge> num_msg m")
    case False
    then have i: "unat idx < length es"
      by (simp add: nlen m num_msg_def mm_header_hdr mmsg_view_def word_le_nat_alt unsigned_ucast_eq
          take_bit_nat_eq_self unat_byte_less [THEN less_trans])
    have "unat (e_offset (es ! unat idx)) + unat (e_sz (es ! unat idx)) \<le> length b"
      using sanity_loop_bounds [OF _ bound i] c by fastforce
    moreover have "es ! unat idx = h_entries (hdr b) ! unat idx"
      using i by (simp add: es_def)
    ultimately show ?thesis
      using False i n8 nlen
      by (simp add: query_one_def m mmsg_view_def mm_header_hdr copy_out_def Let_def)
  qed (simp add: query_one_def m mmsg_view_def)
qed

theorem create_from_sound_witness:
  "\<exists>r. query_one (mmsg_view (1 # 33 # 0 # 2 # 0 # replicate 30 7)) 0 = Inr r"
proof (rule create_from_sound [of "1 # 33 # 0 # 2 # 0 # replicate 30 7" 64])
  let ?b = "1 # 33 # 0 # 2 # 0 # replicate 30 7 :: bytes"
  have h: "h_num (hdr ?b) = 1" "take 1 (h_entries (hdr ?b)) = [\<lparr>e_offset = 33, e_sz = 2\<rparr>]"
    using hdr_one_entry [of "replicate 30 7" 33 0 2 0] by (simp_all add: dec_word_def)
  show "create_from 64 ?b = Inr (Some (mmsg_view ?b))"
    using h by (simp add: create_from_hdr sanity_check_def)
  show "header_size + total_sz (take (unat (h_num (mm_header (mmsg_view ?b))))
      (h_entries (mm_header (mmsg_view ?b)))) < 2 ^ 16"
    using h by (simp add: mm_header_hdr mmsg_view_def total_sz_def)
qed simp_all

text \<open>
  C37: with overflow the check is not sound. A 4096-byte buffer whose only entry claims
  65503 bytes from offset 33 wraps the 16-bit offset to 0, passes \<open>create_from\<close>, and its
  first message is then read outside the buffer.
\<close>
theorem create_from_wraps:
  "\<exists>b m. length b = 4096 \<and> create_from 4096 b = Inr (Some m) \<and>
         query_one m 0 = Inl Undefined"
proof -
  define b :: bytes where "b = 1 # 33 # 0 # 223 # 255 # replicate 4091 0"
  have len: "length b = 4096"
    by (simp add: b_def)
  have h: "h_num (hdr b) = 1" "take 1 (h_entries (hdr b)) = [\<lparr>e_offset = 33, e_sz = 65503\<rparr>]"
    using hdr_one_entry [of "replicate 4091 0" 33 0 223 255] by (simp_all add: b_def dec_word_def)
  from h(2) have e0: "h_entries (hdr b) ! 0 = \<lparr>e_offset = 33, e_sz = 65503\<rparr>"
    by (cases "h_entries (hdr b)") simp_all
  have "sanity_check (hdr b) (of_nat (length b))"
    using h by (simp add: sanity_check_def)
  then have "create_from 4096 b = Inr (Some (mmsg_view b))"
    by (simp add: create_from_hdr len)
  moreover have "query_one (mmsg_view b) 0 = Inl Undefined"
    using h(1) e0 len by (simp add: query_one_def mmsg_view_def mm_header_hdr num_msg_def copy_out_def)
  ultimately show ?thesis
    using len by (intro exI [of _ b]) auto
qed

end
