(* ===== verification/MsgIter.thy ===== *)
theory MsgIter
  imports MultiMsg
begin

text \<open>
  core/bootstrap/multi_msg_iter.hh: iterating over the messages of a batch. The class is a
  template over the container, so the operations take the container's accessors
  (\<open>num_msg\<close>, the entry at an index, the bytes of the buffer) as arguments; the locale
  \<open>msg_container\<close> states what a container promises and is interpreted on MultiMsg.
\<close>

section \<open>The iterator\<close>

record 'm msgs_iter =
  msgs_p :: 'm
  cur_idx :: usize

definition iter_new :: "'m \<Rightarrow> 'm msgs_iter" where
  "iter_new msgs = \<lparr>msgs_p = msgs, cur_idx = 0\<rparr>"

definition iter_valid :: "('m \<Rightarrow> usize) \<Rightarrow> 'm msgs_iter \<Rightarrow> bool" where
  "iter_valid num it \<longleftrightarrow> cur_idx it < num (msgs_p it)"

definition iter_next :: "'m msgs_iter \<Rightarrow> 'm msgs_iter" where
  "iter_next it = it\<lparr>cur_idx := cur_idx it + 1\<rparr>"

text \<open>\<open>cur\<close> gives a position in the buffer and a size; \<open>cur_msg\<close> copies the bytes out.\<close>

definition iter_cur ::
  "('m \<Rightarrow> usize) \<Rightarrow> ('m \<Rightarrow> usize \<Rightarrow> msg_entry outcome) \<Rightarrow> 'm msgs_iter \<Rightarrow> (nat \<times> usize) outcome" where
  "iter_cur num entry it =
     bindE (assertE (iter_valid num it)) (\<lambda>_.
     bindE (entry (msgs_p it) (cur_idx it)) (\<lambda>e.
       Inr (unat (e_offset e), ucast (e_sz e))))"

definition iter_cur_msg ::
  "('m \<Rightarrow> usize) \<Rightarrow> ('m \<Rightarrow> usize \<Rightarrow> msg_entry outcome) \<Rightarrow> ('m \<Rightarrow> bytes) \<Rightarrow> 'm msgs_iter \<Rightarrow>
   bytes outcome" where
  "iter_cur_msg num entry data it =
     bindE (iter_cur num entry it) (\<lambda>(p, n). copy_out (data (msgs_p it)) p (unat n))"

text \<open>The loop \<open>for (MsgsIter iter(msgs); iter.valid(); iter.next())\<close>, collecting \<open>cur_msg\<close>.\<close>

function iter_all ::
  "('m \<Rightarrow> usize) \<Rightarrow> ('m \<Rightarrow> usize \<Rightarrow> msg_entry outcome) \<Rightarrow> ('m \<Rightarrow> bytes) \<Rightarrow> 'm msgs_iter \<Rightarrow>
   bytes list outcome" where
  "iter_all num entry data it =
     (if iter_valid num it
      then bindE (iter_cur_msg num entry data it) (\<lambda>x.
           bindE (iter_all num entry data (iter_next it)) (\<lambda>xs. Inr (x # xs)))
      else Inr [])"
  by pat_completeness auto

lemma iter_next_decreases:
  "iter_valid num it \<Longrightarrow>
     unat (num (msgs_p (iter_next it))) - unat (cur_idx (iter_next it))
       < unat (num (msgs_p it)) - unat (cur_idx it)"
proof -
  assume "iter_valid num it"
  then have lt: "cur_idx it < num (msgs_p it)"
    by (simp add: iter_valid_def)
  then have "unat (cur_idx it + 1) = unat (cur_idx it) + 1"
    by (simp add: unat_add_1)
  with lt show ?thesis
    by (simp add: iter_next_def word_less_nat_alt)
qed

termination iter_all
  by (relation "measure (\<lambda>(num, entry, data, it). unat (num (msgs_p it)) - unat (cur_idx it))")
    (simp_all add: iter_next_decreases)

declare iter_all.simps [simp del]

section \<open>The contract of a container\<close>

locale msg_container =
  fixes num :: "'m \<Rightarrow> usize"
    and entry :: "'m \<Rightarrow> usize \<Rightarrow> msg_entry outcome"
    and data :: "'m \<Rightarrow> bytes"
    and contents :: "'m \<Rightarrow> bytes list"
    and inv :: "'m \<Rightarrow> bool"
  assumes num_contents: "inv m \<Longrightarrow> unat (num m) = length (contents m)"
    and entry_contents: "inv m \<Longrightarrow> unat i < length (contents m) \<Longrightarrow>
      \<exists>e. entry m i = Inr e \<and>
          copy_out (data m) (unat (e_offset e)) (unat (e_sz e)) = Inr (contents m ! unat i)"
begin

lemma cur_msg_contents:
  assumes "inv m" "unat i < length (contents m)"
  shows "iter_cur_msg num entry data \<lparr>msgs_p = m, cur_idx = i\<rparr> = Inr (contents m ! unat i)"
proof -
  obtain e where "entry m i = Inr e"
    "copy_out (data m) (unat (e_offset e)) (unat (e_sz e)) = Inr (contents m ! unat i)"
    using entry_contents [OF assms] by blast
  moreover have "iter_valid num \<lparr>msgs_p = m, cur_idx = i\<rparr>"
    using assms num_contents [OF assms(1)] by (simp add: iter_valid_def word_less_nat_alt)
  moreover have "unat (ucast (e_sz e) :: usize) = unat (e_sz e)"
    using unsigned_less [of "e_sz e", where ?'a = nat]
    by (simp add: unsigned_ucast_eq take_bit_nat_eq_self)
  ultimately show ?thesis
    by (simp add: iter_cur_msg_def iter_cur_def)
qed

lemma iter_all_from:
  assumes "inv m"
  shows "iter_all num entry data \<lparr>msgs_p = m, cur_idx = i\<rparr> = Inr (drop (unat i) (contents m))"
proof (induction "length (contents m) - unat i" arbitrary: i)
  case 0
  then have "\<not> iter_valid num \<lparr>msgs_p = m, cur_idx = i\<rparr>"
    using num_contents [OF assms] by (simp add: iter_valid_def word_less_nat_alt)
  with 0 show ?case
    by (simp add: iter_all.simps)
next
  case (Suc k)
  then have i: "unat i < length (contents m)"
    by simp
  then have valid: "iter_valid num \<lparr>msgs_p = m, cur_idx = i\<rparr>"
    using num_contents [OF assms] by (simp add: iter_valid_def word_less_nat_alt)
  have lt: "i < num m"
    using i num_contents [OF assms] by (simp add: word_less_nat_alt)
  then have "unat (i + 1) = Suc (unat i)"
    by (rule unat_add_1)
  moreover from this have "k = length (contents m) - unat (i + 1)"
    using Suc.hyps(2) by simp
  ultimately show ?case
    using valid i cur_msg_contents [OF assms i] Suc.hyps(1) [of "i + 1"]
    by (subst iter_all.simps) (simp add: iter_next_def Cons_nth_drop_Suc)
qed

text \<open>Iterating a container yields its contents, in order, and stops.\<close>

lemma iter_all_contents: "inv m \<Longrightarrow> iter_all num entry data (iter_new m) = Inr (contents m)"
  using iter_all_from [of m 0] by (simp add: iter_new_def)

end

section \<open>MultiMsg is a container\<close>

definition mmsg_entry :: "mmsg \<Rightarrow> usize \<Rightarrow> msg_entry outcome" where
  "mmsg_entry m i =
     (if mm_live m \<and> unat i < kMaxMultiMsg then Inr (h_entries (mm_header m) ! unat i)
      else Inl Undefined)"

definition mmsg_contents :: "mmsg \<Rightarrow> bytes list" where
  "mmsg_contents m =
     map (\<lambda>e. seg (unat (e_offset e)) (unat (e_sz e)) (mm_buf m @ [0]))
       (take (unat (num_msg m)) (h_entries (mm_header m)))"

definition mmsg_inv :: "mmsg \<Rightarrow> bool" where
  "mmsg_inv m \<longleftrightarrow> mm_live m \<and> (\<exists>msgs rest. encodes (mm_buf m) msgs rest)"

lemma encodes_query:
  assumes "encodes (mm_buf m) msgs rest" "mm_live m" "i < length msgs"
  shows "copy_out (mm_buf m) (unat (e_offset (h_entries (mm_header m) ! i)))
           (unat (e_sz (h_entries (mm_header m) ! i))) = Inr (msgs ! i)"
proof -
  have "i < 2 ^ 32" "length msgs \<le> 8"
    using assms(1,3) by (auto simp: encodes_def)
  then have i: "unat (of_nat i :: usize) = i"
    by (simp add: unat_of_nat)
  show ?thesis
    using query_one_encodes [OF assms(1,2), of "of_nat i"] assms(3) i
    by (auto simp: query_one_def Let_def bindE_Inr_iff split: if_splits)
qed

lemma contents_encodes:
  assumes "encodes (mm_buf m) msgs rest" "mm_live m"
  shows "mmsg_contents m = msgs"
proof (rule nth_equalityI)
  have "length (h_entries (mm_header m)) = 8" "length msgs \<le> 8"
    using wf_hdr [of "mm_buf m"] assms(1) by (simp_all add: mm_header_hdr wf_header_def encodes_def)
  then show len: "length (mmsg_contents m) = length msgs"
    by (simp add: mmsg_contents_def num_msg_encodes [OF assms(1)])
  show "mmsg_contents m ! i = msgs ! i" if "i < length (mmsg_contents m)" for i
    using encodes_query [OF assms, of i] that len num_msg_encodes [OF assms(1)]
    by (simp add: mmsg_contents_def copy_out_def split: if_splits)
qed

interpretation mmsg_container:
  msg_container num_msg mmsg_entry mm_buf mmsg_contents mmsg_inv
proof unfold_locales
  fix m :: mmsg and i :: usize
  assume "mmsg_inv m"
  then obtain msgs rest where enc: "encodes (mm_buf m) msgs rest" "mm_live m"
    by (auto simp: mmsg_inv_def)
  note c = contents_encodes [OF enc]
  show "unat (num_msg m) = length (mmsg_contents m)"
    by (simp add: c num_msg_encodes [OF enc(1)])
  show "\<exists>e. mmsg_entry m i = Inr e \<and>
          copy_out (mm_buf m) (unat (e_offset e)) (unat (e_sz e)) = Inr (mmsg_contents m ! unat i)"
    if "unat i < length (mmsg_contents m)"
    using that enc encodes_query [OF enc, of "unat i"]
    by (simp add: c mmsg_entry_def encodes_def)
qed

text \<open>
  Iterating over a batch terminates and yields exactly the messages that were
  appended, in order, whatever bytes follow them in the buffer.
\<close>
theorem iter_all_messages:
  assumes "encodes b msgs rest"
  shows "iter_all num_msg mmsg_entry mm_buf (iter_new (mmsg_view b)) = Inr msgs"
proof -
  have enc: "encodes (mm_buf (mmsg_view b)) msgs rest" "mm_live (mmsg_view b)"
    using assms by (simp_all add: mmsg_view_def)
  then have "mmsg_inv (mmsg_view b)"
    by (auto simp: mmsg_inv_def)
  then show ?thesis
    using mmsg_container.iter_all_contents contents_encodes [OF enc] by simp
qed

theorem iter_all_messages_witness:
  "iter_all num_msg mmsg_entry mm_buf
     (iter_new (mmsg_view (dump_null header_size enc_header null_header @ [5, 6]))) = Inr []"
  by (rule iter_all_messages [where rest = "[] @ [5, 6]"], rule encodes_extend, rule encodes_null)

end
