(* ===== verification/Ipname.thy ===== *)
theory Ipname
  imports Results "HOL-Library.AList"
begin

text \<open>
  Host names and clocks: \<open>Timer\<close> of core/utils/timer.hh and \<open>IPNameHelper\<close> of
  core/utils/ipname.hh.

  A time point is an \<open>int\<close> in nanoseconds; \<open>steady_clock::now()\<close> is an argument of the
  operations that read it. A double that holds a duration is modelled by the integer it
  is compared with. The resolver (\<open>getaddrinfo\<close>, \<open>getnameinfo\<close>) is a parameter.
\<close>

section \<open>Timer\<close>

record timer =
  start_time :: int

definition no_timeout :: int where
  "no_timeout = (2 ^ 53 - 1) * 2 ^ 971"

definition timer_new :: "int \<Rightarrow> timer" where
  "timer_new t = \<lparr>start_time = t\<rparr>"

text \<open>\<open>duration_cast\<close> truncates towards zero; the unit is given in nanoseconds.\<close>

definition duration_cast :: "int \<Rightarrow> int \<Rightarrow> int" where
  "duration_cast unit_ns d = (if 0 \<le> d then d div unit_ns else - ((- d) div unit_ns))"

definition passed :: "int \<Rightarrow> int \<Rightarrow> timer \<Rightarrow> int" where
  "passed unit_ns tt t = duration_cast unit_ns (tt - start_time t)"

definition timed_out :: "int \<Rightarrow> int \<Rightarrow> int \<Rightarrow> timer \<Rightarrow> bool" where
  "timed_out unit_ns cnt now t \<longleftrightarrow> passed unit_ns now t \<ge> cnt"

definition passed_sec :: "int \<Rightarrow> timer \<Rightarrow> int" where
  "passed_sec now t = passed 1000000000 now t"

text \<open>The name says milliseconds, the code counts microseconds.\<close>

definition passed_msec :: "int \<Rightarrow> timer \<Rightarrow> int" where
  "passed_msec now t = passed 1000 now t"

definition timer_reset :: "int \<Rightarrow> timer \<Rightarrow> timer" where
  "timer_reset now t = t\<lparr>start_time := now\<rparr>"

section \<open>Parsing host:port\<close>

text \<open>
  \<open>parser >> port\<close> skips white space, takes an optional sign and the longest run of digits;
  it fails without digits and when the value does not fit in an \<open>int\<close>.
\<close>

definition is_space :: "u8 \<Rightarrow> bool" where
  "is_space c \<longleftrightarrow> c = 32 \<or> (9 \<le> c \<and> c \<le> 13)"

definition is_digit :: "u8 \<Rightarrow> bool" where
  "is_digit c \<longleftrightarrow> 48 \<le> c \<and> c \<le> 57"

fun digits_value :: "bytes \<Rightarrow> int \<Rightarrow> int" where
  "digits_value [] acc = acc" |
  "digits_value (c # cs) acc = digits_value cs (acc * 10 + (uint c - 48))"

definition read_int :: "bytes \<Rightarrow> int option" where
  "read_int s =
     (let s1 = dropWhile is_space s;
          neg = (s1 \<noteq> [] \<and> hd s1 = 45);
          s2 = (if s1 \<noteq> [] \<and> (hd s1 = 45 \<or> hd s1 = 43) then tl s1 else s1);
          ds = takeWhile is_digit s2;
          v = (if neg then - digits_value ds 0 else digits_value ds 0)
      in if ds = [] \<or> v < - (2 ^ 31) \<or> v \<ge> 2 ^ 31 then None else Some v)"

definition parse_addr :: "bytes \<Rightarrow> (bytes \<times> int) option" where
  "parse_addr h =
     (if 58 \<in> set h
      then let host_str = takeWhile (\<lambda>c. c \<noteq> 58) h;
               port_str = tl (dropWhile (\<lambda>c. c \<noteq> 58) h)
           in map_option (\<lambda>p. (host_str, p)) (read_int port_str)
      else None)"

text \<open>\<open>std::to_string\<close> of an \<open>int\<close>.\<close>

definition digit_char :: "nat \<Rightarrow> u8" where
  "digit_char d = of_nat (48 + d)"

function nat_digits :: "nat \<Rightarrow> bytes \<Rightarrow> bytes" where
  "nat_digits n acc =
     (let acc' = digit_char (n mod 10) # acc
      in if n < 10 then acc' else nat_digits (n div 10) acc')"
  by pat_completeness auto
termination
  by (relation "measure fst") auto

definition to_string :: "int \<Rightarrow> bytes" where
  "to_string i = (if i < 0 then 45 # nat_digits (nat (- i)) [] else nat_digits (nat i) [])"

section \<open>Resolving a host, with a lease\<close>

text \<open>
  \<open>getaddrinfo\<close> gives \<open>None\<close> (an error) or the list of addresses, and \<open>getnameinfo\<close> writes
  the text of an address into \<open>ip\<close> or, on failure (\<open>None\<close>), leaves it as it was. The error
  text of \<open>strerror(errno)\<close> is a parameter.
\<close>

record 'ai resolver =
  getaddrinfo :: "bytes \<Rightarrow> 'ai list option"
  getnameinfo :: "'ai \<Rightarrow> bytes option"
  strerror_errno :: bytes

type_synonym ip_cache = "(bytes \<times> (bytes \<times> timer)) list"

definition trim_host :: "bytes \<Rightarrow> bytes" where
  "trim_host h = rev (dropWhile (\<lambda>c. c = 32) (rev (dropWhile (\<lambda>c. c = 32) h)))"

fun last_name :: "('ai \<Rightarrow> bytes option) \<Rightarrow> 'ai list \<Rightarrow> bytes \<Rightarrow> bytes" where
  "last_name gni [] ip = ip" |
  "last_name gni (p # ps) ip = last_name gni ps (case gni p of Some n \<Rightarrow> n | None \<Rightarrow> ip)"

definition cache_lease_sec :: int where "cache_lease_sec = 10"

definition host2ip_miss :: "'ai resolver \<Rightarrow> int \<Rightarrow> bytes \<Rightarrow> ip_cache \<Rightarrow> bytes result \<times> ip_cache" where
  "host2ip_miss R now trimmed c =
     (case getaddrinfo R trimmed of
        None \<Rightarrow> (Err (strerror_errno R), c)
      | Some ps \<Rightarrow>
          (let res = last_name (getnameinfo R) ps []
           in if res \<noteq> [] then (Ok res, (trimmed, (res, timer_new now)) # c)
              else (Err (bstr ''not found''), c)))"

definition host2ip :: "'ai resolver \<Rightarrow> int \<Rightarrow> bytes \<Rightarrow> ip_cache \<Rightarrow> bytes result \<times> ip_cache" where
  "host2ip R now host c =
     (let trimmed = trim_host host
      in case map_of c trimmed of
           Some (ip, t) \<Rightarrow>
             if passed_sec now t < cache_lease_sec then (Ok ip, c)
             else host2ip_miss R now trimmed (AList.delete trimmed c)
         | None \<Rightarrow> host2ip_miss R now trimmed c)"

section \<open>Lemmas on decimal text\<close>

declare nat_digits.simps [simp del]

lemma digits_value_append: "digits_value (xs @ ys) acc = digits_value ys (digits_value xs acc)"
  by (induction xs acc rule: digits_value.induct) simp_all

lemma digit_byte:
  assumes "d < 10"
  shows "uint (digit_char d) = 48 + int d" and "is_digit (digit_char d)"
proof -
  have u: "unat (digit_char d) = 48 + d"
    using assms by (simp add: digit_char_def unat_of_nat del: of_nat_add)
  then show "uint (digit_char d) = 48 + int d"
    by (metis of_nat_add of_nat_numeral uint_nat)
  show "is_digit (digit_char d)"
    using u assms by (simp add: is_digit_def word_le_nat_alt)
qed

lemma nat_digits_acc: "nat_digits n acc = nat_digits n [] @ acc"
proof (induction n arbitrary: acc rule: less_induct)
  case (less n)
  show ?case
  proof (cases "n < 10")
    case False
    then have "nat_digits (n div 10) acc = nat_digits (n div 10) [] @ acc" for acc
      by (intro less) simp
    from this [of "[digit_char (n mod 10)]"] this [of "digit_char (n mod 10) # acc"] show ?thesis
      using False by (simp add: nat_digits.simps [of n] Let_def)
  qed (simp add: nat_digits.simps [of n])
qed

lemma nat_digits_step:
  "nat_digits n [] = (if n < 10 then [] else nat_digits (n div 10) []) @ [digit_char (n mod 10)]"
  using nat_digits_acc [of "n div 10" "[digit_char (n mod 10)]"]
  by (simp add: nat_digits.simps [of n] Let_def)

lemma nat_digits_value: "digits_value (nat_digits n []) 0 = int n"
proof (induction n rule: less_induct)
  case (less n)
  have u: "uint (digit_char (n mod 10)) = 48 + int (n mod 10)"
    by (rule digit_byte) simp
  have "int (n div 10) * 10 + int (n mod 10) = int n"
    by presburger
  then show ?case
    using u less [of "n div 10"] by (simp add: nat_digits_step [of n] digits_value_append)
qed

lemma nat_digits_are_digits: "c \<in> set (nat_digits n []) \<Longrightarrow> is_digit c"
proof (induction n rule: less_induct)
  case (less n)
  have "is_digit (digit_char (n mod 10))"
    by (rule digit_byte) simp
  then show ?case
    using less.IH [of "n div 10"] less.prems by (auto simp: nat_digits_step [of n] split: if_splits)
qed

lemma nat_digits_nonempty: "nat_digits n [] \<noteq> []"
  by (simp add: nat_digits_step [of n])

lemma digit_not_special: "is_digit c \<Longrightarrow> \<not> is_space c \<and> c \<noteq> 45 \<and> c \<noteq> 43"
  by (auto simp: is_digit_def is_space_def word_le_nat_alt)

lemma read_int_digits:
  assumes "ds \<noteq> []" and "\<And>c. c \<in> set ds \<Longrightarrow> is_digit c" and "digits_value ds 0 < 2 ^ 31"
    and "0 \<le> digits_value ds 0"
  shows "read_int ds = Some (digits_value ds 0)"
proof -
  obtain c cs where ds: "ds = c # cs"
    using assms(1) by (cases ds) auto
  have "takeWhile is_digit ds = ds"
    using assms(2) by simp
  moreover have "dropWhile is_space ds = ds" "hd ds \<noteq> 45" "hd ds \<noteq> 43"
    using digit_not_special [of c] assms(2) [of c] by (simp_all add: ds)
  moreover have "\<not> digits_value ds 0 < - (2 ^ 31)" "\<not> 2 ^ 31 \<le> digits_value ds 0"
    using assms(3,4) by simp_all
  ultimately show ?thesis
    using assms(1) unfolding read_int_def Let_def by (simp only: if_False simp_thms)
qed

lemma read_int_to_string:
  assumes "0 \<le> p" and "p < 2 ^ 31"
  shows "read_int (to_string p) = Some p"
proof -
  have "digits_value (nat_digits (nat p) []) 0 = p"
    using nat_digits_value [of "nat p"] assms(1) by simp
  then show ?thesis
    using read_int_digits [OF nat_digits_nonempty nat_digits_are_digits] assms
    by (simp add: to_string_def)
qed

text \<open>
  Parsing inverts printing. A host name without a colon and a port of an \<open>int\<close>'s
  non-negative range, printed as host:port, parse back to the pair; a text without a
  colon, or without a number behind the first one, is refused.
\<close>
theorem parse_addr_roundtrip:
  assumes "58 \<notin> set host" and "0 \<le> p" and "p < 2 ^ 31"
  shows "parse_addr (host @ 58 # to_string p) = Some (host, p) \<and>
         parse_addr host = None \<and> parse_addr (host @ [58]) = None"
proof -
  have "takeWhile (\<lambda>c. c \<noteq> 58) (host @ 58 # r) = host" "dropWhile (\<lambda>c. c \<noteq> 58) (host @ 58 # r) = 58 # r" for r
    using assms(1) by (induction host) auto
  then show ?thesis
    using assms by (simp add: parse_addr_def read_int_to_string) (simp add: read_int_def)
qed

theorem parse_addr_roundtrip_witness:
  "parse_addr ([104, 49] @ 58 # to_string 8888) = Some ([104, 49], 8888) \<and>
   parse_addr [104, 49] = None \<and> parse_addr ([104, 49] @ [58]) = None"
  by (rule parse_addr_roundtrip) simp_all

section \<open>The cache of addresses\<close>

definition cache_ok :: "ip_cache \<Rightarrow> bool" where
  "cache_ok c \<longleftrightarrow> distinct (map fst c) \<and> (\<forall>e \<in> set c. fst (snd e) \<noteq> [])"

lemma passed_sec_lease:
  "start_time t \<le> now \<Longrightarrow> passed_sec now t < cache_lease_sec \<longleftrightarrow> now - start_time t < 10 * 1000000000"
  by (simp add: passed_sec_def passed_def duration_cast_def cache_lease_sec_def) linarith

text \<open>
  The lease of the address cache. When a look-up resolves, the same address is given
  for every spelling of the host that trims to the same name and at every instant of the
  next ten seconds, whatever the resolver says meanwhile; from ten seconds on the
  resolver is asked again.
\<close>
theorem host2ip_lease:
  assumes "map_of c (trim_host h) = None"
    and "host2ip R t0 h c = (Ok ip, c')"
    and "trim_host h' = trim_host h" and "t0 \<le> now"
  shows "host2ip R' now h' c' =
          (if now - t0 < 10 * 1000000000 then (Ok ip, c')
           else host2ip_miss R' now (trim_host h) c)"
proof -
  have c': "c' = (trim_host h, (ip, timer_new t0)) # c" "ip \<noteq> []"
    using assms(1,2) by (auto simp: host2ip_def host2ip_miss_def Let_def split: option.splits if_splits)
  have "AList.delete (trim_host h) c = c"
    using assms(1) by (simp add: map_of_eq_None_iff AList.delete_id)
  then show ?thesis
    using assms(3,4) passed_sec_lease [of "timer_new t0" now]
    by (simp add: host2ip_def c' timer_new_def)
qed

theorem host2ip_lease_witness:
  "host2ip \<lparr>getaddrinfo = \<lambda>_. Some [()], getnameinfo = \<lambda>_. Some [50], strerror_errno = []\<rparr> 5000000000 [104]
     [([104], ([49], timer_new 0))] =
    (if (5000000000::int) - 0 < 10 * 1000000000 then (Ok [49], [([104], ([49], timer_new 0))])
     else host2ip_miss \<lparr>getaddrinfo = \<lambda>_. Some [()], getnameinfo = \<lambda>_. Some [50], strerror_errno = []\<rparr>
            5000000000 (trim_host [32, 104, 32]) [])"
  by (rule host2ip_lease [where R = "\<lparr>getaddrinfo = \<lambda>_. Some [()], getnameinfo = \<lambda>_. Some [49], strerror_errno = []\<rparr>"])
    (simp_all add: trim_host_def host2ip_def host2ip_miss_def Let_def)

end
