(* ===== verification/Channel.thy ===== *)
theory Channel
  imports Ipname Marshal
begin

text \<open>
  Datagram channels (core/bootstrap/channel.hh): \<open>AbsChannel\<close>, \<open>SendChannel\<close> and
  \<open>RecvChannel\<close> over a non-blocking UDP socket.

  The socket calls are the environment. What successive \<open>select\<close>/\<open>recvfrom\<close> pairs report is
  a list of events, consumed from the front; when it is empty nothing more arrives and
  \<open>select\<close> times out. Which of the successive \<open>sendto\<close> calls fail is a list of booleans; a
  call that does not fail accepts the whole datagram.
\<close>

unbundle bit_operations_syntax

section \<open>The network as a channel sees it\<close>

definition kMaxMsgSz :: nat where "kMaxMsgSz = 4096"

lemma kMaxMsgSz_val [simp]: "kMaxMsgSz = 4096"
  by (simp add: kMaxMsgSz_def)

datatype 'a sel_ev =
    SelTimeout            \<comment> \<open>\<open>select\<close> returns 0\<close>
  | SelError              \<comment> \<open>\<open>select\<close> returns -1\<close>
  | SelNotSet             \<comment> \<open>ready, but not for this descriptor\<close>
  | SelFail               \<comment> \<open>ready, and \<open>recvfrom\<close> fails\<close>
  | SelData 'a bytes      \<comment> \<open>ready, and \<open>recvfrom\<close> gives a datagram from an address\<close>

record 'a net =
  inbox :: "'a sel_ev list"
  send_fails :: "bool list"
  err_text :: bytes
  outbox :: "('a \<times> bytes) list"

definition next_event :: "'a net \<Rightarrow> 'a sel_ev \<times> 'a net" where
  "next_event n = (case inbox n of [] \<Rightarrow> (SelTimeout, n) | e # es \<Rightarrow> (e, n\<lparr>inbox := es\<rparr>))"

definition sendto :: "bytes \<Rightarrow> 'a \<Rightarrow> 'a net \<Rightarrow> int \<times> 'a net" where
  "sendto buf a n =
     (case send_fails n of
        True # fs \<Rightarrow> (- 1, n\<lparr>send_fails := fs\<rparr>)
      | fs \<Rightarrow> (int (length buf), n\<lparr>send_fails := tl fs, outbox := outbox n @ [(a, buf)]\<rparr>))"

section \<open>AbsChannel\<close>

definition fd_valid :: "c_int \<Rightarrow> bool" where
  "fd_valid fd \<longleftrightarrow> 0 \<le> sint fd"

text \<open>The descriptor after the call, and the ones it closed.\<close>

definition close_channel :: "c_int \<Rightarrow> unit result \<times> c_int \<times> c_int list" where
  "close_channel fd = (if fd_valid fd then (Ok (), - 1, [fd]) else (Ok (), fd, []))"

definition raw_send :: "c_int \<Rightarrow> bytes \<Rightarrow> 'a \<Rightarrow> 'a net \<Rightarrow> bytes result outcome \<times> 'a net" where
  "raw_send fd buf a n =
     (if \<not> fd_valid fd then (Inl Aborted, n)
      else let (sent, n') = sendto buf a n
           in (Inr (if sent \<le> 0 then Err (err_text n) else Ok []), n'))"

text \<open>
  The address in a result other than Ok is an uninitialised local: \<open>None\<close>. The buffer keeps
  its size: a datagram overwrites its front, and what does not fit is cut off.
\<close>

definition try_recv ::
  "c_int \<Rightarrow> bytes \<Rightarrow> 'a net \<Rightarrow> ('a option result \<times> bytes) outcome \<times> 'a net"
where
  "try_recv fd buf n =
     (if \<not> fd_valid fd then (Inl Undefined, n)
      else let (e, n') = next_event n
           in (case e of
                 SelTimeout \<Rightarrow> Inr (Timeout None, buf)
               | SelError \<Rightarrow> Inr (Err None, buf)
               | SelNotSet \<Rightarrow> Inl Aborted
               | SelFail \<Rightarrow> Inr (Err None, buf)
               | SelData a d \<Rightarrow> Inr (Ok (Some a), memcpy buf d (min (length d) (length buf))), n'))"

section \<open>SendChannel\<close>

record 'a send_channel =
  sc_fd :: c_int
  sc_end :: 'a

definition sc_send :: "'a send_channel \<Rightarrow> bytes \<Rightarrow> 'a net \<Rightarrow> bytes result outcome \<times> 'a net" where
  "sc_send c buf n = raw_send (sc_fd c) buf (sc_end c) n"

definition sc_recv :: "'a send_channel \<Rightarrow> 'a net \<Rightarrow> bytes result outcome \<times> 'a net" where
  "sc_recv c n =
     (case try_recv (sc_fd c) (replicate kMaxMsgSz 0) n of
        (Inl e, n') \<Rightarrow> (Inl e, n')
      | (Inr (res, buf), n') \<Rightarrow>
          (Inr (if code res = IO_Ok then Ok buf else \<lparr>code = code res, desc = []\<rparr>), n'))"

text \<open>Opening: \<open>getaddrinfo\<close>, \<open>socket\<close> (-1 on failure), \<open>bind\<close> and \<open>inet_addr\<close> are parameters.\<close>

record sockaddr_in =
  sin_port :: u16
  sin_addr :: u32

record 'ai netlib = "'ai resolver" +
  getaddrinfo_port :: "bytes option \<Rightarrow> bytes \<Rightarrow> 'ai list option"
  socket_fd :: "'ai \<Rightarrow> c_int"
  socket_inet :: c_int
  bind_ok :: "c_int \<Rightarrow> 'ai \<Rightarrow> bool"
  bind_inet_ok :: "c_int \<Rightarrow> sockaddr_in \<Rightarrow> bool"
  inet_addr :: "bytes \<Rightarrow> u32"

definition htons :: "u16 \<Rightarrow> u16" where
  "htons w = push_bit 8 w OR drop_bit 8 w"

definition convert_addr :: "('ai, 'x) netlib_scheme \<Rightarrow> bytes \<Rightarrow> int \<Rightarrow> sockaddr_in" where
  "convert_addr L ip port = \<lparr>sin_port = htons (word_of_int port), sin_addr = inet_addr L ip\<rparr>"

fun first_socket :: "('ai \<Rightarrow> c_int) \<Rightarrow> 'ai list \<Rightarrow> c_int \<Rightarrow> c_int" where
  "first_socket sk [] fd = fd" |
  "first_socket sk (p # ps) fd = (if sk p = - 1 then first_socket sk ps (- 1) else sk p)"

definition send_channel_new :: "('ai, 'x) netlib_scheme \<Rightarrow> bytes \<Rightarrow> int \<Rightarrow> sockaddr_in send_channel" where
  "send_channel_new L ip port =
     (let end_addr = convert_addr L ip port
      in case getaddrinfo_port L (Some ip) (to_string port) of
           None \<Rightarrow> \<lparr>sc_fd = - 1, sc_end = end_addr\<rparr>
         | Some ps \<Rightarrow> \<lparr>sc_fd = first_socket (socket_fd L) ps (- 1), sc_end = end_addr\<rparr>)"

definition send_channel_create ::
  "('ai, 'x) netlib_scheme \<Rightarrow> int \<Rightarrow> bytes \<Rightarrow> ip_cache \<Rightarrow> sockaddr_in send_channel option \<times> ip_cache"
where
  "send_channel_create L now addr c =
     (case parse_addr addr of
        None \<Rightarrow> (None, c)
      | Some (host, port) \<Rightarrow>
          (case host2ip (resolver.truncate L) now host c of
             (ip_res, c') \<Rightarrow>
               (if code ip_res = IO_Ok
                then let sc = send_channel_new L (desc ip_res) port
                     in (if fd_valid (sc_fd sc) then Some sc else None, c')
                else (None, c'))))"

section \<open>RecvChannel\<close>

record 'a recv_channel =
  rc_fd :: c_int
  cur_msg_client :: "'a option"
  cur_msg :: bytes

definition has_msg :: "'a recv_channel \<Rightarrow> bool" where
  "has_msg c \<longleftrightarrow> cur_msg_client c \<noteq> None"

definition rc_start :: "'a recv_channel \<Rightarrow> 'a net \<Rightarrow> 'a recv_channel outcome \<times> 'a net" where
  "rc_start c n =
     (if has_msg c then (Inr c, n)
      else case try_recv (rc_fd c) (cur_msg c) n of
             (Inl e, n') \<Rightarrow> (Inl e, n')
           | (Inr (res, buf), n') \<Rightarrow>
               (Inr (if code res = IO_Ok then c\<lparr>cur_msg := buf, cur_msg_client := desc res\<rparr>
                     else c\<lparr>cur_msg := buf\<rparr>), n'))"

definition rc_next :: "'a recv_channel \<Rightarrow> 'a net \<Rightarrow> 'a recv_channel outcome \<times> 'a net" where
  "rc_next c n = rc_start (c\<lparr>cur_msg_client := None\<rparr>) n"

definition reply_cur :: "'a recv_channel \<Rightarrow> bytes \<Rightarrow> 'a net \<Rightarrow> bytes result outcome \<times> 'a net" where
  "reply_cur c buf n =
     (case cur_msg_client c of
        None \<Rightarrow> (Inl Thrown, n)
      | Some a \<Rightarrow> raw_send (rc_fd c) buf a n)"

text \<open>
  The constructor used by \<open>create\<close>: the descriptor, and whether it is open and bound. A
  failed \<open>bind\<close> closes the socket but leaves its number in \<open>sockfd\<close>. When \<open>getaddrinfo\<close>
  fails, \<open>freeaddrinfo\<close> is called on an uninitialised pointer.
\<close>

fun bind_first :: "('ai, 'x) netlib_scheme \<Rightarrow> 'ai list \<Rightarrow> c_int \<Rightarrow> c_int \<times> bool" where
  "bind_first L [] fd = (fd, False)" |
  "bind_first L (p # ps) fd =
     (let s = socket_fd L p
      in if s = - 1 then bind_first L ps (- 1)
         else if bind_ok L s p then (s, True) else bind_first L ps s)"

definition recv_channel_new :: "('ai, 'x) netlib_scheme \<Rightarrow> int \<Rightarrow> ('a recv_channel \<times> bool) outcome" where
  "recv_channel_new L port =
     (case getaddrinfo_port L None (to_string port) of
        None \<Rightarrow> Inl Undefined
      | Some ps \<Rightarrow>
          (case bind_first L ps (- 1) of
             (fd, bound) \<Rightarrow>
               Inr (\<lparr>rc_fd = fd, cur_msg_client = None, cur_msg = replicate kMaxMsgSz 0\<rparr>, bound)))"

text \<open>The constructor that takes a host address; \<open>create\<close> ignores its host argument and does not use it.\<close>

definition recv_channel_host_new :: "('ai, 'x) netlib_scheme \<Rightarrow> int \<Rightarrow> bytes \<Rightarrow> 'a recv_channel \<times> bool" where
  "recv_channel_host_new L port host =
     (let fd = socket_inet L;
          my_addr = \<lparr>sin_port = htons (word_of_int port),
                     sin_addr = (if host = bstr ''localhost'' then 0 else inet_addr L host)\<rparr>;
          bound = (fd_valid fd \<and> bind_inet_ok L fd my_addr);
          fd' = (if fd_valid fd \<and> \<not> bound then fst (snd (close_channel fd)) else fd)
      in (\<lparr>rc_fd = fd', cur_msg_client = None, cur_msg = replicate kMaxMsgSz 0\<rparr>, bound))"

definition recv_channel_create ::
  "('ai, 'x) netlib_scheme \<Rightarrow> int \<Rightarrow> bytes \<Rightarrow> ('a recv_channel \<times> bool) option outcome"
where
  "recv_channel_create L port h =
     bindE (recv_channel_new L port) (\<lambda>(c, bound).
       Inr (if fd_valid (rc_fd c) then Some (c, bound) else None))"

end
