(* ===== verification/QPConf.thy ===== *)
theory QPConf
  imports Marshal
begin

unbundle bit_operations_syntax

text \<open>
  core/qps/config.hh (the QP configuration and its setters) and core/rmem/config.hh (the
  registration flags). The numeric values of the \<open>IBV_ACCESS_*\<close> flags belong to libibverbs
  and are the argument \<open>F\<close>. Signed C integers are 32-bit words.
\<close>

section \<open>Flags of libibverbs\<close>

record access_consts =
  LOCAL_WRITE :: c_int
  REMOTE_WRITE :: c_int
  REMOTE_READ :: c_int
  REMOTE_ATOMIC :: c_int

section \<open>QPConfig\<close>

definition kDefaultQKey :: u32 where "kDefaultQKey = 0x111111"
definition kDefaultPSN :: u32 where "kDefaultPSN = 3185"
definition kRcMaxSendSz :: u32 where "kRcMaxSendSz = 128"
definition kRcMaxRecvSz :: u32 where "kRcMaxRecvSz = 2048"
definition kDcKey :: u32 where "kDcKey = 1024"

record qp_config =
  c_access_flags :: c_int
  c_max_rd_atomic :: c_int
  c_max_dest_rd_atomic :: c_int
  c_rq_psn :: c_int
  c_sq_psn :: c_int
  c_timeout :: c_int
  c_max_send_size :: c_int
  c_max_recv_size :: c_int
  c_qkey :: c_int
  c_dc_key :: c_int

definition default_config :: "'x access_consts_scheme \<Rightarrow> qp_config" where
  "default_config F =
     \<lparr>c_access_flags = REMOTE_WRITE F OR REMOTE_READ F OR REMOTE_ATOMIC F,
      c_max_rd_atomic = 16, c_max_dest_rd_atomic = 16,
      c_rq_psn = kDefaultPSN, c_sq_psn = kDefaultPSN, c_timeout = 20,
      c_max_send_size = kRcMaxSendSz, c_max_recv_size = kRcMaxRecvSz,
      c_qkey = kDefaultQKey, c_dc_key = kDcKey\<rparr>"

definition set_access_flags :: "c_int \<Rightarrow> qp_config \<Rightarrow> qp_config" where
  "set_access_flags flags c = c\<lparr>c_access_flags := flags\<rparr>"

definition clear_access_flags :: "qp_config \<Rightarrow> qp_config" where
  "clear_access_flags c = set_access_flags 0 c"

definition set_max_rd_ops :: "c_int \<Rightarrow> qp_config \<Rightarrow> qp_config" where
  "set_max_rd_ops max_rd c = c\<lparr>c_max_dest_rd_atomic := max_rd, c_max_rd_atomic := max_rd\<rparr>"

definition set_psn :: "c_int \<Rightarrow> qp_config \<Rightarrow> qp_config" where
  "set_psn psn c = c\<lparr>c_sq_psn := psn, c_rq_psn := psn\<rparr>"

text \<open>
  \<open>set_timeout\<close>: in \<open>timeout = timeout\<close> both names are the parameter, which hides the
  member; the object is not changed.
\<close>

definition set_timeout :: "c_int \<Rightarrow> qp_config \<Rightarrow> qp_config" where
  "set_timeout timeout c = (let timeout' = timeout in c)"

definition set_max_send :: "c_int \<Rightarrow> qp_config \<Rightarrow> qp_config" where
  "set_max_send n c = c\<lparr>c_max_send_size := n\<rparr>"

definition max_send_sz :: "qp_config \<Rightarrow> c_int" where
  "max_send_sz c = c_max_send_size c"

definition set_max_recv :: "c_int \<Rightarrow> qp_config \<Rightarrow> qp_config" where
  "set_max_recv n c = c\<lparr>c_max_recv_size := n\<rparr>"

definition max_recv_sz :: "qp_config \<Rightarrow> c_int" where
  "max_recv_sz c = c_max_recv_size c"

definition add_access_write :: "'x access_consts_scheme \<Rightarrow> qp_config \<Rightarrow> qp_config" where
  "add_access_write F c = c\<lparr>c_access_flags := c_access_flags c OR REMOTE_WRITE F\<rparr>"

definition add_access_read :: "'x access_consts_scheme \<Rightarrow> qp_config \<Rightarrow> qp_config" where
  "add_access_read F c = c\<lparr>c_access_flags := c_access_flags c OR REMOTE_READ F\<rparr>"

definition add_access_atomic :: "'x access_consts_scheme \<Rightarrow> qp_config \<Rightarrow> qp_config" where
  "add_access_atomic F c = c\<lparr>c_access_flags := c_access_flags c OR REMOTE_ATOMIC F\<rparr>"

definition set_qkey :: "c_int \<Rightarrow> qp_config \<Rightarrow> qp_config" where
  "set_qkey k c = c\<lparr>c_qkey := k\<rparr>"

definition set_dc_key :: "c_int \<Rightarrow> qp_config \<Rightarrow> qp_config" where
  "set_dc_key k c = c\<lparr>c_dc_key := k\<rparr>"

definition allow_remote_read :: "'x access_consts_scheme \<Rightarrow> qp_config \<Rightarrow> bool" where
  "allow_remote_read F c \<longleftrightarrow> c_access_flags c AND REMOTE_READ F \<noteq> 0"

definition desc_access_flags :: "'x access_consts_scheme \<Rightarrow> qp_config \<Rightarrow> bytes" where
  "desc_access_flags F c =
     (let res0 = bstr ''The access flags of this qp: [ '';
          res1 = (if c_access_flags c AND REMOTE_WRITE F \<noteq> 0 then res0 @ bstr ''remote write,'' else res0);
          res2 = (if c_access_flags c AND REMOTE_READ F \<noteq> 0 then res1 @ bstr ''remote read,'' else res1)
      in if c_access_flags c AND REMOTE_ATOMIC F \<noteq> 0 then res2 @ bstr ''remote atomic ]''
         else res2 @ bstr '']'')"

section \<open>MemoryFlags (core/rmem/config.hh)\<close>

record memory_flags =
  protection_flags :: c_int

definition default_flags :: "'x access_consts_scheme \<Rightarrow> memory_flags" where
  "default_flags F =
     \<lparr>protection_flags = LOCAL_WRITE F OR REMOTE_READ F OR REMOTE_WRITE F OR REMOTE_ATOMIC F\<rparr>"

definition set_flags :: "c_int \<Rightarrow> memory_flags \<Rightarrow> memory_flags" where
  "set_flags flags m = m\<lparr>protection_flags := flags\<rparr>"

definition get_value :: "memory_flags \<Rightarrow> c_int" where
  "get_value m = protection_flags m"

definition clear_flags :: "memory_flags \<Rightarrow> memory_flags" where
  "clear_flags m = set_flags 0 m"

definition add_local_write :: "'x access_consts_scheme \<Rightarrow> memory_flags \<Rightarrow> memory_flags" where
  "add_local_write F m = m\<lparr>protection_flags := protection_flags m OR LOCAL_WRITE F\<rparr>"

definition add_remote_write :: "'x access_consts_scheme \<Rightarrow> memory_flags \<Rightarrow> memory_flags" where
  "add_remote_write F m =
     add_local_write F (m\<lparr>protection_flags := protection_flags m OR REMOTE_WRITE F\<rparr>)"

definition add_remote_read :: "'x access_consts_scheme \<Rightarrow> memory_flags \<Rightarrow> memory_flags" where
  "add_remote_read F m = m\<lparr>protection_flags := protection_flags m OR REMOTE_READ F\<rparr>"

section \<open>Facts\<close>

lemma and_or_self: "(x OR y) AND y = (y :: 'a::len word)"
  by (simp add: bit_eq_iff bit_and_iff bit_or_iff)

text \<open>
  ibverbs requires local write on every region that allows remote write. \<open>rw_closed\<close> is
  that requirement; every sequence of builder calls from the cleared flags keeps it.
\<close>

definition rw_closed :: "'x access_consts_scheme \<Rightarrow> memory_flags \<Rightarrow> bool" where
  "rw_closed F m \<longleftrightarrow>
     (protection_flags m AND REMOTE_WRITE F \<noteq> 0 \<longrightarrow> protection_flags m AND LOCAL_WRITE F \<noteq> 0)"

text \<open>\<open>F\<close> assigns four distinct single bits, as the ibverbs header does.\<close>

definition flag_bits :: "'x access_consts_scheme \<Rightarrow> bool" where
  "flag_bits F \<longleftrightarrow>
     LOCAL_WRITE F \<noteq> 0 \<and> REMOTE_WRITE F \<noteq> 0 \<and> REMOTE_READ F \<noteq> 0 \<and> REMOTE_ATOMIC F \<noteq> 0 \<and>
     LOCAL_WRITE F AND REMOTE_WRITE F = 0 \<and> LOCAL_WRITE F AND REMOTE_READ F = 0 \<and>
     REMOTE_WRITE F AND REMOTE_READ F = 0 \<and> LOCAL_WRITE F AND REMOTE_ATOMIC F = 0 \<and>
     REMOTE_WRITE F AND REMOTE_ATOMIC F = 0 \<and> REMOTE_READ F AND REMOTE_ATOMIC F = 0"

definition sample_flags :: access_consts where
  "sample_flags = \<lparr>LOCAL_WRITE = 1, REMOTE_WRITE = 2, REMOTE_READ = 4, REMOTE_ATOMIC = 8\<rparr>"

lemma flag_bits_sample: "flag_bits sample_flags"
  by (simp add: flag_bits_def sample_flags_def)

datatype flag_call = LocalWrite | RemoteWrite | RemoteRead

fun apply_call :: "'x access_consts_scheme \<Rightarrow> flag_call \<Rightarrow> memory_flags \<Rightarrow> memory_flags" where
  "apply_call F LocalWrite m = add_local_write F m"
| "apply_call F RemoteWrite m = add_remote_write F m"
| "apply_call F RemoteRead m = add_remote_read F m"

lemma or_eq_0: "x OR y = 0 \<longleftrightarrow> x = 0 \<and> y = (0 :: 'a::len word)"
  by (auto simp: bit_eq_iff bit_or_iff)

lemma rw_closed_step: "flag_bits F \<Longrightarrow> rw_closed F m \<Longrightarrow> rw_closed F (apply_call F c m)"
  by (cases c)
    (auto simp: rw_closed_def add_local_write_def add_remote_write_def add_remote_read_def
      flag_bits_def bit.conj_disj_distrib bit.conj_disj_distrib2 or_eq_0 and.commute)

lemma rw_closed_fold: "flag_bits F \<Longrightarrow> rw_closed F m \<Longrightarrow> rw_closed F (fold (apply_call F) cs m)"
  by (induction cs arbitrary: m) (simp_all add: rw_closed_step)

text \<open>
  The flag builders keep the ibverbs requirement. Starting from cleared flags, every
  sequence of \<open>add_local_write\<close>, \<open>add_remote_write\<close> and \<open>add_remote_read\<close> calls gives
  flags in which remote write implies local write.
\<close>
theorem memory_flags_rw_closed:
  assumes "flag_bits F"
  shows "rw_closed F (fold (apply_call F) cs (clear_flags m))"
  by (rule rw_closed_fold [OF assms]) (simp add: rw_closed_def clear_flags_def set_flags_def)

theorem memory_flags_rw_closed_witness:
  "rw_closed sample_flags
     (fold (apply_call sample_flags) [RemoteRead, RemoteWrite] (clear_flags (default_flags sample_flags)))"
  by (rule memory_flags_rw_closed) (rule flag_bits_sample)

text \<open>
  The setters of the QP configuration. Adding an access right makes it present
  without removing one, the PSN and read-depth setters write both directions, and
  \<open>set_timeout\<close> changes nothing, so the timeout of every configuration that is built from
  the default stays 20.
\<close>
theorem qp_config_setters:
  assumes "flag_bits F"
  shows "allow_remote_read F (add_access_read F c) \<and>
         c_access_flags (add_access_write F c) AND REMOTE_WRITE F = REMOTE_WRITE F \<and>
         c_access_flags (add_access_atomic F c) AND REMOTE_ATOMIC F = REMOTE_ATOMIC F \<and>
         (allow_remote_read F c \<longrightarrow> allow_remote_read F (add_access_atomic F (add_access_write F c))) \<and>
         \<not> allow_remote_read F (clear_access_flags c) \<and>
         c_sq_psn (set_psn p c) = p \<and> c_rq_psn (set_psn p c) = p \<and>
         c_max_rd_atomic (set_max_rd_ops n c) = n \<and> c_max_dest_rd_atomic (set_max_rd_ops n c) = n \<and>
         set_timeout t c = c \<and> c_timeout (set_timeout t (default_config F)) = 20"
  using assms
  by (auto simp: flag_bits_def allow_remote_read_def add_access_read_def add_access_write_def
      add_access_atomic_def clear_access_flags_def set_access_flags_def set_psn_def
      set_max_rd_ops_def set_timeout_def default_config_def and_or_self bit.conj_disj_distrib2 or_eq_0)

theorem qp_config_setters_witness:
  "allow_remote_read sample_flags (add_access_read sample_flags (clear_access_flags (default_config sample_flags)))"
  using qp_config_setters [OF flag_bits_sample, of "clear_access_flags (default_config sample_flags)"] by blast

end
