(* ===== verification/Proto.thy ===== *)
theory Proto
  imports QPConf
begin

text \<open>
  The packed structs that travel between hosts: the addresses and attributes (core/naming.hh,
  core/rmem/handler.hh, core/qps/mod.hh, core/qps/dc.hh), the requests and replies of
  core/bootstrap/proto.hh and the two RPC headers of core/bootstrap/srpc.hh. Each record has
  its object representation and an interpretation of \<open>packed\<close>, which gives the round-trip
  lemmas of Marshal for it.
\<close>

named_theorems packed_simps "laws of the structs nested in other structs"

section \<open>Identifiers and status codes\<close>

type_synonym rpc_id_t = u8

definition HeartBeat :: rpc_id_t where "HeartBeat = 0"
definition FetchMr :: rpc_id_t where "FetchMr = 1"
definition CreateRC :: rpc_id_t where "CreateRC = 2"
definition CreateRCM :: rpc_id_t where "CreateRCM = 3"
definition DeleteRC :: rpc_id_t where "DeleteRC = 4"
definition FetchQPAttr :: rpc_id_t where "FetchQPAttr = 5"
definition FetchDCAttr :: rpc_id_t where "FetchDCAttr = 6"
definition Reserved :: rpc_id_t where "Reserved = 7"

lemmas rpc_ids = HeartBeat_def FetchMr_def CreateRC_def CreateRCM_def DeleteRC_def
  FetchQPAttr_def FetchDCAttr_def Reserved_def

text \<open>\<open>CallbackStatus\<close> has the underlying type \<open>u8\<close>: any byte is a value of it.\<close>

type_synonym callback_status = u8

definition CB_Ok :: callback_status where "CB_Ok = 0"
definition CB_Err :: callback_status where "CB_Err = 1"
definition CB_NotFound :: callback_status where "CB_NotFound = 2"
definition CB_WrongArg :: callback_status where "CB_WrongArg = 3"
definition CB_ConnectErr :: callback_status where "CB_ConnectErr = 4"
definition CB_AuthErr :: callback_status where "CB_AuthErr = 5"

lemmas cb_codes = CB_Ok_def CB_Err_def CB_NotFound_def CB_WrongArg_def CB_ConnectErr_def
  CB_AuthErr_def

type_synonym call_status = u8

definition CS_Ok :: call_status where "CS_Ok = 0"
definition CS_Nop :: call_status where "CS_Nop = 1"
definition CS_WrongReply :: call_status where "CS_WrongReply = 2"
definition CS_NotMatch :: call_status where "CS_NotMatch = 3"
definition CS_FatalErr :: call_status where "CS_FatalErr = 4"

lemmas cs_codes = CS_Ok_def CS_Nop_def CS_WrongReply_def CS_NotMatch_def CS_FatalErr_def

definition kMaxQPNameLen :: nat where "kMaxQPNameLen = 63"

lemma kMaxQPNameLen_val [simp]: "kMaxQPNameLen = 63"
  by (simp add: kMaxQPNameLen_def)

section \<open>Addresses and attributes\<close>

record raddress =
  subnet_prefix :: u64
  interface_id :: u64
  local_id :: u32

definition enc_raddress :: "raddress \<Rightarrow> bytes" where
  "enc_raddress a = enc_word (subnet_prefix a) @ enc_word (interface_id a) @ enc_word (local_id a)"

definition dec_raddress :: "bytes \<Rightarrow> raddress" where
  "dec_raddress b = \<lparr>subnet_prefix = dec_word (seg 0 8 b), interface_id = dec_word (seg 8 8 b),
                     local_id = dec_word (seg 16 4 b)\<rparr>"

interpretation raddress_packed: packed 20 enc_raddress dec_raddress "\<lambda>_. True"
  by unfold_locales (simp_all add: enc_raddress_def dec_raddress_def layout_simps)

lemmas raddress_laws [packed_simps] =
  raddress_packed.length_enc [simplified] raddress_packed.dec_enc [simplified] raddress_packed.enc_dec

definition null_raddress :: raddress where
  "null_raddress = \<lparr>subnet_prefix = 0, interface_id = 0, local_id = 0\<rparr>"

record reg_attr =
  ra_buf :: u64
  ra_sz :: u64
  ra_key :: u32
  ra_lkey :: u32

definition enc_reg_attr :: "reg_attr \<Rightarrow> bytes" where
  "enc_reg_attr a = enc_word (ra_buf a) @ enc_word (ra_sz a) @ enc_word (ra_key a) @ enc_word (ra_lkey a)"

definition dec_reg_attr :: "bytes \<Rightarrow> reg_attr" where
  "dec_reg_attr b = \<lparr>ra_buf = dec_word (seg 0 8 b), ra_sz = dec_word (seg 8 8 b),
                     ra_key = dec_word (seg 16 4 b), ra_lkey = dec_word (seg 20 4 b)\<rparr>"

interpretation reg_attr_packed: packed 24 enc_reg_attr dec_reg_attr "\<lambda>_. True"
  by unfold_locales (simp_all add: enc_reg_attr_def dec_reg_attr_def layout_simps)

lemmas reg_attr_laws [packed_simps] =
  reg_attr_packed.length_enc [simplified] reg_attr_packed.dec_enc [simplified] reg_attr_packed.enc_dec

definition null_reg_attr :: reg_attr where
  "null_reg_attr = \<lparr>ra_buf = 0, ra_sz = 0, ra_key = 0, ra_lkey = 0\<rparr>"

record qp_attr =
  q_addr :: raddress
  q_lid :: u64
  q_psn :: u64
  q_port_id :: u64
  q_qpn :: u64
  q_qkey :: u64

definition enc_qp_attr :: "qp_attr \<Rightarrow> bytes" where
  "enc_qp_attr a = enc_raddress (q_addr a) @ enc_word (q_lid a) @ enc_word (q_psn a) @
     enc_word (q_port_id a) @ enc_word (q_qpn a) @ enc_word (q_qkey a)"

definition dec_qp_attr :: "bytes \<Rightarrow> qp_attr" where
  "dec_qp_attr b = \<lparr>q_addr = dec_raddress (seg 0 20 b), q_lid = dec_word (seg 20 8 b),
     q_psn = dec_word (seg 28 8 b), q_port_id = dec_word (seg 36 8 b),
     q_qpn = dec_word (seg 44 8 b), q_qkey = dec_word (seg 52 8 b)\<rparr>"

interpretation qp_attr_packed: packed 60 enc_qp_attr dec_qp_attr "\<lambda>_. True"
  by unfold_locales (simp_all add: enc_qp_attr_def dec_qp_attr_def layout_simps packed_simps)

lemmas qp_attr_laws [packed_simps] =
  qp_attr_packed.length_enc [simplified] qp_attr_packed.dec_enc [simplified] qp_attr_packed.enc_dec

definition null_qp_attr :: qp_attr where
  "null_qp_attr = \<lparr>q_addr = null_raddress, q_lid = 0, q_psn = 0, q_port_id = 0, q_qpn = 0, q_qkey = 0\<rparr>"

record dc_attr =
  dc_lid :: u64
  dc_dct_num :: u32
  dc_key :: c_int

definition enc_dc_attr :: "dc_attr \<Rightarrow> bytes" where
  "enc_dc_attr a = enc_word (dc_lid a) @ enc_word (dc_dct_num a) @ enc_word (dc_key a)"

definition dec_dc_attr :: "bytes \<Rightarrow> dc_attr" where
  "dec_dc_attr b = \<lparr>dc_lid = dec_word (seg 0 8 b), dc_dct_num = dec_word (seg 8 4 b),
                    dc_key = dec_word (seg 12 4 b)\<rparr>"

interpretation dc_attr_packed: packed 16 enc_dc_attr dec_dc_attr "\<lambda>_. True"
  by unfold_locales (simp_all add: enc_dc_attr_def dec_dc_attr_def layout_simps)

lemmas dc_attr_laws [packed_simps] =
  dc_attr_packed.length_enc [simplified] dc_attr_packed.dec_enc [simplified] dc_attr_packed.enc_dec

definition null_dc_attr :: dc_attr where
  "null_dc_attr = \<lparr>dc_lid = 0, dc_dct_num = 0, dc_key = 0\<rparr>"

text \<open>\<open>QPConfig\<close> is ten C integers.\<close>

definition enc_config :: "qp_config \<Rightarrow> bytes" where
  "enc_config c = enc_word (c_access_flags c) @ enc_word (c_max_rd_atomic c) @
     enc_word (c_max_dest_rd_atomic c) @ enc_word (c_rq_psn c) @ enc_word (c_sq_psn c) @
     enc_word (c_timeout c) @ enc_word (c_max_send_size c) @ enc_word (c_max_recv_size c) @
     enc_word (c_qkey c) @ enc_word (c_dc_key c)"

definition dec_config :: "bytes \<Rightarrow> qp_config" where
  "dec_config b =
     \<lparr>c_access_flags = dec_word (seg 0 4 b), c_max_rd_atomic = dec_word (seg 4 4 b),
      c_max_dest_rd_atomic = dec_word (seg 8 4 b), c_rq_psn = dec_word (seg 12 4 b),
      c_sq_psn = dec_word (seg 16 4 b), c_timeout = dec_word (seg 20 4 b),
      c_max_send_size = dec_word (seg 24 4 b), c_max_recv_size = dec_word (seg 28 4 b),
      c_qkey = dec_word (seg 32 4 b), c_dc_key = dec_word (seg 36 4 b)\<rparr>"

interpretation config_packed: packed 40 enc_config dec_config "\<lambda>_. True"
  by unfold_locales (simp_all add: enc_config_def dec_config_def layout_simps)

lemmas config_laws [packed_simps] =
  config_packed.length_enc [simplified] config_packed.dec_enc [simplified] config_packed.enc_dec

section \<open>Requests and replies (core/bootstrap/proto.hh)\<close>

record mr_req =
  mrq_id :: u64

definition enc_mr_req :: "mr_req \<Rightarrow> bytes" where
  "enc_mr_req r = enc_word (mrq_id r)"

definition dec_mr_req :: "bytes \<Rightarrow> mr_req" where
  "dec_mr_req b = \<lparr>mrq_id = dec_word (seg 0 8 b)\<rparr>"

interpretation mr_req_packed: packed 8 enc_mr_req dec_mr_req "\<lambda>_. True"
  by unfold_locales (simp_all add: enc_mr_req_def dec_mr_req_def layout_simps)

record mr_reply =
  mrp_status :: callback_status
  mrp_attr :: reg_attr

definition enc_mr_reply :: "mr_reply \<Rightarrow> bytes" where
  "enc_mr_reply r = enc_word (mrp_status r) @ enc_reg_attr (mrp_attr r)"

definition dec_mr_reply :: "bytes \<Rightarrow> mr_reply" where
  "dec_mr_reply b = \<lparr>mrp_status = dec_word (seg 0 1 b), mrp_attr = dec_reg_attr (seg 1 24 b)\<rparr>"

interpretation mr_reply_packed: packed 25 enc_mr_reply dec_mr_reply "\<lambda>_. True"
  by unfold_locales (simp_all add: enc_mr_reply_def dec_mr_reply_def layout_simps packed_simps)

record qp_req =
  qrq_name :: bytes
  qrq_key :: u64

definition wf_name :: "bytes \<Rightarrow> bool" where
  "wf_name n \<longleftrightarrow> length n = kMaxQPNameLen + 1"

lemma wf_name_length: "wf_name n \<longleftrightarrow> length n = 64"
  by (simp add: wf_name_def)

definition enc_qp_req :: "qp_req \<Rightarrow> bytes" where
  "enc_qp_req r = qrq_name r @ enc_word (qrq_key r)"

definition dec_qp_req :: "bytes \<Rightarrow> qp_req" where
  "dec_qp_req b = \<lparr>qrq_name = seg 0 64 b, qrq_key = dec_word (seg 64 8 b)\<rparr>"

interpretation qp_req_packed: packed 72 enc_qp_req dec_qp_req "\<lambda>r. wf_name (qrq_name r)"
  by unfold_locales (simp_all add: enc_qp_req_def dec_qp_req_def wf_name_length layout_simps)

record rc_req =
  rrq_name :: bytes
  rrq_name_recv :: bytes
  rrq_whether_create :: u8
  rrq_whether_recv :: u8
  rrq_nic_id :: u64
  rrq_config :: qp_config
  rrq_attr :: qp_attr
  rrq_max_recv_sz :: u64

definition enc_rc_req :: "rc_req \<Rightarrow> bytes" where
  "enc_rc_req r = rrq_name r @ rrq_name_recv r @ enc_word (rrq_whether_create r) @
     enc_word (rrq_whether_recv r) @ enc_word (rrq_nic_id r) @ enc_config (rrq_config r) @
     enc_qp_attr (rrq_attr r) @ enc_word (rrq_max_recv_sz r)"

definition dec_rc_req :: "bytes \<Rightarrow> rc_req" where
  "dec_rc_req b =
     \<lparr>rrq_name = seg 0 64 b, rrq_name_recv = seg 64 64 b,
      rrq_whether_create = dec_word (seg 128 1 b), rrq_whether_recv = dec_word (seg 129 1 b),
      rrq_nic_id = dec_word (seg 130 8 b), rrq_config = dec_config (seg 138 40 b),
      rrq_attr = dec_qp_attr (seg 178 60 b), rrq_max_recv_sz = dec_word (seg 238 8 b)\<rparr>"

definition wf_rc_req :: "rc_req \<Rightarrow> bool" where
  "wf_rc_req r \<longleftrightarrow> wf_name (rrq_name r) \<and> wf_name (rrq_name_recv r)"

interpretation rc_req_packed: packed 246 enc_rc_req dec_rc_req wf_rc_req
  by unfold_locales
    (simp_all add: enc_rc_req_def dec_rc_req_def wf_rc_req_def wf_name_length layout_simps packed_simps)

record rc_reply =
  rrp_status :: callback_status
  rrp_attr :: qp_attr
  rrp_key :: u64

definition enc_rc_reply :: "rc_reply \<Rightarrow> bytes" where
  "enc_rc_reply r = enc_word (rrp_status r) @ enc_qp_attr (rrp_attr r) @ enc_word (rrp_key r)"

definition dec_rc_reply :: "bytes \<Rightarrow> rc_reply" where
  "dec_rc_reply b = \<lparr>rrp_status = dec_word (seg 0 1 b), rrp_attr = dec_qp_attr (seg 1 60 b),
                     rrp_key = dec_word (seg 61 8 b)\<rparr>"

interpretation rc_reply_packed: packed 69 enc_rc_reply dec_rc_reply "\<lambda>_. True"
  by unfold_locales (simp_all add: enc_rc_reply_def dec_rc_reply_def layout_simps packed_simps)

record dc_reply =
  drp_status :: callback_status
  drp_attr :: dc_attr
  drp_key :: u64

definition enc_dc_reply :: "dc_reply \<Rightarrow> bytes" where
  "enc_dc_reply r = enc_word (drp_status r) @ enc_dc_attr (drp_attr r) @ enc_word (drp_key r)"

definition dec_dc_reply :: "bytes \<Rightarrow> dc_reply" where
  "dec_dc_reply b = \<lparr>drp_status = dec_word (seg 0 1 b), drp_attr = dec_dc_attr (seg 1 16 b),
                     drp_key = dec_word (seg 17 8 b)\<rparr>"

interpretation dc_reply_packed: packed 25 enc_dc_reply dec_dc_reply "\<lambda>_. True"
  by unfold_locales (simp_all add: enc_dc_reply_def dec_dc_reply_def layout_simps packed_simps)

record del_rc_req =
  dlq_name :: bytes
  dlq_key :: u64

definition enc_del_rc_req :: "del_rc_req \<Rightarrow> bytes" where
  "enc_del_rc_req r = dlq_name r @ enc_word (dlq_key r)"

definition dec_del_rc_req :: "bytes \<Rightarrow> del_rc_req" where
  "dec_del_rc_req b = \<lparr>dlq_name = seg 0 64 b, dlq_key = dec_word (seg 64 8 b)\<rparr>"

interpretation del_rc_req_packed: packed 72 enc_del_rc_req dec_del_rc_req "\<lambda>r. wf_name (dlq_name r)"
  by unfold_locales (simp_all add: enc_del_rc_req_def dec_del_rc_req_def wf_name_length layout_simps)

section \<open>RPC headers (core/bootstrap/srpc.hh)\<close>

record srpc_header =
  sh_id :: rpc_id_t
  sh_checksum :: u64

definition enc_srpc_header :: "srpc_header \<Rightarrow> bytes" where
  "enc_srpc_header h = enc_word (sh_id h) @ enc_word (sh_checksum h)"

definition dec_srpc_header :: "bytes \<Rightarrow> srpc_header" where
  "dec_srpc_header b = \<lparr>sh_id = dec_word (seg 0 1 b), sh_checksum = dec_word (seg 1 8 b)\<rparr>"

interpretation srpc_header_packed: packed 9 enc_srpc_header dec_srpc_header "\<lambda>_. True"
  by unfold_locales (simp_all add: enc_srpc_header_def dec_srpc_header_def layout_simps)

record sreply_header =
  sr_callstatus :: call_status
  sr_checksum :: u64
  sr_dummy :: u8

definition enc_sreply_header :: "sreply_header \<Rightarrow> bytes" where
  "enc_sreply_header h = enc_word (sr_callstatus h) @ enc_word (sr_checksum h) @ enc_word (sr_dummy h)"

definition dec_sreply_header :: "bytes \<Rightarrow> sreply_header" where
  "dec_sreply_header b = \<lparr>sr_callstatus = dec_word (seg 0 1 b), sr_checksum = dec_word (seg 1 8 b),
                          sr_dummy = dec_word (seg 9 1 b)\<rparr>"

interpretation sreply_header_packed: packed 10 enc_sreply_header dec_sreply_header "\<lambda>_. True"
  by unfold_locales (simp_all add: enc_sreply_header_def dec_sreply_header_def layout_simps)

section \<open>Names in fixed arrays\<close>

text \<open>
  The client copies the name into a zeroed 64-byte array; the server turns the array into
  a \<open>std::string\<close>, which reads up to the first NUL. Without a NUL it would read past the array.
\<close>

definition name_array :: "bytes \<Rightarrow> bytes" where
  "name_array nm = memcpy (replicate (kMaxQPNameLen + 1) 0) nm (length nm)"

definition c_string :: "bytes \<Rightarrow> bytes outcome" where
  "c_string a = (if 0 \<in> set a then Inr (takeWhile (\<lambda>c. c \<noteq> 0) a) else Inl Undefined)"

lemma wf_name_array: "length nm \<le> kMaxQPNameLen \<Longrightarrow> wf_name (name_array nm)"
  by (simp add: wf_name_def name_array_def memcpy_def)

lemma takeWhile_nonzero_append: "0 \<notin> set nm \<Longrightarrow> takeWhile (\<lambda>c. c \<noteq> 0) (nm @ 0 # r) = (nm :: bytes)"
  by (induction nm) auto

lemma c_string_name_array:
  "length nm \<le> kMaxQPNameLen \<Longrightarrow> 0 \<notin> set nm \<Longrightarrow> c_string (name_array nm) = Inr nm"
proof -
  assume len: "length nm \<le> kMaxQPNameLen" and nz: "0 \<notin> set nm"
  have "name_array nm = nm @ replicate (64 - length nm) 0"
    by (simp add: name_array_def memcpy_def)
  moreover have "replicate (64 - length nm) (0 :: u8) = 0 # replicate (63 - length nm) 0"
    using len by (simp add: Suc_diff_le flip: replicate_Suc)
  ultimately have "name_array nm = nm @ 0 # replicate (63 - length nm) 0"
    by simp
  thus ?thesis
    using nz by (simp add: c_string_def takeWhile_nonzero_append)
qed


text \<open>
  The requests that carry names survive marshalling, and the name the server reads out
  of the array is the name the client put in, for every name of at most 63 bytes without
  a NUL.
\<close>
theorem named_request_roundtrip:
  assumes "length nm \<le> kMaxQPNameLen" and "0 \<notin> set nm"
    and "rrq_name r = name_array nm" and "wf_name (rrq_name_recv r)"
  shows "dedump 246 dec_rc_req (dump 246 enc_rc_req r @ rest) = Some r \<and>
         length (dump 246 enc_rc_req r) = 246 \<and> c_string (rrq_name r) = Inr nm"
  using assms rc_req_packed.dedump_dump_append [of r rest] rc_req_packed.length_dump [of r]
  by (simp add: wf_rc_req_def wf_name_array c_string_name_array)

theorem named_request_roundtrip_witness:
  "c_string (rrq_name \<lparr>rrq_name = name_array [113, 112], rrq_name_recv = name_array [],
     rrq_whether_create = 1, rrq_whether_recv = 0, rrq_nic_id = 7,
     rrq_config = default_config sample_flags, rrq_attr = null_qp_attr, rrq_max_recv_sz = 4096\<rparr>)
   = Inr [113, 112]"
  by (rule named_request_roundtrip [THEN conjunct2, THEN conjunct2])
    (simp_all add: wf_name_array)

end
