(* ===== verification/SRpc.thy ===== *)
theory SRpc
  imports Channel MultiMsg Proto
begin

text \<open>
  The remote procedure calls of core/bootstrap/srpc.hh: the client \<open>SRpc\<close>, the table of
  handlers \<open>RPCFactory\<close> and the server loop \<open>SRpcHandler\<close>. A request and a reply are both
  a MultiMsg of a packed header and a payload. A handler may change the application's
  state \<open>'s\<close> and may throw; a \<open>catch (std::exception)\<close> intercepts exactly \<open>Thrown\<close>.
\<close>

section \<open>The client\<close>

record 'a srpc =
  sp_chan :: "'a send_channel"
  sp_checksum :: u64

definition invalid_checksum :: u64 where "invalid_checksum = 0"

definition srpc_of_channel :: "'a send_channel \<Rightarrow> 'a srpc" where
  "srpc_of_channel c = \<lparr>sp_chan = c, sp_checksum = invalid_checksum + 1\<rparr>"

definition srpc_new ::
  "('ai, 'x) netlib_scheme \<Rightarrow> int \<Rightarrow> bytes \<Rightarrow> ip_cache \<Rightarrow> sockaddr_in srpc outcome \<times> ip_cache"
where
  "srpc_new L now addr c =
     (case send_channel_create L now addr c of
        (ch, c') \<Rightarrow> (bindE (opt_value ch) (\<lambda>x. Inr (srpc_of_channel x)), c'))"

definition srpc_call ::
  "'a srpc \<Rightarrow> rpc_id_t \<Rightarrow> bytes \<Rightarrow> 'a net \<Rightarrow> bytes result outcome \<times> 'a net"
where
  "srpc_call S rid parameter n =
     (case create_exact kMaxMsgSz (of_nat (1 + length parameter)) of
        None \<Rightarrow> (Inr (Err (bstr ''Msg too large!, only kMaxMsgSz supported'')), n)
      | Some m0 \<Rightarrow>
          (case bindE (mmsg_append kMaxMsgSz m0
                         (dump 9 enc_srpc_header \<lparr>sh_id = rid, sh_checksum = sp_checksum S\<rparr>))
                  (\<lambda>(ok1, m1). bindE (assertE ok1) (\<lambda>_.
                bindE (mmsg_append kMaxMsgSz m1 parameter)
                  (\<lambda>(ok2, m2). bindE (assertE ok2) (\<lambda>_. Inr (mm_buf m2))))) of
             Inl e \<Rightarrow> (Inl e, n)
           | Inr buf \<Rightarrow> sc_send (sp_chan S) buf n))"

text \<open>Decoding a packet: the MultiMsg and the header that is its first message.\<close>

definition decode_head :: "nat \<Rightarrow> (bytes \<Rightarrow> 'h) \<Rightarrow> bytes \<Rightarrow> (mmsg \<times> 'h) outcome" where
  "decode_head sz dec b =
     bindE (create_from kMaxMsgSz b) (\<lambda>mo.
     bindE (opt_value mo) (\<lambda>m.
     bindE (query_one m 0) (\<lambda>ho.
     bindE (opt_value ho) (\<lambda>h0.
     bindE (opt_value (dedump sz dec h0)) (\<lambda>h. Inr (m, h))))))"

definition query_value :: "mmsg \<Rightarrow> usize \<Rightarrow> bytes outcome" where
  "query_value m i = bindE (query_one m i) opt_value"

text \<open>
  The body of the \<open>try\<close> block: whether to receive again (\<open>None\<close>) or what to return, and the
  checksum afterwards.
\<close>

definition check_reply :: "bool \<Rightarrow> u64 \<Rightarrow> bytes \<Rightarrow> bytes result option outcome \<times> u64" where
  "check_reply heartbeat checksum b =
     (case decode_head 10 dec_sreply_header b of
        Inl e \<Rightarrow> (Inl e, checksum)
      | Inr (m, h) \<Rightarrow>
          if sr_dummy h \<noteq> 0
          then (Inr (if \<not> heartbeat then None else Some (Ok [])), checksum)
          else if sr_checksum h = checksum
          then (if sr_callstatus h = CS_Ok
                then bindE (query_value m 1) (\<lambda>r. Inr (Some (Ok r)))
                else if sr_callstatus h = CS_Nop then Inr (Some (Err (bstr ''Not ready'')))
                else Inr (Some (Err (bstr ''unknown error''))),
                checksum + 1)
          else (Inr (Some (Err (bstr ''Fatal checksum error''))), checksum))"

lemma try_recv_inbox:
  "try_recv fd buf n = (Inr (res, b'), n') \<Longrightarrow> code res = IO_Ok \<Longrightarrow>
     length (inbox n') < length (inbox n)"
  by (auto simp: try_recv_def next_event_def split: if_splits prod.splits list.splits sel_ev.splits)

lemma sc_recv_inbox:
  "sc_recv c n = (Inr res, n') \<Longrightarrow> code res = IO_Ok \<Longrightarrow> length (inbox n') < length (inbox n)"
  by (auto simp: sc_recv_def split: prod.splits sum.splits if_splits dest: try_recv_inbox)

function receive_reply :: "'a srpc \<Rightarrow> bool \<Rightarrow> 'a net \<Rightarrow> bytes result outcome \<times> 'a srpc \<times> 'a net" where
  "receive_reply S heartbeat n =
     (case sc_recv (sp_chan S) n of
        (Inl e, n') \<Rightarrow> (Inl e, S, n')
      | (Inr res, n') \<Rightarrow>
          if code res \<noteq> IO_Ok then (Inr res, S, n')
          else
            (case check_reply heartbeat (sp_checksum S) (desc res) of
               (Inl Thrown, c') \<Rightarrow> (Inr (Err (bstr ''decode reply error'')), S\<lparr>sp_checksum := c'\<rparr>, n')
             | (Inl e, c') \<Rightarrow> (Inl e, S\<lparr>sp_checksum := c'\<rparr>, n')
             | (Inr None, c') \<Rightarrow> receive_reply S heartbeat n'
             | (Inr (Some r), c') \<Rightarrow> (Inr r, S\<lparr>sp_checksum := c'\<rparr>, n')))"
  by pat_completeness auto
termination
  by (relation "measure (\<lambda>(_, _, n). length (inbox n))") (auto dest!: sc_recv_inbox [OF sym])

declare receive_reply.simps [simp del]

section \<open>The handlers\<close>

type_synonym 's handler = "bytes \<Rightarrow> 's \<Rightarrow> bytes outcome \<times> 's"

type_synonym 's rpc_factory = "(rpc_id_t \<times> 's handler) list"

definition heartbeat_handler :: "'s handler" where
  "heartbeat_handler b s = (Inr (bstr ''1''), s)"

definition register_handler :: "'s rpc_factory \<Rightarrow> rpc_id_t \<Rightarrow> 's handler \<Rightarrow> bool \<times> 's rpc_factory" where
  "register_handler f rid val = (if map_of f rid = None then (True, (rid, val) # f) else (False, f))"

definition rpc_factory_new :: "'s rpc_factory" where
  "rpc_factory_new = snd (register_handler [] HeartBeat heartbeat_handler)"

text \<open>\<open>find(id)->second\<close> of an id that is not registered dereferences the end iterator.\<close>

definition call_one :: "'s rpc_factory \<Rightarrow> rpc_id_t \<Rightarrow> bytes \<Rightarrow> 's \<Rightarrow> bytes outcome \<times> 's" where
  "call_one f rid parameter s =
     (case map_of f rid of None \<Rightarrow> (Inl Undefined, s) | Some fn \<Rightarrow> fn parameter s)"

section \<open>The server\<close>

record ('a, 's) srpc_handler =
  hd_chan :: "'a recv_channel"
  hd_fac :: "'s rpc_factory"

definition handler_of_channel :: "'a recv_channel \<Rightarrow> ('a, 's) srpc_handler" where
  "handler_of_channel c = \<lparr>hd_chan = c, hd_fac = rpc_factory_new\<rparr>"

definition srpc_handler_new ::
  "('ai, 'x) netlib_scheme \<Rightarrow> int \<Rightarrow> bytes \<Rightarrow> ('a, 's) srpc_handler outcome"
where
  "srpc_handler_new L port h =
     bindE (recv_channel_create L port h) (\<lambda>co.
     bindE (opt_value co) (\<lambda>(c, bound). Inr (handler_of_channel c)))"

definition handler_register ::
  "('a, 's) srpc_handler \<Rightarrow> rpc_id_t \<Rightarrow> 's handler \<Rightarrow> bool \<times> ('a, 's) srpc_handler"
where
  "handler_register H rid val =
     (case register_handler (hd_fac H) rid val of (ok, f) \<Rightarrow> (ok, H\<lparr>hd_fac := f\<rparr>))"

definition status_reply :: "call_status \<Rightarrow> u64 \<Rightarrow> bytes outcome" where
  "status_reply st checksum =
     bindE (opt_value (create_exact kMaxMsgSz 10)) (\<lambda>m.
     bindE (mmsg_append kMaxMsgSz m
              (dump 10 enc_sreply_header \<lparr>sr_callstatus = st, sr_checksum = checksum, sr_dummy = 0\<rparr>))
       (\<lambda>(_, m'). Inr (mm_buf m')))"

definition coded_reply :: "rpc_id_t \<Rightarrow> u64 \<Rightarrow> bytes \<Rightarrow> bytes outcome" where
  "coded_reply rid checksum reply =
     bindE (opt_value (create_exact kMaxMsgSz (of_nat (10 + length reply)))) (\<lambda>m.
     bindE (mmsg_append kMaxMsgSz m
              (dump 10 enc_sreply_header
                 \<lparr>sr_callstatus = CS_Ok, sr_checksum = checksum,
                  sr_dummy = (if rid = HeartBeat then 1 else 0)\<rparr>)) (\<lambda>(_, m1).
     bindE (mmsg_append kMaxMsgSz m1 reply) (\<lambda>(_, m2). Inr (mm_buf m2))))"

text \<open>
  The body of the loop up to sending: the datagram sent back. \<open>reply_cur\<close> cannot throw here
  (there is a current message), so it is the same inside and after the \<open>try\<close> block.
\<close>

definition serve_request :: "'s rpc_factory \<Rightarrow> bytes \<Rightarrow> 's \<Rightarrow> bytes outcome \<times> 's" where
  "serve_request f msg s =
     (case decode_head 9 dec_srpc_header msg of
        Inl Thrown \<Rightarrow> (status_reply CS_FatalErr invalid_checksum, s)
      | Inl e \<Rightarrow> (Inl e, s)
      | Inr (m, h) \<Rightarrow>
          (case (case query_value m 1 of
                   Inl e \<Rightarrow> (Inl e, s)
                 | Inr parameter \<Rightarrow>
                     (case call_one f (sh_id h) parameter s of
                        (Inl e, s') \<Rightarrow> (Inl e, s')
                      | (Inr reply, s') \<Rightarrow> (coded_reply (sh_id h) (sh_checksum h) reply, s'))) of
             (Inl Thrown, s') \<Rightarrow> (status_reply CS_Nop (sh_checksum h), s')
           | r \<Rightarrow> r))"

definition serve_one ::
  "('a, 's) srpc_handler \<Rightarrow> 's \<Rightarrow> 'a net \<Rightarrow> unit outcome \<times> 's \<times> 'a net"
where
  "serve_one H s n =
     (case serve_request (hd_fac H) (cur_msg (hd_chan H)) s of
        (Inl e, s') \<Rightarrow> (Inl e, s', n)
      | (Inr reply, s') \<Rightarrow>
          (case reply_cur (hd_chan H) reply n of
             (Inl e, n') \<Rightarrow> (Inl e, s', n')
           | (Inr _, n') \<Rightarrow> (Inr (), s', n')))"

lemma raw_send_inbox [simp]: "inbox (snd (raw_send fd b a n)) = inbox n"
  by (auto simp: raw_send_def sendto_def split: list.splits bool.splits)

lemma reply_cur_inbox [simp]: "inbox (snd (reply_cur c b n)) = inbox n"
  by (auto simp: reply_cur_def split: option.splits)

lemma reply_cur_inboxD: "reply_cur c b n = (r, n') \<Longrightarrow> inbox n' = inbox n"
  by (metis reply_cur_inbox snd_conv)

lemma serve_one_inbox: "serve_one H s n = (r, s', n') \<Longrightarrow> inbox n' = inbox n"
  by (auto simp: serve_one_def split: prod.splits sum.splits dest: reply_cur_inboxD)

lemma try_recv_consumes:
  "try_recv fd buf n = (r, n') \<Longrightarrow> fd_valid fd \<Longrightarrow>
     inbox n' = tl (inbox n) \<and> (inbox n = [] \<longrightarrow> r = Inr (Timeout None, buf))"
  by (auto simp: try_recv_def next_event_def split: list.splits prod.splits sel_ev.splits)

lemma rc_next_decreases:
  assumes "rc_next c n = (Inr c', n')" and "has_msg c"
  shows "length (inbox n') + (if has_msg c' then 1 else 0) < length (inbox n) + 1"
proof (cases "fd_valid (rc_fd c)")
  case True
  obtain r m where t: "try_recv (rc_fd c) (cur_msg c) n = (r, m)"
    by fastforce
  with assms try_recv_consumes [OF t True] show ?thesis
    by (cases "inbox n") (auto simp: rc_next_def rc_start_def has_msg_def split: sum.splits prod.splits if_splits)
qed (use assms in \<open>auto simp: rc_next_def rc_start_def has_msg_def try_recv_def\<close>)

function serve_loop ::
  "('a, 's) srpc_handler \<Rightarrow> usize \<Rightarrow> 's \<Rightarrow> 'a net \<Rightarrow> usize outcome \<times> ('a, 's) srpc_handler \<times> 's \<times> 'a net"
where
  "serve_loop H cnt s n =
     (if \<not> has_msg (hd_chan H) then (Inr cnt, H, s, n)
      else
        (case serve_one H s n of
           (Inl e, s', n') \<Rightarrow> (Inl e, H, s', n')
         | (Inr _, s', n') \<Rightarrow>
             (case rc_next (hd_chan H) n' of
                (Inl e, n'') \<Rightarrow> (Inl e, H, s', n'')
              | (Inr c', n'') \<Rightarrow> serve_loop (H\<lparr>hd_chan := c'\<rparr>) (cnt + 1) s' n'')))"
  by pat_completeness auto
termination
  by (relation "measure (\<lambda>(H, _, _, n). length (inbox n) + (if has_msg (hd_chan H) then 1 else 0))")
    (auto dest!: rc_next_decreases [OF sym] serve_one_inbox [OF sym])

declare serve_loop.simps [simp del]

definition run_one_event_loop ::
  "('a, 's) srpc_handler \<Rightarrow> 's \<Rightarrow> 'a net \<Rightarrow> usize outcome \<times> ('a, 's) srpc_handler \<times> 's \<times> 'a net"
where
  "run_one_event_loop H s n =
     (case rc_start (hd_chan H) n of
        (Inl e, n') \<Rightarrow> (Inl e, H, s, n')
      | (Inr c, n') \<Rightarrow> serve_loop (H\<lparr>hd_chan := c\<rparr>) 0 s n')"

end
