(* ===== verification/SRpcSpec.thy ===== *)
theory SRpcSpec
  imports SRpc
begin

text \<open>
  What the calls of core/bootstrap/srpc.hh promise: which packets are requests and replies,
  what the server answers to each request, what the client makes of each reply, and both
  ends together.
\<close>

section \<open>Packets\<close>

definition request_packet :: "bytes \<Rightarrow> rpc_id_t \<Rightarrow> u64 \<Rightarrow> bytes \<Rightarrow> bytes \<Rightarrow> bool" where
  "request_packet b rid ck p rest \<longleftrightarrow>
     encodes b [dump 9 enc_srpc_header \<lparr>sh_id = rid, sh_checksum = ck\<rparr>, p] rest"

definition reply_packet :: "bytes \<Rightarrow> call_status \<Rightarrow> u64 \<Rightarrow> u8 \<Rightarrow> bytes list \<Rightarrow> bytes \<Rightarrow> bool" where
  "reply_packet b st ck dm pl rest \<longleftrightarrow>
     encodes b (dump 10 enc_sreply_header \<lparr>sr_callstatus = st, sr_checksum = ck, sr_dummy = dm\<rparr> # pl) rest"

lemma request_packet_extend: "request_packet b rid ck p [] \<Longrightarrow> request_packet (b @ r) rid ck p r"
  by (auto simp: request_packet_def dest: encodes_extend [of _ _ _ r])

lemma reply_packet_extend: "reply_packet b st ck dm pl [] \<Longrightarrow> reply_packet (b @ r) st ck dm pl r"
  by (auto simp: reply_packet_def dest: encodes_extend [of _ _ _ r])

lemma request_packet_length: "request_packet b rid ck p [] \<Longrightarrow> length b = 42 + length p"
  by (auto simp: request_packet_def srpc_header_packed.length_dump dest!: encodes_length)

lemma reply_packet_length:
  "reply_packet b st ck dm pl [] \<Longrightarrow> length b = 43 + length (concat pl)"
  by (auto simp: reply_packet_def sreply_header_packed.length_dump dest!: encodes_length)

text \<open>Decoding the first message of a packet gives the header that was dumped into it.\<close>

context packed
begin

lemma decode_head_encodes:
  assumes "encodes b (dump sz enc x # msgs) rest" and "length b \<le> 4096" and "wf x"
  shows "decode_head sz dec b = Inr (mmsg_view b, x)"
proof -
  have "create_from 4096 b = Inr (Some (mmsg_view b))"
    by (rule create_from_encodes [OF assms(1,2)]) simp
  moreover have "query_one (mmsg_view b) 0 = Inr (Some (dump sz enc x))"
    using query_one_encodes [of "mmsg_view b" "dump sz enc x # msgs" rest 0] assms(1)
    by (simp add: mmsg_view_def)
  ultimately show ?thesis
    using dedump_dump [OF assms(3)] by (simp add: decode_head_def)
qed

end

lemma query_value_1:
  assumes "encodes b (x # msgs) rest"
  shows "query_value (mmsg_view b) 1 = (case msgs of [] \<Rightarrow> Inl Thrown | y # _ \<Rightarrow> Inr y)"
  using query_one_encodes [of "mmsg_view b" "x # msgs" rest 1] assms
  by (simp add: query_value_def mmsg_view_def split: list.splits)

section \<open>Encoding\<close>

lemma status_reply_packet: "\<exists>d. status_reply st ck = Inr d \<and> reply_packet d st ck 0 [] []"
proof -
  let ?x = "dump 10 enc_sreply_header \<lparr>sr_callstatus = st, sr_checksum = ck, sr_dummy = 0\<rparr>"
  have l: "length ?x = 10"
    by (simp add: sreply_header_packed.length_dump)
  obtain m0 m1 where "create_exact 4096 10 = Some m0" "mmsg_append 4096 m0 ?x = Inr (True, m1)"
      "encodes (mm_buf m1) [?x] []"
    using exact_two [of 10 4096 ?x "[]"] l by (auto simp del: not_None_eq)
  then show ?thesis
    by (simp add: status_reply_def reply_packet_def)
qed

lemma coded_reply_packet:
  assumes "length r \<le> 4053"
  shows "\<exists>d. coded_reply rid ck r = Inr d \<and>
             reply_packet d CS_Ok ck (if rid = HeartBeat then 1 else 0) [r] []"
proof -
  let ?x = "dump 10 enc_sreply_header
    \<lparr>sr_callstatus = CS_Ok, sr_checksum = ck, sr_dummy = (if rid = HeartBeat then 1 else 0)\<rparr>"
  have l: "length ?x = 10"
    by (simp add: sreply_header_packed.length_dump)
  obtain m0 m1 m2 where "create_exact 4096 (of_nat (10 + length r)) = Some m0"
      "mmsg_append 4096 m0 ?x = Inr (True, m1)" "mmsg_append 4096 m1 r = Inr (True, m2)"
      "encodes (mm_buf m2) [?x, r] []"
    using exact_two [of "10 + length r" 4096 ?x r] l assms by (auto simp del: of_nat_add)
  then show ?thesis
    by (simp add: coded_reply_def reply_packet_def del: of_nat_add)
qed

lemma coded_reply_too_large:
  assumes "4053 < length r" "length r < 2 ^ 32 - 10"
  shows "coded_reply rid ck r = Inl Thrown"
proof -
  have "unat (of_nat (10 + length r) :: usize) = 10 + length r"
    using assms by (simp add: unat_of_nat del: of_nat_add)
  then show ?thesis
    using assms by (simp add: coded_reply_def create_exact_def del: of_nat_add)
qed

lemma srpc_call_packet:
  assumes "length p \<le> 4054"
  shows "\<exists>d. (\<forall>n. srpc_call S rid p n = sc_send (sp_chan S) d n) \<and>
             request_packet d rid (sp_checksum S) p []"
proof -
  let ?x = "dump 9 enc_srpc_header \<lparr>sh_id = rid, sh_checksum = sp_checksum S\<rparr>"
  have l: "length ?x = 9"
    by (simp add: srpc_header_packed.length_dump)
  have "0 < 1 + length p" "1 + length p + header_size \<le> 4096" "33 + length ?x + length p \<le> 4096"
      "length ?x \<le> 33"
    using l assms by simp_all
  then obtain m0 m1 m2 where "create_exact 4096 (of_nat (1 + length p)) = Some m0"
      "mmsg_append 4096 m0 ?x = Inr (True, m1)" "mmsg_append 4096 m1 p = Inr (True, m2)"
      "encodes (mm_buf m2) [?x, p] []"
    using exact_two [of "1 + length p" 4096 ?x p] by auto
  then show ?thesis
    by (auto simp: srpc_call_def request_packet_def simp del: of_nat_add of_nat_Suc)
qed

lemma sendto_ok:
  "send_fails n = [] \<Longrightarrow> sendto d a n = (int (length d), n\<lparr>outbox := outbox n @ [(a, d)]\<rparr>)"
  by (cases n) (simp add: sendto_def)

lemma sc_send_ok:
  "fd_valid (sc_fd c) \<Longrightarrow> send_fails n = [] \<Longrightarrow> d \<noteq> [] \<Longrightarrow>
     sc_send c d n = (Inr (Ok []), n\<lparr>outbox := outbox n @ [(sc_end c, d)]\<rparr>)"
  by (simp add: sc_send_def raw_send_def sendto_ok)

section \<open>The client's call\<close>

lemma append_too_large:
  "MAXSZ < length (mm_buf m) + length x \<Longrightarrow> mmsg_append MAXSZ m x = Inr (False, m)"
  by (simp add: mmsg_append_def)

lemma srpc_call_gap:
  assumes "4055 \<le> length p" "length p \<le> 4062"
  shows "srpc_call S rid p n = (Inl Aborted, n)"
proof -
  let ?x = "dump 9 enc_srpc_header \<lparr>sh_id = rid, sh_checksum = sp_checksum S\<rparr>"
  have l: "length ?x = 9"
    by (simp add: srpc_header_packed.length_dump)
  have "0 < 1 + length p" "1 + length p + header_size \<le> 4096" "33 + length ?x + length [] \<le> 4096"
      "length ?x \<le> 33"
    using l assms by simp_all
  then obtain m0 m1 where m: "create_exact 4096 (of_nat (1 + length p)) = Some m0"
      "mmsg_append 4096 m0 ?x = Inr (True, m1)" "encodes (mm_buf m1) [?x] []"
    using exact_two [of "1 + length p" 4096 ?x "[]"] by auto
  have "mmsg_append 4096 m1 p = Inr (False, m1)"
    using encodes_length [OF m(3)] l assms by (intro append_too_large) simp
  with m show ?thesis
    by (simp add: srpc_call_def del: of_nat_add of_nat_Suc)
qed

lemma srpc_call_too_large:
  assumes "4062 < length p" "length p < 2 ^ 32 - 1"
  shows "srpc_call S rid p n = (Inr (Err (bstr ''Msg too large!, only kMaxMsgSz supported'')), n)"
proof -
  have "unat (of_nat (1 + length p) :: usize) = 1 + length p"
    using assms by (simp add: unat_of_nat del: of_nat_add of_nat_Suc)
  then show ?thesis
    using assms by (simp add: srpc_call_def create_exact_def del: of_nat_add of_nat_Suc)
qed

text \<open>
  C36: what a call does with a parameter of each size. Up to 4054 bytes it sends one
  packet that carries the id, the client's checksum and the parameter; beyond 4062 bytes
  it reports an error and sends nothing. In between, the size check counts the id instead
  of the whole header, the parameter does not fit behind the header, and the call aborts.
\<close>
theorem srpc_call_sizes:
  assumes "fd_valid (sc_fd (sp_chan S))" and "send_fails n = []" and "length p < 2 ^ 32 - 1"
  shows "if length p \<le> 4054
         then \<exists>d. srpc_call S rid p n =
                    (Inr (Ok []), n\<lparr>outbox := outbox n @ [(sc_end (sp_chan S), d)]\<rparr>) \<and>
                  request_packet d rid (sp_checksum S) p []
         else if length p \<le> 4062 then srpc_call S rid p n = (Inl Aborted, n)
         else srpc_call S rid p n =
                (Inr (Err (bstr ''Msg too large!, only kMaxMsgSz supported'')), n)"
proof (cases "length p \<le> 4054")
  case True
  from srpc_call_packet [OF True] obtain d where
    d: "srpc_call S rid p n = sc_send (sp_chan S) d n" "request_packet d rid (sp_checksum S) p []"
    by blast
  moreover have "d \<noteq> []"
    using request_packet_length [OF d(2)] by auto
  ultimately show ?thesis
    using True assms sc_send_ok by auto
next
  case False
  then show ?thesis
    using srpc_call_gap [of p] srpc_call_too_large [of p] assms(3) by auto
qed

theorem srpc_call_sizes_witness:
  "srpc_call (srpc_of_channel \<lparr>sc_fd = 3, sc_end = ()\<rparr>) 1 (replicate 4060 0)
     \<lparr>inbox = [], send_fails = [], err_text = [], outbox = []\<rparr> =
   (Inl Aborted, \<lparr>inbox = [], send_fails = [], err_text = [], outbox = []\<rparr>)"
  using srpc_call_sizes [of "srpc_of_channel \<lparr>sc_fd = 3, sc_end = ()\<rparr>"
      "\<lparr>inbox = [], send_fails = [], err_text = [], outbox = []\<rparr>" "replicate 4060 0" 1]
  by (simp add: srpc_of_channel_def fd_valid_def)

section \<open>The server's answer to one request\<close>

text \<open>Status and payload of the answer when the handler gave \<open>r\<close>.\<close>

definition answer_status :: "bytes outcome \<Rightarrow> call_status" where
  "answer_status r = (case r of Inr b \<Rightarrow> if length b \<le> 4053 then CS_Ok else CS_Nop | Inl _ \<Rightarrow> CS_Nop)"

definition answer_payload :: "bytes outcome \<Rightarrow> bytes list" where
  "answer_payload r = (case r of Inr b \<Rightarrow> if length b \<le> 4053 then [b] else [] | Inl _ \<Rightarrow> [])"

definition answer_packet :: "bytes \<Rightarrow> rpc_id_t \<Rightarrow> u64 \<Rightarrow> bytes outcome \<Rightarrow> bool" where
  "answer_packet d rid ck r \<longleftrightarrow>
     reply_packet d (answer_status r) ck
       (if rid = HeartBeat \<and> answer_status r = CS_Ok then 1 else 0) (answer_payload r) []"

text \<open>A handler's outcome that the loop survives.\<close>

definition good_outcome :: "bytes outcome \<Rightarrow> bool" where
  "good_outcome r = (case r of Inr b \<Rightarrow> length b < 2 ^ 32 - 10 | Inl e \<Rightarrow> e = Thrown)"

lemma status_neq: "CS_Ok \<noteq> CS_Nop"
  by (simp add: CS_Ok_def CS_Nop_def)

lemma serve_request_decoded:
  assumes "request_packet msg rid ck p rest" "length msg \<le> 4096"
  shows "serve_request f msg s =
    (case (case call_one f rid p s of
             (Inl e, s') \<Rightarrow> (Inl e, s')
           | (Inr reply, s') \<Rightarrow> (coded_reply rid ck reply, s')) of
       (Inl Thrown, s') \<Rightarrow> (status_reply CS_Nop ck, s')
     | r \<Rightarrow> r)"
  using srpc_header_packed.decode_head_encodes [OF assms(1) [unfolded request_packet_def] assms(2)]
    query_value_1 [OF assms(1) [unfolded request_packet_def]]
  by (simp add: serve_request_def cong: prod.case_cong sum.case_cong fault.case_cong)

lemma serve_request_good:
  assumes "request_packet msg rid ck p rest" and "length msg \<le> 4096"
    and "map_of f rid = Some fn" and "fn p s = (r, s')" and "good_outcome r"
  shows "\<exists>d. serve_request f msg s = (Inr d, s') \<and> answer_packet d rid ck r"
proof (cases r)
  case (Inl e)
  then have "e = Thrown"
    using assms(5) by (simp add: good_outcome_def)
  then show ?thesis
    using Inl status_reply_packet [of CS_Nop ck] status_neq assms(3,4)
    by (auto simp: serve_request_decoded [OF assms(1,2)] call_one_def answer_packet_def
        answer_status_def answer_payload_def)
next
  case (Inr b)
  show ?thesis
  proof (cases "length b \<le> 4053")
    case True
    from coded_reply_packet [OF True, of rid ck] Inr True show ?thesis
      using assms(3,4)
      by (auto simp: serve_request_decoded [OF assms(1,2)] call_one_def answer_packet_def
          answer_status_def answer_payload_def split: if_splits)
  next
    case False
    then have "coded_reply rid ck b = Inl Thrown"
      using assms(5) Inr by (intro coded_reply_too_large) (simp_all add: good_outcome_def)
    then show ?thesis
      using Inr False status_reply_packet [of CS_Nop ck] status_neq assms(3,4)
      by (auto simp: serve_request_decoded [OF assms(1,2)] call_one_def answer_packet_def
          answer_status_def answer_payload_def)
  qed
qed

text \<open>
  C16: the answer to a request for a registered id. The handler runs once, on exactly the
  parameter that was sent and whatever bytes follow the packet in the buffer. The reply
  carries the request's checksum; it is Ok with the handler's result when that fits in a
  packet, and Nop without payload when the handler throws or its result is larger.
\<close>
theorem serve_request_answer:
  assumes "request_packet msg rid ck p rest" and "length msg \<le> 4096"
    and "map_of f rid = Some fn" and "fn p s = (r, s')" and "good_outcome r"
  shows "\<exists>d. serve_request f msg s = (Inr d, s') \<and> answer_packet d rid ck r"
  by (rule serve_request_good [OF assms])

text \<open>A request packet for the witnesses.\<close>

definition sample_packet :: "rpc_id_t \<Rightarrow> u64 \<Rightarrow> bytes \<Rightarrow> bytes" where
  "sample_packet rid ck p =
     (case bindE (opt_value (create_exact 4096 (of_nat (1 + length p)))) (\<lambda>m0.
           bindE (mmsg_append 4096 m0 (dump 9 enc_srpc_header \<lparr>sh_id = rid, sh_checksum = ck\<rparr>)) (\<lambda>(_, m1).
           bindE (mmsg_append 4096 m1 p) (\<lambda>(_, m2). Inr (mm_buf m2)))) of
        Inr b \<Rightarrow> b | Inl _ \<Rightarrow> [])"

lemma sample_packet_request:
  assumes "length p \<le> 4054"
  shows "request_packet (sample_packet rid ck p) rid ck p []"
proof -
  let ?x = "dump 9 enc_srpc_header \<lparr>sh_id = rid, sh_checksum = ck\<rparr>"
  have "0 < 1 + length p" "1 + length p + header_size \<le> 4096" "33 + length ?x + length p \<le> 4096"
      "length ?x \<le> 33"
    using assms by (simp_all add: srpc_header_packed.length_dump)
  then obtain m0 m1 m2 where "create_exact 4096 (of_nat (1 + length p)) = Some m0"
      "mmsg_append 4096 m0 ?x = Inr (True, m1)" "mmsg_append 4096 m1 p = Inr (True, m2)"
      "encodes (mm_buf m2) [?x, p] []"
    using exact_two [of "1 + length p" 4096 ?x p] by auto
  then show ?thesis
    by (simp add: sample_packet_def request_packet_def del: of_nat_add of_nat_Suc)
qed

lemma sample_packet_length: "length p \<le> 4054 \<Longrightarrow> length (sample_packet rid ck p) = 42 + length p"
  by (rule request_packet_length [OF sample_packet_request])

theorem serve_request_answer_witness:
  "\<exists>d. serve_request [(7, \<lambda>p s. (Inr (p @ p), Suc s))] (sample_packet 7 1 [5, 6]) 0 = (Inr d, Suc 0) \<and>
       answer_packet d 7 1 (Inr [5, 6, 5, 6])"
  by (rule serve_request_answer [OF sample_packet_request, where fn = "\<lambda>p s. (Inr (p @ p), Suc s)" and r = "Inr [5, 6, 5, 6]"])
    (simp_all add: sample_packet_length good_outcome_def)

text \<open>
  A datagram that is not a packet does not reach any handler. If it is longer than a
  header but its header fails the sanity check, the answer is FatalErr with checksum 0
  and the application's state is unchanged.
\<close>
theorem serve_request_malformed:
  assumes "header_size \<le> length msg" and "length msg \<le> 4096"
    and "\<not> sanity_check (dec_header (seg 0 header_size msg)) (of_nat (length msg))"
  shows "\<exists>d. serve_request f msg s = (Inr d, s) \<and> reply_packet d CS_FatalErr invalid_checksum 0 [] []"
proof -
  have "create_from 4096 msg = Inr None"
    using assms by (simp add: create_from_hdr hdr_def)
  then show ?thesis
    using status_reply_packet [of CS_FatalErr invalid_checksum]
    by (auto simp: serve_request_def decode_head_def)
qed

theorem serve_request_malformed_witness:
  "\<exists>d. serve_request [] (replicate 40 255) () = (Inr d, ()) \<and>
       reply_packet d CS_FatalErr invalid_checksum 0 [] []"
  by (rule serve_request_malformed)
    (simp_all add: sanity_check_def dec_header_def seg_def dec_word_def)

text \<open>
  A request for an id nobody registered has no defined behaviour: the look-up's end
  iterator is dereferenced. Any client can send one.
\<close>
theorem serve_request_unknown_id:
  assumes "request_packet msg rid ck p rest" and "length msg \<le> 4096" and "map_of f rid = None"
  shows "serve_request f msg s = (Inl Undefined, s)"
  using assms(3) by (simp add: serve_request_decoded [OF assms(1,2)] call_one_def)

theorem serve_request_unknown_id_witness:
  "serve_request rpc_factory_new (sample_packet 9 1 [5, 6]) () = (Inl Undefined, ())"
  by (rule serve_request_unknown_id [OF sample_packet_request])
    (simp_all add: sample_packet_length rpc_factory_new_def register_handler_def HeartBeat_def)

section \<open>The server loop\<close>

text \<open>
  The specification of the loop: requests, each with its sender, are handled in order, and
  each answer goes to the sender of its request.
\<close>

record 'a request =
  rq_from :: 'a
  rq_id :: rpc_id_t
  rq_ck :: u64
  rq_param :: bytes
  rq_dgram :: bytes

definition run_handler :: "'s rpc_factory \<Rightarrow> 'a request \<Rightarrow> 's \<Rightarrow> bytes outcome \<times> 's" where
  "run_handler f q s = call_one f (rq_id q) (rq_param q) s"

fun run_all :: "'s rpc_factory \<Rightarrow> 'a request list \<Rightarrow> 's \<Rightarrow> bytes outcome list \<times> 's" where
  "run_all f [] s = ([], s)" |
  "run_all f (q # qs) s =
     (case run_handler f q s of (r, s1) \<Rightarrow> (case run_all f qs s1 of (rs, s2) \<Rightarrow> (r # rs, s2)))"

definition answers :: "'a request \<times> bytes outcome \<Rightarrow> 'a \<times> bytes \<Rightarrow> bool" where
  "answers qr ob \<longleftrightarrow> fst ob = rq_from (fst qr) \<and>
     answer_packet (snd ob) (rq_id (fst qr)) (rq_ck (fst qr)) (snd qr)"

definition wf_request :: "'s rpc_factory \<Rightarrow> 'a request \<Rightarrow> bool" where
  "wf_request f q \<longleftrightarrow> request_packet (rq_dgram q) (rq_id q) (rq_ck q) (rq_param q) [] \<and>
     length (rq_dgram q) \<le> 4096 \<and> map_of f (rq_id q) \<noteq> None"

definition good_handlers :: "'s rpc_factory \<Rightarrow> bool" where
  "good_handlers f \<longleftrightarrow> (\<forall>rid fn p s. map_of f rid = Some fn \<longrightarrow> length p \<le> 4096 \<longrightarrow> good_outcome (fst (fn p s)))"

definition idle :: "('a, 's) srpc_handler \<Rightarrow> bool" where
  "idle H \<longleftrightarrow> fd_valid (rc_fd (hd_chan H)) \<and> length (cur_msg (hd_chan H)) = 4096 \<and>
     \<not> has_msg (hd_chan H)"

definition arrivals :: "'a request list \<Rightarrow> 'a sel_ev list" where
  "arrivals qs = map (\<lambda>q. SelData (rq_from q) (rq_dgram q)) qs"

text \<open>A received datagram: the buffer keeps its size, and old bytes follow the datagram.\<close>

lemma rc_start_data:
  assumes "idle H" "inbox n = SelData a d # es" "length d \<le> 4096"
  shows "rc_start (hd_chan H) n =
           (Inr ((hd_chan H)\<lparr>cur_msg := d @ drop (length d) (cur_msg (hd_chan H)), cur_msg_client := Some a\<rparr>),
            n\<lparr>inbox := es\<rparr>)"
  using assms
  by (simp add: rc_start_def try_recv_def idle_def next_event_def memcpy_def min_def)

lemma rc_start_empty:
  assumes "idle H" "inbox n = []"
  shows "rc_start (hd_chan H) n = (Inr (hd_chan H), n)"
  using assms by (simp add: rc_start_def try_recv_def idle_def next_event_def)

lemma rc_next_drop: "rc_next c n = rc_start (c\<lparr>cur_msg_client := None\<rparr>) n"
  by (simp add: rc_next_def)

definition drop_client :: "('a, 's) srpc_handler \<Rightarrow> ('a, 's) srpc_handler" where
  "drop_client H = H\<lparr>hd_chan := (hd_chan H)\<lparr>cur_msg_client := None\<rparr>\<rparr>"

definition with_msg :: "('a, 's) srpc_handler \<Rightarrow> 'a \<Rightarrow> bytes \<Rightarrow> ('a, 's) srpc_handler" where
  "with_msg H a d = H\<lparr>hd_chan := (hd_chan H)\<lparr>
     cur_msg := d @ drop (length d) (cur_msg (hd_chan H)), cur_msg_client := Some a\<rparr>\<rparr>"

lemma with_msg_simps [simp]:
  "hd_fac (with_msg H a d) = hd_fac H" "hd_fac (drop_client H) = hd_fac H"
  "has_msg (hd_chan (with_msg H a d))"
  "cur_msg_client (hd_chan (with_msg H a d)) = Some a"
  "rc_fd (hd_chan (with_msg H a d)) = rc_fd (hd_chan H)"
  "cur_msg (hd_chan (with_msg H a d)) = d @ drop (length d) (cur_msg (hd_chan H))"
  by (simp_all add: with_msg_def drop_client_def has_msg_def)

lemma idle_drop: "idle H \<Longrightarrow> length d \<le> 4096 \<Longrightarrow> idle (drop_client (with_msg H a d))"
  by (simp add: idle_def drop_client_def with_msg_def has_msg_def)

lemma good_handlers_run:
  assumes "good_handlers f" "wf_request f q"
  shows "good_outcome (fst (run_handler f q s))"
proof -
  obtain fn where fn: "map_of f (rq_id q) = Some fn"
    using assms(2) by (auto simp: wf_request_def)
  have "length (rq_param q) \<le> 4096"
    using assms(2) request_packet_length [of "rq_dgram q"] by (fastforce simp: wf_request_def)
  then show ?thesis
    using assms(1) fn by (simp add: good_handlers_def run_handler_def call_one_def)
qed

lemma serve_one_answer:
  assumes "idle H" "wf_request (hd_fac H) q" "good_outcome (fst (run_handler (hd_fac H) q s))" "send_fails n = []"
  shows "\<exists>d. serve_one (with_msg H (rq_from q) (rq_dgram q)) s n =
               (Inr (), snd (run_handler (hd_fac H) q s), n\<lparr>outbox := outbox n @ [(rq_from q, d)]\<rparr>) \<and>
             answers (q, fst (run_handler (hd_fac H) q s)) (rq_from q, d)"
proof -
  obtain fn where fn: "map_of (hd_fac H) (rq_id q) = Some fn"
    using assms(2) by (auto simp: wf_request_def)
  obtain r s' where r: "fn (rq_param q) s = (r, s')"
    by fastforce
  let ?m = "rq_dgram q @ drop (length (rq_dgram q)) (cur_msg (hd_chan H))"
  have "request_packet ?m (rq_id q) (rq_ck q) (rq_param q) (drop (length (rq_dgram q)) (cur_msg (hd_chan H)))"
    using assms(2) by (intro request_packet_extend) (simp add: wf_request_def)
  moreover have "length ?m \<le> 4096"
    using assms(1,2) by (simp add: idle_def wf_request_def)
  moreover have "good_outcome r"
    using assms(3) fn r by (simp add: run_handler_def call_one_def)
  ultimately obtain d where d: "serve_request (hd_fac H) ?m s = (Inr d, s')"
      "answer_packet d (rq_id q) (rq_ck q) r"
    using serve_request_good [OF _ _ fn r] by blast
  moreover have "d \<noteq> []"
    using d(2) reply_packet_length by (fastforce simp: answer_packet_def)
  ultimately show ?thesis
    using assms(1,4) fn r
    by (auto simp: serve_one_def reply_cur_def raw_send_def sendto_ok idle_def answers_def
        run_handler_def call_one_def)
qed

text \<open>The loop, entered before the next receive.\<close>

definition loop_from ::
  "('a, 's) srpc_handler \<Rightarrow> usize \<Rightarrow> 's \<Rightarrow> 'a net \<Rightarrow> usize outcome \<times> ('a, 's) srpc_handler \<times> 's \<times> 'a net"
where
  "loop_from H cnt s n =
     (case rc_start (hd_chan H) n of
        (Inl e, n') \<Rightarrow> (Inl e, H, s, n')
      | (Inr c, n') \<Rightarrow> serve_loop (H\<lparr>hd_chan := c\<rparr>) cnt s n')"

lemma loop_from_idle:
  assumes "idle H" "inbox n = []"
  shows "loop_from H cnt s n = (Inr cnt, H, s, n)"
  using assms rc_start_empty [OF assms]
  by (simp add: loop_from_def serve_loop.simps idle_def)

lemma loop_from_step:
  assumes "idle H" "inbox n = SelData a d # es" "length d \<le> 4096"
    and "serve_one (with_msg H a d) s (n\<lparr>inbox := es\<rparr>) = (Inr (), s', n')"
    and "rc_start (hd_chan (drop_client (with_msg H a d))) n' = (Inr c, n'')"
  shows "loop_from H cnt s n = loop_from (drop_client (with_msg H a d)) (cnt + 1) s' n'"
proof -
  let ?W = "with_msg H a d"
  have "loop_from H cnt s n = serve_loop ?W cnt s (n\<lparr>inbox := es\<rparr>)"
    using rc_start_data [OF assms(1-3)] by (simp add: loop_from_def with_msg_def)
  also have "rc_next (hd_chan ?W) n' = (Inr c, n'')"
    using assms(5) by (simp add: rc_next_drop drop_client_def)
  then have "serve_loop ?W cnt s (n\<lparr>inbox := es\<rparr>) = serve_loop (?W\<lparr>hd_chan := c\<rparr>) (cnt + 1) s' n''"
    by (simp add: serve_loop.simps [of ?W] assms(4))
  also have "\<dots> = loop_from (drop_client ?W) (cnt + 1) s' n'"
    using assms(5) by (simp add: loop_from_def drop_client_def)
  finally show ?thesis .
qed

lemma rc_start_arrivals:
  assumes "idle H" "inbox n = arrivals qs" "\<forall>q \<in> set qs. length (rq_dgram q) \<le> 4096"
  shows "\<exists>c n'. rc_start (hd_chan H) n = (Inr c, n')"
  using assms rc_start_empty [of H n] rc_start_data [of H n]
  by (cases qs) (auto simp: arrivals_def)

lemma loop_from_requests:
  assumes "idle H" "\<forall>q \<in> set qs. wf_request (hd_fac H) q" "good_handlers (hd_fac H)"
    and "inbox n = arrivals qs" "send_fails n = []"
  shows "\<exists>H' sent.
    loop_from H cnt s n =
      (Inr (cnt + of_nat (length qs)), H', snd (run_all (hd_fac H) qs s),
       n\<lparr>inbox := [], outbox := outbox n @ sent\<rparr>) \<and>
    list_all2 answers (zip qs (fst (run_all (hd_fac H) qs s))) sent \<and>
    idle H' \<and> hd_fac H' = hd_fac H"
  using assms
proof (induction qs arbitrary: H cnt s n)
  case Nil
  then show ?case
    by (intro exI [of _ H] exI [of _ "[]"]) (simp add: loop_from_idle arrivals_def)
next
  case (Cons q qs)
  let ?W = "with_msg H (rq_from q) (rq_dgram q)"
  obtain r s1 where r: "run_handler (hd_fac H) q s = (r, s1)"
    by fastforce
  have wf: "wf_request (hd_fac H) q" "length (rq_dgram q) \<le> 4096"
    using Cons.prems(2) by (simp_all add: wf_request_def)
  obtain d where d: "serve_one ?W s (n\<lparr>inbox := arrivals qs\<rparr>) =
        (Inr (), s1, n\<lparr>inbox := arrivals qs, outbox := outbox n @ [(rq_from q, d)]\<rparr>)"
      "answers (q, r) (rq_from q, d)"
    using serve_one_answer [OF Cons.prems(1) wf(1) good_handlers_run [OF Cons.prems(3) wf(1)], of "n\<lparr>inbox := arrivals qs\<rparr>" s]
      Cons.prems(5) r by auto
  let ?n = "n\<lparr>inbox := arrivals qs, outbox := outbox n @ [(rq_from q, d)]\<rparr>"
  have idl: "idle (drop_client ?W)"
    using Cons.prems(1) wf(2) by (rule idle_drop)
  have "\<forall>q \<in> set qs. length (rq_dgram q) \<le> 4096"
    using Cons.prems(2) by (simp add: wf_request_def)
  then obtain c n2 where "rc_start (hd_chan (drop_client ?W)) ?n = (Inr c, n2)"
    using rc_start_arrivals [OF idl, of ?n qs] by auto
  then have "loop_from H cnt s n = loop_from (drop_client ?W) (cnt + 1) s1 ?n"
    using loop_from_step [OF Cons.prems(1) _ wf(2) d(1)] Cons.prems(4) by (simp add: arrivals_def)
  moreover obtain H' sent where "loop_from (drop_client ?W) (cnt + 1) s1 ?n =
        (Inr (cnt + 1 + of_nat (length qs)), H', snd (run_all (hd_fac H) qs s1),
         n\<lparr>inbox := [], outbox := outbox n @ (rq_from q, d) # sent\<rparr>)"
      "list_all2 answers (zip qs (fst (run_all (hd_fac H) qs s1))) sent"
      "idle H'" "hd_fac H' = hd_fac H"
    using Cons.IH [OF idl, of ?n "cnt + 1" s1] Cons.prems by auto
  ultimately show ?case
    using d(2) r
    by (intro exI [of _ H'] exI [of _ "(rq_from q, d) # sent"]) (auto simp: split: prod.split)
qed

text \<open>
  C4: the loop refines its specification. Started idle with any sequence of requests from
  any senders waiting, it handles them in order of arrival, threads the application's
  state through the handlers, sends each answer to the sender of its request, counts the
  requests, and is idle again with nothing left to read.
\<close>
theorem run_one_event_loop_refines:
  assumes "idle H" and "\<forall>q \<in> set qs. wf_request (hd_fac H) q" and "good_handlers (hd_fac H)"
    and "inbox n = arrivals qs" and "send_fails n = []"
  shows "\<exists>H' sent.
    run_one_event_loop H s n =
      (Inr (of_nat (length qs)), H', snd (run_all (hd_fac H) qs s),
       n\<lparr>inbox := [], outbox := outbox n @ sent\<rparr>) \<and>
    list_all2 answers (zip qs (fst (run_all (hd_fac H) qs s))) sent \<and>
    idle H' \<and> hd_fac H' = hd_fac H"
  using loop_from_requests [OF assms, of 0 s]
  by (simp add: run_one_event_loop_def loop_from_def)

text \<open>A server with one handler besides the heartbeat's, for the witnesses.\<close>

definition sample_server :: "('a, nat) srpc_handler" where
  "sample_server = snd (handler_register
     (handler_of_channel \<lparr>rc_fd = 3, cur_msg_client = None, cur_msg = replicate 4096 0\<rparr>)
     7 (\<lambda>p s. (Inr (p @ p), Suc s)))"

definition empty_net :: "'a net" where
  "empty_net = \<lparr>inbox = [], send_fails = [], err_text = [], outbox = []\<rparr>"

lemma empty_net_simps [simp]: "inbox empty_net = []" "send_fails empty_net = []" "outbox empty_net = []"
  by (simp_all add: empty_net_def)

lemma sample_server_fac:
  "hd_fac sample_server = [(7, \<lambda>p s. (Inr (p @ p), Suc s)), (0, heartbeat_handler)]"
  by (simp add: sample_server_def handler_register_def handler_of_channel_def rpc_factory_new_def
      register_handler_def HeartBeat_def)

lemma sample_server_idle: "idle sample_server"
  by (simp add: sample_server_def handler_register_def handler_of_channel_def idle_def has_msg_def
      fd_valid_def register_handler_def rpc_factory_new_def HeartBeat_def)

lemma sample_server_good: "good_handlers (hd_fac sample_server)"
  by (auto simp: sample_server_fac good_handlers_def good_outcome_def heartbeat_handler_def bstr_def
      split: if_splits)

theorem run_one_event_loop_refines_witness:
  "\<exists>H' sent.
    run_one_event_loop sample_server 0 (empty_net\<lparr>inbox := [SelData True (sample_packet 7 1 [9])]\<rparr>) =
      (Inr 1, H', Suc 0, empty_net\<lparr>inbox := [], outbox := sent\<rparr>) \<and> length sent = 1 \<and> idle H'"
proof -
  let ?q = "\<lparr>rq_from = True, rq_id = 7, rq_ck = 1, rq_param = [9], rq_dgram = sample_packet 7 1 [9]\<rparr>"
  have "wf_request (hd_fac (sample_server :: (bool, nat) srpc_handler)) ?q"
    using sample_packet_request [of "[9]" 7 1] sample_packet_length [of "[9]" 7 1]
    by (simp add: wf_request_def sample_server_fac)
  then show ?thesis
    using run_one_event_loop_refines [OF sample_server_idle _ sample_server_good,
        of "[?q]" "empty_net\<lparr>inbox := arrivals [?q]\<rparr>" 0]
    by (auto simp: run_handler_def call_one_def sample_server_fac arrivals_def dest!: list_all2_lengthD)
qed

section \<open>The client's receive\<close>

lemma check_reply_packet:
  assumes "reply_packet b st ck dm pl rest" "length b \<le> 4096"
  shows "check_reply hb c b =
    (if dm \<noteq> 0 then (Inr (if hb then Some (Ok []) else None), c)
     else if ck = c
     then (if st = CS_Ok then (case pl of [] \<Rightarrow> Inl Thrown | r # _ \<Rightarrow> Inr (Some (Ok r)))
           else if st = CS_Nop then Inr (Some (Err (bstr ''Not ready'')))
           else Inr (Some (Err (bstr ''unknown error''))), c + 1)
     else (Inr (Some (Err (bstr ''Fatal checksum error''))), c))"
  using sreply_header_packed.decode_head_encodes [OF assms(1) [unfolded reply_packet_def] assms(2)]
    query_value_1 [OF assms(1) [unfolded reply_packet_def]]
  by (auto simp: check_reply_def split: list.splits)

lemma sc_recv_data:
  assumes "fd_valid (sc_fd c)" "inbox n = SelData a d # es" "length d \<le> 4096"
  shows "sc_recv c n = (Inr (Ok (d @ replicate (4096 - length d) 0)), n\<lparr>inbox := es\<rparr>)"
  using assms by (simp add: sc_recv_def try_recv_def next_event_def memcpy_def min_def)

text \<open>What the client returns for a packet, when it does not ignore it.\<close>

definition reply_result :: "u64 \<Rightarrow> call_status \<Rightarrow> u64 \<Rightarrow> bytes list \<Rightarrow> bytes result" where
  "reply_result c st ck pl =
     (if ck \<noteq> c then Err (bstr ''Fatal checksum error'')
      else if st = CS_Ok then (case pl of [] \<Rightarrow> Err (bstr ''decode reply error'') | r # _ \<Rightarrow> Ok r)
      else if st = CS_Nop then Err (bstr ''Not ready'')
      else Err (bstr ''unknown error''))"

lemma receive_reply_packet:
  assumes "fd_valid (sc_fd (sp_chan S))" "inbox n = SelData a d # es"
    and "reply_packet d st ck dm pl []" "length d \<le> 4096"
  shows "receive_reply S hb n =
    (if dm \<noteq> 0 then (if hb then (Inr (Ok []), S, n\<lparr>inbox := es\<rparr>) else receive_reply S hb (n\<lparr>inbox := es\<rparr>))
     else (Inr (reply_result (sp_checksum S) st ck pl),
           S\<lparr>sp_checksum := (if ck = sp_checksum S then ck + 1 else sp_checksum S)\<rparr>, n\<lparr>inbox := es\<rparr>))"
proof -
  let ?b = "d @ replicate (4096 - length d) 0"
  have "reply_packet ?b st ck dm pl (replicate (4096 - length d) 0)" "length ?b \<le> 4096"
    using assms(3,4) by (simp_all add: reply_packet_extend)
  note chk = check_reply_packet [OF this]
  show ?thesis
    by (subst receive_reply.simps)
      (auto simp: sc_recv_data [OF assms(1,2,4)] chk reply_result_def split: list.splits)
qed

definition heartbeat_packet :: "bytes \<Rightarrow> bool" where
  "heartbeat_packet d \<longleftrightarrow> length d \<le> 4096 \<and> (\<exists>st ck dm pl. dm \<noteq> 0 \<and> reply_packet d st ck dm pl [])"

text \<open>Heartbeat replies that are still in the queue do not disturb a later call.\<close>

lemma receive_reply_skips:
  assumes "fd_valid (sc_fd (sp_chan S))" "\<forall>h \<in> set hbs. heartbeat_packet (snd h)"
    and "inbox n = map (\<lambda>h. SelData (fst h) (snd h)) hbs @ es"
  shows "receive_reply S False n = receive_reply S False (n\<lparr>inbox := es\<rparr>)"
  using assms(2,3)
proof (induction hbs arbitrary: n)
  case Nil
  then show ?case by (cases n) simp
next
  case (Cons h hbs)
  then obtain st ck dm pl where "dm \<noteq> 0" "reply_packet (snd h) st ck dm pl []" "length (snd h) \<le> 4096"
    by (auto simp: heartbeat_packet_def)
  then have "receive_reply S False n =
      receive_reply S False (n\<lparr>inbox := map (\<lambda>h. SelData (fst h) (snd h)) hbs @ es\<rparr>)"
    using receive_reply_packet [OF assms(1)] Cons.prems(2) by simp
  also have "\<dots> = receive_reply S False (n\<lparr>inbox := es\<rparr>)"
    using Cons.IH [of "n\<lparr>inbox := map (\<lambda>h. SelData (fst h) (snd h)) hbs @ es\<rparr>"] Cons.prems by simp
  finally show ?case .
qed

lemma loop_one_request:
  assumes "idle H" "wf_request (hd_fac H) q" "run_handler (hd_fac H) q s = (r, s')" "good_outcome r"
  shows "\<exists>e H'. run_one_event_loop H s (empty_net\<lparr>inbox := [SelData (rq_from q) (rq_dgram q)]\<rparr>) =
             (Inr 1, H', s', empty_net\<lparr>outbox := [(rq_from q, e)]\<rparr>) \<and> idle H' \<and> hd_fac H' = hd_fac H \<and>
           answer_packet e (rq_id q) (rq_ck q) r"
proof -
  let ?W = "with_msg H (rq_from q) (rq_dgram q)" and ?n0 = "empty_net\<lparr>inbox := []\<rparr> :: 'a net"
  have len: "length (rq_dgram q) \<le> 4096"
    using assms(2) by (simp add: wf_request_def)
  have "good_outcome (fst (run_handler (hd_fac H) q s))"
    using assms(3,4) by simp
  from serve_one_answer [OF assms(1,2) this, of ?n0] obtain e where
    e: "serve_one ?W s ?n0 = (Inr (), s', ?n0\<lparr>outbox := [(rq_from q, e)]\<rparr>)"
      "answer_packet e (rq_id q) (rq_ck q) r"
    using assms(3) by (auto simp: answers_def)
  have idl: "idle (drop_client ?W)"
    using assms(1) len by (rule idle_drop)
  have "loop_from H 0 s (empty_net\<lparr>inbox := [SelData (rq_from q) (rq_dgram q)]\<rparr>) =
      loop_from (drop_client ?W) (0 + 1) s' (?n0\<lparr>outbox := [(rq_from q, e)]\<rparr>)"
    by (rule loop_from_step [OF assms(1) _ len _ rc_start_empty [OF idl]]) (use e(1) in auto)
  also have "\<dots> = (Inr 1, drop_client ?W, s', ?n0\<lparr>outbox := [(rq_from q, e)]\<rparr>)"
    by (simp add: loop_from_idle [OF idl])
  finally show ?thesis
    using e(2) idl by (auto simp: run_one_event_loop_def loop_from_def empty_net_def)
qed

text \<open>The two ends of a call, for the operations built on it.\<close>

lemma rpc_round_trip:
  assumes client: "fd_valid (sc_fd (sp_chan S))" "length p \<le> 4054"
    and server: "idle H" "map_of (hd_fac H) rid = Some fn"
    and handler: "fn p s = (Inr r, s')" "length r \<le> 4053" "rid \<noteq> HeartBeat"
    and queue: "\<forall>h \<in> set hbs. heartbeat_packet (snd h)"
  shows "\<exists>d e H'.
    (\<forall>n. send_fails n = [] \<longrightarrow>
       srpc_call S rid p n = (Inr (Ok []), n\<lparr>outbox := outbox n @ [(sc_end (sp_chan S), d)]\<rparr>)) \<and>
    run_one_event_loop H s (empty_net\<lparr>inbox := [SelData a d]\<rparr>) =
      (Inr 1, H', s', empty_net\<lparr>outbox := [(a, e)]\<rparr>) \<and> idle H' \<and> hd_fac H' = hd_fac H \<and>
    (\<forall>n es. inbox n = map (\<lambda>h. SelData (fst h) (snd h)) hbs @ SelData b e # es \<longrightarrow>
       receive_reply S False n = (Inr (Ok r), S\<lparr>sp_checksum := sp_checksum S + 1\<rparr>, n\<lparr>inbox := es\<rparr>))"
proof -
  from srpc_call_packet [OF client(2), of S rid] obtain d where
    d: "request_packet d rid (sp_checksum S) p []" and
    dn: "\<And>n. srpc_call S rid p n = sc_send (sp_chan S) d n"
    by blast
  have len: "length d = 42 + length p" "d \<noteq> []"
    using d request_packet_length by fastforce+
  let ?q = "\<lparr>rq_from = a, rq_id = rid, rq_ck = sp_checksum S, rq_param = p, rq_dgram = d\<rparr>"
  have "wf_request (hd_fac H) ?q" "run_handler (hd_fac H) ?q s = (Inr r, s')" "good_outcome (Inr r)"
    using d len client(2) server(2) handler(1,2)
    by (simp_all add: wf_request_def run_handler_def call_one_def good_outcome_def)
  from loop_one_request [OF server(1) this] obtain e H' where
    loop: "run_one_event_loop H s (empty_net\<lparr>inbox := [SelData a d]\<rparr>) =
        (Inr 1, H', s', empty_net\<lparr>outbox := [(a, e)]\<rparr>)" "idle H'" "hd_fac H' = hd_fac H"
      "answer_packet e rid (sp_checksum S) (Inr r)"
    by auto
  have rp: "reply_packet e CS_Ok (sp_checksum S) 0 [r] []"
    using loop(4) handler(2,3) by (simp add: answer_packet_def answer_status_def answer_payload_def)
  then have le: "length e \<le> 4096"
    using reply_packet_length handler(2) by fastforce
  have "receive_reply S False n = (Inr (Ok r), S\<lparr>sp_checksum := sp_checksum S + 1\<rparr>, n\<lparr>inbox := es\<rparr>)"
    if "inbox n = map (\<lambda>h. SelData (fst h) (snd h)) hbs @ SelData b e # es" for n es
    using receive_reply_skips [OF client(1) queue that]
      receive_reply_packet [OF client(1) _ rp le, of "n\<lparr>inbox := SelData b e # es\<rparr>" b es False]
    by (simp add: reply_result_def)
  moreover have "srpc_call S rid p n = (Inr (Ok []), n\<lparr>outbox := outbox n @ [(sc_end (sp_chan S), d)]\<rparr>)"
    if "send_fails n = []" for n
    using dn sc_send_ok [OF client(1) that len(2)] by simp
  ultimately show ?thesis
    using loop(1-3) by (intro exI [of _ d] exI [of _ e] exI [of _ H']) blast
qed

text \<open>
  C3: one remote call from end to end. The client's call puts one datagram on the wire;
  an idle server that finds it runs the handler once on the parameter and answers the
  datagram's sender; and the client, whatever heartbeat replies are queued before the
  answer, skips them and returns exactly the handler's result. Both ends advance their
  checksum and state by one step.
\<close>
theorem rpc_end_to_end:
  assumes "fd_valid (sc_fd (sp_chan S))" and "send_fails nc = []" and "length p \<le> 4054"
    and "idle H" and "map_of (hd_fac H) rid = Some fn"
    and "fn p s = (Inr r, s')" and "length r \<le> 4053" and "rid \<noteq> HeartBeat"
    and "\<forall>h \<in> set hbs. heartbeat_packet (snd h)"
  shows "\<exists>d e H'.
    srpc_call S rid p nc = (Inr (Ok []), nc\<lparr>outbox := outbox nc @ [(sc_end (sp_chan S), d)]\<rparr>) \<and>
    run_one_event_loop H s (empty_net\<lparr>inbox := [SelData a d]\<rparr>) =
      (Inr 1, H', s', empty_net\<lparr>outbox := [(a, e)]\<rparr>) \<and> idle H' \<and>
    receive_reply S False (nc\<lparr>inbox := map (\<lambda>h. SelData (fst h) (snd h)) hbs @ SelData b e # es\<rparr>) =
      (Inr (Ok r), S\<lparr>sp_checksum := sp_checksum S + 1\<rparr>, nc\<lparr>inbox := es\<rparr>)"
proof -
  obtain d e H' where
    "\<forall>n. send_fails n = [] \<longrightarrow>
       srpc_call S rid p n = (Inr (Ok []), n\<lparr>outbox := outbox n @ [(sc_end (sp_chan S), d)]\<rparr>)"
    "run_one_event_loop H s (empty_net\<lparr>inbox := [SelData a d]\<rparr>) =
      (Inr 1, H', s', empty_net\<lparr>outbox := [(a, e)]\<rparr>)" "idle H'"
    "\<forall>n es. inbox n = map (\<lambda>h. SelData (fst h) (snd h)) hbs @ SelData b e # es \<longrightarrow>
       receive_reply S False n = (Inr (Ok r), S\<lparr>sp_checksum := sp_checksum S + 1\<rparr>, n\<lparr>inbox := es\<rparr>)"
    using rpc_round_trip [OF assms(1,3,4,5,6,7,8,9), of a b] by blast
  with assms(2) show ?thesis
    by (intro exI [of _ d] exI [of _ e] exI [of _ H']) simp
qed

theorem rpc_end_to_end_witness:
  "\<exists>d e H'.
    srpc_call (srpc_of_channel \<lparr>sc_fd = 4, sc_end = True\<rparr>) 7 [1, 2] empty_net =
      (Inr (Ok []), empty_net\<lparr>outbox := outbox empty_net @ [(True, d)]\<rparr>) \<and>
    run_one_event_loop sample_server 0 (empty_net\<lparr>inbox := [SelData False d]\<rparr>) =
      (Inr 1, H', 1, empty_net\<lparr>outbox := [(False, e)]\<rparr>) \<and> idle H' \<and>
    receive_reply (srpc_of_channel \<lparr>sc_fd = 4, sc_end = True\<rparr>) False
      (empty_net\<lparr>inbox := map (\<lambda>h. SelData (fst h) (snd h)) [] @ SelData True e # []\<rparr>) =
      (Inr (Ok [1, 2, 1, 2]), (srpc_of_channel \<lparr>sc_fd = 4, sc_end = True\<rparr>)\<lparr>sp_checksum := 2\<rparr>,
       empty_net\<lparr>inbox := []\<rparr>)"
  using rpc_end_to_end [where S = "srpc_of_channel \<lparr>sc_fd = 4, sc_end = True\<rparr>" and nc = empty_net
      and p = "[1, 2]" and rid = 7 and s = "0 :: nat" and s' = 1 and r = "[1, 2, 1, 2]" and hbs = "[]"
      and fn = "\<lambda>p s. (Inr (p @ p), Suc s)" and es = "[]" and a = False and b = True,
      OF _ _ _ sample_server_idle]
  by (simp add: srpc_of_channel_def fd_valid_def sample_server_fac HeartBeat_def invalid_checksum_def)

section \<open>What the checksum and the buffer do not protect\<close>

text \<open>
  C38: the checksum does not tell a late reply from the answer to the next call. When a
  receive times out the checksum stays, so the next request carries the same one, and the
  late reply to the first call is returned as the result of the second.
\<close>
theorem late_reply_accepted:
  assumes "fd_valid (sc_fd (sp_chan S))" and "reply_packet e CS_Ok (sp_checksum S) 0 [r1] []"
    and "length e \<le> 4096" and "send_fails n = []" and "length p2 \<le> 4054"
  shows "receive_reply S False (n\<lparr>inbox := SelTimeout # es\<rparr>) = (Inr (Timeout []), S, n\<lparr>inbox := es\<rparr>) \<and>
    (\<exists>d. srpc_call S rid2 p2 n = (Inr (Ok []), n\<lparr>outbox := outbox n @ [(sc_end (sp_chan S), d)]\<rparr>) \<and>
         request_packet d rid2 (sp_checksum S) p2 []) \<and>
    receive_reply S False (n\<lparr>inbox := SelData b e # es\<rparr>) =
      (Inr (Ok r1), S\<lparr>sp_checksum := sp_checksum S + 1\<rparr>, n\<lparr>inbox := es\<rparr>)"
proof (intro conjI)
  show "receive_reply S False (n\<lparr>inbox := SelTimeout # es\<rparr>) = (Inr (Timeout []), S, n\<lparr>inbox := es\<rparr>)"
    using assms(1)
    by (subst receive_reply.simps) (simp add: sc_recv_def try_recv_def next_event_def Timeout_def)
  from srpc_call_packet [OF assms(5)] obtain d where
    d: "srpc_call S rid2 p2 n = sc_send (sp_chan S) d n" "request_packet d rid2 (sp_checksum S) p2 []"
    by blast
  moreover have "d \<noteq> []"
    using request_packet_length [OF d(2)] by auto
  ultimately show "\<exists>d. srpc_call S rid2 p2 n =
        (Inr (Ok []), n\<lparr>outbox := outbox n @ [(sc_end (sp_chan S), d)]\<rparr>) \<and>
      request_packet d rid2 (sp_checksum S) p2 []"
    using sc_send_ok [OF assms(1,4)] by auto
  show "receive_reply S False (n\<lparr>inbox := SelData b e # es\<rparr>) =
      (Inr (Ok r1), S\<lparr>sp_checksum := sp_checksum S + 1\<rparr>, n\<lparr>inbox := es\<rparr>)"
    using receive_reply_packet [OF assms(1) _ assms(2,3), of "n\<lparr>inbox := SelData b e # es\<rparr>" b es]
    by (simp add: reply_result_def)
qed

lemma sample_reply:
  "\<exists>d. reply_packet d CS_Ok ck 0 [[5]] [] \<and> length d \<le> 4096"
proof -
  obtain d where d: "reply_packet d CS_Ok ck (if FetchMr = HeartBeat then 1 else 0) [[5]] []"
    using coded_reply_packet [of "[5]" FetchMr ck] by auto
  then show ?thesis
    using reply_packet_length [OF d] by (auto simp: FetchMr_def HeartBeat_def)
qed

theorem late_reply_accepted_witness:
  "\<exists>e. receive_reply (srpc_of_channel \<lparr>sc_fd = 4, sc_end = True\<rparr>) False (empty_net\<lparr>inbox := [SelData True e]\<rparr>) =
      (Inr (Ok [5]), (srpc_of_channel \<lparr>sc_fd = 4, sc_end = True\<rparr>)\<lparr>sp_checksum := 2\<rparr>, empty_net\<lparr>inbox := []\<rparr>)"
proof -
  obtain e where e: "reply_packet e CS_Ok 1 0 [[5]] []" "length e \<le> 4096"
    using sample_reply by blast
  show ?thesis
    using late_reply_accepted [of "srpc_of_channel \<lparr>sc_fd = 4, sc_end = True\<rparr>" e "[5]" empty_net "[]" "[]" 7 True] e
    by (auto simp: srpc_of_channel_def fd_valid_def invalid_checksum_def)
qed

lemma with_msg_empty: "with_msg (drop_client (with_msg H a d)) a' [] = with_msg H a' d"
  by (simp add: with_msg_def drop_client_def)

text \<open>
  C39: an empty datagram makes the server run the previous request again. The receive
  buffer is not cleared and the length of a datagram is not kept, so after a request any
  sender's empty datagram is taken for the same request: its handler runs a second time,
  and the sender of the empty datagram gets the answer.
\<close>
theorem empty_datagram_replays:
  assumes "idle H" and "wf_request (hd_fac H) q" and "good_handlers (hd_fac H)"
  shows "\<exists>H' o1 o2.
    run_one_event_loop H s (empty_net\<lparr>inbox := [SelData (rq_from q) (rq_dgram q), SelData a' []]\<rparr>) =
      (Inr 2, H', snd (run_handler (hd_fac H) q (snd (run_handler (hd_fac H) q s))),
       empty_net\<lparr>outbox := [(rq_from q, o1), (a', o2)]\<rparr>) \<and>
    answer_packet o2 (rq_id q) (rq_ck q) (fst (run_handler (hd_fac H) q (snd (run_handler (hd_fac H) q s))))"
proof -
  let ?W = "with_msg H (rq_from q) (rq_dgram q)" and ?q = "q\<lparr>rq_from := a'\<rparr>"
  let ?f = "hd_fac H" and ?s1 = "snd (run_handler (hd_fac H) q s)"
  have wf: "length (rq_dgram q) \<le> 4096" "wf_request ?f ?q" "run_handler ?f ?q = run_handler ?f q"
    using assms(2) by (auto simp: wf_request_def run_handler_def)
  obtain o1 where o1: "serve_one ?W s (empty_net\<lparr>inbox := [SelData a' []]\<rparr>) =
      (Inr (), ?s1, empty_net\<lparr>inbox := [SelData a' []], outbox := [(rq_from q, o1)]\<rparr>)"
    using serve_one_answer [OF assms(1,2) good_handlers_run [OF assms(3,2)],
        of "empty_net\<lparr>inbox := [SelData a' []]\<rparr>"] by auto
  let ?n1 = "empty_net\<lparr>inbox := [SelData a' []], outbox := [(rq_from q, o1)]\<rparr>"
  let ?D = "drop_client ?W"
  have idl: "idle ?D"
    using assms(1) wf(1) by (rule idle_drop)
  obtain o2 where o2: "serve_one (with_msg ?D a' []) ?s1 (?n1\<lparr>inbox := []\<rparr>) =
      (Inr (), snd (run_handler ?f q ?s1), empty_net\<lparr>inbox := [], outbox := [(rq_from q, o1), (a', o2)]\<rparr>)"
      "answer_packet o2 (rq_id q) (rq_ck q) (fst (run_handler ?f q ?s1))"
    using serve_one_answer [OF assms(1) wf(2) good_handlers_run [OF assms(3) wf(2)], of "?n1\<lparr>inbox := []\<rparr>"] wf(3)
    by (auto simp: with_msg_empty answers_def)
  let ?n2 = "empty_net\<lparr>inbox := [], outbox := [(rq_from q, o1), (a', o2)]\<rparr>"
  let ?E = "drop_client (with_msg ?D a' [])"
  have idl2: "idle ?E"
    using idl by (rule idle_drop) simp
  have "loop_from H 0 s (empty_net\<lparr>inbox := [SelData (rq_from q) (rq_dgram q), SelData a' []]\<rparr>) =
      loop_from ?D (0 + 1) ?s1 ?n1"
    by (rule loop_from_step [OF assms(1) _ wf(1) _ rc_start_data [OF idl]]) (use o1 in auto)
  also have "\<dots> = loop_from ?E (0 + 1 + 1) (snd (run_handler ?f q ?s1)) ?n2"
    by (rule loop_from_step [OF idl _ _ _ rc_start_empty [OF idl2]]) (use o2(1) in auto)
  also have "\<dots> = (Inr 2, ?E, snd (run_handler ?f q ?s1), ?n2)"
    by (simp add: loop_from_idle [OF idl2])
  finally show ?thesis
    using o2(2) by (auto simp: run_one_event_loop_def loop_from_def empty_net_def)
qed

theorem empty_datagram_replays_witness:
  "\<exists>H' o1 o2. run_one_event_loop sample_server 0
      (empty_net\<lparr>inbox := [SelData True (sample_packet 7 1 [9]), SelData False []]\<rparr>) =
      (Inr 2, H', 2, empty_net\<lparr>outbox := [(True, o1), (False, o2)]\<rparr>)"
proof -
  let ?q = "\<lparr>rq_from = True, rq_id = 7, rq_ck = 1, rq_param = [9], rq_dgram = sample_packet 7 1 [9]\<rparr>"
  have "wf_request (hd_fac (sample_server :: (bool, nat) srpc_handler)) ?q"
    using sample_packet_request [of "[9]" 7 1] sample_packet_length [of "[9]" 7 1]
    by (simp add: wf_request_def sample_server_fac)
  then show ?thesis
    using empty_datagram_replays [OF sample_server_idle _ sample_server_good, of ?q 0 False]
    by (auto simp: run_handler_def call_one_def sample_server_fac numeral_2_eq_2)
qed

end
