(* ===== verification/Registry.thy ===== *)
theory Registry
  imports Results
begin

text \<open>
  core/utils/abs_factory.hh: \<open>Factory<K,V>\<close>, a table of named resources. Registration
  hands out a random non-zero authentication key, and only that key deletes the entry.
  The mutex makes each operation atomic, so an operation is a function of the table. The
  \<open>std::map\<close> is an association list with distinct keys; \<open>rand()\<close> is a function of the
  generator's state, given as the argument \<open>rnd\<close>.
\<close>

section \<open>Data and operations\<close>

record ('k, 'v) factory =
  store :: "('k \<times> ('v \<times> u64)) list"

definition factory_empty :: "('k, 'v) factory" where
  "factory_empty = \<lparr>store = []\<rparr>"

definition reg_entries :: "('k, 'v) factory \<Rightarrow> usize" where
  "reg_entries f = of_nat (length (store f))"

text \<open>The loop \<open>while (key == 0) key = rand()\<close>; \<open>None\<close> when it never ends.\<close>

partial_function (option) generate_key :: "('r \<Rightarrow> u64 \<times> 'r) \<Rightarrow> 'r \<Rightarrow> (u64 \<times> 'r) option" where
  "generate_key rnd r =
     (case rnd r of (key, r') \<Rightarrow> if key = 0 then generate_key rnd r' else Some (key, r'))"

definition reg ::
  "('r \<Rightarrow> u64 \<times> 'r) \<Rightarrow> ('k, 'v) factory \<Rightarrow> 'k \<Rightarrow> 'v \<Rightarrow> 'r \<Rightarrow>
   (u64 option \<times> ('k, 'v) factory \<times> 'r) outcome" where
  "reg rnd f k v r =
     (if map_of (store f) k \<noteq> None then Inr (None, f, r)
      else
        (case generate_key rnd r of
           None \<Rightarrow> Inl Diverged
         | Some (key, r') \<Rightarrow> Inr (Some key, f\<lparr>store := (k, (v, key)) # store f\<rparr>, r')))"

definition query :: "('k, 'v) factory \<Rightarrow> 'k \<Rightarrow> 'v option" where
  "query f k =
     (case map_of (store f) k of Some e \<Rightarrow> Some (fst e) | None \<Rightarrow> None)"

text \<open>
  \<open>query_or_default\<close>: the line \<open>if (res);\<close> has an empty body, so \<open>res.value()\<close> is
  returned on both branches and the default is never used.
\<close>

definition query_or_default :: "('k, 'v) factory \<Rightarrow> 'k \<Rightarrow> 'v \<Rightarrow> 'v outcome" where
  "query_or_default f k def = (let res = query f k in opt_value res)"

definition dereg :: "('k, 'v) factory \<Rightarrow> 'k \<Rightarrow> u64 \<Rightarrow> 'v option \<times> ('k, 'v) factory" where
  "dereg f nm k =
     (case map_of (store f) nm of
        Some e \<Rightarrow>
          if snd e = k
          then (Some (fst e), f\<lparr>store := filter (\<lambda>p. fst p \<noteq> nm) (store f)\<rparr>)
          else (None, f)
      | None \<Rightarrow> (None, f))"

text \<open>\<open>create_then_reg\<close>: \<open>created\<close> is the result of \<open>V::create(args...)\<close>.\<close>

definition create_then_reg ::
  "('r \<Rightarrow> u64 \<times> 'r) \<Rightarrow> ('k, 'v) factory \<Rightarrow> 'k \<Rightarrow> 'v option \<Rightarrow> 'r \<Rightarrow>
   (('v \<times> u64) option \<times> ('k, 'v) factory \<times> 'r) outcome" where
  "create_then_reg rnd f k created r =
     (case created of
        Some v \<Rightarrow>
          bindE (reg rnd f k v r) (\<lambda>(key, f', r').
            case key of
              Some n \<Rightarrow> Inr (Some (v, n), f', r')
            | None \<Rightarrow> Inr (None, f', r'))
      | None \<Rightarrow> Inr (None, f, r))"

section \<open>Key generation\<close>

text \<open>The \<open>n\<close>-th draw and the state after \<open>n\<close> draws.\<close>

primrec rnd_state :: "('r \<Rightarrow> u64 \<times> 'r) \<Rightarrow> 'r \<Rightarrow> nat \<Rightarrow> 'r" where
  "rnd_state rnd r 0 = r"
| "rnd_state rnd r (Suc n) = rnd_state rnd (snd (rnd r)) n"

definition rnd_draw :: "('r \<Rightarrow> u64 \<times> 'r) \<Rightarrow> 'r \<Rightarrow> nat \<Rightarrow> u64" where
  "rnd_draw rnd r n = fst (rnd (rnd_state rnd r n))"

lemma generate_key_nonzero:
  assumes "generate_key rnd r = Some (key, r')"
  shows "key \<noteq> 0"
proof -
  have "generate_key rnd r = Some res \<Longrightarrow> fst res \<noteq> 0" for res
  proof (rule generate_key.raw_induct [where P = "\<lambda>rnd r res. fst res \<noteq> 0"])
    fix g :: "('r \<Rightarrow> u64 \<times> 'r) \<Rightarrow> 'r \<Rightarrow> (u64 \<times> 'r) option" and rnd r res
    assume IH: "\<And>rnd r res. g rnd r = Some res \<Longrightarrow> fst res \<noteq> 0"
      and eq: "(case rnd r of (key, r') \<Rightarrow> if key = 0 then g rnd r' else Some (key, r')) = Some res"
    obtain k r1 where "rnd r = (k, r1)" by fastforce
    then have "(if k = 0 then g rnd r1 else Some (k, r1)) = Some res"
      using eq by simp
    then show "fst res \<noteq> 0"
      using IH [of rnd r1 res] by (cases "k = 0") auto
  qed
  with assms show ?thesis by fastforce
qed

lemma generate_key_first:
  "(\<And>i. i < n \<Longrightarrow> rnd_draw rnd r i = 0) \<Longrightarrow> rnd_draw rnd r n \<noteq> 0 \<Longrightarrow>
     generate_key rnd r = Some (rnd_draw rnd r n, rnd_state rnd r (Suc n))"
proof (induction n arbitrary: r)
  case 0
  then show ?case
    by (cases "rnd r") (simp add: generate_key.simps [of rnd r] rnd_draw_def)
next
  case (Suc n)
  obtain k r1 where r1: "rnd r = (k, r1)" by fastforce
  have shift: "rnd_draw rnd r (Suc i) = rnd_draw rnd r1 i" for i
    by (simp add: rnd_draw_def r1)
  have k0: "k = 0"
    using Suc.prems(1) [of 0] by (simp add: rnd_draw_def r1)
  have "generate_key rnd r1 = Some (rnd_draw rnd r1 n, rnd_state rnd r1 (Suc n))"
  proof (rule Suc.IH)
    show "rnd_draw rnd r1 i = 0" if "i < n" for i
      using Suc.prems(1) [of "Suc i"] that by (simp add: shift)
    show "rnd_draw rnd r1 n \<noteq> 0"
      using Suc.prems(2) by (simp add: shift)
  qed
  then show ?case
    by (subst generate_key.simps) (simp add: r1 k0 shift)
qed

lemma generate_key_returns:
  "rnd_draw rnd r n \<noteq> 0 \<Longrightarrow> \<exists>key r'. generate_key rnd r = Some (key, r')"
proof (induction n rule: less_induct)
  case (less n)
  show ?case
  proof (cases "\<exists>i<n. rnd_draw rnd r i \<noteq> 0")
    case True
    then show ?thesis using less.IH by blast
  next
    case False
    then show ?thesis using generate_key_first [of n rnd r] less.prems by blast
  qed
qed

section \<open>The contract of a registry\<close>

text \<open>
  \<open>entries\<close> is the abstract table: names to resources with their keys. The clients (RCtrl
  and RecvManager) rely on these laws only.
\<close>

locale registry =
  fixes entries :: "'f \<Rightarrow> 'k \<Rightarrow> ('v \<times> u64) option"
    and lookup :: "'f \<Rightarrow> 'k \<Rightarrow> 'v option"
    and enter :: "'f \<Rightarrow> 'k \<Rightarrow> 'v \<Rightarrow> 'r \<Rightarrow> (u64 option \<times> 'f \<times> 'r) outcome"
    and remove :: "'f \<Rightarrow> 'k \<Rightarrow> u64 \<Rightarrow> 'v option \<times> 'f"
  assumes lookup_entries: "lookup f k = map_option fst (entries f k)"
    and enter_taken: "entries f k \<noteq> None \<Longrightarrow> enter f k v r = Inr (None, f, r)"
    and enter_free: "entries f k = None \<Longrightarrow> enter f k v r = Inr (res, f', r') \<Longrightarrow>
      \<exists>key. res = Some key \<and> key \<noteq> 0 \<and> entries f' = (entries f)(k \<mapsto> (v, key))"
    and enter_faults: "enter f k v r = Inl e \<Longrightarrow> e = Diverged"
    and remove_match: "entries f k = Some (v, key) \<Longrightarrow>
      fst (remove f k key) = Some v \<and> entries (snd (remove f k key)) = (entries f)(k := None)"
    and remove_mismatch: "(\<And>v. entries f k \<noteq> Some (v, key)) \<Longrightarrow> remove f k key = (None, f)"
begin

lemma lookup_after_enter:
  assumes "enter f k v r = Inr (Some key, f', r')"
  shows "lookup f' k = Some v" "lookup f k = None" "k' \<noteq> k \<Longrightarrow> lookup f' k' = lookup f k'" "key \<noteq> 0"
proof -
  have free: "entries f k = None"
    using assms enter_taken [of f k v r] by (cases "entries f k") auto
  from enter_free [OF free assms] have "key \<noteq> 0" "entries f' = (entries f)(k \<mapsto> (v, key))"
    by auto
  then show "lookup f' k = Some v" "lookup f k = None" "k' \<noteq> k \<Longrightarrow> lookup f' k' = lookup f k'" "key \<noteq> 0"
    using free by (simp_all add: lookup_entries)
qed

lemma enter_None: "enter f k v r = Inr (None, f', r') \<Longrightarrow> f' = f \<and> lookup f k \<noteq> None"
  using enter_taken [of f k v r] enter_free [of f k v r] by (cases "entries f k") (auto simp: lookup_entries)

lemma remove_after_enter:
  assumes "enter f k v r = Inr (Some key, f', r')"
  shows "fst (remove f' k key) = Some v" "entries (snd (remove f' k key)) = entries f"
    "key' \<noteq> key \<Longrightarrow> remove f' k key' = (None, f')"
proof -
  have free: "entries f k = None"
    using assms enter_taken [of f k v r] by (cases "entries f k") auto
  from enter_free [OF free assms] have e: "entries f' = (entries f)(k \<mapsto> (v, key))"
    by auto
  with remove_match [of f' k v key] show "fst (remove f' k key) = Some v"
    and "entries (snd (remove f' k key)) = entries f"
    using free by (auto simp: fun_upd_idem)
  show "key' \<noteq> key \<Longrightarrow> remove f' k key' = (None, f')"
    using e by (intro remove_mismatch) auto
qed

end

definition fentries :: "('k, 'v) factory \<Rightarrow> 'k \<Rightarrow> ('v \<times> u64) option" where
  "fentries f k = map_of (store f) k"

lemma map_of_remove: "map_of (filter (\<lambda>p. fst p \<noteq> k) xs) = (map_of xs)(k := None)"
  by (induction xs) (auto simp: fun_eq_iff)

interpretation freg: registry fentries query "reg rnd" dereg for rnd
proof unfold_locales
  fix f f' :: "('k, 'v) factory" and k v r res r' e key
  show "query f k = map_option fst (fentries f k)"
    by (simp add: query_def fentries_def split: option.split)
  show "fentries f k \<noteq> None \<Longrightarrow> reg rnd f k v r = Inr (None, f, r)"
    by (simp add: reg_def fentries_def)
  show "reg rnd f k v r = Inl e \<Longrightarrow> e = Diverged"
    by (auto simp: reg_def split: if_splits option.splits)
  show "\<exists>key. res = Some key \<and> key \<noteq> 0 \<and> fentries f' = (fentries f)(k \<mapsto> (v, key))"
    if "fentries f k = None" "reg rnd f k v r = Inr (res, f', r')"
    using that
    by (auto simp: reg_def fentries_def fun_eq_iff generate_key_nonzero split: option.splits)
  show "fst (dereg f k key) = Some v \<and> fentries (snd (dereg f k key)) = (fentries f)(k := None)"
    if "fentries f k = Some (v, key)"
    using that by (simp add: dereg_def fentries_def fun_eq_iff map_of_remove)
  show "dereg f k key = (None, f)" if "\<And>v. fentries f k \<noteq> Some (v, key)"
    using that by (auto simp: dereg_def fentries_def split: option.split)
qed

section \<open>The component's properties\<close>

text \<open>
  C19: the life of an entry. A successful registration hands out a non-zero key, makes the
  resource visible under its name and leaves every other name alone; a second
  registration of the name is refused without effect; deletion with another key is
  refused without effect; deletion with the key returns the resource and restores the
  table as it was.
\<close>
theorem registry_lifecycle:
  assumes "reg rnd f k v r = Inr (Some key, f', r')"
  shows "key \<noteq> 0 \<and> query f k = None \<and> query f' k = Some v \<and>
         (\<forall>k'. k' \<noteq> k \<longrightarrow> query f' k' = query f k') \<and>
         (\<forall>w s. reg rnd f' k w s = Inr (None, f', s)) \<and>
         (\<forall>key'. key' \<noteq> key \<longrightarrow> dereg f' k key' = (None, f')) \<and>
         fst (dereg f' k key) = Some v \<and>
         (\<forall>k'. query (snd (dereg f' k key)) k' = query f k')"
proof -
  have "fentries f' k \<noteq> None"
    using freg.lookup_after_enter(1) [OF assms] by (auto simp: freg.lookup_entries)
  then have "reg rnd f' k w s = Inr (None, f', s)" for w s
    by (rule freg.enter_taken)
  then show ?thesis
    using freg.lookup_after_enter [OF assms] freg.remove_after_enter [OF assms]
    by (simp add: freg.lookup_entries)
qed

theorem registry_lifecycle_witness:
  "\<exists>f'. reg (\<lambda>n :: nat. (of_nat n, Suc n)) (factory_empty :: (nat, bool) factory) 3 True 0
          = Inr (Some 1, f', 2) \<and>
        query f' 3 = Some True \<and> dereg f' 3 2 = (None, f') \<and> fst (dereg f' 3 1) = Some True"
proof -
  define rnd where "rnd = (\<lambda>n :: nat. (of_nat n :: u64, Suc n))"
  have "generate_key rnd 0 = Some (1, 2)"
    by (simp add: generate_key.simps rnd_def)
  then obtain f' where f': "reg rnd (factory_empty :: (nat, bool) factory) 3 True 0 = Inr (Some 1, f', 2)"
    by (simp add: reg_def factory_empty_def)
  from registry_lifecycle [OF f'] show ?thesis
    using f' by (auto simp: rnd_def)
qed

text \<open>
  Registration always returns when the generator draws a non-zero number at some
  point; it then fails exactly on a taken name.
\<close>
theorem reg_terminates:
  assumes "rnd_draw rnd r n \<noteq> 0"
  shows "\<exists>res f' r'. reg rnd f k v r = Inr (res, f', r') \<and> (res = None \<longleftrightarrow> query f k \<noteq> None)"
  using generate_key_returns [OF assms]
  by (auto simp: reg_def query_def split: option.split)

theorem reg_terminates_witness:
  "\<exists>res f' r'. reg (\<lambda>n :: nat. (of_nat n, Suc n)) (factory_empty :: (nat, bool) factory) 3 True 0
       = Inr (res, f', r') \<and> (res = None \<longleftrightarrow> query (factory_empty :: (nat, bool) factory) 3 \<noteq> None)"
  by (rule reg_terminates [where n = 1]) (simp add: rnd_draw_def)

text \<open>
  \<open>query_or_default\<close> never gives the default: on a name that is not registered it
  throws, whatever default was passed.
\<close>
theorem query_or_default_ignores_default:
  "query_or_default f k def = (case query f k of Some v \<Rightarrow> Inr v | None \<Rightarrow> Inl Thrown)"
  by (simp add: query_or_default_def split: option.split)

end
