(* ===== verification/Verbs.thy ===== *)
theory Verbs
  imports Proto
begin

text \<open>
  What the library uses of libibverbs: handles, attribute structures and the calls. The
  calls are a record of functions on the driver's state \<open>'d\<close>; every definition that uses
  the driver takes this record as an argument. A handle is a \<open>ptr\<close>. The fields of the
  attribute structures have the width that verbs.h gives them, so an assignment truncates.
\<close>

section \<open>States, types and attribute masks\<close>

datatype qp_state = QPS_RESET | QPS_INIT | QPS_RTR | QPS_RTS | QPS_SQD | QPS_SQE | QPS_ERR

datatype qp_type = QPT_RC | QPT_UC | QPT_UD | QPT_DC_INI | QPT_OTHER

datatype qp_mask =
    M_STATE | M_ACCESS_FLAGS | M_PKEY_INDEX | M_PORT | M_QKEY | M_AV | M_PATH_MTU | M_TIMEOUT
  | M_RETRY_CNT | M_RNR_RETRY | M_RQ_PSN | M_MAX_QP_RD_ATOMIC | M_MIN_RNR_TIMER | M_SQ_PSN
  | M_MAX_DEST_RD_ATOMIC | M_DEST_QPN | M_DC_KEY

record ah_attr =
  ah_dlid :: u16
  ah_sl :: u8
  ah_src_path_bits :: u8
  ah_port_num :: u8
  ah_is_global :: u8
  ah_subnet_prefix :: u64
  ah_interface_id :: u64
  ah_sgid_index :: u8
  ah_flow_label :: u32
  ah_hop_limit :: u8

definition zero_ah :: ah_attr where
  "zero_ah = \<lparr>ah_dlid = 0, ah_sl = 0, ah_src_path_bits = 0, ah_port_num = 0, ah_is_global = 0,
     ah_subnet_prefix = 0, ah_interface_id = 0, ah_sgid_index = 0, ah_flow_label = 0, ah_hop_limit = 0\<rparr>"

text \<open>The path MTU of 4096 bytes is the value 5 of \<open>ibv_mtu\<close>; zero is not a valid MTU.\<close>

record qp_mod_attr =
  qa_state :: qp_state
  qa_pkey_index :: u16
  qa_port_num :: u8
  qa_access_flags :: u32
  qa_qkey :: u32
  qa_path_mtu :: nat
  qa_dest_qp_num :: u32
  qa_rq_psn :: u32
  qa_sq_psn :: u32
  qa_max_rd_atomic :: u8
  qa_max_dest_rd_atomic :: u8
  qa_min_rnr_timer :: u8
  qa_timeout :: u8
  qa_retry_cnt :: u8
  qa_rnr_retry :: u8
  qa_ah :: ah_attr

definition zero_attr :: qp_mod_attr where
  "zero_attr = \<lparr>qa_state = QPS_RESET, qa_pkey_index = 0, qa_port_num = 0, qa_access_flags = 0,
     qa_qkey = 0, qa_path_mtu = 0, qa_dest_qp_num = 0, qa_rq_psn = 0, qa_sq_psn = 0,
     qa_max_rd_atomic = 0, qa_max_dest_rd_atomic = 0, qa_min_rnr_timer = 0, qa_timeout = 0,
     qa_retry_cnt = 0, qa_rnr_retry = 0, qa_ah = zero_ah\<rparr>"

record qp_init_attr =
  qi_send_cq :: ptr
  qi_recv_cq :: ptr
  qi_type :: qp_type
  qi_sq_sig_all :: c_int
  qi_max_send_wr :: u32
  qi_max_recv_wr :: u32
  qi_max_send_sge :: u32
  qi_max_recv_sge :: u32
  qi_max_inline_data :: u32

record dct_init_attr =
  di_pd :: ptr
  di_cq :: ptr
  di_srq :: ptr
  di_dc_key :: u64
  di_port :: u8
  di_access_flags :: u32
  di_min_rnr_timer :: u8
  di_mtu :: nat
  di_hop_limit :: u8
  di_inline_size :: u32

section \<open>Work requests and completions\<close>

record sge =
  sge_addr :: u64
  sge_length :: u32
  sge_lkey :: u32

text \<open>
  A send request: the opcode and flags are the numbers of verbs.h; \<open>wr_atomic\<close> holds the
  operands of an atomic operation, which share their storage with the RDMA address.
\<close>

record send_wr =
  wr_id :: u64
  wr_op :: nat
  wr_flags :: c_int
  wr_imm :: u32
  wr_sges :: "sge list"
  wr_remote_addr :: u64
  wr_rkey :: u32
  wr_compare_add :: u64
  wr_swap :: u64

text \<open>A request of a dynamic connection: the same, with the address and keys of the target.\<close>

record dc_wr =
  dw_op :: nat
  dw_flags :: u64
  dw_sge :: sge
  dw_remote_addr :: u64
  dw_rkey :: u32
  dw_ah :: ptr
  dw_access_key :: u64
  dw_number :: u32

record wc =
  wc_id :: u64
  wc_ok :: bool
  wc_imm :: u32

record port_attr =
  pt_active :: bool
  pt_lid :: u16

section \<open>The calls\<close>

text \<open>
  \<open>None\<close> in a result stands for an output structure that the call left uninitialised.
  \<open>v_errno\<close> and \<open>v_strerror\<close> read the error of the last failed call.
\<close>

record 'd verbs =
  v_get_device_list :: "'d \<Rightarrow> (c_int \<times> ptr list option) \<times> 'd"
  v_open_device :: "ptr \<Rightarrow> 'd \<Rightarrow> ptr \<times> 'd"
  v_close_device :: "ptr \<Rightarrow> 'd \<Rightarrow> c_int \<times> 'd"
  v_alloc_pd :: "ptr \<Rightarrow> 'd \<Rightarrow> ptr \<times> 'd"
  v_dealloc_pd :: "ptr \<Rightarrow> 'd \<Rightarrow> c_int \<times> 'd"
  v_query_port :: "ptr \<Rightarrow> u8 \<Rightarrow> 'd \<Rightarrow> (c_int \<times> port_attr) \<times> 'd"
  v_query_gid :: "ptr \<Rightarrow> u8 \<Rightarrow> c_int \<Rightarrow> 'd \<Rightarrow> (u64 \<times> u64) option \<times> 'd"
  v_query_device :: "ptr \<Rightarrow> 'd \<Rightarrow> (c_int \<times> u8) \<times> 'd"
  v_reg_mr :: "ptr \<Rightarrow> ptr \<Rightarrow> u64 \<Rightarrow> c_int \<Rightarrow> 'd \<Rightarrow> (u32 \<times> u32) option \<times> 'd"
  v_dereg_mr :: "(u32 \<times> u32) \<Rightarrow> 'd \<Rightarrow> c_int \<times> 'd"
  v_create_cq :: "ptr \<Rightarrow> c_int \<Rightarrow> 'd \<Rightarrow> ptr \<times> 'd"
  v_destroy_cq :: "ptr \<Rightarrow> 'd \<Rightarrow> c_int \<times> 'd"
  v_create_qp :: "ptr \<Rightarrow> qp_init_attr \<Rightarrow> 'd \<Rightarrow> ptr \<times> 'd"
  v_create_qp_ex :: "ptr \<Rightarrow> ptr \<Rightarrow> qp_init_attr \<Rightarrow> 'd \<Rightarrow> ptr \<times> 'd"
  v_destroy_qp :: "ptr \<Rightarrow> 'd \<Rightarrow> c_int \<times> 'd"
  v_create_srq :: "ptr \<Rightarrow> u32 \<Rightarrow> u32 \<Rightarrow> 'd \<Rightarrow> ptr \<times> 'd"
  v_destroy_srq :: "ptr \<Rightarrow> 'd \<Rightarrow> c_int \<times> 'd"
  v_create_dct :: "ptr \<Rightarrow> dct_init_attr \<Rightarrow> 'd \<Rightarrow> (ptr \<times> u32) \<times> 'd"
  v_destroy_dct :: "ptr \<Rightarrow> 'd \<Rightarrow> c_int \<times> 'd"
  v_create_ah :: "ptr \<Rightarrow> ah_attr \<Rightarrow> 'd \<Rightarrow> ptr \<times> 'd"
  v_qp_type :: "'d \<Rightarrow> ptr \<Rightarrow> qp_type"
  v_qp_num :: "'d \<Rightarrow> ptr \<Rightarrow> u32"
  v_modify_qp :: "ptr \<Rightarrow> qp_mod_attr \<Rightarrow> qp_mask set \<Rightarrow> 'd \<Rightarrow> c_int \<times> 'd"
  v_query_qp_state :: "ptr \<Rightarrow> 'd \<Rightarrow> (c_int \<times> qp_state) \<times> 'd"
  v_post_send :: "ptr \<Rightarrow> send_wr list \<Rightarrow> 'd \<Rightarrow> c_int \<times> 'd"
  v_exp_post_send :: "ptr \<Rightarrow> dc_wr \<Rightarrow> 'd \<Rightarrow> c_int \<times> 'd"
  v_post_recv :: "ptr \<Rightarrow> (u64 \<times> sge) list \<Rightarrow> 'd \<Rightarrow> c_int \<times> 'd"
  v_poll_cq :: "ptr \<Rightarrow> nat \<Rightarrow> 'd \<Rightarrow> (c_int \<times> wc list) \<times> 'd"
  v_errno :: "'d \<Rightarrow> c_int"
  v_strerror :: "'d \<Rightarrow> bytes"
  v_access :: access_consts
  v_signaled :: c_int
  v_inline :: c_int
  v_now :: "'d \<Rightarrow> int \<times> 'd"

end
