(* ===== verification/Nic.thy ===== *)
theory Nic
  imports Verbs
begin

text \<open>
  Devices and registered memory: \<open>DevIdx\<close> (core/naming.hh), \<open>RNic\<close> (core/nic.hh),
  \<open>RNicInfo\<close> (core/nicinfo.hh), \<open>RMem\<close> (core/rmem/mem.hh) and \<open>RegHandler\<close>
  (core/rmem/handler.hh). Construction and destruction are operations on the driver.
\<close>

section \<open>Devices\<close>

record dev_idx =
  dev_id :: usize
  port_id :: usize

record rnic =
  nic_ctx :: ptr
  nic_pd :: ptr
  nic_id :: dev_idx
  nic_addr :: "raddress option"
  nic_lid :: "u64 option"

definition nic_valid :: "rnic \<Rightarrow> bool" where
  "nic_valid n \<longleftrightarrow> nic_ctx n \<noteq> None \<and> nic_pd n \<noteq> None"

text \<open>The comparison of \<open>dev_id\<close> with \<open>num_devices\<close> is between unsigned numbers.\<close>

definition open_device :: "'d verbs \<Rightarrow> dev_idx \<Rightarrow> ('d, ptr) act" where
  "open_device V idx =
     bindA (callA (v_get_device_list V)) (\<lambda>(num_devices, dev_list).
       if dev_id idx \<ge> num_devices then retA None
       else case dev_list of
              None \<Rightarrow> failA Aborted
            | Some devs \<Rightarrow>
                if unat (dev_id idx) < length devs
                then callA (v_open_device V (devs ! unat (dev_id idx)))
                else failA Undefined)"

definition alloc_pd :: "'d verbs \<Rightarrow> ptr \<Rightarrow> ('d, ptr) act" where
  "alloc_pd V ctx = (if ctx = None then retA None else callA (v_alloc_pd V ctx))"

definition fetch_lid :: "'d verbs \<Rightarrow> ptr \<Rightarrow> ptr \<Rightarrow> dev_idx \<Rightarrow> ('d, u64 option) act" where
  "fetch_lid V ctx pd idx =
     (if ctx = None \<or> pd = None then retA None
      else bindA (callA (v_query_port V ctx (ucast (port_id idx)))) (\<lambda>(rc, attr).
             retA (if rc = 0 then Some (ucast (pt_lid attr)) else None)))"

text \<open>The result of \<open>ibv_query_gid\<close> is not checked: on failure \<open>gid\<close> is read uninitialised.\<close>

definition query_addr :: "'d verbs \<Rightarrow> ptr \<Rightarrow> ptr \<Rightarrow> dev_idx \<Rightarrow> u8 \<Rightarrow> ('d, raddress option) act" where
  "query_addr V ctx pd idx gid_index =
     (if ctx = None \<or> pd = None then retA None
      else bindA (callA (v_query_gid V ctx (ucast (port_id idx)) (ucast gid_index))) (\<lambda>gid.
             case gid of
               None \<Rightarrow> failA Undefined
             | Some (subnet, iface) \<Rightarrow>
                 retA (Some \<lparr>subnet_prefix = subnet, interface_id = iface, local_id = ucast gid_index\<rparr>)))"

text \<open>Members are initialised in the order of their declaration: the address before the lid.\<close>

definition rnic_new :: "'d verbs \<Rightarrow> dev_idx \<Rightarrow> u8 \<Rightarrow> ('d, rnic) act" where
  "rnic_new V idx gid =
     bindA (open_device V idx) (\<lambda>ctx.
     bindA (alloc_pd V ctx) (\<lambda>pd.
     bindA (query_addr V ctx pd idx gid) (\<lambda>addr.
     bindA (fetch_lid V ctx pd idx) (\<lambda>lid.
       retA \<lparr>nic_ctx = ctx, nic_pd = pd, nic_id = idx, nic_addr = addr, nic_lid = lid\<rparr>))))"

text \<open>The domain is released before the context; failures are only logged.\<close>

definition rnic_destroy :: "'d verbs \<Rightarrow> rnic \<Rightarrow> ('d, unit) act" where
  "rnic_destroy V n =
     bindA (if nic_pd n \<noteq> None then callA (v_dealloc_pd V (nic_pd n)) else retA 0) (\<lambda>_.
     bindA (if nic_ctx n \<noteq> None then callA (v_close_device V (nic_ctx n)) else retA 0) (\<lambda>_.
       retA ()))"

definition rnic_create :: "'d verbs \<Rightarrow> dev_idx \<Rightarrow> u8 \<Rightarrow> ('d, rnic option) act" where
  "rnic_create V idx gid =
     bindA (rnic_new V idx gid) (\<lambda>n.
       if nic_valid n then retA (Some n)
       else bindA (rnic_destroy V n) (\<lambda>_. retA None))"

text \<open>\<open>is_active\<close>; the text of a port state is a parameter.\<close>

definition is_active :: "'d verbs \<Rightarrow> (port_attr \<Rightarrow> bytes) \<Rightarrow> rnic \<Rightarrow> ('d, bytes result) act" where
  "is_active V state_str n =
     (if \<not> nic_valid n then retA (Err (bstr ''Context is not valid.''))
      else bindA (callA (v_query_port V (nic_ctx n) (ucast (port_id (nic_id n))))) (\<lambda>(rc, attr) d.
             (Inr (if rc = 0 \<and> pt_active attr then Ok []
                   else if rc = 0 then Err (state_str attr)
                   else Err (v_strerror V d)), d)))"

section \<open>All devices of the machine\<close>

definition device_ports :: "usize \<Rightarrow> u8 \<Rightarrow> dev_idx list" where
  "device_ports i cnt = map (\<lambda>p. \<lparr>dev_id = i, port_id = of_nat p\<rparr>) [1 ..< unat cnt + 1]"

fun query_devs :: "'d verbs \<Rightarrow> nat \<Rightarrow> nat \<Rightarrow> dev_idx list \<Rightarrow> ('d, dev_idx list) act" where
  "query_devs V 0 i res = retA res"
| "query_devs V (Suc k) i res =
     bindA (rnic_new V \<lparr>dev_id = of_nat i, port_id = 73\<rparr> 0) (\<lambda>n.
       if nic_valid n then
         bindA (callA (v_query_device V (nic_ctx n))) (\<lambda>(rc, cnt).
         bindA (rnic_destroy V n) (\<lambda>_.
           query_devs V k (Suc i) (if rc \<noteq> 0 then res else res @ device_ports (of_nat i) cnt)))
       else failA Aborted)"

definition query_dev_names :: "'d verbs \<Rightarrow> ('d, dev_idx list) act" where
  "query_dev_names V =
     bindA (callA (v_get_device_list V)) (\<lambda>(num_devices, _).
       query_devs V (unat num_devices) 0 [])"

section \<open>Memory\<close>

record rmem =
  rm_ptr :: ptr
  rm_sz :: u64

definition rmem_new :: "(u64 \<Rightarrow> ptr) \<Rightarrow> u64 \<Rightarrow> rmem" where
  "rmem_new af s = \<lparr>rm_ptr = af s, rm_sz = s\<rparr>"

definition rmem_valid :: "rmem \<Rightarrow> bool" where
  "rmem_valid m \<longleftrightarrow> rm_ptr m \<noteq> None"

definition rmem_destroy :: "(ptr \<Rightarrow> 'm \<Rightarrow> 'm) \<Rightarrow> rmem \<Rightarrow> 'm \<Rightarrow> 'm" where
  "rmem_destroy df m = df (rm_ptr m)"

definition ptr_u64 :: "ptr \<Rightarrow> u64" where
  "ptr_u64 p = (case p of None \<Rightarrow> 0 | Some a \<Rightarrow> of_nat a)"

text \<open>\<open>rh_mr\<close>: the keys (rkey, lkey) of the region in the driver, \<open>None\<close> for no region.\<close>

record reg_handler =
  rh_mr :: "(u32 \<times> u32) option"
  rh_nic :: rnic
  rh_mem :: rmem

definition rh_valid :: "reg_handler \<Rightarrow> bool" where
  "rh_valid h \<longleftrightarrow> rh_mr h \<noteq> None"

definition reg_handler_new :: "'d verbs \<Rightarrow> rmem \<Rightarrow> rnic \<Rightarrow> memory_flags \<Rightarrow> ('d, reg_handler) act" where
  "reg_handler_new V mem nic flags =
     (if nic_valid nic
      then bindA (callA (v_reg_mr V (nic_pd nic) (rm_ptr mem) (rm_sz mem) (get_value flags))) (\<lambda>mr.
             retA \<lparr>rh_mr = mr, rh_nic = nic, rh_mem = mem\<rparr>)
      else retA \<lparr>rh_mr = None, rh_nic = nic, rh_mem = mem\<rparr>)"

definition reg_handler_destroy :: "'d verbs \<Rightarrow> reg_handler \<Rightarrow> ('d, unit) act" where
  "reg_handler_destroy V h =
     (case rh_mr h of None \<Rightarrow> retA () | Some mr \<Rightarrow> bindA (callA (v_dereg_mr V mr)) (\<lambda>_. retA ()))"

definition reg_handler_create ::
  "'d verbs \<Rightarrow> rmem \<Rightarrow> rnic \<Rightarrow> memory_flags \<Rightarrow> ('d, reg_handler option) act"
where
  "reg_handler_create V mem nic flags =
     bindA (reg_handler_new V mem nic flags) (\<lambda>h.
       if rh_valid h then retA (Some h)
       else bindA (reg_handler_destroy V h) (\<lambda>_. retA None))"

definition get_reg_attr :: "reg_handler \<Rightarrow> reg_attr option" where
  "get_reg_attr h =
     (case rh_mr h of
        None \<Rightarrow> None
      | Some (rkey, lkey) \<Rightarrow>
          Some \<lparr>ra_buf = ptr_u64 (rm_ptr (rh_mem h)), ra_sz = rm_sz (rh_mem h), ra_key = rkey, ra_lkey = lkey\<rparr>)"

end
