(* ===== verification/Impl.thy ===== *)
theory Impl
  imports Nic
begin

text \<open>
  \<open>Impl\<close> of core/qps/impl.hh and the state changes of UD (core/qps/ud.hh) and DC queue pairs
  (core/qps/dc.hh): which attributes, with which mask, each step asks the driver to set.
  The driver answers with zero or an error; \<open>strerror(errno)\<close> is read after the call.
\<close>

unbundle bit_operations_syntax

definition kMaxInlinSz :: usize where "kMaxInlinSz = 64"

definition kGRHSz :: usize where "kGRHSz = 40"

definition MTU_4096 :: nat where "MTU_4096 = 5"

text \<open>The common end of a step: Err with the driver's text, or Ok.\<close>

definition rc_result :: "'d verbs \<Rightarrow> c_int \<Rightarrow> ('d, bytes result) act" where
  "rc_result V rc d = (Inr (if rc \<noteq> 0 then Err (v_strerror V d) else Ok []), d)"

definition handle_result :: "'d verbs \<Rightarrow> ptr \<Rightarrow> ('d, (ptr \<times> bytes) result) act" where
  "handle_result V h d = (Inr (if h = None then Err (h, v_strerror V d) else Ok (h, [])), d)"

section \<open>Reliable connections\<close>

definition init_attr :: "qp_type \<Rightarrow> qp_config \<Rightarrow> rnic \<Rightarrow> qp_mod_attr" where
  "init_attr ty config nic =
     (let a = zero_attr\<lparr>qa_state := QPS_INIT, qa_pkey_index := 0, qa_port_num := ucast (port_id (nic_id nic))\<rparr>
      in if ty = QPT_RC then a\<lparr>qa_access_flags := c_access_flags config\<rparr>
         else a\<lparr>qa_qkey := c_qkey config\<rparr>)"

definition init_mask :: "qp_type \<Rightarrow> qp_mask set" where
  "init_mask ty = {M_STATE, M_PKEY_INDEX, M_PORT} \<union> (if ty = QPT_RC then {M_ACCESS_FLAGS} else {M_QKEY})"

definition bring_qp_to_init :: "'d verbs \<Rightarrow> ptr \<Rightarrow> qp_config \<Rightarrow> rnic \<Rightarrow> ('d, bytes result) act" where
  "bring_qp_to_init V qp config nic d =
     (let ty = v_qp_type V d qp
      in if qp = None then (Inl Aborted, d)
         else if ty = QPT_RC \<or> ty = QPT_UD
         then bindA (callA (v_modify_qp V qp (init_attr ty config nic) (init_mask ty))) (rc_result V) d
         else (Inl Aborted, d))"

definition rcv_attr :: "qp_config \<Rightarrow> qp_attr \<Rightarrow> c_int \<Rightarrow> qp_mod_attr" where
  "rcv_attr config attr port = zero_attr\<lparr>
     qa_state := QPS_RTR, qa_path_mtu := MTU_4096, qa_dest_qp_num := ucast (q_qpn attr),
     qa_rq_psn := c_rq_psn config, qa_max_dest_rd_atomic := ucast (c_max_dest_rd_atomic config),
     qa_min_rnr_timer := 20,
     qa_ah := zero_ah\<lparr>ah_dlid := ucast (q_lid attr), ah_sl := 0, ah_src_path_bits := 0,
       ah_port_num := ucast port, ah_is_global := 1,
       ah_subnet_prefix := subnet_prefix (q_addr attr), ah_interface_id := interface_id (q_addr attr),
       ah_sgid_index := 0, ah_flow_label := 0, ah_hop_limit := 255\<rparr>\<rparr>"

definition rcv_mask :: "qp_mask set" where
  "rcv_mask = {M_STATE, M_AV, M_PATH_MTU, M_DEST_QPN, M_RQ_PSN, M_MAX_DEST_RD_ATOMIC, M_MIN_RNR_TIMER}"

definition bring_rc_to_rcv ::
  "'d verbs \<Rightarrow> ptr \<Rightarrow> qp_config \<Rightarrow> qp_attr \<Rightarrow> c_int \<Rightarrow> ('d, bytes result) act"
where
  "bring_rc_to_rcv V qp config attr port =
     bindA (callA (v_modify_qp V qp (rcv_attr config attr port) rcv_mask)) (rc_result V)"

definition send_attr :: "qp_config \<Rightarrow> qp_mod_attr" where
  "send_attr config = zero_attr\<lparr>
     qa_state := QPS_RTS, qa_sq_psn := c_sq_psn config, qa_timeout := ucast (c_timeout config),
     qa_retry_cnt := 7, qa_rnr_retry := 7, qa_max_rd_atomic := ucast (c_max_rd_atomic config),
     qa_max_dest_rd_atomic := ucast (c_max_dest_rd_atomic config)\<rparr>"

definition send_mask :: "qp_mask set" where
  "send_mask = {M_STATE, M_SQ_PSN, M_TIMEOUT, M_RETRY_CNT, M_RNR_RETRY, M_MAX_QP_RD_ATOMIC}"

definition bring_rc_to_send :: "'d verbs \<Rightarrow> ptr \<Rightarrow> qp_config \<Rightarrow> ('d, bytes result) act" where
  "bring_rc_to_send V qp config =
     bindA (callA (v_modify_qp V qp (send_attr config) send_mask)) (rc_result V)"

section \<open>Creating queues\<close>

definition create_cq :: "'d verbs \<Rightarrow> rnic \<Rightarrow> c_int \<Rightarrow> ('d, (ptr \<times> bytes) result) act" where
  "create_cq V nic cq_sz = bindA (callA (v_create_cq V (nic_ctx nic) cq_sz)) (handle_result V)"

definition create_qp ::
  "'d verbs \<Rightarrow> rnic \<Rightarrow> qp_type \<Rightarrow> qp_config \<Rightarrow> ptr \<Rightarrow> ptr \<Rightarrow> ('d, (ptr \<times> bytes) result) act"
where
  "create_qp V nic ty config cq recv_cq =
     (if cq = None then retA (Err (None, bstr ''CQ passed in as null''))
      else bindA (callA (v_create_qp V (nic_pd nic)
             \<lparr>qi_send_cq = cq, qi_recv_cq = (if recv_cq = None then cq else recv_cq), qi_type = ty,
              qi_sq_sig_all = 0, qi_max_send_wr = max_send_sz config,
              qi_max_recv_wr = max_recv_sz config, qi_max_send_sge = 1, qi_max_recv_sge = 1,
              qi_max_inline_data = kMaxInlinSz\<rparr>)) (handle_result V))"

definition create_srq :: "'d verbs \<Rightarrow> rnic \<Rightarrow> c_int \<Rightarrow> c_int \<Rightarrow> ('d, (ptr \<times> bytes) result) act" where
  "create_srq V nic max_wr max_sge =
     bindA (callA (v_create_srq V (nic_pd nic) max_wr max_sge)) (handle_result V)"

text \<open>The result pairs the handle with the number the driver stored in the new target.\<close>

definition create_dct ::
  "'d verbs \<Rightarrow> rnic \<Rightarrow> ptr \<Rightarrow> ptr \<Rightarrow> c_int \<Rightarrow> ('d, ((ptr \<times> u32) \<times> bytes) result) act"
where
  "create_dct V nic cq srq key =
     (if cq = None then retA (Err ((None, 0), bstr ''CQ passed in as null''))
      else if srq = None then retA (Err ((None, 0), bstr ''SRQ passed in as null''))
      else bindA (callA (v_create_dct V (nic_ctx nic)
             \<lparr>di_pd = nic_pd nic, di_cq = cq, di_srq = srq, di_dc_key = scast key, di_port = 1,
              di_access_flags = REMOTE_WRITE (v_access V) OR REMOTE_READ (v_access V),
              di_min_rnr_timer = 2, di_mtu = MTU_4096, di_hop_limit = 1, di_inline_size = 60\<rparr>))
             (\<lambda>h d. (Inr (if fst h = None then Err (h, v_strerror V d) else Ok (h, [])), d)))"

definition create_qp_ex ::
  "'d verbs \<Rightarrow> rnic \<Rightarrow> qp_config \<Rightarrow> ptr \<Rightarrow> ptr \<Rightarrow> ('d, (ptr \<times> bytes) result) act"
where
  "create_qp_ex V nic config cq recv_cq =
     (if cq = None then retA (Err (None, bstr ''CQ passed in as null''))
      else bindA (callA (v_create_qp_ex V (nic_ctx nic) (nic_pd nic)
             \<lparr>qi_send_cq = cq, qi_recv_cq = (if recv_cq = None then cq else recv_cq),
              qi_type = QPT_DC_INI, qi_sq_sig_all = 0, qi_max_send_wr = max_send_sz config,
              qi_max_recv_wr = 0, qi_max_send_sge = 1, qi_max_recv_sge = 0,
              qi_max_inline_data = kMaxInlinSz\<rparr>)) (handle_result V))"

section \<open>Datagrams and dynamic connections\<close>

definition bring_ud_to_recv :: "'d verbs \<Rightarrow> ptr \<Rightarrow> ('d, bool) act" where
  "bring_ud_to_recv V qp =
     bindA (callA (v_modify_qp V qp (zero_attr\<lparr>qa_state := QPS_RTR\<rparr>) {M_STATE})) (\<lambda>rc. retA (rc = 0))"

definition bring_ud_to_send :: "'d verbs \<Rightarrow> ptr \<Rightarrow> c_int \<Rightarrow> ('d, bool) act" where
  "bring_ud_to_send V qp psn =
     bindA (callA (v_modify_qp V qp (zero_attr\<lparr>qa_state := QPS_RTS, qa_sq_psn := psn\<rparr>) {M_STATE, M_SQ_PSN}))
       (\<lambda>rc. retA (rc = 0))"

definition bring_dc_to_init :: "'d verbs \<Rightarrow> ptr \<Rightarrow> ('d, bool) act" where
  "bring_dc_to_init V qp =
     bindA (callA (v_modify_qp V qp
              (zero_attr\<lparr>qa_state := QPS_INIT, qa_pkey_index := 0, qa_port_num := 1, qa_access_flags := 0\<rparr>)
              {M_STATE, M_PKEY_INDEX, M_PORT, M_DC_KEY})) (\<lambda>rc. retA (rc = 0))"

definition bring_dc_to_rtr :: "'d verbs \<Rightarrow> ptr \<Rightarrow> ('d, bool) act" where
  "bring_dc_to_rtr V qp =
     bindA (callA (v_modify_qp V qp
              (zero_attr\<lparr>qa_state := QPS_RTR, qa_path_mtu := MTU_4096,
                 qa_ah := zero_ah\<lparr>ah_is_global := 0, ah_port_num := 1, ah_sl := 0\<rparr>\<rparr>)
              {M_STATE, M_PATH_MTU, M_AV})) (\<lambda>rc. retA (rc = 0))"

definition bring_dc_to_rts :: "'d verbs \<Rightarrow> ptr \<Rightarrow> ('d, bool) act" where
  "bring_dc_to_rts V qp =
     bindA (callA (v_modify_qp V qp
              (zero_attr\<lparr>qa_state := QPS_RTS, qa_timeout := 50, qa_retry_cnt := 5, qa_rnr_retry := 5,
                 qa_max_rd_atomic := 16\<rparr>)
              {M_STATE, M_TIMEOUT, M_RETRY_CNT, M_RNR_RETRY, M_MAX_QP_RD_ATOMIC})) (\<lambda>rc. retA (rc = 0))"

end
