(* ===== verification/QPs.thy ===== *)
theory QPs
  imports Impl Ipname
begin

text \<open>
  Queue pairs: \<open>Progress\<close> and \<open>Dummy\<close> of core/qps/mod.hh, \<open>RC\<close> of core/qps/rc.hh, \<open>UD\<close> of
  core/qps/ud.hh, \<open>DC\<close> and \<open>DCTarget\<close> of core/qps/dc.hh, with the bit mask of
  core/utils/mod.hh. An object is a record; an operation returns the changed object, and
  threads the driver's state. \<open>None\<close> for a completion is an uninitialised \<open>ibv_wc\<close>.
\<close>

unbundle bit_operations_syntax

section \<open>Progress of the send queue\<close>

record progress =
  high_watermark :: u16
  low_watermark :: u16

definition num_progress_bits :: nat where "num_progress_bits = 16"

definition progress_new :: progress where
  "progress_new = \<lparr>high_watermark = 0, low_watermark = 0\<rparr>"

definition forward_mark :: "progress \<Rightarrow> u16 \<Rightarrow> u16 \<times> progress" where
  "forward_mark p n = (high_watermark p + n, p\<lparr>high_watermark := high_watermark p + n\<rparr>)"

definition done_mark :: "progress \<Rightarrow> c_int \<Rightarrow> progress" where
  "done_mark p n = p\<lparr>low_watermark := ucast n\<rparr>"

text \<open>The arithmetic is done in \<open>int\<close>; the result is cut to 16 bits.\<close>

definition pending_reqs :: "progress \<Rightarrow> u16" where
  "pending_reqs p =
     (if high_watermark p \<ge> low_watermark p
      then word_of_int (uint (high_watermark p) - uint (low_watermark p))
      else word_of_int (65535 - (uint (low_watermark p) - uint (high_watermark p)) + 1))"

definition bitmask :: "nat \<Rightarrow> 'a::len word" where
  "bitmask onecount = (if onecount \<noteq> 0 then - 1 else 0) AND drop_bit (LENGTH('a) - onecount) (- 1)"

section \<open>Dummy: what all queue pairs share\<close>

record qp_dummy =
  d_qp :: ptr
  d_cq :: ptr
  d_recv_cq :: ptr
  d_out_signaled :: usize
  d_nic :: rnic

definition dummy_valid :: "('x) qp_dummy_scheme \<Rightarrow> bool" where
  "dummy_valid q \<longleftrightarrow> d_qp q \<noteq> None \<and> d_cq q \<noteq> None"

definition ongoing_signaled :: "('x) qp_dummy_scheme \<Rightarrow> usize" where
  "ongoing_signaled q = d_out_signaled q"

definition dummy_destroy :: "'d verbs \<Rightarrow> ('x) qp_dummy_scheme \<Rightarrow> ('d, ('x) qp_dummy_scheme) act" where
  "dummy_destroy V q =
     bindA (if d_qp q \<noteq> None then callA (v_destroy_qp V (d_qp q)) else retA 0) (\<lambda>_.
     bindA (if d_cq q \<noteq> None then callA (v_destroy_cq V (d_cq q)) else retA 0) (\<lambda>_.
     bindA (if d_recv_cq q \<noteq> None then callA (v_destroy_cq V (d_recv_cq q)) else retA 0) (\<lambda>_.
       retA (q\<lparr>d_qp := None, d_cq := None, d_recv_cq := None\<rparr>))))"

definition dummy_send :: "'d verbs \<Rightarrow> ('x) qp_dummy_scheme \<Rightarrow> send_wr list \<Rightarrow> ('d, c_int result) act" where
  "dummy_send V q srs =
     bindA (callA (v_post_send V (d_qp q) srs)) (\<lambda>rc d.
       (Inr (if rc = 0 then Ok 0 else Err (v_errno V d)), d))"

definition poll_send_comp ::
  "'d verbs \<Rightarrow> ('x) qp_dummy_scheme \<Rightarrow> 'd \<Rightarrow> (c_int \<times> wc option) \<times> ('x) qp_dummy_scheme \<times> 'd"
where
  "poll_send_comp V q d =
     (case v_poll_cq V (d_cq q) 1 d of
        ((n, wcs), d') \<Rightarrow>
          if 0 <s n then ((n, Some (hd wcs)), q\<lparr>d_out_signaled := d_out_signaled q - 1\<rparr>, d')
          else ((n, None), q, d'))"

text \<open>The loop polls until a result or until more than \<open>timeout\<close> microseconds have passed.\<close>

partial_function (option) poll_until ::
  "'d verbs \<Rightarrow> timer \<Rightarrow> int \<Rightarrow> ('x) qp_dummy_scheme \<Rightarrow> 'd \<Rightarrow>
     ((c_int \<times> wc option) \<times> ('x) qp_dummy_scheme \<times> 'd) option"
where
  "poll_until V t timeout q d =
     (case poll_send_comp V q d of
        (res, q', d') \<Rightarrow>
          if fst res = 0
          then (case v_now V d' of
                  (now, d'') \<Rightarrow> if passed_msec now t \<le> timeout then poll_until V t timeout q' d''
                               else Some (res, q', d''))
          else Some (res, q', d'))"

definition wait_one_comp ::
  "'d verbs \<Rightarrow> int \<Rightarrow> ('x) qp_dummy_scheme \<Rightarrow> 'd \<Rightarrow> (wc option result \<times> ('x) qp_dummy_scheme \<times> 'd) option"
where
  "wait_one_comp V timeout q d =
     (case v_now V d of
        (start, d0) \<Rightarrow>
          map_option (\<lambda>((n, w), q', d').
             (if n = 0 then Timeout w
              else if n <s 0 \<or> \<not> wc_ok (the w) then Err w
              else Ok w, q', d'))
            (poll_until V (timer_new start) timeout q d0))"

definition qp_status :: "'d verbs \<Rightarrow> ('x) qp_dummy_scheme \<Rightarrow> ('d, qp_state result) act" where
  "qp_status V q =
     (if \<not> dummy_valid q then retA (Err QPS_RTS)
      else bindA (callA (v_query_qp_state V (d_qp q))) (\<lambda>(rc, st).
             if rc = 0 then retA (Ok st) else failA Aborted))"

section \<open>RC\<close>

record rc = qp_dummy +
  rc_local_mr :: "reg_attr option"
  rc_remote_mr :: "reg_attr option"
  rc_status :: "unit result"
  rc_progress :: progress
  rc_config :: qp_config

text \<open>
  The constructor. Its steps stop at the first failure of creating a queue; a failure to
  reach the INIT state is only logged. The receive queue is the caller's.
\<close>

definition rc_blank :: "rnic \<Rightarrow> qp_config \<Rightarrow> rc" where
  "rc_blank nic config =
     \<lparr>d_qp = None, d_cq = None, d_recv_cq = None, d_out_signaled = 0, d_nic = nic,
      rc_local_mr = None, rc_remote_mr = None, rc_status = NotReady (), rc_progress = progress_new,
      rc_config = config\<rparr>"

definition rc_new :: "'d verbs \<Rightarrow> rnic \<Rightarrow> qp_config \<Rightarrow> ptr \<Rightarrow> ('d, rc) act" where
  "rc_new V nic config recv_cq =
     bindA (create_cq V nic (max_send_sz config)) (\<lambda>res.
       if code res \<noteq> IO_Ok then retA (rc_blank nic config)
       else
         let q1 = (rc_blank nic config)\<lparr>d_cq := fst (desc res), d_recv_cq := recv_cq\<rparr> in
         bindA (create_qp V nic QPT_RC config (d_cq q1) (d_recv_cq q1)) (\<lambda>res_qp.
           if code res_qp \<noteq> IO_Ok then retA q1
           else
             let q2 = q1\<lparr>d_qp := fst (desc res_qp)\<rparr> in
             bindA (bring_qp_to_init V (d_qp q2) config nic) (\<lambda>res_init. retA q2)))"

definition rc_create :: "'d verbs \<Rightarrow> rnic \<Rightarrow> qp_config \<Rightarrow> ptr \<Rightarrow> ('d, rc option) act" where
  "rc_create V nic config recv_cq =
     bindA (rc_new V nic config recv_cq) (\<lambda>q.
       if dummy_valid q then retA (Some q)
       else bindA (dummy_destroy V q) (\<lambda>_. retA None))"

text \<open>\<open>value()\<close> on an absent address or lid throws; a null queue pair is dereferenced.\<close>

definition attr_of :: "'d verbs \<Rightarrow> ('x) qp_dummy_scheme \<Rightarrow> qp_config \<Rightarrow> u64 \<Rightarrow> 'd \<Rightarrow> qp_attr outcome" where
  "attr_of V q config qkey d =
     bindE (opt_value (nic_addr (d_nic q))) (\<lambda>addr.
     bindE (opt_value (nic_lid (d_nic q))) (\<lambda>lid.
       if d_qp q = None then Inl Undefined
       else Inr \<lparr>q_addr = addr, q_lid = lid, q_psn = scast (c_rq_psn config),
                 q_port_id = ucast (port_id (nic_id (d_nic q))),
                 q_qpn = ucast (v_qp_num V d (d_qp q)), q_qkey = qkey\<rparr>))"

definition rc_my_attr :: "'d verbs \<Rightarrow> rc \<Rightarrow> 'd \<Rightarrow> qp_attr outcome" where
  "rc_my_attr V q d = attr_of V q (rc_config q) 0 d"

definition bind_remote_mr :: "reg_attr \<Rightarrow> rc \<Rightarrow> rc" where
  "bind_remote_mr mr q = q\<lparr>rc_remote_mr := Some mr\<rparr>"

definition bind_local_mr :: "reg_attr \<Rightarrow> rc \<Rightarrow> rc" where
  "bind_local_mr mr q = q\<lparr>rc_local_mr := Some mr\<rparr>"

definition rc_connect :: "'d verbs \<Rightarrow> qp_attr \<Rightarrow> rc \<Rightarrow> ('d, bytes result \<times> rc) act" where
  "rc_connect V attr q =
     bindA (qp_status V q) (\<lambda>res.
       if code res \<noteq> IO_Ok then retA (Err (bstr ''QP not valid''), q)
       else if desc res = QPS_RTS then retA (Ok (bstr ''already connected''), q)
       else
         bindA (\<lambda>d. (rc_my_attr V q d, d)) (\<lambda>mine.
         bindA (bring_rc_to_rcv V (d_qp q) (rc_config q) attr (ucast (q_port_id mine))) (\<lambda>r1.
           if code r1 \<noteq> IO_Ok then retA (r1, q)
           else
             bindA (bring_rc_to_send V (d_qp q) (rc_config q)) (\<lambda>r2.
               if code r2 \<noteq> IO_Ok then retA (r2, q)
               else retA (Ok [], q\<lparr>rc_status := Ok ()\<rparr>)))))"

text \<open>
  Sending. The request's number carries the user's number above the 16 bits of the progress
  mark. The mark and the count of signalled requests advance before the request is posted,
  also when posting then fails.
\<close>

record req_desc =
  rd_op :: nat
  rd_flags :: c_int
  rd_len :: u32
  rd_wr_id :: u64

record req_payload =
  rp_local_addr :: ptr
  rp_remote_addr :: u64
  rp_imm_data :: u64

definition encode_my_wr :: "u64 \<Rightarrow> c_int \<Rightarrow> rc \<Rightarrow> u64 \<times> rc" where
  "encode_my_wr wr n q =
     (case forward_mark (rc_progress q) (ucast n) of
        (mark, p) \<Rightarrow> (push_bit num_progress_bits wr OR ucast mark, q\<lparr>rc_progress := p\<rparr>))"

definition rc_send_normal ::
  "'d verbs \<Rightarrow> req_desc \<Rightarrow> req_payload \<Rightarrow> reg_attr \<Rightarrow> reg_attr \<Rightarrow> rc \<Rightarrow> ('d, bytes result \<times> rc) act"
where
  "rc_send_normal V rdesc payload lmr rmr q =
     (if code (rc_status q) \<noteq> IO_Ok then failA Aborted
      else
        case encode_my_wr (rd_wr_id rdesc) 1 q of
          (wid, q1) \<Rightarrow>
            let sr = \<lparr>wr_id = wid, wr_op = rd_op rdesc, wr_flags = rd_flags rdesc,
                      wr_imm = ucast (rp_imm_data payload),
                      wr_sges = [\<lparr>sge_addr = ptr_u64 (rp_local_addr payload), sge_length = rd_len rdesc,
                                  sge_lkey = ra_lkey lmr\<rparr>],
                      wr_remote_addr = ra_buf rmr + rp_remote_addr payload, wr_rkey = ra_key rmr,
                      wr_compare_add = 0, wr_swap = 0\<rparr>;
                q2 = (if rd_flags rdesc AND v_signaled V \<noteq> 0
                      then q1\<lparr>d_out_signaled := d_out_signaled q1 + 1\<rparr> else q1)
            in bindA (callA (v_post_send V (d_qp q2) [sr])) (\<lambda>rc d.
                 (Inr (if rc = 0 then Ok [] else Err (v_strerror V d), q2), d)))"

definition rc_send_default ::
  "'d verbs \<Rightarrow> req_desc \<Rightarrow> req_payload \<Rightarrow> rc \<Rightarrow> ('d, bytes result \<times> rc) act"
where
  "rc_send_default V rdesc payload q =
     bindA (liftA (opt_value (rc_local_mr q))) (\<lambda>lmr.
     bindA (liftA (opt_value (rc_remote_mr q))) (\<lambda>rmr.
       rc_send_normal V rdesc payload lmr rmr q))"

text \<open>
  Polling. Only a result of zero means no completion; a negative result is taken for one,
  and the uninitialised completion is read.
\<close>

definition poll_rc_comp ::
  "'d verbs \<Rightarrow> rc \<Rightarrow> 'd \<Rightarrow> (u64 \<times> wc) option outcome \<times> rc \<times> 'd"
where
  "poll_rc_comp V q d =
     (case poll_send_comp V q d of
        ((n, w), q', d') \<Rightarrow>
          if n = 0 then (Inr None, q', d')
          else case w of
                 None \<Rightarrow> (Inl Undefined, q', d')
               | Some c \<Rightarrow>
                   let user_wr = drop_bit num_progress_bits (wc_id c);
                       water_mark = wc_id c AND bitmask num_progress_bits
                   in (Inr (Some (user_wr, c)),
                       q'\<lparr>rc_progress := done_mark (rc_progress q') (ucast water_mark)\<rparr>, d'))"

partial_function (option) poll_rc_until ::
  "'d verbs \<Rightarrow> timer \<Rightarrow> int \<Rightarrow> rc \<Rightarrow> 'd \<Rightarrow> ((u64 \<times> wc) option outcome \<times> rc \<times> 'd) option"
where
  "poll_rc_until V t timeout q d =
     (case poll_rc_comp V q d of
        (res, q', d') \<Rightarrow>
          if res = Inr None
          then (case v_now V d' of
                  (now, d'') \<Rightarrow> if passed_msec now t < timeout then poll_rc_until V t timeout q' d''
                               else Some (res, q', d''))
          else Some (res, q', d'))"

text \<open>A result other than Ok carries the local completion, which was never assigned.\<close>

definition wait_rc_comp ::
  "'d verbs \<Rightarrow> int \<Rightarrow> rc \<Rightarrow> 'd \<Rightarrow> ((u64 \<times> wc option) result outcome \<times> rc \<times> 'd) option"
where
  "wait_rc_comp V timeout q d =
     (case v_now V d of
        (start, d0) \<Rightarrow>
          map_option (\<lambda>(res, q', d').
             (bindE res (\<lambda>r. Inr (case r of
                 None \<Rightarrow> Timeout (0, None)
               | Some (u, c) \<Rightarrow> if \<not> wc_ok c then Err (0, None) else Ok (u, Some c))), q', d'))
            (poll_rc_until V (timer_new start) timeout q d0))"

definition rc_max_send_sz :: "rc \<Rightarrow> c_int" where
  "rc_max_send_sz q = c_max_send_size (rc_config q)"

section \<open>UD\<close>

record ud = qp_dummy +
  ud_pending_reqs :: usize
  ud_config :: qp_config

definition ud_blank :: "rnic \<Rightarrow> qp_config \<Rightarrow> ud" where
  "ud_blank nic config =
     \<lparr>d_qp = None, d_cq = None, d_recv_cq = None, d_out_signaled = 0, d_nic = nic,
      ud_pending_reqs = 0, ud_config = config\<rparr>"

definition ud_new :: "'d verbs \<Rightarrow> rnic \<Rightarrow> qp_config \<Rightarrow> ('d, ud) act" where
  "ud_new V nic config =
     bindA (create_cq V nic (max_send_sz config)) (\<lambda>res.
       if code res \<noteq> IO_Ok then retA (ud_blank nic config)
       else
         let q1 = (ud_blank nic config)\<lparr>d_cq := fst (desc res)\<rparr> in
         bindA (create_cq V nic (max_recv_sz config)) (\<lambda>res_recv.
           if code res_recv \<noteq> IO_Ok then retA q1
           else
             let q2 = q1\<lparr>d_recv_cq := fst (desc res_recv)\<rparr> in
             bindA (create_qp V nic QPT_UD config (d_cq q2) (d_recv_cq q2)) (\<lambda>res_qp.
               if code res_qp \<noteq> IO_Ok then retA q2
               else
                 let q3 = q2\<lparr>d_qp := fst (desc res_qp)\<rparr> in
                 if \<not> dummy_valid q3 then retA q3
                 else
                   bindA (bring_qp_to_init V (d_qp q3) config nic) (\<lambda>res_init.
                     if code res_init \<noteq> IO_Ok then failA Aborted
                     else
                       bindA (bring_ud_to_recv V (d_qp q3)) (\<lambda>ok1.
                         if \<not> ok1 then failA Aborted
                         else
                           bindA (bring_ud_to_send V (d_qp q3) (c_rq_psn config)) (\<lambda>ok2.
                             if \<not> ok2 then failA Aborted else retA q3))))))"

definition ud_create :: "'d verbs \<Rightarrow> rnic \<Rightarrow> qp_config \<Rightarrow> ('d, ud option) act" where
  "ud_create V nic config =
     bindA (ud_new V nic config) (\<lambda>q.
       if dummy_valid q then retA (Some q)
       else bindA (dummy_destroy V q) (\<lambda>_. retA None))"

definition ud_my_attr :: "'d verbs \<Rightarrow> ud \<Rightarrow> 'd \<Rightarrow> qp_attr outcome" where
  "ud_my_attr V q d = attr_of V q (ud_config q) (scast (c_qkey (ud_config q))) d"

definition create_ah :: "'d verbs \<Rightarrow> ud \<Rightarrow> qp_attr \<Rightarrow> ('d, ptr) act" where
  "create_ah V q attr =
     bindA (liftA (opt_value (nic_addr (d_nic q)))) (\<lambda>addr.
       callA (v_create_ah V (nic_pd (d_nic q))
         (zero_ah\<lparr>ah_is_global := 1, ah_dlid := ucast (q_lid attr), ah_sl := 0, ah_src_path_bits := 0,
            ah_port_num := ucast (port_id (nic_id (d_nic q))),
            ah_subnet_prefix := subnet_prefix (q_addr attr), ah_interface_id := interface_id (q_addr attr),
            ah_flow_label := 0, ah_hop_limit := 255, ah_sgid_index := ucast (local_id addr)\<rparr>)))"

section \<open>DCTarget\<close>

text \<open>
  \<open>dct\<close> and \<open>srq\<close> have no initialiser: \<open>None\<close> is an uninitialised member, and so is the
  attribute. The constructor returns early on an error, and \<open>create\<close> never fails.
\<close>

record dct_target =
  dt_dct :: "ptr option"
  dt_srq :: "ptr option"
  dt_config :: qp_config
  dt_attr :: "dc_attr option"

definition dct_target_create :: "'d verbs \<Rightarrow> rnic \<Rightarrow> qp_config \<Rightarrow> ('d, dct_target) act" where
  "dct_target_create V nic config =
     (let t0 = \<lparr>dt_dct = None, dt_srq = None, dt_config = config, dt_attr = None\<rparr> in
      bindA (create_cq V nic (max_send_sz config)) (\<lambda>res.
        if code res \<noteq> IO_Ok then retA t0
        else
          bindA (create_srq V nic (max_send_sz config) 1) (\<lambda>srq_res.
            if code srq_res \<noteq> IO_Ok then retA t0
            else
              let t1 = t0\<lparr>dt_srq := Some (fst (desc srq_res))\<rparr> in
              bindA (create_dct V nic (fst (desc res)) (fst (desc srq_res)) (c_dc_key config)) (\<lambda>dct_res.
                if code dct_res \<noteq> IO_Ok then retA t1
                else
                  bindA (liftA (opt_value (nic_lid nic))) (\<lambda>lid.
                    retA (t1\<lparr>dt_dct := Some (fst (fst (desc dct_res))),
                             dt_attr := Some \<lparr>dc_lid = lid, dc_dct_num = snd (fst (desc dct_res)),
                                              dc_key = c_dc_key config\<rparr>\<rparr>))))))"

definition dct_target_destroy :: "'d verbs \<Rightarrow> dct_target \<Rightarrow> ('d, unit) act" where
  "dct_target_destroy V t =
     (case dt_dct t of
        None \<Rightarrow> failA Undefined
      | Some dct \<Rightarrow>
          bindA (if dct \<noteq> None then callA (v_destroy_dct V dct) else retA 0) (\<lambda>_.
            case dt_srq t of
              None \<Rightarrow> failA Undefined
            | Some srq \<Rightarrow>
                bindA (if srq \<noteq> None then callA (v_destroy_srq V srq) else retA 0) (\<lambda>_. retA ())))"

section \<open>DC\<close>

record dc = qp_dummy +
  dc_config :: qp_config

definition dc_blank :: "rnic \<Rightarrow> qp_config \<Rightarrow> dc" where
  "dc_blank nic config =
     \<lparr>d_qp = None, d_cq = None, d_recv_cq = None, d_out_signaled = 0, d_nic = nic, dc_config = config\<rparr>"

text \<open>\<open>create\<close> returns the object whether it is valid or not.\<close>

definition dc_create :: "'d verbs \<Rightarrow> rnic \<Rightarrow> qp_config \<Rightarrow> ptr \<Rightarrow> ('d, dc) act" where
  "dc_create V nic config recv_cq =
     bindA (create_cq V nic (max_send_sz config)) (\<lambda>res.
       if code res \<noteq> IO_Ok then retA (dc_blank nic config)
       else
         let q1 = (dc_blank nic config)\<lparr>d_cq := fst (desc res)\<rparr> in
         bindA (create_qp_ex V nic config (d_cq q1) recv_cq) (\<lambda>res_qp.
           if code res_qp \<noteq> IO_Ok then retA q1
           else
             let q2 = q1\<lparr>d_qp := fst (desc res_qp)\<rparr> in
             bindA (bring_dc_to_init V (d_qp q2)) (\<lambda>ok0.
               if \<not> ok0 then failA Aborted
               else bindA (bring_dc_to_rtr V (d_qp q2)) (\<lambda>ok1.
                 if \<not> ok1 then failA Aborted
                 else bindA (bring_dc_to_rts V (d_qp q2)) (\<lambda>ok2.
                   if \<not> ok2 then failA Aborted else retA q2)))))"

definition dc_my_attr :: "'d verbs \<Rightarrow> dc \<Rightarrow> 'd \<Rightarrow> qp_attr outcome" where
  "dc_my_attr V q d = attr_of V q (dc_config q) 0 d"

record dc_req_desc =
  dq_op :: nat
  dq_send_flags :: u32
  dq_ah :: ptr
  dq_dct_num :: u32
  dq_dc_key :: c_int
  dq_len :: u32

record dc_req_payload =
  dp_laddr :: u64
  dp_raddr :: u64
  dp_lkey :: u32
  dp_rkey :: u32

definition dc_post_send :: "'d verbs \<Rightarrow> dc_req_desc \<Rightarrow> dc_req_payload \<Rightarrow> dc \<Rightarrow> ('d, bytes result) act" where
  "dc_post_send V rdesc payload q =
     bindA (callA (v_exp_post_send V (d_qp q)
       \<lparr>dw_op = dq_op rdesc, dw_flags = ucast (dq_send_flags rdesc),
        dw_sge = \<lparr>sge_addr = dp_laddr payload, sge_length = dq_len rdesc, sge_lkey = dp_lkey payload\<rparr>,
        dw_remote_addr = dp_raddr payload, dw_rkey = dp_rkey payload, dw_ah = dq_ah rdesc,
        dw_access_key = scast (dq_dc_key rdesc), dw_number = dq_dct_num rdesc\<rparr>)) (rc_result V)"

definition dc_wait_one_comp ::
  "'d verbs \<Rightarrow> int \<Rightarrow> dc \<Rightarrow> 'd \<Rightarrow> (wc option result \<times> dc \<times> 'd) option"
where
  "dc_wait_one_comp V timeout q d = wait_one_comp V timeout q d"

text \<open>
  The destructor releases the queue pair and the completion queue without clearing the
  members, and then the destructor of the base class releases them again.
\<close>

definition dc_destroy :: "'d verbs \<Rightarrow> dc \<Rightarrow> ('d, dc) act" where
  "dc_destroy V q =
     bindA (if d_qp q \<noteq> None then callA (v_destroy_qp V (d_qp q)) else retA 0) (\<lambda>_.
     bindA (if d_cq q \<noteq> None then callA (v_destroy_cq V (d_cq q)) else retA 0) (\<lambda>_.
       dummy_destroy V q))"

end
