(* ===== verification/QPsSpec.thy ===== *)
theory QPsSpec
  imports QPs
begin

text \<open>
  What the queue pairs promise: the progress marks count the outstanding requests, request
  numbers survive the trip through the driver, and creation followed by connection takes a
  queue pair through the states of the InfiniBand specification with every attribute that
  each step requires.
\<close>

unbundle bit_operations_syntax

section \<open>Progress\<close>

lemma pending_reqs_diff: "pending_reqs p = high_watermark p - low_watermark p"
proof -
  have "word_of_int (65535 - (uint l - uint h) + 1) = (h - l :: u16)" for h l :: u16
  proof -
    have "(65535 :: u16) + 1 = 0"
      by simp
    then have "65535 - (l - h) + 1 = h - l"
      by (metis add.commute add_diff_eq diff_add_eq diff_diff_eq2 add_0)
    then show ?thesis
      by simp
  qed
  then show ?thesis
    by (simp add: pending_reqs_def)
qed

text \<open>
  The abstract counters: requests sent and requests acknowledged since the start. An
  acknowledgement carries the mark of one request, and acknowledges all up to it.
\<close>

definition tracks :: "progress \<Rightarrow> nat \<Rightarrow> nat \<Rightarrow> bool" where
  "tracks p sent acked \<longleftrightarrow> high_watermark p = of_nat sent \<and> low_watermark p = of_nat acked \<and> acked \<le> sent"

datatype prog_op = Send nat | Ack nat

text \<open>\<open>Ack k\<close> acknowledges \<open>k\<close> further requests.\<close>

fun prog_step :: "prog_op \<Rightarrow> progress \<times> nat \<times> nat \<Rightarrow> progress \<times> nat \<times> nat" where
  "prog_step (Send k) (p, s, a) = (snd (forward_mark p (of_nat k)), s + k, a)"
| "prog_step (Ack k) (p, s, a) = (done_mark p (of_nat (a + k)), s, a + k)"

definition prog_run :: "prog_op list \<Rightarrow> progress \<times> nat \<times> nat" where
  "prog_run ops = fold prog_step ops (progress_new, 0, 0)"

text \<open>Never more acknowledged than sent, never 65536 outstanding.\<close>

fun prog_allowed :: "prog_op list \<Rightarrow> nat \<Rightarrow> bool" where
  "prog_allowed [] out \<longleftrightarrow> True"
| "prog_allowed (Send k # ops) out \<longleftrightarrow> out + k < 2 ^ 16 \<and> prog_allowed ops (out + k)"
| "prog_allowed (Ack k # ops) out \<longleftrightarrow> k \<le> out \<and> prog_allowed ops (out - k)"

lemma ucast_of_nat_16: "(ucast (of_nat n :: 32 word) :: u16) = of_nat n"
  by (rule bit_word_eqI) (auto simp: bit_simps)

lemma tracks_step:
  "tracks p s a \<Longrightarrow> tracks (snd (forward_mark p (of_nat k))) (s + k) a"
  "tracks p s a \<Longrightarrow> a + k \<le> s \<Longrightarrow> tracks (done_mark p (of_nat (a + k))) s (a + k)"
  by (simp_all add: tracks_def forward_mark_def done_mark_def ucast_of_nat_16 del: of_nat_add)
    (simp add: of_nat_add)

lemma prog_fold:
  assumes "tracks p s a" "s - a < 2 ^ 16" "prog_allowed ops (s - a)"
    and "fold prog_step ops (p, s, a) = (p', s', a')"
  shows "tracks p' s' a' \<and> s' - a' < 2 ^ 16"
  using assms
proof (induction ops arbitrary: p s a)
  case (Cons x ops)
  show ?case
  proof (cases x)
    case (Send k)
    then show ?thesis
      using Cons.prems Cons.IH [of "snd (forward_mark p (of_nat k))" "s + k" a] tracks_step(1) [of p s a k]
      by (simp add: tracks_def)
  next
    case (Ack k)
    then show ?thesis
      using Cons.prems Cons.IH [of "done_mark p (of_nat (a + k))" s "a + k"] tracks_step(2) [of p s a k]
      by (auto simp: tracks_def)
  qed
qed simp

text \<open>
  C21: the 16-bit marks count exactly. After any run of sends and acknowledgements with
  fewer than 65536 requests outstanding, however often the marks have wrapped, the number
  of pending requests is the number sent less the number acknowledged.
\<close>
theorem pending_reqs_exact:
  assumes "prog_allowed ops 0" and "prog_run ops = (p, sent, acked)"
  shows "unat (pending_reqs p) = sent - acked"
proof -
  have "tracks p sent acked \<and> sent - acked < 2 ^ 16"
    using prog_fold [of progress_new 0 0 ops p sent acked] assms
    by (simp add: prog_run_def tracks_def progress_new_def)
  then have "pending_reqs p = of_nat (sent - acked)" "sent - acked < 2 ^ 16"
    by (auto simp: pending_reqs_diff tracks_def of_nat_diff)
  then show ?thesis
    by (simp add: unat_of_nat)
qed

theorem pending_reqs_exact_witness:
  "unat (pending_reqs (fst (prog_run [Send 65000, Ack 64000, Send 1000]))) = 66000 - 64000"
proof -
  have "prog_run [Send 65000, Ack 64000, Send 1000] =
      (fst (prog_run [Send 65000, Ack 64000, Send 1000]), 66000, 64000)"
    by (simp add: prog_run_def)
  then show ?thesis
    by (rule pending_reqs_exact [rotated]) simp
qed

section \<open>The documented behaviour of the driver\<close>

text \<open>
  The attributes that the specification of \<open>ibv_modify_qp\<close> requires for each change of
  state of a queue pair.
\<close>

fun required :: "qp_type \<Rightarrow> qp_state \<Rightarrow> qp_state \<Rightarrow> qp_mask set option" where
  "required QPT_RC QPS_RESET QPS_INIT = Some {M_STATE, M_PKEY_INDEX, M_PORT, M_ACCESS_FLAGS}"
| "required QPT_RC QPS_INIT QPS_RTR = Some {M_STATE, M_AV, M_PATH_MTU, M_DEST_QPN, M_RQ_PSN,
     M_MAX_DEST_RD_ATOMIC, M_MIN_RNR_TIMER}"
| "required QPT_RC QPS_RTR QPS_RTS = Some {M_STATE, M_SQ_PSN, M_TIMEOUT, M_RETRY_CNT, M_RNR_RETRY,
     M_MAX_QP_RD_ATOMIC}"
| "required QPT_UD QPS_RESET QPS_INIT = Some {M_STATE, M_PKEY_INDEX, M_PORT, M_QKEY}"
| "required QPT_UD QPS_INIT QPS_RTR = Some {M_STATE}"
| "required QPT_UD QPS_RTR QPS_RTS = Some {M_STATE, M_SQ_PSN}"
| "required _ _ _ = None"

definition accepts :: "qp_type \<Rightarrow> qp_state \<Rightarrow> qp_state \<Rightarrow> qp_mask set \<Rightarrow> bool" where
  "accepts ty s s' m \<longleftrightarrow> (case required ty s s' of None \<Rightarrow> False | Some r \<Rightarrow> r \<subseteq> m)"

text \<open>
  A driver that implements this: \<open>qps d h\<close> is the type, the state and the attributes applied
  so far of the queue pair with handle \<open>h\<close>. A change is made when the required attributes
  are given, and refused without effect otherwise.
\<close>

type_synonym qp_view = "nat \<Rightarrow> (qp_type \<times> qp_state \<times> qp_mod_attr list) option"

definition cq_law :: "'d verbs \<Rightarrow> ('d \<Rightarrow> qp_view) \<Rightarrow> bool" where
  "cq_law V qps \<longleftrightarrow> (\<forall>ctx n d. qps (snd (v_create_cq V ctx n d)) = qps d)"

definition qp_law :: "'d verbs \<Rightarrow> ('d \<Rightarrow> qp_view) \<Rightarrow> bool" where
  "qp_law V qps \<longleftrightarrow> (\<forall>pd a d h. fst (v_create_qp V pd a d) = Some h \<longrightarrow>
     qps (snd (v_create_qp V pd a d)) = (qps d)(h \<mapsto> (qi_type a, QPS_RESET, [])))"

definition modify_law :: "'d verbs \<Rightarrow> ('d \<Rightarrow> qp_view) \<Rightarrow> bool" where
  "modify_law V qps \<longleftrightarrow> (\<forall>h a m d ty s l. qps d h = Some (ty, s, l) \<longrightarrow>
     (if accepts ty s (qa_state a) m
      then fst (v_modify_qp V (Some h) a m d) = 0 \<and>
           qps (snd (v_modify_qp V (Some h) a m d)) = (qps d)(h \<mapsto> (ty, qa_state a, l @ [a]))
      else fst (v_modify_qp V (Some h) a m d) \<noteq> 0 \<and>
           qps (snd (v_modify_qp V (Some h) a m d)) = qps d))"

definition query_law :: "'d verbs \<Rightarrow> ('d \<Rightarrow> qp_view) \<Rightarrow> bool" where
  "query_law V qps \<longleftrightarrow>
     (\<forall>h d ty s l. qps d h = Some (ty, s, l) \<longrightarrow>
        v_qp_type V d (Some h) = ty \<and> fst (v_query_qp_state V (Some h) d) = (0, s)) \<and>
     (\<forall>h d. qps (snd (v_query_qp_state V h d)) = qps d)"

definition lawful :: "'d verbs \<Rightarrow> ('d \<Rightarrow> qp_view) \<Rightarrow> bool" where
  "lawful V qps \<longleftrightarrow> cq_law V qps \<and> qp_law V qps \<and> modify_law V qps \<and> query_law V qps"

lemma lawful_cq: "lawful V qps \<Longrightarrow> qps (snd (v_create_cq V ctx n d)) = qps d"
  by (simp add: lawful_def cq_law_def)

lemma lawful_qp:
  "lawful V qps \<Longrightarrow> fst (v_create_qp V pd a d) = Some h \<Longrightarrow>
     qps (snd (v_create_qp V pd a d)) = (qps d)(h \<mapsto> (qi_type a, QPS_RESET, []))"
  by (simp add: lawful_def qp_law_def)

lemma lawful_modify:
  assumes "lawful V qps" "qps d h = Some (ty, s, l)" "accepts ty s (qa_state a) m"
  shows "fst (v_modify_qp V (Some h) a m d) = 0"
    and "qps (snd (v_modify_qp V (Some h) a m d)) = (qps d)(h \<mapsto> (ty, qa_state a, l @ [a]))"
proof -
  have "modify_law V qps"
    using assms(1) by (simp add: lawful_def)
  from this [unfolded modify_law_def, rule_format, OF assms(2), of a m] assms(3)
  show "fst (v_modify_qp V (Some h) a m d) = 0"
    and "qps (snd (v_modify_qp V (Some h) a m d)) = (qps d)(h \<mapsto> (ty, qa_state a, l @ [a]))"
    by simp_all
qed

lemma lawful_query:
  assumes "lawful V qps"
  shows "qps d h = Some (ty, s, l) \<Longrightarrow> v_qp_type V d (Some h) = ty"
    and "qps d h = Some (ty, s, l) \<Longrightarrow> fst (v_query_qp_state V (Some h) d) = (0, s)"
    and "qps (snd (v_query_qp_state V h' d)) = qps d"
  using assms by (auto simp: lawful_def query_law_def)

section \<open>A concrete driver\<close>

text \<open>A driver in the model, for the witnesses: it numbers its handles from one.\<close>

record sim =
  sim_next :: nat
  sim_qps :: "(nat \<times> (qp_type \<times> qp_state \<times> qp_mod_attr list)) list"
  sim_sent :: "send_wr list"
  sim_freed :: "ptr list"
  sim_rq :: "(ptr \<times> u64 \<times> sge) list"
  sim_clock :: int
  sim_log :: "send_wr list"

definition sim_new :: "sim \<Rightarrow> ptr \<times> sim" where
  "sim_new d = (Some (sim_next d), d\<lparr>sim_next := sim_next d + 1\<rparr>)"

definition sim_create_qp :: "qp_init_attr \<Rightarrow> sim \<Rightarrow> ptr \<times> sim" where
  "sim_create_qp a d = (Some (sim_next d),
     d\<lparr>sim_next := sim_next d + 1, sim_qps := (sim_next d, (qi_type a, QPS_RESET, [])) # sim_qps d\<rparr>)"

definition sim_modify :: "ptr \<Rightarrow> qp_mod_attr \<Rightarrow> qp_mask set \<Rightarrow> sim \<Rightarrow> c_int \<times> sim" where
  "sim_modify h a m d =
     (case h of None \<Rightarrow> (22, d)
      | Some n \<Rightarrow>
          (case map_of (sim_qps d) n of
             None \<Rightarrow> (22, d)
           | Some (ty, s, l) \<Rightarrow>
               if accepts ty s (qa_state a) m
               then (0, d\<lparr>sim_qps := (n, (ty, qa_state a, l @ [a])) # sim_qps d\<rparr>)
               else (22, d)))"

definition sim_lookup :: "sim \<Rightarrow> ptr \<Rightarrow> qp_type \<times> qp_state \<times> qp_mod_attr list" where
  "sim_lookup d h =
     (case h of None \<Rightarrow> (QPT_OTHER, QPS_ERR, [])
      | Some n \<Rightarrow> (case map_of (sim_qps d) n of None \<Rightarrow> (QPT_OTHER, QPS_ERR, []) | Some x \<Rightarrow> x))"

definition sim_free :: "ptr \<Rightarrow> sim \<Rightarrow> c_int \<times> sim" where
  "sim_free h d = (0, d\<lparr>sim_freed := sim_freed d @ [h]\<rparr>)"

definition sim_start :: sim where
  "sim_start = \<lparr>sim_next = 1, sim_qps = [], sim_sent = [], sim_freed = [], sim_rq = [], sim_clock = 0, sim_log = []\<rparr>"

definition sim_verbs :: "sim verbs" where
  "sim_verbs = \<lparr>
     v_get_device_list = (\<lambda>d. ((1, Some [Some 100]), d)),
     v_open_device = (\<lambda>_. sim_new), v_close_device = sim_free,
     v_alloc_pd = (\<lambda>_. sim_new), v_dealloc_pd = sim_free,
     v_query_port = (\<lambda>_ _ d. ((0, \<lparr>pt_active = True, pt_lid = 4\<rparr>), d)),
     v_query_gid = (\<lambda>_ _ _ d. (Some (1, 2), d)),
     v_query_device = (\<lambda>_ d. ((0, 2), d)),
     v_reg_mr = (\<lambda>_ _ _ _ d. (Some (11, 12), d)), v_dereg_mr = (\<lambda>_ d. (0, d)),
     v_create_cq = (\<lambda>_ _. sim_new), v_destroy_cq = sim_free,
     v_create_qp = (\<lambda>_. sim_create_qp), v_create_qp_ex = (\<lambda>_ _. sim_create_qp), v_destroy_qp = sim_free,
     v_create_srq = (\<lambda>_ _ _. sim_new), v_destroy_srq = sim_free,
     v_create_dct = (\<lambda>_ _ d. ((Some (sim_next d), 5), d\<lparr>sim_next := sim_next d + 1\<rparr>)), v_destroy_dct = sim_free,
     v_create_ah = (\<lambda>_ _. sim_new),
     v_qp_type = (\<lambda>d h. fst (sim_lookup d h)),
     v_qp_num = (\<lambda>d h. case h of None \<Rightarrow> 0 | Some n \<Rightarrow> of_nat n),
     v_modify_qp = sim_modify,
     v_query_qp_state = (\<lambda>h d. ((0, fst (snd (sim_lookup d h))), d)),
     v_post_send = (\<lambda>_ srs d. (0, d\<lparr>sim_sent := sim_sent d @ srs\<rparr>)),
     v_exp_post_send = (\<lambda>_ _ d. (0, d)),
     v_post_recv = (\<lambda>h wrs d. (0, d\<lparr>sim_rq := sim_rq d @ map (Pair h) wrs\<rparr>)),
     v_poll_cq = (\<lambda>_ _ d. case sim_sent d of [] \<Rightarrow> ((0, []), d)
        | sr # srs \<Rightarrow> ((1, [\<lparr>wc_id = wr_id sr, wc_ok = True, wc_imm = wr_imm sr\<rparr>]), d\<lparr>sim_sent := srs\<rparr>)),
     v_errno = (\<lambda>_. 22), v_strerror = (\<lambda>_. bstr ''Invalid argument''),
     v_access = sample_flags, v_signaled = 2, v_inline = 8,
     v_now = (\<lambda>d. (sim_clock d, d\<lparr>sim_clock := sim_clock d + 1000\<rparr>))\<rparr>"

lemma sim_lawful: "lawful sim_verbs (\<lambda>d. map_of (sim_qps d))"
proof -
  have "cq_law sim_verbs (\<lambda>d. map_of (sim_qps d))" "qp_law sim_verbs (\<lambda>d. map_of (sim_qps d))"
    by (simp_all add: cq_law_def qp_law_def sim_verbs_def sim_new_def sim_create_qp_def)
  moreover have "modify_law sim_verbs (\<lambda>d. map_of (sim_qps d))"
    by (simp add: modify_law_def sim_verbs_def sim_modify_def)
  moreover have "query_law sim_verbs (\<lambda>d. map_of (sim_qps d))"
    by (simp add: query_law_def sim_verbs_def sim_lookup_def)
  ultimately show ?thesis
    by (simp add: lawful_def)
qed

text \<open>A device for the witnesses.\<close>

definition sample_nic :: rnic where
  "sample_nic = \<lparr>nic_ctx = Some 90, nic_pd = Some 91, nic_id = \<lparr>dev_id = 0, port_id = 1\<rparr>,
     nic_addr = Some \<lparr>subnet_prefix = 1, interface_id = 2, local_id = 0\<rparr>, nic_lid = Some 4\<rparr>"

section \<open>Request numbers\<close>

lemma bitmask_mask: "0 < n \<Longrightarrow> n \<le> LENGTH('a) \<Longrightarrow> bitmask n = (mask n :: 'a::len word)"
  by (simp add: bitmask_def)

lemma take_bit_48: "(wr :: u64) < 2 ^ 48 \<Longrightarrow> take_bit 48 wr = wr"
  by (simp add: take_bit_eq_mod word_less_def word_mod_def)

lemma bit_48: "(wr :: u64) < 2 ^ 48 \<Longrightarrow> bit wr n \<Longrightarrow> n < 48"
  by (metis bit_take_bit_iff take_bit_48)

lemma wid_decode:
  assumes "(wr :: u64) < 2 ^ 48"
  shows "drop_bit 16 (push_bit 16 wr OR ucast (mk :: u16)) = wr"
    and "(push_bit 16 wr OR ucast mk) AND mask 16 = ucast mk"
proof -
  show "drop_bit 16 (push_bit 16 wr OR ucast mk) = wr"
    by (rule bit_word_eqI) (use bit_48 [OF assms] in \<open>auto simp: bit_simps dest: bit_imp_le_length\<close>)
  show "(push_bit 16 wr OR ucast mk) AND mask 16 = ucast mk"
    by (rule bit_word_eqI) (auto simp: bit_simps dest: bit_imp_le_length)
qed

text \<open>
  C20: the user's request number and the progress mark survive the trip through the driver.
  When the completion of a request numbered below \<open>2 ^ 48\<close> is polled, the poll returns
  the user's number, and the marks say that exactly the requests sent after it are pending.
\<close>
theorem wr_id_roundtrip:
  assumes "wr < 2 ^ 48" and "encode_my_wr wr 1 q = (wid, q1)"
    and "v_poll_cq V (d_cq q2) 1 d = ((1, [c]), d')" and "wc_id c = wid"
    and "high_watermark (rc_progress q2) = high_watermark (rc_progress q1) + k"
  shows "\<exists>q3. poll_rc_comp V q2 d = (Inr (Some (wr, c)), q3, d') \<and>
              pending_reqs (rc_progress q3) = k"
proof -
  have mk: "wid = push_bit 16 wr OR ucast (high_watermark (rc_progress q1))"
    using assms(2) by (auto simp: encode_my_wr_def forward_mark_def num_progress_bits_def)
  have "(0 :: c_int) <s 1"
    by (simp add: word_sless_alt)
  moreover have "(ucast (ucast (ucast (high_watermark (rc_progress q1)) :: u64) :: c_int) :: u16) =
      high_watermark (rc_progress q1)"
    by (rule bit_word_eqI) (auto simp: bit_simps)
  ultimately show ?thesis
    using assms(3-5) wid_decode [OF assms(1)]
    by (auto simp: poll_rc_comp_def poll_send_comp_def mk num_progress_bits_def bitmask_mask Let_def
        pending_reqs_diff done_mark_def)
qed

theorem wr_id_roundtrip_witness:
  "\<exists>q3. poll_rc_comp sim_verbs (snd (encode_my_wr 77 1 ((rc_blank sample_nic (default_config sample_flags))\<lparr>d_cq := Some 1\<rparr>)))
          (sim_start\<lparr>sim_sent := [\<lparr>wr_id = fst (encode_my_wr 77 1 (rc_blank sample_nic (default_config sample_flags))), wr_op = 0, wr_flags = 2,
             wr_imm = 0, wr_sges = [], wr_remote_addr = 0, wr_rkey = 0, wr_compare_add = 0, wr_swap = 0\<rparr>]\<rparr>) =
        (Inr (Some (77, \<lparr>wc_id = fst (encode_my_wr 77 1 (rc_blank sample_nic (default_config sample_flags))), wc_ok = True, wc_imm = 0\<rparr>)), q3,
         sim_start\<lparr>sim_sent := []\<rparr>) \<and> pending_reqs (rc_progress q3) = 0"
  by (rule wr_id_roundtrip [where q = "rc_blank sample_nic (default_config sample_flags)" and ?q1.0 = "snd (encode_my_wr 77 1 (rc_blank sample_nic (default_config sample_flags)))"])
    (simp_all add: sim_verbs_def encode_my_wr_def forward_mark_def rc_blank_def progress_new_def)

section \<open>Creating and connecting\<close>

lemma create_cq_apply:
  "create_cq V nic n d =
     (Inr (if fst (v_create_cq V (nic_ctx nic) n d) = None
           then Err (None, v_strerror V (snd (v_create_cq V (nic_ctx nic) n d)))
           else Ok (fst (v_create_cq V (nic_ctx nic) n d), [])),
      snd (v_create_cq V (nic_ctx nic) n d))"
  by (simp add: create_cq_def act_simps handle_result_def)

definition qp_request :: "qp_type \<Rightarrow> qp_config \<Rightarrow> ptr \<Rightarrow> ptr \<Rightarrow> qp_init_attr" where
  "qp_request ty config cq rcq =
     \<lparr>qi_send_cq = cq, qi_recv_cq = (if rcq = None then cq else rcq), qi_type = ty, qi_sq_sig_all = 0,
      qi_max_send_wr = max_send_sz config, qi_max_recv_wr = max_recv_sz config, qi_max_send_sge = 1,
      qi_max_recv_sge = 1, qi_max_inline_data = kMaxInlinSz\<rparr>"

lemma create_qp_apply:
  "create_qp V nic ty config (Some c) rcq d =
     (Inr (if fst (v_create_qp V (nic_pd nic) (qp_request ty config (Some c) rcq) d) = None
           then Err (None, v_strerror V (snd (v_create_qp V (nic_pd nic) (qp_request ty config (Some c) rcq) d)))
           else Ok (fst (v_create_qp V (nic_pd nic) (qp_request ty config (Some c) rcq) d), [])),
      snd (v_create_qp V (nic_pd nic) (qp_request ty config (Some c) rcq) d))"
  by (simp add: create_qp_def act_simps handle_result_def qp_request_def)

lemma bring_qp_to_init_apply:
  "v_qp_type V d (Some h) = QPT_RC \<or> v_qp_type V d (Some h) = QPT_UD \<Longrightarrow>
   bring_qp_to_init V (Some h) config nic d =
     rc_result V (fst (v_modify_qp V (Some h) (init_attr (v_qp_type V d (Some h)) config nic)
                         (init_mask (v_qp_type V d (Some h))) d))
       (snd (v_modify_qp V (Some h) (init_attr (v_qp_type V d (Some h)) config nic)
               (init_mask (v_qp_type V d (Some h))) d))"
  by (auto simp: bring_qp_to_init_def act_simps Let_def)

lemma rc_new_apply:
  assumes "v_create_cq V (nic_ctx nic) (max_send_sz config) d = (c, d1)"
    and "c \<noteq> None \<Longrightarrow> v_create_qp V (nic_pd nic) (qp_request QPT_RC config c rcq) d1 = (h, d2)"
  shows "rc_new V nic config rcq d =
    (if c = None then (Inr (rc_blank nic config), d1)
     else if h = None then (Inr ((rc_blank nic config)\<lparr>d_cq := c, d_recv_cq := rcq\<rparr>), d2)
     else case bring_qp_to_init V h config nic d2 of
            (Inl e, d3) \<Rightarrow> (Inl e, d3)
          | (Inr _, d3) \<Rightarrow> (Inr ((rc_blank nic config)\<lparr>d_cq := c, d_recv_cq := rcq, d_qp := h\<rparr>), d3))"
proof (cases c)
  case None
  then show ?thesis
    using assms(1) by (simp add: rc_new_def bindA_def create_cq_apply retA_def)
next
  case (Some c')
  then show ?thesis
    using assms
    by (simp add: rc_new_def bindA_def create_cq_apply create_qp_apply Let_def retA_def rc_blank_def
        split: prod.splits sum.splits)
qed

lemma init_accepted: "accepts QPT_RC QPS_RESET QPS_INIT (init_mask QPT_RC)"
  "accepts QPT_UD QPS_RESET QPS_INIT (init_mask QPT_UD)"
  "accepts QPT_RC QPS_INIT QPS_RTR rcv_mask" "accepts QPT_RC QPS_RTR QPS_RTS send_mask"
  by (auto simp: accepts_def init_mask_def rcv_mask_def send_mask_def)

lemma attr_states [simp]: "qa_state (init_attr ty config nic) = QPS_INIT"
  "qa_state (rcv_attr config attr port) = QPS_RTR" "qa_state (send_attr config) = QPS_RTS"
  by (simp_all add: init_attr_def rcv_attr_def send_attr_def Let_def)

lemma lawful_init:
  assumes "lawful V qps" "qps d h = Some (ty, QPS_RESET, [])" "ty = QPT_RC \<or> ty = QPT_UD"
  obtains d' where "bring_qp_to_init V (Some h) config nic d = (Inr (Ok []), d')"
    and "qps d' = (qps d)(h \<mapsto> (ty, QPS_INIT, [init_attr ty config nic]))"
proof -
  have ty: "v_qp_type V d (Some h) = ty"
    using lawful_query(1) [OF assms(1,2)] .
  have acc: "accepts ty QPS_RESET (qa_state (init_attr ty config nic)) (init_mask ty)"
    using assms(3) init_accepted by auto
  show thesis
    using that lawful_modify [OF assms(1,2) acc] bring_qp_to_init_apply [of V d h config nic] assms(3)
    by (simp add: ty rc_result_def)
qed

lemma rc_create_init:
  assumes "lawful V qps" "rc_create V nic config rcq d = (Inr (Some q), d1)"
  obtains h where "d_qp q = Some h" "d_cq q \<noteq> None" "d_nic q = nic" "rc_config q = config"
    and "qps d1 h = Some (QPT_RC, QPS_INIT, [init_attr QPT_RC config nic])"
proof -
  obtain c e1 where c: "v_create_cq V (nic_ctx nic) (max_send_sz config) d = (c, e1)"
    by fastforce
  obtain p e2 where p: "v_create_qp V (nic_pd nic) (qp_request QPT_RC config c rcq) e1 = (p, e2)"
    by fastforce
  note new = rc_new_apply [OF c p]
  have nn: "c \<noteq> None" "p \<noteq> None"
    using assms(2)
    by (auto simp: rc_create_def bindA_def new dummy_valid_def rc_blank_def dummy_destroy_def retA_def callA_def
        split: if_splits prod.splits)
  then obtain h where h: "p = Some h"
    by blast
  have "qps e2 h = Some (QPT_RC, QPS_RESET, [])"
    using lawful_qp [OF assms(1), of "nic_pd nic" "qp_request QPT_RC config c rcq" e1 h] p h
    by (simp add: qp_request_def)
  then obtain e3 where e3: "bring_qp_to_init V (Some h) config nic e2 = (Inr (Ok []), e3)"
      "qps e3 = (qps e2)(h \<mapsto> (QPT_RC, QPS_INIT, [init_attr QPT_RC config nic]))"
    using lawful_init [OF assms(1)] by blast
  have q: "q = (rc_blank nic config)\<lparr>d_cq := c, d_recv_cq := rcq, d_qp := p\<rparr>" "d1 = e3"
    using assms(2) nn h e3(1) by (auto simp: rc_create_def bindA_def new dummy_valid_def rc_blank_def retA_def)
  show thesis
    by (rule that [of h]) (use q e3(2) h nn in \<open>simp_all add: rc_blank_def\<close>)
qed

lemma rc_connect_init:
  assumes "lawful V qps" "qps d h = Some (QPT_RC, QPS_INIT, l)"
    and "d_qp q = Some h" "d_cq q \<noteq> None" "nic_addr (d_nic q) = Some ad" "nic_lid (d_nic q) = Some li"
  obtains d' where "rc_connect V attr q d = (Inr (Ok [], q\<lparr>rc_status := Ok ()\<rparr>), d')"
    and "qps d' = (qps d)(h \<mapsto> (QPT_RC, QPS_RTS, l @
           [rcv_attr (rc_config q) attr (ucast (ucast (port_id (nic_id (d_nic q))) :: u64)),
            send_attr (rc_config q)]))"
proof -
  let ?a1 = "rcv_attr (rc_config q) attr (ucast (ucast (port_id (nic_id (d_nic q))) :: u64))"
  let ?a2 = "send_attr (rc_config q)"
  define d1 where "d1 = snd (v_query_qp_state V (Some h) d)"
  have st: "qp_status V q d = (Inr (Ok QPS_INIT), d1)" "qps d1 h = Some (QPT_RC, QPS_INIT, l)"
    using lawful_query(2,3) [OF assms(1)] assms(2-4)
    by (simp_all add: qp_status_def dummy_valid_def act_simps d1_def retA_def)
  define d2 where "d2 = snd (v_modify_qp V (Some h) ?a1 rcv_mask d1)"
  have m1: "fst (v_modify_qp V (Some h) ?a1 rcv_mask d1) = 0"
      "qps d2 = (qps d1)(h \<mapsto> (QPT_RC, QPS_RTR, l @ [?a1]))"
    using lawful_modify [OF assms(1) st(2), of ?a1 rcv_mask] init_accepted(3) by (simp_all add: d2_def)
  then have q2: "qps d2 h = Some (QPT_RC, QPS_RTR, l @ [?a1])"
    by simp
  define d3 where "d3 = snd (v_modify_qp V (Some h) ?a2 send_mask d2)"
  have m2: "fst (v_modify_qp V (Some h) ?a2 send_mask d2) = 0"
      "qps d3 = (qps d2)(h \<mapsto> (QPT_RC, QPS_RTS, (l @ [?a1]) @ [?a2]))"
    using lawful_modify [OF assms(1) q2, of ?a2 send_mask] init_accepted(4) by (simp_all add: d3_def)
  have e1: "v_modify_qp V (Some h) ?a1 rcv_mask d1 = (0, d2)"
    and e2: "v_modify_qp V (Some h) ?a2 send_mask d2 = (0, d3)"
    using m1(1) m2(1) by (simp_all add: prod_eq_iff d2_def d3_def)
  have "rc_my_attr V q d1 = Inr \<lparr>q_addr = ad, q_lid = li, q_psn = scast (c_rq_psn (rc_config q)),
      q_port_id = ucast (port_id (nic_id (d_nic q))), q_qpn = ucast (v_qp_num V d1 (Some h)), q_qkey = 0\<rparr>"
    using assms(3,5,6) by (simp add: rc_my_attr_def attr_of_def)
  then have "rc_connect V attr q d = (Inr (Ok [], q\<lparr>rc_status := Ok ()\<rparr>), d3)"
    using assms(3) e1 e2
    by (simp add: rc_connect_def bindA_def st(1) callA_def bring_rc_to_rcv_def bring_rc_to_send_def
        rc_result_def retA_def)
  moreover have "qps d1 = qps d"
    using lawful_query(3) [OF assms(1)] by (simp add: d1_def)
  ultimately show thesis
    using that m1(2) m2(2) by simp
qed

lemma rc_connect_again:
  assumes "lawful V qps" "qps d h = Some (QPT_RC, QPS_RTS, l)" "d_qp q = Some h" "d_cq q \<noteq> None"
  obtains d' where "rc_connect V attr q d = (Inr (Ok (bstr ''already connected''), q), d')" "qps d' = qps d"
proof -
  have "qp_status V q d = (Inr (Ok QPS_RTS), snd (v_query_qp_state V (Some h) d))"
    using lawful_query(2) [OF assms(1,2)] assms(3,4)
    by (simp add: qp_status_def dummy_valid_def act_simps retA_def)
  then show thesis
    using that lawful_query(3) [OF assms(1)] by (simp add: rc_connect_def bindA_def retA_def)
qed

text \<open>
  C8: bringing up a reliable connection. With a driver that implements the documented
  state machine, a queue pair that \<open>RC::create\<close> returns is in INIT; connecting it to a
  remote attribute takes it to RTS, having applied exactly the INIT, RTR and RTS attributes in
  this order, and marks it usable; connecting it again changes nothing.
\<close>
theorem rc_create_connect:
  assumes "lawful V qps" and "nic_addr nic = Some ad" and "nic_lid nic = Some li"
    and "rc_create V nic config rcq d = (Inr (Some q), d1)"
  shows "\<exists>h d2 d3. d_qp q = Some h \<and>
    qps d1 h = Some (QPT_RC, QPS_INIT, [init_attr QPT_RC config nic]) \<and>
    rc_connect V attr q d1 = (Inr (Ok [], q\<lparr>rc_status := Ok ()\<rparr>), d2) \<and>
    qps d2 = (qps d1)(h \<mapsto> (QPT_RC, QPS_RTS,
       [init_attr QPT_RC config nic,
        rcv_attr config attr (ucast (ucast (port_id (nic_id nic)) :: u64)), send_attr config])) \<and>
    rc_connect V attr' (q\<lparr>rc_status := Ok ()\<rparr>) d2 =
      (Inr (Ok (bstr ''already connected''), q\<lparr>rc_status := Ok ()\<rparr>), d3) \<and> qps d3 = qps d2"
proof -
  obtain h where h: "d_qp q = Some h" "d_cq q \<noteq> None" "d_nic q = nic" "rc_config q = config"
      "qps d1 h = Some (QPT_RC, QPS_INIT, [init_attr QPT_RC config nic])"
    using rc_create_init [OF assms(1,4)] .
  obtain d2 where d2: "rc_connect V attr q d1 = (Inr (Ok [], q\<lparr>rc_status := Ok ()\<rparr>), d2)"
      "qps d2 = (qps d1)(h \<mapsto> (QPT_RC, QPS_RTS, [init_attr QPT_RC config nic] @
        [rcv_attr config attr (ucast (ucast (port_id (nic_id nic)) :: u64)), send_attr config]))"
    using rc_connect_init [OF assms(1) h(5,1,2), of ad li attr] h(3,4) assms(2,3) by auto
  then obtain d3 where "rc_connect V attr' (q\<lparr>rc_status := Ok ()\<rparr>) d2 =
      (Inr (Ok (bstr ''already connected''), q\<lparr>rc_status := Ok ()\<rparr>), d3)" "qps d3 = qps d2"
    using rc_connect_again [OF assms(1), of d2 h _ "q\<lparr>rc_status := Ok ()\<rparr>" attr'] h(1,2) by auto
  with h d2 show ?thesis
    by auto
qed

theorem rc_create_connect_witness:
  "\<exists>q d1 d2. rc_create sim_verbs sample_nic (default_config sample_flags) None sim_start = (Inr (Some q), d1) \<and>
     rc_connect sim_verbs null_qp_attr q d1 = (Inr (Ok [], q\<lparr>rc_status := Ok ()\<rparr>), d2)"
proof -
  have "\<exists>q d1. rc_create sim_verbs sample_nic (default_config sample_flags) None sim_start = (Inr (Some q), d1)"
    by (simp add: rc_create_def rc_new_def create_cq_def create_qp_def bring_qp_to_init_def bindA_def callA_def
        handle_result_def rc_result_def retA_def dummy_valid_def rc_blank_def sim_verbs_def sim_new_def
        sim_create_qp_def sim_start_def sim_lookup_def Let_def dummy_destroy_def split: prod.splits)
  then obtain q d1 where q: "rc_create sim_verbs sample_nic (default_config sample_flags) None sim_start = (Inr (Some q), d1)"
    by blast
  have "nic_addr sample_nic = Some \<lparr>subnet_prefix = 1, interface_id = 2, local_id = 0\<rparr>" "nic_lid sample_nic = Some 4"
    by (simp_all add: sample_nic_def)
  from rc_create_connect [OF sim_lawful this q, of null_qp_attr null_qp_attr] q show ?thesis
    by blast
qed

section \<open>Datagram queue pairs\<close>

definition ud_attrs :: "qp_config \<Rightarrow> rnic \<Rightarrow> qp_mod_attr list" where
  "ud_attrs config nic =
     [init_attr QPT_UD config nic, zero_attr\<lparr>qa_state := QPS_RTR\<rparr>,
      zero_attr\<lparr>qa_state := QPS_RTS, qa_sq_psn := c_rq_psn config\<rparr>]"

lemma ud_bring:
  assumes "lawful V qps" "qps d h = Some (QPT_UD, QPS_INIT, l)"
  obtains d1 d2 where "bring_ud_to_recv V (Some h) d = (Inr True, d1)"
    and "bring_ud_to_send V (Some h) psn d1 = (Inr True, d2)"
    and "qps d2 h = Some (QPT_UD, QPS_RTS, l @ [zero_attr\<lparr>qa_state := QPS_RTR\<rparr>,
           zero_attr\<lparr>qa_state := QPS_RTS, qa_sq_psn := psn\<rparr>])"
proof -
  let ?a1 = "zero_attr\<lparr>qa_state := QPS_RTR\<rparr>" and ?a2 = "zero_attr\<lparr>qa_state := QPS_RTS, qa_sq_psn := psn\<rparr>"
  have acc: "accepts QPT_UD QPS_INIT (qa_state ?a1) {M_STATE}"
      "accepts QPT_UD QPS_RTR (qa_state ?a2) {M_STATE, M_SQ_PSN}"
    by (simp_all add: accepts_def)
  define d1 where "d1 = snd (v_modify_qp V (Some h) ?a1 {M_STATE} d)"
  have m1: "bring_ud_to_recv V (Some h) d = (Inr True, d1)" "qps d1 h = Some (QPT_UD, QPS_RTR, l @ [?a1])"
    using lawful_modify [OF assms acc(1)] by (simp_all add: bring_ud_to_recv_def act_simps d1_def)
  define d2 where "d2 = snd (v_modify_qp V (Some h) ?a2 {M_STATE, M_SQ_PSN} d1)"
  have "bring_ud_to_send V (Some h) psn d1 = (Inr True, d2)"
      "qps d2 h = Some (QPT_UD, QPS_RTS, (l @ [?a1]) @ [?a2])"
    using lawful_modify [OF assms(1) m1(2) acc(2)] by (simp_all add: bring_ud_to_send_def act_simps d2_def)
  with m1 that show thesis
    by simp
qed

lemma ud_new_apply:
  assumes "v_create_cq V (nic_ctx nic) (max_send_sz config) d = (Some c, d1)"
    and "v_create_cq V (nic_ctx nic) (max_recv_sz config) d1 = (Some rcq, d2)"
    and "v_create_qp V (nic_pd nic) (qp_request QPT_UD config (Some c) (Some rcq)) d2 = (Some h, d3)"
    and "bring_qp_to_init V (Some h) config nic d3 = (Inr (Ok []), d4)"
    and "bring_ud_to_recv V (Some h) d4 = (Inr True, d5)"
    and "bring_ud_to_send V (Some h) (c_rq_psn config) d5 = (Inr True, d6)"
  shows "ud_new V nic config d = (Inr ((ud_blank nic config)\<lparr>d_cq := Some c, d_recv_cq := Some rcq, d_qp := Some h\<rparr>), d6)"
  using assms
  by (simp add: ud_new_def bindA_def create_cq_apply create_qp_apply Let_def retA_def ud_blank_def dummy_valid_def)

lemma ud_create_handles:
  assumes "ud_create V nic config d = (Inr (Some q), d')"
  obtains c d1 rcq d2 h d3 where
    "v_create_cq V (nic_ctx nic) (max_send_sz config) d = (Some c, d1)"
    "v_create_cq V (nic_ctx nic) (max_recv_sz config) d1 = (Some rcq, d2)"
    "v_create_qp V (nic_pd nic) (qp_request QPT_UD config (Some c) (Some rcq)) d2 = (Some h, d3)"
proof -
  obtain co d1 where c: "v_create_cq V (nic_ctx nic) (max_send_sz config) d = (co, d1)" by fastforce
  obtain ro d2 where r: "v_create_cq V (nic_ctx nic) (max_recv_sz config) d1 = (ro, d2)" by fastforce
  have co: "co \<noteq> None"
    by (rule notI, use assms c in \<open>auto simp: ud_create_def ud_new_def bindA_def create_cq_apply create_qp_apply Let_def retA_def
        dummy_valid_def ud_blank_def dummy_destroy_def callA_def split: prod.splits\<close>)
  then obtain c' where c': "co = Some c'" by blast
  have ro: "ro \<noteq> None"
    by (rule notI, use assms c r c' in \<open>auto simp: ud_create_def ud_new_def bindA_def create_cq_apply create_qp_apply Let_def retA_def
        dummy_valid_def ud_blank_def dummy_destroy_def callA_def split: prod.splits\<close>)
  then obtain r' where r': "ro = Some r'" by blast
  obtain ho d3 where h: "v_create_qp V (nic_pd nic) (qp_request QPT_UD config (Some c') (Some r')) d2 = (ho, d3)"
    by fastforce
  have "ho \<noteq> None"
    by (rule notI, use assms c r c' r' h in \<open>auto simp: ud_create_def ud_new_def bindA_def create_cq_apply create_qp_apply Let_def retA_def
        dummy_valid_def ud_blank_def dummy_destroy_def callA_def split: prod.splits\<close>)
  with that c c' r r' h show thesis
    by blast
qed

text \<open>
  A datagram queue pair that \<open>UD::create\<close> returns is ready to send: with a driver that
  implements the documented state machine it is in RTS, having applied the INIT, RTR
  and RTS attributes in this order.
\<close>
theorem ud_create_ready:
  assumes "lawful V qps" and "ud_create V nic config d = (Inr (Some q), d')"
  shows "\<exists>h. d_qp q = Some h \<and> qps d' h = Some (QPT_UD, QPS_RTS, ud_attrs config nic)"
proof -
  obtain c d1 rcq d2 h d3 where a:
    "v_create_cq V (nic_ctx nic) (max_send_sz config) d = (Some c, d1)"
    "v_create_cq V (nic_ctx nic) (max_recv_sz config) d1 = (Some rcq, d2)"
    "v_create_qp V (nic_pd nic) (qp_request QPT_UD config (Some c) (Some rcq)) d2 = (Some h, d3)"
    using ud_create_handles [OF assms(2)] .
  have "qps d3 h = Some (QPT_UD, QPS_RESET, [])"
    using lawful_qp [OF assms(1), of "nic_pd nic" "qp_request QPT_UD config (Some c) (Some rcq)" d2 h] a(3)
    by (simp add: qp_request_def)
  then obtain d4 where d4: "bring_qp_to_init V (Some h) config nic d3 = (Inr (Ok []), d4)"
      "qps d4 h = Some (QPT_UD, QPS_INIT, [init_attr QPT_UD config nic])"
    using lawful_init [OF assms(1)] by (metis fun_upd_same)
  obtain d5 d6 where d6: "bring_ud_to_recv V (Some h) d4 = (Inr True, d5)"
      "bring_ud_to_send V (Some h) (c_rq_psn config) d5 = (Inr True, d6)"
      "qps d6 h = Some (QPT_UD, QPS_RTS, ud_attrs config nic)"
    using ud_bring [OF assms(1) d4(2)] by (auto simp: ud_attrs_def)
  have "q = (ud_blank nic config)\<lparr>d_cq := Some c, d_recv_cq := Some rcq, d_qp := Some h\<rparr>" "d' = d6"
    using assms(2) ud_new_apply [OF a d4(1) d6(1,2)]
    by (auto simp: ud_create_def bindA_def retA_def dummy_valid_def ud_blank_def)
  then show ?thesis
    using d6(3) by simp
qed

theorem ud_create_ready_witness:
  "\<exists>q d' h. ud_create sim_verbs sample_nic (default_config sample_flags) sim_start = (Inr (Some q), d') \<and>
     map_of (sim_qps d') h = Some (QPT_UD, QPS_RTS, ud_attrs (default_config sample_flags) sample_nic)"
proof -
  have "\<exists>q d'. ud_create sim_verbs sample_nic (default_config sample_flags) sim_start = (Inr (Some q), d')"
    by (simp add: ud_create_def ud_new_def create_cq_def create_qp_def bring_qp_to_init_def bindA_def callA_def
        handle_result_def rc_result_def retA_def dummy_valid_def ud_blank_def sim_verbs_def sim_new_def
        sim_create_qp_def sim_start_def sim_lookup_def Let_def sim_modify_def init_accepted init_attr_def
        bring_ud_to_recv_def bring_ud_to_send_def accepts_def init_mask_def)
  then obtain q d' where q: "ud_create sim_verbs sample_nic (default_config sample_flags) sim_start = (Inr (Some q), d')"
    by blast
  with ud_create_ready [OF sim_lawful q] show ?thesis
    by blast
qed

section \<open>Waiting for a completion\<close>

text \<open>
  The clock of the driver's state: reading it gives its value and takes at least a
  nanosecond, and polling does not turn it back.
\<close>

definition clocked :: "'d verbs \<Rightarrow> ('d \<Rightarrow> int) \<Rightarrow> bool" where
  "clocked V clock \<longleftrightarrow>
     (\<forall>d. fst (v_now V d) = clock d \<and> clock d < clock (snd (v_now V d))) \<and>
     (\<forall>cq n d. clock d \<le> clock (snd (v_poll_cq V cq n d)))"

lemma poll_clock: "clocked V clock \<Longrightarrow> poll_send_comp V q d = (r, q', d') \<Longrightarrow> clock d \<le> clock d'"
  unfolding clocked_def poll_send_comp_def
  by (auto split: prod.splits if_splits) (metis snd_conv)+

lemma passed_msec_le: "start_time t \<le> now \<Longrightarrow> passed_msec now t \<le> timeout \<Longrightarrow> now < start_time t + (timeout + 1) * 1000"
  by (simp add: passed_msec_def passed_def duration_cast_def)

lemma poll_until_returns:
  assumes "clocked V clock" "start_time t \<le> clock d"
  shows "\<exists>res q' d'. poll_until V t timeout q d = Some (res, q', d') \<and>
           (fst res = 0 \<longrightarrow> start_time t + timeout * 1000 < clock d') \<and>
           (0 <s fst res \<longrightarrow> snd res \<noteq> None)"
  using assms(2)
proof (induction "nat (start_time t + (timeout + 1) * 1000 - clock d)" arbitrary: q d rule: less_induct)
  case less
  obtain res q1 d1 where p: "poll_send_comp V q d = (res, q1, d1)"
    by (metis prod_cases3)
  have le: "clock d \<le> clock d1"
    using poll_clock [OF assms(1) p] .
  have some: "0 <s fst res \<longrightarrow> snd res \<noteq> None"
    using p by (auto simp: poll_send_comp_def split: prod.splits if_splits)
  obtain now d2 where n: "v_now V d1 = (now, d2)" "now = clock d1" "clock d1 < clock d2"
    using assms(1) unfolding clocked_def by (metis prod.collapse)
  show ?case
  proof (cases "fst res = 0 \<and> passed_msec now t \<le> timeout")
    case True
    have "clock d1 < start_time t + (timeout + 1) * 1000"
      using passed_msec_le [of t now timeout] True less.prems le n(2) by simp
    then have "nat (start_time t + (timeout + 1) * 1000 - clock d2) < nat (start_time t + (timeout + 1) * 1000 - clock d)"
      using n(3) le by simp
    from less.hyps [OF this, of q1] less.prems le n(3) show ?thesis
      using True p n(1) by (subst poll_until.simps) simp
  next
    case False
    have "fst res = 0 \<Longrightarrow> start_time t + timeout * 1000 < clock d2"
    proof -
      assume "fst res = 0"
      with False have "timeout < passed_msec now t"
        by simp
      then have "timeout * 1000 < now - start_time t"
        using less.prems le n(2) by (simp add: passed_msec_def passed_def duration_cast_def)
      then show ?thesis
        using n by simp
    qed
    then show ?thesis
      using False p n(1) some by (cases res) (subst poll_until.simps, auto)
  qed
qed



section \<open>Destruction\<close>

text \<open>
  Destroying a dynamic connection releases its queue pair and its completion queue
  twice. The driver of the model, which records what it frees, sees each handle two times.
\<close>
theorem dc_destroy_twice:
  "\<exists>q'. dc_destroy sim_verbs ((dc_blank nic config)\<lparr>d_qp := Some h, d_cq := Some c\<rparr>) d =
     (Inr q', d\<lparr>sim_freed := sim_freed d @ [Some h, Some c, Some h, Some c]\<rparr>)"
  by (simp add: dc_destroy_def dummy_destroy_def dc_blank_def sim_verbs_def sim_free_def bindA_def callA_def
      retA_def)

end
