(* ===== verification/RCtrl.thy ===== *)
theory RCtrl
  imports SRpcSpec Registry QPsSpec
begin

text \<open>
  The control daemon of core/rctrl.hh: its registries, the handlers it binds to the RPC ids,
  and the daemon's loop. A registered queue pair is shared by reference, so the registry
  maps a name to the index of an object in a heap; the object is destroyed when its last
  reference goes. The state also holds the generator of the authentication keys and the
  driver.
\<close>

section \<open>State\<close>

datatype any_qp = Q_RC rc | Q_UD ud | Q_DC dc

fun any_my_attr :: "'d verbs \<Rightarrow> any_qp \<Rightarrow> 'd \<Rightarrow> qp_attr outcome" where
  "any_my_attr V (Q_RC q) d = rc_my_attr V q d"
| "any_my_attr V (Q_UD q) d = ud_my_attr V q d"
| "any_my_attr V (Q_DC q) d = dc_my_attr V q d"

fun any_destroy :: "'d verbs \<Rightarrow> any_qp \<Rightarrow> ('d, unit) act" where
  "any_destroy V (Q_RC q) = bindA (dummy_destroy V q) (\<lambda>_. retA ())"
| "any_destroy V (Q_UD q) = bindA (dummy_destroy V q) (\<lambda>_. retA ())"
| "any_destroy V (Q_DC q) = bindA (dc_destroy V q) (\<lambda>_. retA ())"

text \<open>\<open>ho_held\<close>: whether the application itself also holds a reference to the object.\<close>

record heap_obj =
  ho_qp :: any_qp
  ho_held :: bool

record ('r, 'd) rctrl =
  registered_mrs :: "(u64, reg_handler) factory"
  registered_qps :: "(bytes, nat) factory"
  registered_dcs :: "(bytes, dct_target) factory"
  opened_nics :: "(u64, rnic) factory"
  qp_heap :: "heap_obj list"
  rt_rng :: 'r
  rt_drv :: 'd

definition drvA :: "('d, 'a) act \<Rightarrow> (('r, 'd) rctrl, 'a) act" where
  "drvA m s = (case m (rt_drv s) of (r, d') \<Rightarrow> (r, s\<lparr>rt_drv := d'\<rparr>))"

definition reg_qp :: "('r \<Rightarrow> u64 \<times> 'r) \<Rightarrow> bytes \<Rightarrow> nat \<Rightarrow> (('r, 'd) rctrl, u64 option) act" where
  "reg_qp rnd nm i s =
     (case reg rnd (registered_qps s) nm i (rt_rng s) of
        Inl e \<Rightarrow> (Inl e, s)
      | Inr (key, f', r') \<Rightarrow> (Inr key, s\<lparr>registered_qps := f', rt_rng := r'\<rparr>))"

definition dereg_qp :: "bytes \<Rightarrow> u64 \<Rightarrow> (('r, 'd) rctrl, nat option) act" where
  "dereg_qp nm key s =
     (case dereg (registered_qps s) nm key of (i, f') \<Rightarrow> (Inr i, s\<lparr>registered_qps := f'\<rparr>))"

definition rc_reply_of :: "callback_status \<Rightarrow> bytes" where
  "rc_reply_of st = dump 69 enc_rc_reply \<lparr>rrp_status = st, rrp_attr = null_qp_attr, rrp_key = 0\<rparr>"

section \<open>Memory regions\<close>

definition fetch_mr_handler :: "bytes \<Rightarrow> (('r, 'd) rctrl, bytes) act" where
  "fetch_mr_handler b s =
     (case dedump 8 dec_mr_req b of
        None \<Rightarrow> (Inr (dump 25 enc_mr_reply \<lparr>mrp_status = CB_WrongArg, mrp_attr = null_reg_attr\<rparr>), s)
      | Some req \<Rightarrow>
          (case query (registered_mrs s) (mrq_id req) of
             None \<Rightarrow> (Inr (dump 25 enc_mr_reply \<lparr>mrp_status = CB_NotFound, mrp_attr = null_reg_attr\<rparr>), s)
           | Some mr \<Rightarrow>
               (bindE (opt_value (get_reg_attr mr)) (\<lambda>a.
                  Inr (dump 25 enc_mr_reply \<lparr>mrp_status = CB_Ok, mrp_attr = a\<rparr>)), s)))"

section \<open>Queue pairs\<close>

text \<open>The object whose last reference this was is destroyed at the end of the block.\<close>

definition release_qp :: "'d verbs \<Rightarrow> nat \<Rightarrow> (('r, 'd) rctrl, unit) act" where
  "release_qp V i s =
     (if i < length (qp_heap s) \<and> \<not> ho_held (qp_heap s ! i)
      then drvA (any_destroy V (ho_qp (qp_heap s ! i))) s
      else (Inr (), s))"

definition delete_rc :: "'d verbs \<Rightarrow> bytes \<Rightarrow> (('r, 'd) rctrl, bytes) act" where
  "delete_rc V b =
     (case dedump 72 dec_del_rc_req b of
        None \<Rightarrow> retA (rc_reply_of CB_WrongArg)
      | Some req \<Rightarrow>
          bindA (liftA (c_string (dlq_name req))) (\<lambda>nm.
          bindA (dereg_qp nm (dlq_key req)) (\<lambda>del_res.
            case del_res of
              None \<Rightarrow> retA (rc_reply_of CB_WrongArg)
            | Some i \<Rightarrow> bindA (release_qp V i) (\<lambda>_. retA (rc_reply_of CB_Ok)))))"

definition fetch_qp_attr :: "'d verbs \<Rightarrow> bytes \<Rightarrow> u64 \<Rightarrow> (('r, 'd) rctrl, bytes) act" where
  "fetch_qp_attr V name_arr key s =
     (case c_string name_arr of
        Inl e \<Rightarrow> (Inl e, s)
      | Inr nm \<Rightarrow>
          (case query (registered_qps s) nm of
             None \<Rightarrow> (Inr (rc_reply_of CB_NotFound), s)
           | Some i \<Rightarrow>
               if i < length (qp_heap s)
               then (bindE (any_my_attr V (ho_qp (qp_heap s ! i)) (rt_drv s)) (\<lambda>a.
                       Inr (dump 69 enc_rc_reply \<lparr>rrp_status = CB_Ok, rrp_attr = a, rrp_key = key\<rparr>)), s)
               else (Inl Undefined, s)))"

definition fetch_qp_attr_wrapper :: "'d verbs \<Rightarrow> bytes \<Rightarrow> (('r, 'd) rctrl, bytes) act" where
  "fetch_qp_attr_wrapper V b =
     (case dedump 72 dec_qp_req b of
        None \<Rightarrow> retA (rc_reply_of CB_WrongArg)
      | Some req \<Rightarrow> fetch_qp_attr V (qrq_name req) 0)"

definition dc_reply_of :: "callback_status \<Rightarrow> bytes" where
  "dc_reply_of st = dump 25 enc_dc_reply \<lparr>drp_status = st, drp_attr = null_dc_attr, drp_key = 0\<rparr>"

definition fetch_dc_attr :: "bytes \<Rightarrow> u64 \<Rightarrow> (('r, 'd) rctrl, bytes) act" where
  "fetch_dc_attr name_arr key s =
     (case c_string name_arr of
        Inl e \<Rightarrow> (Inl e, s)
      | Inr nm \<Rightarrow>
          (case query (registered_dcs s) nm of
             None \<Rightarrow> (Inr (dc_reply_of CB_NotFound), s)
           | Some t \<Rightarrow>
               (case dt_attr t of
                  None \<Rightarrow> (Inl Undefined, s)
                | Some a \<Rightarrow>
                    (Inr (dump 25 enc_dc_reply \<lparr>drp_status = CB_Ok, drp_attr = a, drp_key = key\<rparr>), s))))"

definition fetch_dc_attr_wrapper :: "bytes \<Rightarrow> (('r, 'd) rctrl, bytes) act" where
  "fetch_dc_attr_wrapper b =
     (case dedump 72 dec_qp_req b of
        None \<Rightarrow> retA (dc_reply_of CB_WrongArg)
      | Some req \<Rightarrow> fetch_dc_attr (qrq_name req) 0)"

text \<open>
  Creating a connection. The object is created before its name is claimed; on a taken name,
  and after a failed connect, its only reference goes out of scope.
\<close>

definition new_qp :: "rc \<Rightarrow> (('r, 'd) rctrl, nat) act" where
  "new_qp q s =
     (Inr (length (qp_heap s)), s\<lparr>qp_heap := qp_heap s @ [\<lparr>ho_qp = Q_RC q, ho_held = False\<rparr>]\<rparr>)"

definition set_qp :: "nat \<Rightarrow> rc \<Rightarrow> (('r, 'd) rctrl, unit) act" where
  "set_qp i q s = (Inr (), s\<lparr>qp_heap := (qp_heap s)[i := (qp_heap s ! i)\<lparr>ho_qp := Q_RC q\<rparr>]\<rparr>)"

definition create_and_connect ::
  "('r \<Rightarrow> u64 \<times> 'r) \<Rightarrow> 'd verbs \<Rightarrow> rnic \<Rightarrow> ptr \<Rightarrow> rc_req \<Rightarrow> (('r, 'd) rctrl, u64 option) act"
where
  "create_and_connect rnd V nic recv_cq req =
     bindA (drvA (rc_create V nic (rrq_config req) recv_cq)) (\<lambda>rco.
     bindA (liftA (opt_value rco)) (\<lambda>rc.
     bindA (new_qp rc) (\<lambda>i.
     bindA (liftA (c_string (rrq_name req))) (\<lambda>nm.
     bindA (reg_qp rnd nm i) (\<lambda>rc_status.
       case rc_status of
         None \<Rightarrow> bindA (release_qp V i) (\<lambda>_. retA None)
       | Some key \<Rightarrow>
           bindA (drvA (rc_connect V (rrq_attr req) rc)) (\<lambda>(res, rc').
           bindA (set_qp i rc') (\<lambda>_.
             if code res \<noteq> IO_Ok
             then bindA (dereg_qp nm key) (\<lambda>_. bindA (release_qp V i) (\<lambda>_. retA None))
             else retA (Some key))))))))"

definition rc_handler ::
  "('r \<Rightarrow> u64 \<times> 'r) \<Rightarrow> 'd verbs \<Rightarrow> bytes \<Rightarrow> (('r, 'd) rctrl, bytes) act"
where
  "rc_handler rnd V b =
     (case dedump 246 dec_rc_req b of
        None \<Rightarrow> retA (rc_reply_of CB_WrongArg)
      | Some req \<Rightarrow>
          if \<not> (rrq_whether_create req = 1 \<or> rrq_whether_create req \<noteq> 0)
          then retA (rc_reply_of CB_WrongArg)
          else if rrq_whether_create req = 1
          then (\<lambda>s.
            case query (opened_nics s) (rrq_nic_id req) of
              None \<Rightarrow> (Inr (rc_reply_of CB_WrongArg), s)
            | Some nic \<Rightarrow>
                bindA (create_and_connect rnd V nic None req) (\<lambda>key.
                  case key of
                    None \<Rightarrow> retA (rc_reply_of CB_WrongArg)
                  | Some k \<Rightarrow> fetch_qp_attr V (rrq_name req) k) s)
          else fetch_qp_attr V (rrq_name req) 0)"

section \<open>The daemon\<close>

text \<open>
  The constructor binds five handlers; each registration is asserted. \<open>CreateRCM\<close> is bound
  only by a \<open>RecvManager\<close>.
\<close>

fun register_all :: "(rpc_id_t \<times> 's handler) list \<Rightarrow> ('a, 's) srpc_handler \<Rightarrow> ('a, 's) srpc_handler outcome" where
  "register_all [] H = Inr H"
| "register_all ((rid, h) # hs) H =
     (case handler_register H rid h of (ok, H') \<Rightarrow> bindE (assertE ok) (\<lambda>_. register_all hs H'))"

definition rctrl_handlers :: "('r \<Rightarrow> u64 \<times> 'r) \<Rightarrow> 'd verbs \<Rightarrow> (rpc_id_t \<times> ('r, 'd) rctrl handler) list" where
  "rctrl_handlers rnd V =
     [(FetchMr, fetch_mr_handler), (CreateRC, rc_handler rnd V), (DeleteRC, delete_rc V),
      (FetchQPAttr, fetch_qp_attr_wrapper V), (FetchDCAttr, fetch_dc_attr_wrapper)]"

definition rctrl_rpc ::
  "('r \<Rightarrow> u64 \<times> 'r) \<Rightarrow> 'd verbs \<Rightarrow> 'a recv_channel \<Rightarrow> ('a, ('r, 'd) rctrl) srpc_handler outcome"
where
  "rctrl_rpc rnd V ch = register_all (rctrl_handlers rnd V) (handler_of_channel ch)"

text \<open>
  The thread's loop, given the values that it reads from \<open>running\<close>; the total counts in 64
  bits.
\<close>

fun daemon ::
  "bool list \<Rightarrow> u64 \<Rightarrow> ('a, 's) srpc_handler \<Rightarrow> 's \<Rightarrow> 'a net \<Rightarrow>
     u64 outcome \<times> ('a, 's) srpc_handler \<times> 's \<times> 'a net"
where
  "daemon (True # flags) tot H s n =
     (case run_one_event_loop H s n of
        (Inl e, r) \<Rightarrow> (Inl e, r)
      | (Inr cnt, H', s', n') \<Rightarrow> daemon flags (tot + ucast cnt) H' s' n')"
| "daemon _ tot H s n = (Inr tot, H, s, n)"

record daemon_ctl =
  running :: bool
  thread_alive :: bool

definition start_daemon :: "bool \<Rightarrow> daemon_ctl \<Rightarrow> bool \<times> daemon_ctl" where
  "start_daemon create_ok c = (create_ok, c\<lparr>running := True, thread_alive := create_ok\<rparr>)"

text \<open>\<open>stop_daemon\<close> joins the thread whenever \<open>running\<close> is set; joining no thread is undefined.\<close>

definition stop_daemon :: "daemon_ctl \<Rightarrow> daemon_ctl outcome" where
  "stop_daemon c =
     (if running c
      then (if thread_alive c then Inr (c\<lparr>running := False, thread_alive := False\<rparr>) else Inl Undefined)
      else Inr c)"

end
