(* ===== verification/RCtrlSpec.thy ===== *)
theory RCtrlSpec
  imports RCtrl
begin

text \<open>
  What the handlers of the control daemon promise: the reply to each request and its effect
  on the registries, and which requests have no defined behaviour.
\<close>

section \<open>Lookups\<close>

lemma query_store_cons: "query (f\<lparr>store := (k, (v, key)) # store f\<rparr>) k' = (if k' = k then Some v else query f k')"
  by (simp add: query_def)

lemma query_dereg_other: "k' \<noteq> k \<Longrightarrow> query (snd (dereg f k key)) k' = query f k'"
  by (auto simp: dereg_def query_def map_of_remove split: option.splits)

text \<open>
  The reply to a request for a memory region. A request too short for an id gets
  WrongArg, an id that is not registered NotFound, and a registered region exactly the
  address, the size and the two keys under which the driver knows it; nothing changes.
\<close>
theorem fetch_mr_reply:
  "fetch_mr_handler b s =
     (if length b < 8
      then (Inr (dump 25 enc_mr_reply \<lparr>mrp_status = CB_WrongArg, mrp_attr = null_reg_attr\<rparr>), s)
      else case query (registered_mrs s) (mrq_id (dec_mr_req (seg 0 8 b))) of
             None \<Rightarrow> (Inr (dump 25 enc_mr_reply \<lparr>mrp_status = CB_NotFound, mrp_attr = null_reg_attr\<rparr>), s)
           | Some h \<Rightarrow>
               (case rh_mr h of
                  None \<Rightarrow> (Inl Thrown, s)
                | Some (rkey, lkey) \<Rightarrow>
                    (Inr (dump 25 enc_mr_reply \<lparr>mrp_status = CB_Ok,
                       mrp_attr = \<lparr>ra_buf = ptr_u64 (rm_ptr (rh_mem h)), ra_sz = rm_sz (rh_mem h),
                                   ra_key = rkey, ra_lkey = lkey\<rparr>\<rparr>), s)))"
  by (auto simp: fetch_mr_handler_def dedump_def get_reg_attr_def split: option.splits)

section \<open>Deleting\<close>

lemma c_string_cases: "(\<exists>nm. c_string a = Inr nm) \<or> c_string a = Inl Undefined"
  by (simp add: c_string_def)

lemma drvA_regs [simp]:
  "registered_qps (snd (drvA m s)) = registered_qps s" "registered_mrs (snd (drvA m s)) = registered_mrs s"
  "registered_dcs (snd (drvA m s)) = registered_dcs s" "opened_nics (snd (drvA m s)) = opened_nics s"
  "qp_heap (snd (drvA m s)) = qp_heap s"
  by (simp_all add: drvA_def split: prod.splits)

lemma release_qp_regs [simp]:
  "registered_qps (snd (release_qp V i s)) = registered_qps s"
  "qp_heap (snd (release_qp V i s)) = qp_heap s"
  by (simp_all add: release_qp_def)

lemma drvA_fst: "fst (drvA m s) = fst (m (rt_drv s))"
  by (simp add: drvA_def split: prod.splits)

lemma any_destroy_returns: "fst (any_destroy V q d) = Inr ()"
  by (cases q) (simp_all add: bindA_def retA_def callA_def dummy_destroy_def dc_destroy_def split: prod.splits)

lemma release_qp_returns: "\<exists>s'. release_qp V i s = (Inr (), s') \<and> registered_qps s' = registered_qps s \<and> qp_heap s' = qp_heap s"
proof -
  have "fst (release_qp V i s) = Inr ()"
    by (simp add: release_qp_def drvA_fst any_destroy_returns)
  then show ?thesis
    using release_qp_regs [of V i s] by (metis prod.collapse)
qed

lemma delete_rc_decoded:
  assumes "wf_name (dlq_name req)" "c_string (dlq_name req) = Inr nm"
  shows "delete_rc V (dump 72 enc_del_rc_req req @ rest) s =
    (case dereg (registered_qps s) nm (dlq_key req) of
       (None, f') \<Rightarrow> (Inr (rc_reply_of CB_WrongArg), s\<lparr>registered_qps := f'\<rparr>)
     | (Some i, f') \<Rightarrow> bindA (release_qp V i) (\<lambda>_. retA (rc_reply_of CB_Ok)) (s\<lparr>registered_qps := f'\<rparr>))"
  using del_rc_req_packed.dedump_dump_append [OF assms(1), of rest] assms(2)
  by (simp add: delete_rc_def bindA_liftA_Inr bindA_def [of "dereg_qp _ _"] dereg_qp_def
      retA_def split: prod.splits option.splits)

text \<open>
  C18: only the key deletes. A delete request for a registered name with the key that the
  registration handed out gets Ok, and afterwards that name and no other is gone; with
  another key, or for a name that is not registered, the reply is WrongArg and no name
  changes.
\<close>
theorem delete_rc_authenticated:
  assumes "wf_name (dlq_name req)" and "c_string (dlq_name req) = Inr nm"
  shows "\<exists>s'. delete_rc V (dump 72 enc_del_rc_req req @ rest) s =
           (Inr (rc_reply_of (if \<exists>i. map_of (store (registered_qps s)) nm = Some (i, dlq_key req)
                              then CB_Ok else CB_WrongArg)), s') \<and>
         (\<forall>k. query (registered_qps s') k =
            (if k = nm \<and> (\<exists>i. map_of (store (registered_qps s)) nm = Some (i, dlq_key req)) then None
             else query (registered_qps s) k))"
proof (cases "\<exists>i. map_of (store (registered_qps s)) nm = Some (i, dlq_key req)")
  case True
  then obtain i where i: "map_of (store (registered_qps s)) nm = Some (i, dlq_key req)"
    by blast
  let ?f = "registered_qps s"
  have dr: "dereg ?f nm (dlq_key req) = (Some i, ?f\<lparr>store := filter (\<lambda>p. fst p \<noteq> nm) (store ?f)\<rparr>)"
    by (simp add: dereg_def i)
  have q: "query (?f\<lparr>store := filter (\<lambda>p. fst p \<noteq> nm) (store ?f)\<rparr>) k = (if k = nm then None else query ?f k)" for k
    using query_dereg_other [of k nm ?f "dlq_key req"] dr by (auto simp: query_def map_of_remove)
  obtain s' where "release_qp V i (s\<lparr>registered_qps := ?f\<lparr>store := filter (\<lambda>p. fst p \<noteq> nm) (store ?f)\<rparr>\<rparr>) = (Inr (), s')"
      "registered_qps s' = ?f\<lparr>store := filter (\<lambda>p. fst p \<noteq> nm) (store ?f)\<rparr>"
    using release_qp_returns [of V i "s\<lparr>registered_qps := ?f\<lparr>store := filter (\<lambda>p. fst p \<noteq> nm) (store ?f)\<rparr>\<rparr>"]
    by auto
  then show ?thesis
    using True q by (simp add: delete_rc_decoded [OF assms] dr bindA_def retA_def)
next
  case False
  then have "dereg (registered_qps s) nm (dlq_key req) = (None, registered_qps s)"
    by (auto simp: dereg_def split: option.splits)
  then show ?thesis
    using False by (simp add: delete_rc_decoded [OF assms])
qed

section \<open>Creating\<close>

lemma wrong_arg_distinct:
  "rc_reply_of CB_NotFound \<noteq> rc_reply_of CB_WrongArg"
  "dump 69 enc_rc_reply \<lparr>rrp_status = CB_Ok, rrp_attr = x, rrp_key = key\<rparr> \<noteq> rc_reply_of CB_WrongArg"
  by (simp_all add: rc_reply_of_def rc_reply_packed.dump_inject CB_NotFound_def CB_WrongArg_def CB_Ok_def)

lemma fetch_qp_attr_not_wrong: "fetch_qp_attr V a key s \<noteq> (Inr (rc_reply_of CB_WrongArg), s')"
  using wrong_arg_distinct
  by (auto simp: fetch_qp_attr_def bindE_def split: sum.splits option.splits)

lemma fetch_qp_attr_state: "snd (fetch_qp_attr V a key s) = s"
  by (auto simp: fetch_qp_attr_def split: sum.splits option.splits)

lemma create_and_connect_ok:
  assumes "rc_create V nic (rrq_config req) rcq (rt_drv s) = (Inr (Some q), d1)"
    and "c_string (rrq_name req) = Inr nm" "map_of (store (registered_qps s)) nm = None"
    and "generate_key rnd (rt_rng s) = Some (key, r')"
    and "rc_connect V (rrq_attr req) q d1 = (Inr (Ok m, q'), d2)"
  shows "create_and_connect rnd V nic rcq req s = (Inr (Some key),
    s\<lparr>registered_qps := (registered_qps s)\<lparr>store := (nm, (length (qp_heap s), key)) # store (registered_qps s)\<rparr>,
      qp_heap := qp_heap s @ [\<lparr>ho_qp = Q_RC q', ho_held = False\<rparr>], rt_rng := r', rt_drv := d2\<rparr>)"
  using assms
  by (simp add: create_and_connect_def bindA_def drvA_def liftA_def new_qp_def reg_qp_def reg_def set_qp_def retA_def)

text \<open>Registering, and what is undone when connecting fails.\<close>

lemma reg_qp_result:
  assumes "reg_qp rnd nm i s = (Inr st, s')"
  shows "case st of None \<Rightarrow> registered_qps s' = registered_qps s
    | Some key \<Rightarrow> registered_qps s' = (registered_qps s)\<lparr>store := (nm, (i, key)) # store (registered_qps s)\<rparr> \<and>
        map_of (store (registered_qps s)) nm = None"
  using assms
  by (auto simp: reg_qp_def reg_def simp del: split_paired_All split_paired_Ex split: sum.splits if_splits option.splits)

lemma connect_undone:
  assumes "bindA (drvA (rc_connect V attr q)) (\<lambda>(res, rc').
      bindA (set_qp i rc') (\<lambda>_. if code res \<noteq> IO_Ok
        then bindA (dereg_qp nm key) (\<lambda>_. bindA (release_qp V i) (\<lambda>_. retA None))
        else retA (Some key))) s = (Inr (None :: u64 option), s')"
  shows "registered_qps s' = snd (dereg (registered_qps s) nm key)"
proof -
  from assms obtain x s4 where x: "drvA (rc_connect V attr q) s = (Inr x, s4)"
    and d: "(case x of (res, rc') \<Rightarrow> bindA (set_qp i rc') (\<lambda>_. if code res \<noteq> IO_Ok
           then bindA (dereg_qp nm key) (\<lambda>_. bindA (release_qp V i) (\<lambda>_. retA None))
           else retA (Some key))) s4 = (Inr None, s')"
    by (rule bindA_InrE)
  obtain res rc' where xr: "x = (res, rc')"
    by fastforce
  have s4: "registered_qps s4 = registered_qps s"
    using x by (metis drvA_regs(1) snd_conv)
  define s5 where "s5 = s4\<lparr>qp_heap := (qp_heap s4)[i := (qp_heap s4 ! i)\<lparr>ho_qp := Q_RC rc'\<rparr>]\<rparr>"
  have "bindA (dereg_qp nm key) (\<lambda>_. bindA (release_qp V i) (\<lambda>_. retA None)) s5 = (Inr (None :: u64 option), s')"
    using d by (auto simp: xr bindA_def [of "set_qp _ _"] set_qp_def s5_def retA_def split: if_splits)
  then have "registered_qps s' = snd (dereg (registered_qps s5) nm key)"
    by (auto simp: bindA_def dereg_qp_def retA_def split: prod.splits sum.splits
        dest!: arg_cong [of _ _ "\<lambda>x. registered_qps (snd x)"])
  then show ?thesis
    using s4 by (simp add: s5_def)
qed

lemma create_and_connect_refused:
  assumes "create_and_connect rnd V nic rcq req s = (Inr None, s')"
  shows "query (registered_qps s') k = query (registered_qps s) k"
proof -
  let ?connect = "\<lambda>i q nm key. bindA (drvA (rc_connect V (rrq_attr req) q)) (\<lambda>(res, rc').
      bindA (set_qp i rc') (\<lambda>_. if code res \<noteq> IO_Ok
        then bindA (dereg_qp nm key) (\<lambda>_. bindA (release_qp V i) (\<lambda>_. retA None)) else retA (Some key)))"
  obtain rco s1 where a: "drvA (rc_create V nic (rrq_config req) rcq) s = (Inr rco, s1)"
    and b: "bindA (liftA (opt_value rco)) (\<lambda>rc. bindA (new_qp rc) (\<lambda>i.
      bindA (liftA (c_string (rrq_name req))) (\<lambda>nm. bindA (reg_qp rnd nm i) (\<lambda>rc_status.
       case rc_status of None \<Rightarrow> bindA (release_qp V i) (\<lambda>_. retA None)
       | Some key \<Rightarrow> ?connect i rc nm key)))) s1 = (Inr None, s')"
    using assms unfolding create_and_connect_def by (rule bindA_InrE)
  have s1: "registered_qps s1 = registered_qps s"
    using a by (metis drvA_regs(1) snd_conv)
  from b obtain q where q: "rco = Some q"
    by (auto simp: opt_value_def bindA_def liftA_def split: option.splits)
  from b obtain nm where nm: "c_string (rrq_name req) = Inr nm"
    using c_string_cases [of "rrq_name req"] by (auto simp: q bindA_def liftA_def new_qp_def)
  define s2 where "s2 = s1\<lparr>qp_heap := qp_heap s1 @ [\<lparr>ho_qp = Q_RC q, ho_held = False\<rparr>]\<rparr>"
  let ?i = "length (qp_heap s1)"
  from b obtain st s3 where st: "reg_qp rnd nm ?i s2 = (Inr st, s3)"
    and c: "(case st of None \<Rightarrow> bindA (release_qp V ?i) (\<lambda>_. retA None) | Some key \<Rightarrow> ?connect ?i q nm key) s3 = (Inr None, s')"
    by (auto simp: q nm liftA_def new_qp_def s2_def bindA_def [of "liftA _"] bindA_def [of "new_qp _"]
        elim: bindA_InrE)
  note reg = reg_qp_result [OF st]
  show ?thesis
  proof (cases st)
    case None
    have "s' = snd (release_qp V ?i s3)"
      using c None by (auto simp: retA_def bindA_def split: prod.splits sum.splits)
    then show ?thesis
      using reg None s1 by (simp add: s2_def)
  next
    case (Some key)
    have "registered_qps s' = snd (dereg (registered_qps s3) nm key)"
      using c unfolding Some option.case by (rule connect_undone)
    then show ?thesis
      using reg Some s1 by (simp add: s2_def dereg_def query_def map_of_remove)
  qed
qed


text \<open>
  A request that only asks for the attribute is refused. The check of \<open>whether_create\<close>
  rejects the value 0, which stands for a query, so such a request gets WrongArg whatever
  is registered.
\<close>
theorem rc_handler_refuses_query:
  assumes "wf_rc_req req" and "rrq_whether_create req = 0"
  shows "rc_handler rnd V (dump 246 enc_rc_req req @ rest) s = (Inr (rc_reply_of CB_WrongArg), s)"
  using rc_req_packed.dedump_dump_append [OF assms(1), of rest] assms(2)
  by (simp add: rc_handler_def retA_def)

text \<open>A state in which nothing is registered but one device is open.\<close>

definition sample_ctrl :: "(nat, sim) rctrl" where
  "sample_ctrl = \<lparr>registered_mrs = factory_empty, registered_qps = factory_empty, registered_dcs = factory_empty,
     opened_nics = \<lparr>store = [(7, (sample_nic, 1))]\<rparr>, qp_heap = [], rt_rng = 5, rt_drv = sim_start\<rparr>"

definition sample_rnd :: "nat \<Rightarrow> u64 \<times> nat" where
  "sample_rnd n = (of_nat n, Suc n)"

definition sample_req :: "u8 \<Rightarrow> rc_req" where
  "sample_req create = \<lparr>rrq_name = name_array [113], rrq_name_recv = name_array [], rrq_whether_create = create,
     rrq_whether_recv = 0, rrq_nic_id = 7, rrq_config = default_config sample_flags, rrq_attr = null_qp_attr,
     rrq_max_recv_sz = 4096\<rparr>"

lemma wf_sample_req: "wf_rc_req (sample_req c)"
  by (simp add: sample_req_def wf_rc_req_def wf_name_array)

theorem delete_rc_authenticated_witness:
  "\<exists>s'. delete_rc sim_verbs (dump 72 enc_del_rc_req \<lparr>dlq_name = name_array [113], dlq_key = 3\<rparr> @ [])
       (sample_ctrl\<lparr>registered_qps := \<lparr>store = [([113], (0, 3)), ([114], (1, 4))]\<rparr>\<rparr>) =
         (Inr (rc_reply_of CB_Ok), s') \<and>
       query (registered_qps s') [113] = None \<and> query (registered_qps s') [114] = Some 1"
proof -
  have "wf_name (dlq_name \<lparr>dlq_name = name_array [113], dlq_key = 3\<rparr>)"
    "c_string (dlq_name \<lparr>dlq_name = name_array [113], dlq_key = 3\<rparr>) = Inr [113]"
    by (simp_all add: wf_name_array c_string_name_array)
  from delete_rc_authenticated [OF this, of sim_verbs "[]"
      "sample_ctrl\<lparr>registered_qps := \<lparr>store = [([113], (0, 3)), ([114], (1, 4))]\<rparr>\<rparr>"]
  obtain s' where "delete_rc sim_verbs (dump 72 enc_del_rc_req \<lparr>dlq_name = name_array [113], dlq_key = 3\<rparr> @ [])
       (sample_ctrl\<lparr>registered_qps := \<lparr>store = [([113], (0, 3)), ([114], (1, 4))]\<rparr>\<rparr>) =
         (Inr (rc_reply_of CB_Ok), s')"
    and q: "\<forall>k. query (registered_qps s') k = (if k = [113] then None
      else query \<lparr>store = [([113], (0::nat, 3::u64)), ([114], (1, 4))]\<rparr> k)"
    by (auto simp del: split_paired_Ex)
  then show ?thesis
    using q [rule_format, of "[113]"] q [rule_format, of "[114]"] by (auto simp: query_def)
qed

theorem rc_handler_refuses_query_witness:
  "rc_handler sample_rnd sim_verbs (dump 246 enc_rc_req (sample_req 0) @ []) sample_ctrl =
     (Inr (rc_reply_of CB_WrongArg), sample_ctrl)"
  by (rule rc_handler_refuses_query [OF wf_sample_req]) (simp add: sample_req_def)


lemma create_and_connect_lawful:
  assumes "lawful V qps" "nic_addr nic = Some ad" "nic_lid nic = Some li"
    and "rc_create V nic (rrq_config req) rcq (rt_drv s) = (Inr (Some q), d1)"
    and "c_string (rrq_name req) = Inr nm" "map_of (store (registered_qps s)) nm = None"
    and "generate_key rnd (rt_rng s) = Some (key, r')"
  obtains h d2 where "d_qp q = Some h"
    and "create_and_connect rnd V nic rcq req s = (Inr (Some key),
      s\<lparr>registered_qps := (registered_qps s)\<lparr>store := (nm, (length (qp_heap s), key)) # store (registered_qps s)\<rparr>,
        qp_heap := qp_heap s @ [\<lparr>ho_qp = Q_RC (q\<lparr>rc_status := Ok ()\<rparr>), ho_held = False\<rparr>], rt_rng := r', rt_drv := d2\<rparr>)"
    and "qps d2 h = Some (QPT_RC, QPS_RTS,
       [init_attr QPT_RC (rrq_config req) nic,
        rcv_attr (rrq_config req) (rrq_attr req) (ucast (ucast (port_id (nic_id nic)) :: u64)),
        send_attr (rrq_config req)])"
    and "d_nic q = nic" "rc_config q = rrq_config req"
proof -
  obtain h where h: "d_qp q = Some h" "d_cq q \<noteq> None" "d_nic q = nic" "rc_config q = rrq_config req"
      "qps d1 h = Some (QPT_RC, QPS_INIT, [init_attr QPT_RC (rrq_config req) nic])"
    using rc_create_init [OF assms(1,4)] .
  obtain d2 where d2: "rc_connect V (rrq_attr req) q d1 = (Inr (Ok [], q\<lparr>rc_status := Ok ()\<rparr>), d2)"
      "qps d2 = (qps d1)(h \<mapsto> (QPT_RC, QPS_RTS, [init_attr QPT_RC (rrq_config req) nic] @
        [rcv_attr (rrq_config req) (rrq_attr req) (ucast (ucast (port_id (nic_id nic)) :: u64)),
         send_attr (rrq_config req)]))"
    using rc_connect_init [OF assms(1) h(5,1,2), of ad li "rrq_attr req"] h(3,4) assms(2,3) by auto
  show thesis
    by (rule that [OF h(1) create_and_connect_ok [OF assms(4-7) d2(1)]]) (use d2(2) h in auto)
qed

text \<open>What the server tells the client about a queue pair it created.\<close>

definition qp_attr_of :: "'d verbs \<Rightarrow> 'd \<Rightarrow> rnic \<Rightarrow> raddress \<Rightarrow> u64 \<Rightarrow> qp_config \<Rightarrow> nat \<Rightarrow> qp_attr" where
  "qp_attr_of V d nic ad li config h =
     \<lparr>q_addr = ad, q_lid = li, q_psn = scast (c_rq_psn config),
      q_port_id = ucast (port_id (nic_id nic)), q_qpn = ucast (v_qp_num V d (Some h)), q_qkey = 0\<rparr>"

lemma rc_handler_created:
  assumes "lawful V qps" "nic_addr nic = Some ad" "nic_lid nic = Some li"
    and "rc_create V nic (rrq_config req) None (rt_drv s) = (Inr (Some q), d1)"
    and "c_string (rrq_name req) = Inr nm" "map_of (store (registered_qps s)) nm = None"
    and "generate_key rnd (rt_rng s) = Some (key, r')"
    and "wf_rc_req req" "rrq_whether_create req = 1"
    and "query (opened_nics s) (rrq_nic_id req) = Some nic"
  shows "\<exists>s' h. d_qp q = Some h \<and>
    rc_handler rnd V (dump 246 enc_rc_req req @ rest) s =
      (Inr (dump 69 enc_rc_reply \<lparr>rrp_status = CB_Ok,
         rrp_attr = qp_attr_of V (rt_drv s') nic ad li (rrq_config req) h, rrp_key = key\<rparr>), s') \<and>
    store (registered_qps s') = (nm, (length (qp_heap s), key)) # store (registered_qps s) \<and>
    qp_heap s' = qp_heap s @ [\<lparr>ho_qp = Q_RC (q\<lparr>rc_status := Ok ()\<rparr>), ho_held = False\<rparr>] \<and>
    qps (rt_drv s') h = Some (QPT_RC, QPS_RTS,
       [init_attr QPT_RC (rrq_config req) nic,
        rcv_attr (rrq_config req) (rrq_attr req) (ucast (ucast (port_id (nic_id nic)) :: u64)),
        send_attr (rrq_config req)]) \<and>
    registered_mrs s' = registered_mrs s \<and> opened_nics s' = opened_nics s"
proof -
  obtain h d2 where h: "d_qp q = Some h" "d_nic q = nic" "rc_config q = rrq_config req"
    and cc: "create_and_connect rnd V nic None req s = (Inr (Some key),
      s\<lparr>registered_qps := (registered_qps s)\<lparr>store := (nm, (length (qp_heap s), key)) # store (registered_qps s)\<rparr>,
        qp_heap := qp_heap s @ [\<lparr>ho_qp = Q_RC (q\<lparr>rc_status := Ok ()\<rparr>), ho_held = False\<rparr>], rt_rng := r', rt_drv := d2\<rparr>)"
    and st: "qps d2 h = Some (QPT_RC, QPS_RTS,
       [init_attr QPT_RC (rrq_config req) nic,
        rcv_attr (rrq_config req) (rrq_attr req) (ucast (ucast (port_id (nic_id nic)) :: u64)),
        send_attr (rrq_config req)])"
    using create_and_connect_lawful [OF assms(1-7)] by metis
  let ?s = "s\<lparr>registered_qps := (registered_qps s)\<lparr>store := (nm, (length (qp_heap s), key)) # store (registered_qps s)\<rparr>,
        qp_heap := qp_heap s @ [\<lparr>ho_qp = Q_RC (q\<lparr>rc_status := Ok ()\<rparr>), ho_held = False\<rparr>], rt_rng := r', rt_drv := d2\<rparr>"
  have "fetch_qp_attr V (rrq_name req) key ?s =
      (Inr (dump 69 enc_rc_reply \<lparr>rrp_status = CB_Ok, rrp_attr = qp_attr_of V d2 nic ad li (rrq_config req) h,
         rrp_key = key\<rparr>), ?s)"
    using assms(2,3,5) h
    by (simp add: fetch_qp_attr_def query_store_cons rc_my_attr_def attr_of_def qp_attr_of_def)
  then have "rc_handler rnd V (dump 246 enc_rc_req req @ rest) s =
      (Inr (dump 69 enc_rc_reply \<lparr>rrp_status = CB_Ok, rrp_attr = qp_attr_of V d2 nic ad li (rrq_config req) h,
         rrp_key = key\<rparr>), ?s)"
    using rc_req_packed.dedump_dump_append [OF assms(8), of rest] assms(9,10)
    by (simp add: rc_handler_def bindA_def cc)
  then show ?thesis
    using h(1) st by (intro exI [of _ ?s] exI [of _ h]) simp
qed

text \<open>
  C5: a successful request to create a connection. With a driver that implements the
  documented state machine, an open device and a free name, the server creates a queue
  pair, brings it to RTS towards the attribute that the client sent, registers it under the
  name with the key it returns, and replies with that queue pair's own attribute; a later
  query of the name finds it, and every other name is as before.
\<close>
theorem rc_handler_creates:
  assumes "lawful V qps" and "nic_addr nic = Some ad" and "nic_lid nic = Some li"
    and "rc_create V nic (rrq_config req) None (rt_drv s) = (Inr (Some q), d1)"
    and "c_string (rrq_name req) = Inr nm" and "map_of (store (registered_qps s)) nm = None"
    and "generate_key rnd (rt_rng s) = Some (key, r')"
    and "wf_rc_req req" and "rrq_whether_create req = 1"
    and "query (opened_nics s) (rrq_nic_id req) = Some nic"
  shows "\<exists>s' h. rc_handler rnd V (dump 246 enc_rc_req req @ rest) s =
      (Inr (dump 69 enc_rc_reply \<lparr>rrp_status = CB_Ok,
         rrp_attr = qp_attr_of V (rt_drv s') nic ad li (rrq_config req) h, rrp_key = key\<rparr>), s') \<and>
    qps (rt_drv s') h = Some (QPT_RC, QPS_RTS,
       [init_attr QPT_RC (rrq_config req) nic,
        rcv_attr (rrq_config req) (rrq_attr req) (ucast (ucast (port_id (nic_id nic)) :: u64)),
        send_attr (rrq_config req)]) \<and>
    map_of (store (registered_qps s')) nm = Some (length (qp_heap s), key) \<and>
    (\<forall>k. k \<noteq> nm \<longrightarrow> query (registered_qps s') k = query (registered_qps s) k)"
proof -
  obtain s' h where
    "rc_handler rnd V (dump 246 enc_rc_req req @ rest) s =
      (Inr (dump 69 enc_rc_reply \<lparr>rrp_status = CB_Ok,
         rrp_attr = qp_attr_of V (rt_drv s') nic ad li (rrq_config req) h, rrp_key = key\<rparr>), s')"
    "store (registered_qps s') = (nm, (length (qp_heap s), key)) # store (registered_qps s)"
    "qps (rt_drv s') h = Some (QPT_RC, QPS_RTS,
       [init_attr QPT_RC (rrq_config req) nic,
        rcv_attr (rrq_config req) (rrq_attr req) (ucast (ucast (port_id (nic_id nic)) :: u64)),
        send_attr (rrq_config req)])"
    using rc_handler_created [OF assms] by blast
  then show ?thesis
    by (intro exI [of _ s'] exI [of _ h]) (simp add: query_def)
qed

lemma sample_rc_created:
  "\<exists>q d1. rc_create sim_verbs sample_nic (default_config sample_flags) None sim_start = (Inr (Some q), d1)"
  by (simp add: rc_create_def rc_new_def create_cq_def create_qp_def bring_qp_to_init_def bindA_def callA_def
      handle_result_def rc_result_def retA_def dummy_valid_def rc_blank_def sim_verbs_def sim_new_def
      sim_create_qp_def sim_start_def sim_lookup_def Let_def dummy_destroy_def split: prod.splits)

lemma sample_key: "generate_key sample_rnd 5 = Some (5, 6)"
  by (simp add: generate_key.simps sample_rnd_def)

theorem rc_handler_creates_witness:
  "\<exists>r s'. rc_handler sample_rnd sim_verbs (dump 246 enc_rc_req (sample_req 1) @ []) sample_ctrl = (Inr r, s') \<and>
     map_of (store (registered_qps s')) [113] = Some (0, 5)"
proof -
  obtain q d1 where q: "rc_create sim_verbs sample_nic (rrq_config (sample_req 1)) None (rt_drv sample_ctrl) = (Inr (Some q), d1)"
    using sample_rc_created by (auto simp: sample_req_def sample_ctrl_def)
  have "nic_addr sample_nic = Some \<lparr>subnet_prefix = 1, interface_id = 2, local_id = 0\<rparr>" "nic_lid sample_nic = Some 4"
    by (simp_all add: sample_nic_def)
  note h = rc_handler_creates [OF sim_lawful this q, of "[113]" sample_rnd 5 6 "[]"]
  have "c_string (rrq_name (sample_req 1)) = Inr [113]"
    by (simp add: sample_req_def c_string_name_array)
  then show ?thesis
    using h wf_sample_req sample_key
    by (auto simp: sample_req_def sample_ctrl_def factory_empty_def query_def)
qed

text \<open>
  A name without its terminating NUL. The server turns the 64 bytes of the name into a
  string; when none of them is zero, every handler that reads the name reads past the
  request.
\<close>
theorem unterminated_name:
  assumes "length nm = 64" and "0 \<notin> set nm"
  shows "fetch_qp_attr_wrapper V (dump 72 enc_qp_req \<lparr>qrq_name = nm, qrq_key = k\<rparr>) s = (Inl Undefined, s) \<and>
         fetch_dc_attr_wrapper (dump 72 enc_qp_req \<lparr>qrq_name = nm, qrq_key = k\<rparr>) s = (Inl Undefined, s) \<and>
         delete_rc V (dump 72 enc_del_rc_req \<lparr>dlq_name = nm, dlq_key = k\<rparr>) s = (Inl Undefined, s)"
proof -
  have "wf_name nm"
    using assms(1) by (simp add: wf_name_def)
  then have "dedump 72 dec_qp_req (dump 72 enc_qp_req \<lparr>qrq_name = nm, qrq_key = k\<rparr>) = Some \<lparr>qrq_name = nm, qrq_key = k\<rparr>"
      "dedump 72 dec_del_rc_req (dump 72 enc_del_rc_req \<lparr>dlq_name = nm, dlq_key = k\<rparr>) = Some \<lparr>dlq_name = nm, dlq_key = k\<rparr>"
    by (simp_all add: qp_req_packed.dedump_dump del_rc_req_packed.dedump_dump)
  then show ?thesis
    using assms(2)
    by (simp add: fetch_qp_attr_wrapper_def fetch_dc_attr_wrapper_def delete_rc_def fetch_qp_attr_def
        fetch_dc_attr_def c_string_def bindA_def liftA_def)
qed

theorem unterminated_name_witness:
  "delete_rc sim_verbs (dump 72 enc_del_rc_req \<lparr>dlq_name = replicate 64 1, dlq_key = 3\<rparr>) sample_ctrl =
     (Inl Undefined, sample_ctrl)"
  by (rule unterminated_name [THEN conjunct2, THEN conjunct2]) simp_all

section \<open>The table of handlers\<close>

lemma rctrl_table:
  assumes "rctrl_rpc rnd V ch = Inr H"
  shows "hd_chan H = ch" and "map_of (hd_fac H) =
    [HeartBeat \<mapsto> heartbeat_handler, FetchMr \<mapsto> fetch_mr_handler, CreateRC \<mapsto> rc_handler rnd V,
     DeleteRC \<mapsto> delete_rc V, FetchQPAttr \<mapsto> fetch_qp_attr_wrapper V, FetchDCAttr \<mapsto> fetch_dc_attr_wrapper]"
  using assms
  by (auto simp: rctrl_rpc_def rctrl_handlers_def handler_register_def register_handler_def handler_of_channel_def
      rpc_factory_new_def HeartBeat_def FetchMr_def CreateRC_def DeleteRC_def FetchQPAttr_def FetchDCAttr_def)

text \<open>
  The daemon's table. Setting up the control daemon succeeds and binds the heartbeat
  and the five handlers; it binds nothing to \<open>CreateRCM\<close>, so the request that
  \<open>cc_rc_msg\<close> sends to a server without a \<open>RecvManager\<close> is undefined behaviour there.
\<close>
theorem rctrl_binds:
  assumes "request_packet msg CreateRCM ck p rest" and "length msg \<le> 4096"
  shows "\<exists>H. rctrl_rpc rnd V ch = Inr H \<and> hd_chan H = ch \<and>
     map_of (hd_fac H) FetchMr = Some fetch_mr_handler \<and> map_of (hd_fac H) CreateRC = Some (rc_handler rnd V) \<and>
     map_of (hd_fac H) DeleteRC = Some (delete_rc V) \<and>
     serve_request (hd_fac H) msg s = (Inl Undefined, s)"
proof -
  have "\<exists>H. rctrl_rpc rnd V ch = Inr H"
    by (simp add: rctrl_rpc_def rctrl_handlers_def handler_register_def register_handler_def handler_of_channel_def
        rpc_factory_new_def HeartBeat_def FetchMr_def CreateRC_def DeleteRC_def FetchQPAttr_def FetchDCAttr_def)
  then obtain H where H: "rctrl_rpc rnd V ch = Inr H"
    by blast
  have "map_of (hd_fac H) CreateRCM = None"
    by (simp add: rctrl_table(2) [OF H] HeartBeat_def FetchMr_def CreateRC_def DeleteRC_def FetchQPAttr_def
        FetchDCAttr_def CreateRCM_def)
  then have "serve_request (hd_fac H) msg s = (Inl Undefined, s)"
    by (simp add: serve_request_decoded [OF assms] call_one_def)
  with H rctrl_table [OF H] show ?thesis
    by (auto simp: HeartBeat_def FetchMr_def CreateRC_def DeleteRC_def FetchQPAttr_def FetchDCAttr_def)
qed

theorem rctrl_binds_witness:
  "\<exists>H. rctrl_rpc sample_rnd sim_verbs \<lparr>rc_fd = 3, cur_msg_client = None, cur_msg = replicate 4096 0\<rparr> = Inr H \<and>
     serve_request (hd_fac H) (sample_packet CreateRCM 1 [1]) sample_ctrl = (Inl Undefined, sample_ctrl)"
  using rctrl_binds [where msg = "sample_packet CreateRCM 1 [1]" and p = "[1]" and ck = 1 and rest = "[]"
      and rnd = sample_rnd and V = sim_verbs and s = sample_ctrl and
      ch = "\<lparr>rc_fd = 3, cur_msg_client = None, cur_msg = replicate 4096 0\<rparr>"]
    sample_packet_request [of "[1]" CreateRCM 1]
  by (auto simp: sample_packet_length)

end
