(* ===== verification/DaemonSpec.thy ===== *)
theory DaemonSpec
  imports RCtrlSpec
begin

text \<open>
  The control daemon as a whole: an invariant of its registries under every sequence of
  datagrams, and the form of its replies. The daemon's run is related to a step relation in which
  any handler is called with any bytes, as a hostile client may.
\<close>

section \<open>Outcomes under an invariant\<close>

definition hoareA :: "('s \<Rightarrow> bool) \<Rightarrow> ('s, 'a) act \<Rightarrow> ('a \<Rightarrow> 's \<Rightarrow> bool) \<Rightarrow> ('s \<Rightarrow> bool) \<Rightarrow> bool" where
  "hoareA P m Q E \<longleftrightarrow> (\<forall>s. P s \<longrightarrow> (case m s of (Inr x, s') \<Rightarrow> Q x s' | (Inl _, s') \<Rightarrow> E s'))"

lemma hoareA_bind: "hoareA P m R E \<Longrightarrow> (\<And>x. hoareA (R x) (f x) Q E) \<Longrightarrow> hoareA P (bindA m f) Q E"
  unfolding hoareA_def bindA_def
  by (intro allI impI, rename_tac s, case_tac "m s", rename_tac r t, case_tac r) fastforce+

lemma hoareA_ret: "(\<And>s. P s \<Longrightarrow> Q x s) \<Longrightarrow> hoareA P (retA x) Q E"
  by (simp add: hoareA_def retA_def)

lemma hoareA_lift: "(\<And>x s. P s \<Longrightarrow> m = Inr x \<Longrightarrow> Q x s) \<Longrightarrow> (\<And>s. P s \<Longrightarrow> E s) \<Longrightarrow> hoareA P (liftA m) Q E"
  by (auto simp: hoareA_def liftA_def split: sum.splits)

lemma hoareA_weaken: "hoareA P m Q E \<Longrightarrow> (\<And>s. P' s \<Longrightarrow> P s) \<Longrightarrow> hoareA P' m Q E"
  by (simp add: hoareA_def)

lemma hoareA_snd: "hoareA P m (\<lambda>_. E) E \<Longrightarrow> P s \<Longrightarrow> E (snd (m s))"
  unfolding hoareA_def by (cases "m s", cases "fst (m s)") auto

section \<open>The registry of queue pairs\<close>

text \<open>
  Names are registered once, every object under one name only, every index is in the heap,
  and no key is zero. The second makes it safe to destroy an object when its name goes.
\<close>

definition ctrl_wf :: "('r, 'd) rctrl \<Rightarrow> bool" where
  "ctrl_wf s \<longleftrightarrow> distinct (map fst (store (registered_qps s))) \<and>
     distinct (map (\<lambda>e. fst (snd e)) (store (registered_qps s))) \<and>
     (\<forall>e \<in> set (store (registered_qps s)). fst (snd e) < length (qp_heap s) \<and> snd (snd e) \<noteq> 0)"

definition fresh_obj :: "nat \<Rightarrow> ('r, 'd) rctrl \<Rightarrow> bool" where
  "fresh_obj i s \<longleftrightarrow> i < length (qp_heap s) \<and> (\<forall>e \<in> set (store (registered_qps s)). fst (snd e) \<noteq> i)"

lemma drvA_wf: "hoareA ctrl_wf (drvA m) (\<lambda>_. ctrl_wf) ctrl_wf"
  by (auto simp: hoareA_def drvA_def ctrl_wf_def split: prod.splits sum.splits)

lemma drvA_fresh: "hoareA (\<lambda>s. ctrl_wf s \<and> fresh_obj i s) (drvA m) (\<lambda>_ s. ctrl_wf s \<and> fresh_obj i s) ctrl_wf"
  by (auto simp: hoareA_def drvA_def ctrl_wf_def fresh_obj_def split: prod.splits sum.splits)

lemma new_qp_wf: "hoareA ctrl_wf (new_qp q) (\<lambda>i s. ctrl_wf s \<and> fresh_obj i s) ctrl_wf"
  by (fastforce simp: hoareA_def new_qp_def ctrl_wf_def fresh_obj_def)

lemma set_qp_wf: "hoareA ctrl_wf (set_qp i q) (\<lambda>_. ctrl_wf) ctrl_wf"
  by (simp add: hoareA_def set_qp_def ctrl_wf_def)

lemma release_qp_wf: "hoareA ctrl_wf (release_qp V i) (\<lambda>_. ctrl_wf) ctrl_wf"
  by (auto simp: hoareA_def release_qp_def drvA_def ctrl_wf_def split: prod.splits sum.splits)

lemma dereg_qp_wf: "hoareA ctrl_wf (dereg_qp nm key) (\<lambda>_. ctrl_wf) ctrl_wf"
  by (auto simp: hoareA_def dereg_qp_def dereg_def ctrl_wf_def distinct_map inj_on_def split: prod.splits option.splits)

lemma reg_qp_wf: "hoareA (\<lambda>s. ctrl_wf s \<and> fresh_obj i s) (reg_qp rnd nm i) (\<lambda>_. ctrl_wf) ctrl_wf"
proof -
  have fresh: "map_of st nm = None \<Longrightarrow> nm \<notin> fst ` set st" for st :: "(bytes \<times> nat \<times> u64) list"
    by (simp add: map_of_eq_None_iff)
  show ?thesis
    unfolding hoareA_def
  proof (intro allI impI)
    fix s :: "('a, 'b) rctrl"
    assume s: "ctrl_wf s \<and> fresh_obj i s"
    show "case reg_qp rnd nm i s of (Inl _, s') \<Rightarrow> ctrl_wf s' | (Inr _, s') \<Rightarrow> ctrl_wf s'"
    proof (cases "map_of (store (registered_qps s)) nm")
      case None
      then show ?thesis
        using s fresh [OF None] generate_key_nonzero [of rnd "rt_rng s"]
        by (auto simp: reg_qp_def reg_def ctrl_wf_def fresh_obj_def split: option.splits)
    next
      case (Some e)
      then show ?thesis
        using s by (simp add: reg_qp_def reg_def ctrl_wf_def)
    qed
  qed
qed

lemma create_and_connect_wf: "hoareA ctrl_wf (create_and_connect rnd V nic cq req) (\<lambda>_. ctrl_wf) ctrl_wf"
proof -
  have undo: "hoareA ctrl_wf (bindA (dereg_qp nm key) (\<lambda>_. bindA (release_qp V i) (\<lambda>_. retA None))) (\<lambda>_. ctrl_wf) ctrl_wf"
    for nm key i
    by (intro hoareA_bind [OF dereg_qp_wf] hoareA_bind [OF release_qp_wf] hoareA_ret)
  have connect: "hoareA ctrl_wf
      (bindA (drvA (rc_connect V (rrq_attr req) rc)) (\<lambda>(res, rc').
         bindA (set_qp i rc') (\<lambda>_.
           if code res \<noteq> IO_Ok
           then bindA (dereg_qp nm key) (\<lambda>_. bindA (release_qp V i) (\<lambda>_. retA None))
           else retA (Some key)))) (\<lambda>_. ctrl_wf) ctrl_wf" for rc i nm key
    using undo by (intro hoareA_bind [OF drvA_wf]) (auto intro!: hoareA_bind [OF set_qp_wf] hoareA_ret)
  have refuse: "hoareA ctrl_wf (bindA (release_qp V i) (\<lambda>_. retA (None :: u64 option))) (\<lambda>_. ctrl_wf) ctrl_wf" for i
    by (intro hoareA_bind [OF release_qp_wf] hoareA_ret)
  show ?thesis
    unfolding create_and_connect_def
  proof (rule hoareA_bind [OF drvA_wf], rule hoareA_bind [where R = "\<lambda>_. ctrl_wf"], goal_cases)
    case (2 rco rc)
    show ?case
    proof (rule hoareA_bind [OF new_qp_wf])
      fix i
      show "hoareA (\<lambda>s. ctrl_wf s \<and> fresh_obj i s)
          (bindA (liftA (c_string (rrq_name req))) (\<lambda>nm. bindA (reg_qp rnd nm i) (\<lambda>rc_status.
             case rc_status of None \<Rightarrow> bindA (release_qp V i) (\<lambda>_. retA None)
             | Some key \<Rightarrow> bindA (drvA (rc_connect V (rrq_attr req) rc)) (\<lambda>(res, rc').
                 bindA (set_qp i rc') (\<lambda>_.
                   if code res \<noteq> IO_Ok
                   then bindA (dereg_qp nm key) (\<lambda>_. bindA (release_qp V i) (\<lambda>_. retA None))
                   else retA (Some key)))))) (\<lambda>_. ctrl_wf) ctrl_wf"
        by (rule hoareA_bind [where R = "\<lambda>_ s. ctrl_wf s \<and> fresh_obj i s"])
          (auto intro!: hoareA_lift hoareA_bind [OF reg_qp_wf] connect refuse split: option.split)
    qed
  qed (auto intro: hoareA_lift)
qed

lemma fetch_states [simp]:
  "snd (fetch_mr_handler b s) = s" "snd (fetch_qp_attr_wrapper V b s) = s" "snd (fetch_dc_attr_wrapper b s) = s"
  "snd (fetch_dc_attr a k s) = s"
  by (auto simp: fetch_mr_handler_def fetch_qp_attr_wrapper_def fetch_dc_attr_wrapper_def fetch_dc_attr_def
      fetch_qp_attr_state retA_def split: option.splits sum.splits)

lemma delete_rc_wf:
  assumes "ctrl_wf s"
  shows "ctrl_wf (snd (delete_rc V b s))"
proof (cases "dedump 72 dec_del_rc_req b")
  case None
  then show ?thesis
    using assms by (simp add: delete_rc_def retA_def)
next
  case (Some req)
  have "hoareA ctrl_wf (bindA (liftA (c_string (dlq_name req))) (\<lambda>nm.
          bindA (dereg_qp nm (dlq_key req)) (\<lambda>del_res.
            case del_res of None \<Rightarrow> retA (rc_reply_of CB_WrongArg)
            | Some i \<Rightarrow> bindA (release_qp V i) (\<lambda>_. retA (rc_reply_of CB_Ok))))) (\<lambda>_. ctrl_wf) ctrl_wf"
    by (rule hoareA_bind [where R = "\<lambda>_. ctrl_wf"])
      (auto intro!: hoareA_lift hoareA_bind [OF dereg_qp_wf] hoareA_bind [OF release_qp_wf] hoareA_ret split: option.split)
  from hoareA_snd [OF this assms] Some show ?thesis
    by (simp add: delete_rc_def)
qed

lemma rc_handler_wf:
  assumes "ctrl_wf s"
  shows "ctrl_wf (snd (rc_handler rnd V b s))"
proof -
  have ok: "hoareA ctrl_wf (bindA (create_and_connect rnd V nic None req) (\<lambda>key.
        case key of None \<Rightarrow> retA (rc_reply_of CB_WrongArg) | Some k \<Rightarrow> fetch_qp_attr V (rrq_name req) k))
      (\<lambda>_. ctrl_wf) ctrl_wf" for nic req
  proof -
    have "hoareA ctrl_wf (fetch_qp_attr V a k) (\<lambda>_. ctrl_wf) ctrl_wf" for a k
      unfolding hoareA_def by (auto split: prod.splits sum.splits) (metis fetch_qp_attr_state snd_conv)+
    then show ?thesis
      by (intro hoareA_bind [OF create_and_connect_wf]) (auto intro: hoareA_ret split: option.split)
  qed
  show ?thesis
    using assms hoareA_snd [OF ok assms]
    by (auto simp: rc_handler_def retA_def fetch_qp_attr_state split: option.split)
qed

section \<open>Runs of the server\<close>

text \<open>Every change of the state that the server makes is a call of one of its handlers.\<close>

definition handlers_step :: "('a, 's) srpc_handler \<Rightarrow> ('s \<Rightarrow> 's \<Rightarrow> bool) \<Rightarrow> bool" where
  "handlers_step H R \<longleftrightarrow> (\<forall>rid fn p s. map_of (hd_fac H) rid = Some fn \<longrightarrow> R s (snd (fn p s)))"

lemma handlers_step_chan [simp]: "handlers_step (H\<lparr>hd_chan := c\<rparr>) R = handlers_step H R"
  by (simp add: handlers_step_def)

lemma serve_request_steps:
  assumes "handlers_step H R" "serve_request (hd_fac H) msg s = (r, s')"
  shows "R\<^sup>*\<^sup>* s s'"
proof -
  have "s' = s \<or> (\<exists>rid fn p. map_of (hd_fac H) rid = Some fn \<and> s' = snd (fn p s))"
  proof (cases "decode_head 9 dec_srpc_header msg")
    case (Inl e)
    then show ?thesis
      using assms(2) by (cases e) (auto simp: serve_request_def)
  next
    case (Inr mh)
    obtain m h where mh: "mh = (m, h)"
      by fastforce
    show ?thesis
    proof (cases "query_value m 1")
      case (Inl e)
      then show ?thesis
        using assms(2) Inr mh by (cases e) (auto simp: serve_request_def)
    next
      case p: (Inr p)
      have "snd (serve_request (hd_fac H) msg s) = snd (call_one (hd_fac H) (sh_id h) p s)"
        using Inr mh p
        by (auto simp: serve_request_def split: prod.splits sum.splits fault.splits)
      then show ?thesis
        using assms(2) by (auto simp: call_one_def split: option.splits)
    qed
  qed
  then show ?thesis
    using assms(1) unfolding handlers_step_def by blast
qed

lemma serve_one_steps:
  "handlers_step H R \<Longrightarrow> serve_one H s n = (r, s', n') \<Longrightarrow> R\<^sup>*\<^sup>* s s'"
  by (auto simp: serve_one_def split: prod.splits sum.splits intro: serve_request_steps)

lemma serve_loop_steps:
  assumes "handlers_step H R" "serve_loop H cnt s n = (r, H', s', n')"
  shows "R\<^sup>*\<^sup>* s s' \<and> handlers_step H' R"
  using assms
proof (induction H cnt s n rule: serve_loop.induct)
  case (1 H cnt s n)
  obtain r1 s1 n1 where one: "serve_one H s n = (r1, s1, n1)"
    by (metis prod.exhaust)
  have reach: "R\<^sup>*\<^sup>* s s1"
    using serve_one_steps [OF 1(2) one] .
  show ?case
  proof (cases "has_msg (hd_chan H)")
    case False
    then show ?thesis
      using 1(2,3) by (simp add: serve_loop.simps)
  next
    case True
    show ?thesis
    proof (cases r1)
      case (Inl e)
      then show ?thesis
        using 1(2,3) True one reach by (simp add: serve_loop.simps)
    next
      case r1: (Inr u)
      show ?thesis
      proof (cases "rc_next (hd_chan H) n1")
        case (Pair r2 n2)
        show ?thesis
        proof (cases r2)
          case (Inl e)
          then show ?thesis
            using 1(2,3) True one r1 Pair reach by (simp add: serve_loop.simps)
        next
          case (Inr c)
          have "serve_loop (H\<lparr>hd_chan := c\<rparr>) (cnt + 1) s1 n2 = (r, H', s', n')"
            using 1(3) True one r1 Pair Inr by (subst (asm) serve_loop.simps) simp
          then have "R\<^sup>*\<^sup>* s1 s' \<and> handlers_step H' R"
            using 1(1) [of r1 "(s1, n1)" u s1 n1 r2 n2 c] 1(2) True one r1 Pair Inr by simp
          then show ?thesis
            using reach by auto
        qed
      qed
    qed
  qed
qed

lemma run_one_event_loop_steps:
  assumes "handlers_step H R" "run_one_event_loop H s n = (r, H', s', n')"
  shows "R\<^sup>*\<^sup>* s s' \<and> handlers_step H' R"
proof (cases "rc_start (hd_chan H) n")
  case (Pair r1 n1)
  show ?thesis
  proof (cases r1)
    case (Inr c)
    then have "serve_loop (H\<lparr>hd_chan := c\<rparr>) 0 s n1 = (r, H', s', n')"
      using assms(2) Pair by (simp add: run_one_event_loop_def)
    then show ?thesis
      by (rule serve_loop_steps [rotated]) (simp add: assms(1))
  qed (use assms Pair in \<open>auto simp: run_one_event_loop_def\<close>)
qed

lemma daemon_steps:
  assumes "handlers_step H R" "daemon flags tot H s n = (r, H', s', n')"
  shows "R\<^sup>*\<^sup>* s s'"
  using assms
proof (induction flags tot H s n arbitrary: r H' s' n' rule: daemon.induct)
  case (1 flags tot H s n)
  obtain r1 H1 s1 n1 where one: "run_one_event_loop H s n = (r1, H1, s1, n1)"
    by (metis prod.exhaust)
  note step = run_one_event_loop_steps [OF 1(2) one]
  show ?case
  proof (cases r1)
    case (Inl e)
    then show ?thesis
      using 1(3) one step by simp
  next
    case (Inr k)
    then have "daemon flags (tot + ucast k) H1 s1 n1 = (r, H', s', n')"
      using 1(3) one by simp
    then have "R\<^sup>*\<^sup>* s1 s'"
      using 1(1) [of r1 "(H1, s1, n1)" k H1 "(s1, n1)" s1 n1] one Inr step by simp
    then show ?thesis
      using step by auto
  qed
qed auto

section \<open>The daemon\<close>

text \<open>
  What may happen to the daemon's state: a handler is called with any bytes, the application
  registers a queue pair that it holds, or it uses the device.
\<close>

inductive ctrl_step :: "('r \<Rightarrow> u64 \<times> 'r) \<Rightarrow> 'd verbs \<Rightarrow> ('r, 'd) rctrl \<Rightarrow> ('r, 'd) rctrl \<Rightarrow> bool" for rnd V where
  call_handler: "(rid, h) \<in> set (rctrl_handlers rnd V) \<Longrightarrow> ctrl_step rnd V s (snd (h b s))"
| app_register: "reg_qp rnd nm (length (qp_heap s)) (s\<lparr>qp_heap := qp_heap s @ [\<lparr>ho_qp = q, ho_held = True\<rparr>]\<rparr>) = (r, s') \<Longrightarrow>
    ctrl_step rnd V s s'"
| app_device: "ctrl_step rnd V s (s\<lparr>rt_drv := d\<rparr>)"

lemma ctrl_step_wf: "ctrl_step rnd V s s' \<Longrightarrow> ctrl_wf s \<Longrightarrow> ctrl_wf s'"
proof (induction rule: ctrl_step.induct)
  case (call_handler rid h s b)
  then show ?case
    by (auto simp: rctrl_handlers_def intro: delete_rc_wf rc_handler_wf)
next
  case (app_register nm s q r s')
  let ?s = "s\<lparr>qp_heap := qp_heap s @ [\<lparr>ho_qp = q, ho_held = True\<rparr>]\<rparr>"
  have "ctrl_wf ?s \<and> fresh_obj (length (qp_heap s)) ?s"
    using app_register(2) by (fastforce simp: ctrl_wf_def fresh_obj_def)
  with reg_qp_wf [of "length (qp_heap s)" rnd nm] app_register(1) show ?case
    unfolding hoareA_def by (cases r) fastforce+
next
  case (app_device s d)
  then show ?case
    by (simp add: ctrl_wf_def)
qed

lemma ctrl_reach_wf: "(ctrl_step rnd V)\<^sup>*\<^sup>* s s' \<Longrightarrow> ctrl_wf s \<Longrightarrow> ctrl_wf s'"
  by (induction rule: rtranclp_induct) (auto intro: ctrl_step_wf)

lemma rctrl_handlers_step:
  assumes "rctrl_rpc rnd V ch = Inr H"
  shows "handlers_step H (ctrl_step rnd V)\<^sup>*\<^sup>*"
  unfolding handlers_step_def
proof (intro allI impI)
  fix rid fn p s
  assume "map_of (hd_fac H) rid = Some fn"
  then have "fn = heartbeat_handler \<or> (rid, fn) \<in> set (rctrl_handlers rnd V)"
    by (auto simp: rctrl_table(2) [OF assms] rctrl_handlers_def split: if_splits)
  then show "(ctrl_step rnd V)\<^sup>*\<^sup>* s (snd (fn p s))"
    using call_handler [of rid fn rnd V s p] by (auto simp: heartbeat_handler_def)
qed

text \<open>
  C7: The registry under attack. Whatever datagrams arrive, in whatever order, and whatever the
  device answers, also when a handler aborts the daemon: after the run no name is registered
  twice, no two names share a queue pair, no name has lost its queue pair and no key is zero.
  The run is a sequence of steps that may be interleaved with the application's own.
\<close>
theorem daemon_keeps_registry:
  assumes "rctrl_rpc rnd V ch = Inr H" and "ctrl_wf s" and "daemon flags tot H s n = (r, H', s', n')"
  shows "(ctrl_step rnd V)\<^sup>*\<^sup>* s s' \<and> ctrl_wf s'"
proof -
  have "((ctrl_step rnd V)\<^sup>*\<^sup>*)\<^sup>*\<^sup>* s s'"
    using daemon_steps [OF rctrl_handlers_step [OF assms(1)] assms(3)] .
  then show ?thesis
    using ctrl_reach_wf [OF _ assms(2)] by simp
qed

theorem daemon_keeps_registry_witness:
  "\<exists>H. rctrl_rpc sample_rnd sim_verbs \<lparr>rc_fd = 3, cur_msg_client = None, cur_msg = replicate 4096 0\<rparr> = Inr H \<and>
     ctrl_wf (fst (snd (snd (daemon [True, True] 0 H sample_ctrl
       \<lparr>inbox = [SelData (9 :: nat) [1, 2, 3]], send_fails = [], err_text = [], outbox = []\<rparr>))))"
proof -
  let ?ch = "\<lparr>rc_fd = 3, cur_msg_client = None, cur_msg = replicate 4096 0\<rparr> :: nat recv_channel"
  have "\<exists>H. rctrl_rpc sample_rnd sim_verbs ?ch = Inr H"
    by (simp add: rctrl_rpc_def rctrl_handlers_def handler_register_def register_handler_def handler_of_channel_def
        rpc_factory_new_def rpc_ids)
  then obtain H where H: "rctrl_rpc sample_rnd sim_verbs ?ch = Inr H"
    by blast
  have "ctrl_wf sample_ctrl"
    by (simp add: ctrl_wf_def sample_ctrl_def factory_empty_def)
  from daemon_keeps_registry [OF H this] H show ?thesis
    by (metis prod.collapse)
qed

section \<open>The form of the replies\<close>

definition reply_codes :: "callback_status set" where
  "reply_codes = {CB_Ok, CB_NotFound, CB_WrongArg}"

definition typed_reply :: "rpc_id_t \<Rightarrow> bytes \<Rightarrow> bool" where
  "typed_reply rid b \<longleftrightarrow>
     (if rid = FetchMr
      then length b = 25 \<and> (\<exists>r. dedump 25 dec_mr_reply b = Some r \<and> mrp_status r \<in> reply_codes)
      else if rid = FetchDCAttr
      then length b = 25 \<and> (\<exists>r. dedump 25 dec_dc_reply b = Some r \<and> drp_status r \<in> reply_codes)
      else length b = 69 \<and> (\<exists>r. dedump 69 dec_rc_reply b = Some r \<and> rrp_status r \<in> reply_codes))"

lemma typed_dumps:
  "mrp_status r \<in> reply_codes \<Longrightarrow> typed_reply FetchMr (dump 25 enc_mr_reply r)"
  "drp_status r1 \<in> reply_codes \<Longrightarrow> typed_reply FetchDCAttr (dump 25 enc_dc_reply r1)"
  "rrp_status r2 \<in> reply_codes \<Longrightarrow> rid \<noteq> FetchMr \<Longrightarrow> rid \<noteq> FetchDCAttr \<Longrightarrow>
     typed_reply rid (dump 69 enc_rc_reply r2)"
  using mr_reply_packed.dedump_dump mr_reply_packed.length_dump dc_reply_packed.dedump_dump dc_reply_packed.length_dump
    rc_reply_packed.dedump_dump rc_reply_packed.length_dump
  by (auto simp: typed_reply_def FetchMr_def FetchDCAttr_def)

lemma rc_reply_of_typed:
  "st \<in> reply_codes \<Longrightarrow> rid \<noteq> FetchMr \<Longrightarrow> rid \<noteq> FetchDCAttr \<Longrightarrow> typed_reply rid (rc_reply_of st)"
  by (simp add: rc_reply_of_def typed_dumps)

lemma dc_reply_of_typed: "st \<in> reply_codes \<Longrightarrow> typed_reply FetchDCAttr (dc_reply_of st)"
  by (simp add: dc_reply_of_def typed_dumps)

lemma codes [simp]: "CB_Ok \<in> reply_codes" "CB_NotFound \<in> reply_codes" "CB_WrongArg \<in> reply_codes"
  by (simp_all add: reply_codes_def)

abbreviation typedA :: "rpc_id_t \<Rightarrow> ('s, bytes) act \<Rightarrow> bool" where
  "typedA rid m \<equiv> hoareA (\<lambda>_. True) m (\<lambda>b _. typed_reply rid b) (\<lambda>_. True)"

lemma hoareA_any: "hoareA (\<lambda>_. True) m (\<lambda>_ _. True) (\<lambda>_. True)"
  by (auto simp: hoareA_def split: prod.splits sum.splits)

lemma typedA_bind: "(\<And>x. typedA rid (f x)) \<Longrightarrow> typedA rid (bindA m f)"
  by (rule hoareA_bind [OF hoareA_any])

lemma typedA_ret: "typed_reply rid b \<Longrightarrow> typedA rid (retA b)"
  by (rule hoareA_ret)

lemma fetch_qp_attr_typed:
  "rid \<noteq> FetchMr \<Longrightarrow> rid \<noteq> FetchDCAttr \<Longrightarrow> typedA rid (fetch_qp_attr V a k)"
  by (auto simp: hoareA_def fetch_qp_attr_def bindE_def rc_reply_of_typed typed_dumps split: sum.splits option.splits)

lemma fetch_dc_attr_typed: "typedA FetchDCAttr (fetch_dc_attr a k)"
  by (auto simp: hoareA_def fetch_dc_attr_def dc_reply_of_typed typed_dumps split: sum.splits option.splits)

lemma handlers_typed:
  "typedA FetchMr (fetch_mr_handler b)"
  "typedA CreateRC (rc_handler rnd V b)"
  "typedA DeleteRC (delete_rc V b)"
  "typedA FetchQPAttr (fetch_qp_attr_wrapper V b)"
  "typedA FetchDCAttr (fetch_dc_attr_wrapper b)"
proof -
  have ids: "CreateRC \<noteq> FetchMr" "CreateRC \<noteq> FetchDCAttr" "DeleteRC \<noteq> FetchMr" "DeleteRC \<noteq> FetchDCAttr"
      "FetchQPAttr \<noteq> FetchMr" "FetchQPAttr \<noteq> FetchDCAttr"
    by (simp_all add: rpc_ids)
  show "typedA FetchMr (fetch_mr_handler b)"
    by (auto simp: hoareA_def fetch_mr_handler_def bindE_def typed_dumps split: sum.splits option.splits)
  show "typedA DeleteRC (delete_rc V b)"
    using ids unfolding delete_rc_def
    by (auto intro!: typedA_bind typedA_ret rc_reply_of_typed split: option.split)
  show "typedA FetchQPAttr (fetch_qp_attr_wrapper V b)" "typedA FetchDCAttr (fetch_dc_attr_wrapper b)"
    using ids unfolding fetch_qp_attr_wrapper_def fetch_dc_attr_wrapper_def
    by (auto intro!: typedA_ret rc_reply_of_typed dc_reply_of_typed fetch_qp_attr_typed fetch_dc_attr_typed split: option.split)
  have "typedA CreateRC (bindA (create_and_connect rnd V nic cq req) (\<lambda>key.
          case key of None \<Rightarrow> retA (rc_reply_of CB_WrongArg) | Some k \<Rightarrow> fetch_qp_attr V (rrq_name req) k))" for nic cq req
    using ids by (auto intro!: typedA_bind typedA_ret rc_reply_of_typed fetch_qp_attr_typed split: option.split)
  then have create: "typedA CreateRC (\<lambda>s. case query (opened_nics s) (rrq_nic_id req) of
        None \<Rightarrow> (Inr (rc_reply_of CB_WrongArg), s)
      | Some nic \<Rightarrow> bindA (create_and_connect rnd V nic None req) (\<lambda>key.
          case key of None \<Rightarrow> retA (rc_reply_of CB_WrongArg) | Some k \<Rightarrow> fetch_qp_attr V (rrq_name req) k) s)" for req
    using ids unfolding hoareA_def by (auto simp: rc_reply_of_typed split: option.split)
  show "typedA CreateRC (rc_handler rnd V b)"
    using ids create fetch_qp_attr_typed [of CreateRC V] unfolding rc_handler_def
    by (auto intro!: typedA_ret rc_reply_of_typed split: option.split)
qed

text \<open>
  C33: The form of every reply. Whatever the request, the reply of a handler has the size of its
  structure and decodes, and its status is Ok, NotFound or WrongArg: the statuses ConnectErr
  and AuthErr, which the client distinguishes, are never sent.
\<close>
theorem handler_replies_typed:
  assumes "(rid, h) \<in> set (rctrl_handlers rnd V)" and "h b s = (Inr reply, s')"
  shows "typed_reply rid reply \<and> CB_ConnectErr \<notin> reply_codes \<and> CB_AuthErr \<notin> reply_codes"
proof
  have "typedA rid (h b)"
    using assms(1) handlers_typed by (auto simp: rctrl_handlers_def)
  then show "typed_reply rid reply"
    using assms(2) by (auto simp: hoareA_def dest!: spec [of _ s])
  show "CB_ConnectErr \<notin> reply_codes \<and> CB_AuthErr \<notin> reply_codes"
    by (simp add: reply_codes_def cb_codes)
qed

theorem handler_replies_typed_witness:
  "\<exists>reply. delete_rc sim_verbs [1, 2, 3] sample_ctrl = (Inr reply, sample_ctrl) \<and> typed_reply DeleteRC reply"
proof -
  have "delete_rc sim_verbs [1, 2, 3] sample_ctrl = (Inr (rc_reply_of CB_WrongArg), sample_ctrl)"
    by (simp add: delete_rc_def dedump_def retA_def)
  moreover have "(DeleteRC, delete_rc sim_verbs) \<in> set (rctrl_handlers sample_rnd sim_verbs)"
    by (simp add: rctrl_handlers_def)
  ultimately show ?thesis
    using handler_replies_typed [of DeleteRC "delete_rc sim_verbs" sample_rnd sim_verbs] by blast
qed

end
