(* ===== verification/Logging.thy ===== *)
theory Logging
  imports Ipname
begin

text \<open>
  Messages and assertions: core/utils/logging.hh. The state is what was written to
  \<open>std::cout\<close>; the level \<open>RDMA_LOG_LEVEL\<close>, which the build may set, is an argument. The source
  file and the line that the macros insert are arguments of their models, and so is the
  text that the statement streams into the message.
\<close>

section \<open>Levels\<close>

datatype loglevel = EVERYTHING | DEBUG | INFO | EMPH | WARNING | ERROR | FATAL | NONE

fun level_num :: "loglevel \<Rightarrow> int" where
  "level_num NONE = 7"
| "level_num FATAL = 6"
| "level_num ERROR = 5"
| "level_num WARNING = 4"
| "level_num EMPH = 3"
| "level_num INFO = 2"
| "level_num DEBUG = 1"
| "level_num EVERYTHING = 0"

lemma level_num_inj: "level_num a = level_num b \<longleftrightarrow> a = b"
  by (cases a; cases b) simp_all

lemma level_num_range: "0 \<le> level_num a" "level_num a \<le> 7"
  by (cases a; simp)+

text \<open>The enumeration compares by its numbers.\<close>

instantiation loglevel :: linorder
begin

definition less_eq_loglevel :: "loglevel \<Rightarrow> loglevel \<Rightarrow> bool" where
  "less_eq_loglevel a b \<longleftrightarrow> level_num a \<le> level_num b"

definition less_loglevel :: "loglevel \<Rightarrow> loglevel \<Rightarrow> bool" where
  "less_loglevel a b \<longleftrightarrow> level_num a < level_num b"

instance
  by standard (auto simp: less_eq_loglevel_def less_loglevel_def level_num_inj)

end

section \<open>The name of a file\<close>

text \<open>\<open>std::string::rfind\<close>: the last position of a character.\<close>

fun last_pos :: "u8 \<Rightarrow> bytes \<Rightarrow> nat \<Rightarrow> nat option \<Rightarrow> nat option" where
  "last_pos c [] i acc = acc"
| "last_pos c (x # xs) i acc = last_pos c xs (i + 1) (if x = c then Some i else acc)"

definition rfind :: "u8 \<Rightarrow> bytes \<Rightarrow> nat option" where
  "rfind c s = last_pos c s 0 None"

definition strip_basename :: "bytes \<Rightarrow> bytes" where
  "strip_basename full_path =
     (case rfind 47 full_path of Some pos \<Rightarrow> drop (pos + 1) full_path | None \<Rightarrow> full_path)"

section \<open>MessageLogger\<close>

record message_logger =
  lg_stream :: bytes
  lg_level :: int

definition message_logger_new :: "int \<Rightarrow> bytes \<Rightarrow> int \<Rightarrow> int \<Rightarrow> message_logger" where
  "message_logger_new log_level file ln lvl =
     \<lparr>lg_stream = (if lvl < log_level then []
                   else [91] @ strip_basename file @ [58] @ to_string ln @ [93, 32]),
      lg_level = lvl\<rparr>"

definition logger_write :: "bytes \<Rightarrow> message_logger \<Rightarrow> message_logger" where
  "logger_write msg lg = lg\<lparr>lg_stream := lg_stream lg @ msg\<rparr>"

definition debug_level_color :: "int list" where
  "debug_level_color = [39, 33, 39, 32, 35, 31, 31]"

definition endcolor_flag :: bytes where
  "endcolor_flag = [27, 91, 48, 109]"

text \<open>The destructor; a negative level is an index out of the table's bounds.\<close>

definition message_logger_destroy :: "int \<Rightarrow> message_logger \<Rightarrow> (bytes, unit) act" where
  "message_logger_destroy log_level lg =
     (if lg_level lg \<ge> log_level
      then if lg_level lg < 0 then failA Undefined
      else bindA (\<lambda>out. (Inr (), out @ [27, 91] @ to_string (debug_level_color ! nat (min (lg_level lg) 6)) @ [109] @
                    lg_stream lg @ [10] @ endcolor_flag)) (\<lambda>_.
           if lg_level lg \<ge> level_num FATAL then failA Aborted else retA ())
      else retA ())"

section \<open>The macros\<close>

definition rdma_log :: "int \<Rightarrow> int \<Rightarrow> bytes \<Rightarrow> int \<Rightarrow> bytes \<Rightarrow> (bytes, unit) act" where
  "rdma_log log_level n file ln msg =
     (if n \<ge> log_level
      then message_logger_destroy log_level (logger_write msg (message_logger_new log_level file ln n))
      else retA ())"

definition rdma_tlog :: "int \<Rightarrow> int \<Rightarrow> bytes \<Rightarrow> bytes \<Rightarrow> int \<Rightarrow> bytes \<Rightarrow> (bytes, unit) act" where
  "rdma_tlog log_level n t file ln msg =
     (if n \<ge> log_level
      then message_logger_destroy log_level
             (logger_write msg (logger_write ([91] @ t @ [93]) (message_logger_new log_level file ln n)))
      else retA ())"

definition rdma_log_if :: "int \<Rightarrow> int \<Rightarrow> bool \<Rightarrow> bytes \<Rightarrow> int \<Rightarrow> bytes \<Rightarrow> (bytes, unit) act" where
  "rdma_log_if log_level n condition file ln msg =
     (if n \<ge> log_level \<and> condition
      then message_logger_destroy log_level (logger_write msg (message_logger_new log_level file ln n))
      else retA ())"

definition rdma_assert :: "int \<Rightarrow> bool \<Rightarrow> bytes \<Rightarrow> int \<Rightarrow> bytes \<Rightarrow> (bytes, unit) act" where
  "rdma_assert log_level condition file ln msg =
     (if \<not> condition
      then message_logger_destroy log_level
             (logger_write msg (logger_write (bstr ''Assertion! '')
               (message_logger_new log_level file ln (level_num FATAL + 1))))
      else retA ())"

definition rdma_verify :: "int \<Rightarrow> int \<Rightarrow> bool \<Rightarrow> bytes \<Rightarrow> int \<Rightarrow> bytes \<Rightarrow> (bytes, unit) act" where
  "rdma_verify log_level n condition = rdma_log_if log_level n (\<not> condition)"

section \<open>What they do\<close>

lemma last_pos_absent: "c \<notin> set s \<Longrightarrow> last_pos c s i acc = acc"
  by (induction s arbitrary: i acc) auto

lemma last_pos_append: "last_pos c (xs @ ys) i acc = last_pos c ys (i + length xs) (last_pos c xs i acc)"
  by (induction xs arbitrary: i acc) simp_all

lemma rfind_append: "c \<notin> set b \<Longrightarrow> rfind c (a @ c # b) = Some (length a)"
  by (simp add: rfind_def last_pos_append last_pos_absent)

lemma rfind_absent: "c \<notin> set s \<Longrightarrow> rfind c s = None"
  by (simp add: rfind_def last_pos_absent)

lemma strip_basename_path: "47 \<notin> set nm \<Longrightarrow> strip_basename (dir @ 47 # nm) = nm"
  by (simp add: strip_basename_def rfind_append)

lemma strip_basename_plain: "47 \<notin> set nm \<Longrightarrow> strip_basename nm = nm"
  by (simp add: strip_basename_def rfind_absent)

text \<open>The line of a message: the colour of its level, the last part of the file's path, the line and the text.\<close>

definition log_line :: "int \<Rightarrow> bytes \<Rightarrow> int \<Rightarrow> bytes \<Rightarrow> bytes" where
  "log_line colour file ln text =
     [27, 91] @ to_string colour @ [109, 91] @ strip_basename file @ [58] @ to_string ln @ [93, 32] @ text @ [10] @
     [27, 91, 48, 109]"

text \<open>
  Assertions and fatal messages. A failed assertion prints its line in red and aborts, at
  every level the build can choose, and a condition that holds does nothing: as far as
  control goes, \<open>RDMA_ASSERT\<close> is \<open>assertE\<close>. A message of the level FATAL aborts as well, unless
  the build chose the level NONE: then it does nothing and the program goes on.
\<close>
theorem assertions_abort:
  "rdma_assert (level_num cfg) c file ln msg out =
     (assertE c, if c then out else out @ log_line 31 file ln (bstr ''Assertion! '' @ msg)) \<and>
   rdma_log (level_num cfg) (level_num FATAL) file ln msg out =
     (if cfg = NONE then (Inr (), out) else (Inl Aborted, out @ log_line 31 file ln msg)) \<and>
   (lvl \<ge> FATAL \<or> fst (rdma_log (level_num cfg) (level_num lvl) file ln msg out) = Inr ())"
proof (intro conjI)
  have le: "level_num cfg \<le> 7" "cfg = NONE \<longleftrightarrow> \<not> level_num cfg \<le> 6"
    by (cases cfg; simp)+
  show "rdma_assert (level_num cfg) c file ln msg out =
     (assertE c, if c then out else out @ log_line 31 file ln (bstr ''Assertion! '' @ msg))"
    using le(1) by (simp add: rdma_assert_def message_logger_destroy_def message_logger_new_def logger_write_def
        log_line_def debug_level_color_def endcolor_flag_def act_simps bindA_def)
  show "rdma_log (level_num cfg) (level_num FATAL) file ln msg out =
     (if cfg = NONE then (Inr (), out) else (Inl Aborted, out @ log_line 31 file ln msg))"
    using le(2) by (simp add: rdma_log_def message_logger_destroy_def message_logger_new_def logger_write_def
        log_line_def debug_level_color_def endcolor_flag_def act_simps bindA_def)
  show "lvl \<ge> FATAL \<or> fst (rdma_log (level_num cfg) (level_num lvl) file ln msg out) = Inr ()"
    using level_num_range [of lvl]
    by (auto simp: rdma_log_def message_logger_destroy_def message_logger_new_def logger_write_def
        less_eq_loglevel_def act_simps bindA_def)
qed

end
