(* ===== verification/ConnMgr.thy ===== *)
theory ConnMgr
  imports RCtrl
begin

text \<open>
  The client side of connection set-up, \<open>ConnectManager\<close> and \<open>CMFactory\<close> of core/lib.hh.
  The state is the RPC client and its network; the operations that connect a local queue
  pair extend it with that queue pair and its driver.
\<close>

record 'a cm =
  cm_rpc :: "'a srpc"
  cm_net :: "'a net"

record ('a, 'd) cm_qp = "'a cm" +
  cm_rc :: rc
  cm_drv :: 'd

definition err_name_to_long :: bytes where "err_name_to_long = bstr ''Name to long''"
definition err_decode_reply :: bytes where "err_decode_reply = bstr ''Decode reply error''"
definition err_not_found :: bytes where "err_not_found = bstr ''attribute not found''"
definition err_unknown_status :: bytes where "err_unknown_status = bstr ''Unknown status code''"
definition err_unknown :: bytes where "err_unknown = bstr ''unknown error''"

definition cm_call :: "rpc_id_t \<Rightarrow> bytes \<Rightarrow> (('a, 'x) cm_scheme, bytes result) act" where
  "cm_call rid p s =
     (case srpc_call (cm_rpc s) rid p (cm_net s) of (r, n') \<Rightarrow> (r, s\<lparr>cm_net := n'\<rparr>))"

definition cm_receive :: "bool \<Rightarrow> (('a, 'x) cm_scheme, bytes result) act" where
  "cm_receive heartbeat s =
     (case receive_reply (cm_rpc s) heartbeat (cm_net s) of
        (r, S', n') \<Rightarrow> (r, s\<lparr>cm_rpc := S', cm_net := n'\<rparr>))"

section \<open>Waiting for the server\<close>

fun wait_ready :: "nat \<Rightarrow> (('a, 'x) cm_scheme, bytes result) act" where
  "wait_ready 0 = retA (Timeout (bstr ''retry exceeds num''))"
| "wait_ready (Suc k) =
     bindA (cm_call HeartBeat [48]) (\<lambda>res.
       if code res \<noteq> IO_Ok \<and> code res \<noteq> IO_Timeout then retA res
       else bindA (cm_receive True) (\<lambda>reply.
              if code reply = IO_Ok \<or> code reply = IO_Err then retA reply else wait_ready k))"

definition cm_create ::
  "('ai, 'x) netlib_scheme \<Rightarrow> int \<Rightarrow> bytes \<Rightarrow> ip_cache \<Rightarrow> usize \<Rightarrow> sockaddr_in net \<Rightarrow>
     sockaddr_in cm option result outcome \<times> ip_cache"
where
  "cm_create L now addr c retry n =
     (case srpc_new L now addr c of
        (Inl e, c') \<Rightarrow> (Inl e, c')
      | (Inr S, c') \<Rightarrow>
          (case wait_ready (unat retry) \<lparr>cm_rpc = S, cm_net = n\<rparr> of
             (Inl e, _) \<Rightarrow> (Inl e, c')
           | (Inr res, s) \<Rightarrow> (Inr (if code res \<noteq> IO_Ok then transfer res None else Ok (Some s)), c')))"

section \<open>Deleting a remote queue pair\<close>

text \<open>
  The last statement builds an error without returning it: every path that reaches it
  falls off the end of the function.
\<close>

definition delete_reply :: "bytes result \<Rightarrow> bytes result outcome" where
  "delete_reply reply =
     (if code reply = IO_Ok
      then (case dedump 69 dec_rc_reply (desc reply) of
              None \<Rightarrow> Inl Undefined
            | Some r \<Rightarrow>
                if rrp_status r = CB_Ok then Inr (Ok [])
                else if rrp_status r = CB_WrongArg then Inr (Err (bstr ''wrong arg''))
                else if rrp_status r = CB_AuthErr then Inr (Err (bstr ''auth failure''))
                else Inl Undefined)
      else Inl Undefined)"

definition delete_remote_rc :: "bytes \<Rightarrow> u64 \<Rightarrow> (('a, 'x) cm_scheme, bytes result) act" where
  "delete_remote_rc nm key =
     (if length nm > kMaxQPNameLen then retA (Err err_name_to_long)
      else
        bindA (cm_call DeleteRC (dump 72 enc_del_rc_req \<lparr>dlq_name = name_array nm, dlq_key = key\<rparr>)) (\<lambda>res.
          if code res \<noteq> IO_Ok then retA res
          else bindA (cm_receive False) (\<lambda>reply. liftA (delete_reply reply))))"

section \<open>Creating and connecting a pair\<close>

text \<open>
  The common end of \<open>cc_rc\<close> and \<open>cc_rc_msg\<close>: connect the local queue pair to the attribute
  of the reply. The \<open>try\<close> block also covers the local connect.
\<close>

definition local_connect :: "'d verbs \<Rightarrow> qp_attr \<Rightarrow> (('a, 'd) cm_qp, bytes result) act" where
  "local_connect V attr s =
     (case rc_connect V attr (cm_rc s) (cm_drv s) of
        (Inl e, d') \<Rightarrow> (Inl e, s\<lparr>cm_drv := d'\<rparr>)
      | (Inr (r, q'), d') \<Rightarrow> (Inr r, s\<lparr>cm_rc := q', cm_drv := d'\<rparr>))"

definition cc_reply :: "'d verbs \<Rightarrow> bytes result \<Rightarrow> (('a, 'd) cm_qp, (bytes \<times> u64) result) act" where
  "cc_reply V reply =
     (if code reply = IO_Ok
      then catchA
        (bindA (liftA (opt_value (dedump 69 dec_rc_reply (desc reply)))) (\<lambda>r.
           if rrp_status r = CB_Ok
           then bindA (local_connect V (rrp_attr r)) (\<lambda>ret.
                  retA (if code ret \<noteq> IO_Ok then Err (desc ret, 0) else Ok ([], rrp_key r)))
           else retA (Err (if rrp_status r = CB_ConnectErr then bstr ''Remote connect error''
                           else if rrp_status r = CB_WrongArg
                           then bstr ''Wrong arguments, possible the QP has exsists''
                           else err_unknown_status, 0))))
        (retA (Err (err_decode_reply, 0)))
      else retA (Err (err_unknown, 0)))"

definition cc_request :: "bytes \<Rightarrow> bytes \<Rightarrow> u8 \<Rightarrow> u64 \<Rightarrow> qp_config \<Rightarrow> qp_attr \<Rightarrow> u64 \<Rightarrow> rc_req" where
  "cc_request name_arr recv_arr recv nic config attr msg_sz =
     \<lparr>rrq_name = name_arr, rrq_name_recv = recv_arr, rrq_whether_create = 1, rrq_whether_recv = recv,
      rrq_nic_id = nic, rrq_config = config, rrq_attr = attr, rrq_max_recv_sz = msg_sz\<rparr>"

definition cc_send ::
  "'d verbs \<Rightarrow> rpc_id_t \<Rightarrow> (qp_attr \<Rightarrow> rc_req) \<Rightarrow> (('a, 'd) cm_qp, (bytes \<times> u64) result) act"
where
  "cc_send V rid req_of =
     bindA (\<lambda>s. (rc_my_attr V (cm_rc s) (cm_drv s), s)) (\<lambda>attr.
     bindA (cm_call rid (dump 246 enc_rc_req (req_of attr))) (\<lambda>res.
       if code res \<noteq> IO_Ok then retA (Err (desc res, 0))
       else bindA (cm_receive False) (cc_reply V)))"

definition cc_rc ::
  "'d verbs \<Rightarrow> bytes \<Rightarrow> u64 \<Rightarrow> qp_config \<Rightarrow> (('a, 'd) cm_qp, (bytes \<times> u64) result) act"
where
  "cc_rc V nm nic config =
     (if length nm > kMaxQPNameLen then retA (Err (err_name_to_long, 0))
      else cc_send V CreateRC (\<lambda>attr. cc_request (name_array nm) (name_array []) 0 nic config attr 4096))"

text \<open>The length of the channel's name is not checked before it is copied.\<close>

definition cc_rc_msg ::
  "'d verbs \<Rightarrow> bytes \<Rightarrow> bytes \<Rightarrow> usize \<Rightarrow> u64 \<Rightarrow> qp_config \<Rightarrow> (('a, 'd) cm_qp, (bytes \<times> u64) result) act"
where
  "cc_rc_msg V qp_name channel_name msg_sz nic config =
     (if length qp_name > kMaxQPNameLen then retA (Err (err_name_to_long, 0))
      else if length channel_name > kMaxQPNameLen + 1 then failA Undefined
      else cc_send V CreateRCM (\<lambda>attr.
             cc_request (name_array qp_name)
               (memcpy (replicate (kMaxQPNameLen + 1) 0) channel_name (length channel_name))
               1 nic config attr (ucast msg_sz)))"

section \<open>Fetching attributes\<close>

definition fetch_remote_mr :: "u64 \<Rightarrow> (('a, 'x) cm_scheme, (bytes \<times> reg_attr) result) act" where
  "fetch_remote_mr rid =
     bindA (cm_call FetchMr (dump 8 enc_mr_req \<lparr>mrq_id = rid\<rparr>)) (\<lambda>res.
     bindA (cm_receive False) (\<lambda>reply.
       retA (if code reply = IO_Ok
             then (case dedump 25 dec_mr_reply (desc reply) of
                     None \<Rightarrow> Err (err_decode_reply, null_reg_attr)
                   | Some r \<Rightarrow>
                       if mrp_status r = CB_Ok then Ok ([], mrp_attr r)
                       else if mrp_status r = CB_NotFound then NotReady ([], null_reg_attr)
                       else Err (err_unknown_status, null_reg_attr))
             else transfer reply (desc reply, null_reg_attr))))"

definition cm_fetch_qp_attr :: "bytes \<Rightarrow> (('a, 'x) cm_scheme, (bytes \<times> qp_attr) result) act" where
  "cm_fetch_qp_attr nm =
     (if length nm > kMaxQPNameLen then retA (Err (err_name_to_long, null_qp_attr))
      else
        bindA (cm_call FetchQPAttr (dump 72 enc_qp_req \<lparr>qrq_name = name_array nm, qrq_key = 0\<rparr>)) (\<lambda>res.
          if code res \<noteq> IO_Ok then retA (Err (desc res, null_qp_attr))
          else bindA (cm_receive False) (\<lambda>reply.
            retA (if code reply = IO_Ok
                  then (case dedump 69 dec_rc_reply (desc reply) of
                          None \<Rightarrow> Err (err_decode_reply, null_qp_attr)
                        | Some r \<Rightarrow>
                            if rrp_status r = CB_Ok then Ok ([], rrp_attr r)
                            else if rrp_status r = CB_NotFound then NotReady (err_not_found, null_qp_attr)
                            else Err (err_unknown_status, null_qp_attr))
                  else transfer reply (desc reply, null_qp_attr)))))"

definition cm_fetch_dc_attr :: "bytes \<Rightarrow> (('a, 'x) cm_scheme, (bytes \<times> dc_attr) result) act" where
  "cm_fetch_dc_attr nm =
     (if length nm > kMaxQPNameLen then retA (Err (err_name_to_long, null_dc_attr))
      else
        bindA (cm_call FetchDCAttr (dump 72 enc_qp_req \<lparr>qrq_name = name_array nm, qrq_key = 0\<rparr>)) (\<lambda>res.
          if code res \<noteq> IO_Ok then retA (Err (desc res, null_dc_attr))
          else bindA (cm_receive False) (\<lambda>reply.
            retA (if code reply = IO_Ok
                  then (case dedump 25 dec_dc_reply (desc reply) of
                          None \<Rightarrow> Err (err_decode_reply, null_dc_attr)
                        | Some r \<Rightarrow>
                            if drp_status r = CB_Ok then Ok ([], drp_attr r)
                            else if drp_status r = CB_NotFound then NotReady (err_not_found, null_dc_attr)
                            else Err (err_unknown_status, null_dc_attr))
                  else transfer reply (desc reply, null_dc_attr)))))"

end
