(* ===== verification/Chain.thy ===== *)
theory Chain
  imports Prelude
begin

text \<open>
  Work requests linked by \<open>next\<close> pointers inside an array: the receive entries, the doorbell
  batch and chained one-sided operations all hand the device such a chain. A pointer into
  the array is an index, \<open>None\<close> is the null pointer. The device follows the pointers until it
  meets null; \<open>walk\<close> lists what it visits.
\<close>

section \<open>Following the pointers\<close>

fun walk :: "nat \<Rightarrow> nat option list \<Rightarrow> nat option \<Rightarrow> nat list outcome" where
  "walk fuel nx None = Inr []"
| "walk 0 nx (Some i) = Inl Diverged"
| "walk (Suc fuel) nx (Some i) =
     (if i < length nx then bindE (walk fuel nx (nx ! i)) (\<lambda>is. Inr (i # is)) else Inl Undefined)"

text \<open>
  A null-terminated chain visits every element at most once, so that the length of the
  array is enough fuel; a longer walk has met a cycle and never ends.
\<close>

definition chain :: "nat option list \<Rightarrow> nat option \<Rightarrow> nat list outcome" where
  "chain nx x = walk (length nx) nx x"

fun path :: "nat option list \<Rightarrow> nat option \<Rightarrow> nat list \<Rightarrow> nat option \<Rightarrow> bool" where
  "path nx x [] y \<longleftrightarrow> x = y"
| "path nx x (a # as) y \<longleftrightarrow> x = Some a \<and> a < length nx \<and> path nx (nx ! a) as y"

lemma path_append: "path nx x (as @ bs) z \<longleftrightarrow> (\<exists>y. path nx x as y \<and> path nx y bs z)"
  by (induction as arbitrary: x) auto

lemma path_update [simp]: "u \<notin> set as \<Longrightarrow> path (nx[u := v]) x as y = path nx x as y"
  by (induction as arbitrary: x) auto

lemma path_in_range: "path nx x as y \<Longrightarrow> a \<in> set as \<Longrightarrow> a < length nx"
  by (induction as arbitrary: x) auto

lemma walk_path: "walk fuel nx x = Inr as \<longleftrightarrow> path nx x as None \<and> length as \<le> fuel"
proof (induction fuel nx x arbitrary: as rule: walk.induct)
  case (1 fuel nx)
  then show ?case by (cases as) auto
next
  case (2 nx i)
  then show ?case by (cases as) auto
next
  case (3 fuel nx i)
  show ?case
    by (cases as) (auto simp: bindE_Inr_iff 3)
qed

lemma path_unique: "path nx x as None \<Longrightarrow> path nx x bs None \<Longrightarrow> as = bs"
proof (induction as arbitrary: x bs)
  case Nil
  then show ?case by (cases bs) auto
next
  case (Cons a as)
  then show ?case by (cases bs) auto
qed

lemma path_distinct: "path nx x as None \<Longrightarrow> distinct as"
proof (induction as arbitrary: x)
  case (Cons a as)
  have "a \<notin> set as"
  proof
    assume "a \<in> set as"
    then obtain bs cs where as: "as = bs @ a # cs"
      by (meson split_list)
    with Cons.prems have "path nx (Some a) (a # bs @ a # cs) None" "path nx (Some a) (a # cs) None"
      by (auto simp: path_append)
    from path_unique [OF this] have "length (a # bs @ a # cs) = length (a # cs)"
      by simp
    then show False
      by simp
  qed
  then show ?case
    using Cons.IH [of "nx ! a"] Cons.prems by simp
qed simp

lemma chain_path: "chain nx x = Inr as \<longleftrightarrow> path nx x as None"
proof
  assume p: "path nx x as None"
  have "set as \<subseteq> {..<length nx}"
    using path_in_range [OF p] by blast
  then have "length as \<le> length nx"
    using path_distinct [OF p] card_mono [of "{..<length nx}" "set as"] by (simp add: distinct_card)
  with p show "chain nx x = Inr as"
    by (simp add: chain_def walk_path)
qed (simp add: chain_def walk_path)

text \<open>More fuel never changes the answer.\<close>

lemma walk_enough_fuel: "walk fuel nx x = Inr as \<Longrightarrow> chain nx x = Inr as"
  by (simp add: chain_path walk_path)

text \<open>Closing a path at its last element.\<close>

lemma path_close:
  assumes "path nx x as (Some a)" "a \<notin> set as" "a < length nx"
  shows "chain (nx[a := None]) x = Inr (as @ [a])"
  using assms by (simp add: chain_path path_append)

section \<open>Rings\<close>

definition ring :: "nat option list \<Rightarrow> bool" where
  "ring nx \<longleftrightarrow> (\<forall>i < length nx. nx ! i = Some (Suc i mod length nx))"

definition ring_seg :: "nat \<Rightarrow> nat \<Rightarrow> nat \<Rightarrow> nat list" where
  "ring_seg n h k = map (\<lambda>j. (h + j) mod n) [0..<k]"

lemma length_ring_seg [simp]: "length (ring_seg n h k) = k"
  by (simp add: ring_seg_def)

lemma ring_seg_0 [simp]: "ring_seg n h 0 = []"
  by (simp add: ring_seg_def)

lemma ring_seg_start: "ring_seg n 0 n = [0..<n]"
  unfolding ring_seg_def by (rule map_idI) simp

lemma ring_seg_Suc: "ring_seg n h (Suc k) = ring_seg n h k @ [(h + k) mod n]"
  by (simp add: ring_seg_def)

lemma ring_seg_add: "ring_seg n h (j + k) = ring_seg n h j @ ring_seg n (h + j) k"
  by (induction k) (simp_all add: ring_seg_Suc add.assoc)

lemma ring_seg_mod [simp]: "ring_seg n (h mod n) k = ring_seg n h k"
  by (simp add: ring_seg_def mod_add_left_eq)

lemma ring_seg_turn [simp]: "ring_seg n (h + n) k = ring_seg n h k"
  by (metis mod_add_self2 ring_seg_mod)

lemma set_ring_seg: "0 < n \<Longrightarrow> a \<in> set (ring_seg n h k) \<Longrightarrow> a < n"
  by (auto simp: ring_seg_def)

lemma mod_offset_inj:
  assumes "(h + i) mod n = (h + j) mod (n::nat)" "i < n" "j < n"
  shows "i = j"
proof -
  have "(int h + int i) mod int n = (int h + int j) mod int n"
    using assms(1) by (metis of_nat_add of_nat_mod)
  then have "int n dvd int i - int j"
    by (simp add: mod_eq_dvd_iff)
  moreover have "\<bar>int i - int j\<bar> < int n"
    using assms(2,3) by linarith
  ultimately have "int i - int j = 0"
    using dvd_imp_le_int [of "int i - int j" "int n"] by linarith
  then show ?thesis
    by simp
qed

lemma distinct_ring_seg: "k \<le> n \<Longrightarrow> distinct (ring_seg n h k)"
  by (auto simp: ring_seg_def distinct_map inj_on_def intro: mod_offset_inj [of h _ n])

lemma ring_seg_cycle:
  assumes "0 < n"
  shows "set (ring_seg n h n) = {..<n}"
proof (rule card_subset_eq)
  show "set (ring_seg n h n) \<subseteq> {..<n}"
    using set_ring_seg [OF assms] by blast
  show "card (set (ring_seg n h n)) = card {..<n}"
    using distinct_ring_seg [of n n h] by (simp add: distinct_card)
qed simp

lemma ring_path:
  assumes "ring nx" "nx \<noteq> []"
  shows "path nx (Some (h mod length nx)) (ring_seg (length nx) h k) (Some ((h + k) mod length nx))"
proof (induction k)
  case (Suc k)
  have "nx ! ((h + k) mod length nx) = Some (Suc (h + k) mod length nx)"
    using assms by (simp add: ring_def mod_Suc_eq)
  then show ?case
    using Suc assms(2) by (simp add: ring_seg_Suc path_append)
qed simp

text \<open>Cutting the ring after \<open>Suc k\<close> elements hands the device exactly these.\<close>

lemma ring_cut:
  assumes "ring nx" "nx \<noteq> []" "h < length nx" "k < length nx"
  shows "chain (nx[(h + k) mod length nx := None]) (Some h) = Inr (ring_seg (length nx) h (Suc k))"
proof -
  have "(h + k) mod length nx \<notin> set (ring_seg (length nx) h k)"
    using assms(4) distinct_ring_seg [of "Suc k" "length nx" h] by (simp add: ring_seg_Suc)
  then show ?thesis
    using path_close [OF ring_path [OF assms(1,2), of h k]] assms(3) by (simp add: ring_seg_Suc assms(2))
qed

section \<open>Arrays of linked requests\<close>

text \<open>
  The interface that the components share: an array of requests whose \<open>next\<close> pointers can be
  read and set one at a time.
\<close>

locale linked =
  fixes nexts :: "'s \<Rightarrow> nat option list"
    and set_next :: "nat \<Rightarrow> nat option \<Rightarrow> 's \<Rightarrow> 's"
  assumes nexts_set: "nexts (set_next i v s) = (nexts s)[i := v]"
begin

lemma length_set [simp]: "length (nexts (set_next i v s)) = length (nexts s)"
  by (simp add: nexts_set)

lemma nexts_restore: "nexts (set_next i (nexts s ! i) (set_next i v s)) = nexts s"
  by (cases "i < length (nexts s)") (simp_all add: nexts_set)

lemma posted_cut:
  assumes "ring (nexts s)" "nexts s \<noteq> []" "h < length (nexts s)" "k < length (nexts s)"
  shows "chain (nexts (set_next ((h + k) mod length (nexts s)) None s)) (Some h) =
           Inr (ring_seg (length (nexts s)) h (Suc k))"
  using ring_cut [OF assms] by (simp add: nexts_set)

text \<open>A link to the successor at every place that the chain passes, null at its end.\<close>

lemma posted_prefix:
  assumes "\<forall>i < k. nexts s ! i = Some (Suc i)" "k < length (nexts s)"
  shows "chain (nexts (set_next k None s)) (Some 0) = Inr [0..<Suc k]"
proof -
  have "path (nexts s) (Some 0) [0..<j] (Some j)" if "j \<le> k" for j
    using that by (induction j) (use assms in \<open>auto simp: path_append\<close>)
  from path_close [OF this [OF order_refl]] show ?thesis
    using assms(2) by (simp add: nexts_set)
qed

end

end
