(* ===== verification/Ops.thy ===== *)
theory Ops
  imports QPs Chain
begin

text \<open>
  Building requests: \<open>Op\<close>, a one-sided operation (core/qps/op.hh), and \<open>DoorbellHelper\<close>, a batch
  of requests posted with one call (core/qps/doorbell_helper.hh).
\<close>

unbundle bit_operations_syntax

section \<open>One-sided operations\<close>

text \<open>The opcode numbers of verbs.h that the builders use.\<close>

record wr_opcodes =
  wro_read :: nat
  wro_write :: nat
  wro_cas :: nat
  wro_faa :: nat

text \<open>
  The target of a request is a union in verbs.h: \<open>rdma\<close> has the address and a 32-bit key, \<open>atomic\<close>
  has the address, \<open>compare_add\<close>, \<open>swap\<close> and its own key. The address is shared, and the key
  of \<open>rdma\<close> occupies the low half of the word of \<open>compare_add\<close> (\<open>op_word\<close>). \<open>op_next\<close> is an index into
  the caller's array of operations.
\<close>

record op =
  op_id :: u64
  op_next :: "nat option"
  op_opcode :: nat
  op_flags :: c_int
  op_imm :: u32
  op_num_sge :: c_int
  op_sges :: "sge list"
  op_addr :: u64
  op_word :: u64
  op_swap :: u64
  op_akey :: u32

definition op_new :: "nat \<Rightarrow> op" where
  "op_new nsge =
     \<lparr>op_id = 0, op_next = None, op_opcode = 0, op_flags = 0, op_imm = 0, op_num_sge = of_nat nsge,
      op_sges = replicate nsge \<lparr>sge_addr = 0, sge_length = 0, sge_lkey = 0\<rparr>,
      op_addr = 0, op_word = 0, op_swap = 0, op_akey = 0\<rparr>"

definition op_set_next :: "nat \<Rightarrow> op \<Rightarrow> op" where
  "op_set_next i o1 = o1\<lparr>op_next := Some i\<rparr>"

definition op_set_op :: "nat \<Rightarrow> op \<Rightarrow> op" where
  "op_set_op opc o1 = o1\<lparr>op_opcode := opc\<rparr>"

definition op_set_read :: "wr_opcodes \<Rightarrow> op \<Rightarrow> op" where
  "op_set_read C = op_set_op (wro_read C)"

definition op_set_write :: "wr_opcodes \<Rightarrow> op \<Rightarrow> op" where
  "op_set_write C = op_set_op (wro_write C)"

definition op_set_rkey :: "u32 \<Rightarrow> op \<Rightarrow> op" where
  "op_set_rkey rk o1 = o1\<lparr>op_word := (op_word o1 AND NOT (mask 32)) OR ucast rk\<rparr>"

definition op_set_rdma_rbuf :: "u64 \<Rightarrow> u32 \<Rightarrow> op \<Rightarrow> op" where
  "op_set_rdma_rbuf ra rk o1 = op_set_rkey rk (o1\<lparr>op_addr := ra\<rparr>)"

definition op_set_rdma_addr :: "u64 \<Rightarrow> reg_attr \<Rightarrow> op \<Rightarrow> op" where
  "op_set_rdma_addr off attr o1 = op_set_rkey (ra_key attr) (o1\<lparr>op_addr := off + ra_buf attr\<rparr>)"

definition op_set_imm :: "c_int \<Rightarrow> op \<Rightarrow> op" where
  "op_set_imm imm o1 = o1\<lparr>op_imm := imm\<rparr>"

definition op_set_atomic_rbuf :: "u64 \<Rightarrow> u32 \<Rightarrow> op \<Rightarrow> op" where
  "op_set_atomic_rbuf ra rk o1 = op_set_imm 0 (o1\<lparr>op_addr := ra, op_akey := rk\<rparr>)"

definition op_set_cas :: "wr_opcodes \<Rightarrow> u64 \<Rightarrow> u64 \<Rightarrow> op \<Rightarrow> op" where
  "op_set_cas C cmp swp o1 = op_set_op (wro_cas C) (o1\<lparr>op_word := cmp, op_swap := swp\<rparr>)"

definition op_set_fetch_add :: "wr_opcodes \<Rightarrow> u64 \<Rightarrow> op \<Rightarrow> op" where
  "op_set_fetch_add C ad o1 = op_set_op (wro_faa C) (o1\<lparr>op_word := ad, op_swap := 0\<rparr>)"

definition op_set_flags :: "c_int \<Rightarrow> op \<Rightarrow> op" where
  "op_set_flags fl o1 = o1\<lparr>op_flags := fl\<rparr>"

definition op_set_wrid :: "u64 \<Rightarrow> op \<Rightarrow> op" where
  "op_set_wrid i o1 = o1\<lparr>op_id := i\<rparr>"

definition op_set_atomic :: "u64 \<Rightarrow> u64 \<Rightarrow> u64 \<Rightarrow> u32 \<Rightarrow> op \<Rightarrow> op" where
  "op_set_atomic ra ca swp rk o1 =
     op_set_imm 0 (o1\<lparr>op_addr := ra, op_word := ca, op_swap := swp, op_akey := rk\<rparr>)"

definition op_set_payload :: "u64 \<Rightarrow> u32 \<Rightarrow> u32 \<Rightarrow> u32 \<Rightarrow> op \<Rightarrow> bool \<times> op" where
  "op_set_payload addr len lkey index o1 =
     (if op_num_sge o1 \<le> index then (False, o1)
      else (True, o1\<lparr>op_sges := (op_sges o1)[unat index := \<lparr>sge_addr = addr, sge_length = len, sge_lkey = lkey\<rparr>]\<rparr>))"

text \<open>What the device reads: the member of the union that the opcode selects.\<close>

definition op_view :: "wr_opcodes \<Rightarrow> op \<Rightarrow> send_wr" where
  "op_view C o1 =
     (let atomic = op_opcode o1 = wro_cas C \<or> op_opcode o1 = wro_faa C in
      \<lparr>wr_id = op_id o1, wr_op = op_opcode o1, wr_flags = op_flags o1, wr_imm = op_imm o1,
       wr_sges = take (unat (op_num_sge o1)) (op_sges o1), wr_remote_addr = op_addr o1,
       wr_rkey = (if atomic then op_akey o1 else ucast (op_word o1)),
       wr_compare_add = (if atomic then op_word o1 else 0), wr_swap = (if atomic then op_swap o1 else 0)\<rparr>)"

text \<open>
  The whole chain is posted; only the flags of its first operation are counted.
\<close>

definition op_execute_batch ::
  "'d verbs \<Rightarrow> wr_opcodes \<Rightarrow> op list \<Rightarrow> nat \<Rightarrow> rc \<Rightarrow> ('d, bytes result \<times> rc) act"
where
  "op_execute_batch V C ops i q =
     (if i < length ops
      then
        let q1 = (if op_flags (ops ! i) AND v_signaled V \<noteq> 0
                  then q\<lparr>d_out_signaled := d_out_signaled q + 1\<rparr> else q)
        in bindA (liftA (chain (map op_next ops) (Some i))) (\<lambda>is.
           bindA (callA (v_post_send V (d_qp q1) (map (\<lambda>j. op_view C (ops ! j)) is))) (\<lambda>rc d.
             (Inr (if rc = 0 then Ok [] else Err (v_strerror V d), q1), d)))
      else failA Undefined)"

definition op_execute ::
  "'d verbs \<Rightarrow> wr_opcodes \<Rightarrow> op \<Rightarrow> rc \<Rightarrow> c_int \<Rightarrow> u64 \<Rightarrow> ('d, bytes result \<times> rc \<times> op) act"
where
  "op_execute V C o1 q flags wid =
     (case encode_my_wr wid 1 q of
        (w, q1) \<Rightarrow>
          let o2 = o1\<lparr>op_id := w, op_next := None, op_flags := flags\<rparr>
          in bindA (op_execute_batch V C [o2] 0 q1) (\<lambda>(r, q2). retA (r, q2, o2)))"

section \<open>Doorbell batches\<close>

type_synonym i8 = "8 word"

definition kNMaxDoorbell :: usize where "kNMaxDoorbell = 16"

record db_wr =
  dbw_id :: u64
  dbw_op :: nat
  dbw_num_sge :: c_int
  dbw_sg :: nat
  dbw_next :: "nat option"

text \<open>\<open>db_idx\<close> is the index of the current request, -1 for none. A pointer one past the end is the index \<open>N\<close>.\<close>

record doorbell =
  db_wrs :: "db_wr list"
  db_sges :: "sge list"
  db_idx :: i8

definition db_nexts :: "doorbell \<Rightarrow> nat option list" where
  "db_nexts b = map dbw_next (db_wrs b)"

definition db_set_next :: "nat \<Rightarrow> nat option \<Rightarrow> doorbell \<Rightarrow> doorbell" where
  "db_set_next i v b = b\<lparr>db_wrs := (db_wrs b)[i := (db_wrs b ! i)\<lparr>dbw_next := v\<rparr>]\<rparr>"

interpretation db_link: linked db_nexts db_set_next
proof
  show "db_nexts (db_set_next i v b) = (db_nexts b)[i := v]" for i v b
    by (cases "i < length (db_wrs b)")
      (auto simp: db_nexts_def db_set_next_def map_update list_eq_iff_nth_eq nth_list_update)
qed

definition db_new :: "nat \<Rightarrow> nat \<Rightarrow> doorbell" where
  "db_new n opc =
     db_set_next (n - 1) (Some 0)
       \<lparr>db_wrs = map (\<lambda>i. \<lparr>dbw_id = 0, dbw_op = opc, dbw_num_sge = 1, dbw_sg = i, dbw_next = Some (i + 1)\<rparr>) [0..<n],
        db_sges = replicate n \<lparr>sge_addr = 0, sge_length = 0, sge_lkey = 0\<rparr>, db_idx = - 1\<rparr>"

definition db_size :: "doorbell \<Rightarrow> c_int" where
  "db_size b = scast (db_idx b) + 1"

definition db_empty :: "doorbell \<Rightarrow> bool" where
  "db_empty b \<longleftrightarrow> db_size b = 0"

text \<open>The comparison with \<open>N\<close> is made in unsigned arithmetic.\<close>

definition db_full :: "doorbell \<Rightarrow> bool" where
  "db_full b \<longleftrightarrow> db_size b = of_nat (length (db_wrs b))"

text \<open>The index is an \<open>i8\<close>, which wraps.\<close>

definition db_advance :: "doorbell \<Rightarrow> bool \<times> doorbell" where
  "db_advance b = (if db_full b then (False, b) else (True, b\<lparr>db_idx := db_idx b + 1\<rparr>))"

definition db_cur :: "doorbell \<Rightarrow> nat outcome" where
  "db_cur b =
     (if db_empty b then Inl Aborted
      else if 0 \<le> sint (db_idx b) \<and> nat (sint (db_idx b)) < length (db_wrs b) then Inr (nat (sint (db_idx b)))
      else Inl Undefined)"

definition db_set_cur_wr :: "db_wr \<Rightarrow> doorbell \<Rightarrow> doorbell outcome" where
  "db_set_cur_wr wr b = bindE (db_cur b) (\<lambda>i. Inr (b\<lparr>db_wrs := (db_wrs b)[i := wr]\<rparr>))"

definition db_set_cur_sge :: "sge \<Rightarrow> doorbell \<Rightarrow> doorbell outcome" where
  "db_set_cur_sge s b = bindE (db_cur b) (\<lambda>i. Inr (b\<lparr>db_sges := (db_sges b)[i := s]\<rparr>))"

definition db_freeze :: "doorbell \<Rightarrow> doorbell outcome" where
  "db_freeze b = bindE (db_cur b) (\<lambda>i. Inr (db_set_next i None b))"

definition db_freeze_at :: "usize \<Rightarrow> doorbell \<Rightarrow> doorbell outcome" where
  "db_freeze_at idx b =
     (if unat idx < length (db_wrs b) then Inr (db_set_next (unat idx) None b) else Inl Undefined)"

definition db_freeze_done_at :: "usize \<Rightarrow> doorbell \<Rightarrow> doorbell outcome" where
  "db_freeze_done_at idx b =
     (if unat idx < length (db_wrs b)
      then Inr (db_set_next (unat idx) (Some (if unat idx = length (db_wrs b) - 1 then 0 else unat idx + 1)) b)
      else Inl Undefined)"

text \<open>Unlike the previous operation, this one links the last request past the end.\<close>

definition db_freeze_done :: "doorbell \<Rightarrow> doorbell outcome" where
  "db_freeze_done b = bindE (db_cur b) (\<lambda>i. Inr (db_set_next i (Some (i + 1)) b))"

definition db_clear :: "doorbell \<Rightarrow> doorbell outcome" where
  "db_clear b = bindE (db_freeze_done b) (\<lambda>b'. Inr (b'\<lparr>db_idx := - 1\<rparr>))"

text \<open>The loop of \<open>sanity_check_sz\<close>, from the request \<open>cur\<close> in the round \<open>i\<close> of \<open>i + k\<close>.\<close>

fun db_sanity_loop :: "nat option list \<Rightarrow> nat \<Rightarrow> nat \<Rightarrow> nat \<Rightarrow> usize outcome" where
  "db_sanity_loop nx cur i 0 = Inr (of_nat i + 1)"
| "db_sanity_loop nx cur i (Suc k) =
     (if cur < length nx
      then (case nx ! cur of None \<Rightarrow> Inr (of_nat i + 1) | Some c \<Rightarrow> db_sanity_loop nx c (Suc i) k)
      else Inl Undefined)"

definition db_sanity_check_sz :: "doorbell \<Rightarrow> usize outcome" where
  "db_sanity_check_sz b =
     (if db_empty b then Inr 0 else db_sanity_loop (db_nexts b) 0 0 (length (db_wrs b)))"

text \<open>What a post of the batch hands to the device: the chain from the first request.\<close>

definition db_posted :: "doorbell \<Rightarrow> nat list outcome" where
  "db_posted b = chain (db_nexts b) (Some 0)"

end
