(* ===== verification/Recv.thy ===== *)
theory Recv
  imports QPs Chain
begin

text \<open>
  The receive side: \<open>RecvEntries\<close> and its factories (core/qps/recv_helper.hh), posting them
  (\<open>Dummy::post_recvs\<close>, core/qps/mod.hh) and the iterator over received messages
  (core/qps/recv_iter.hh). The allocator of core/qps/abs_recv_allocator.hh is abstract: its
  \<open>alloc_one\<close> is a parameter. A pointer into \<open>rs\<close> or \<open>sges\<close> is an index.
\<close>

section \<open>Receive entries\<close>

record recv_wr =
  rw_id :: u64
  rw_sg :: "nat option"
  rw_num_sge :: c_int
  rw_next :: "nat option"

record recv_entries =
  re_rs :: "recv_wr list"
  re_sges :: "sge list"
  re_wcs :: "wc list"
  re_header :: usize

text \<open>A new object: the arrays are uninitialised, any content stands for it.\<close>

definition recv_entries_blank :: "nat \<Rightarrow> recv_entries" where
  "recv_entries_blank n =
     \<lparr>re_rs = replicate n \<lparr>rw_id = 0, rw_sg = None, rw_num_sge = 0, rw_next = None\<rparr>,
      re_sges = replicate n \<lparr>sge_addr = 0, sge_length = 0, sge_lkey = 0\<rparr>,
      re_wcs = replicate n \<lparr>wc_id = 0, wc_ok = False, wc_imm = 0\<rparr>,
      re_header = 0\<rparr>"

definition re_nexts :: "recv_entries \<Rightarrow> nat option list" where
  "re_nexts e = map rw_next (re_rs e)"

definition re_set_next :: "nat \<Rightarrow> nat option \<Rightarrow> recv_entries \<Rightarrow> recv_entries" where
  "re_set_next i v e = e\<lparr>re_rs := (re_rs e)[i := (re_rs e ! i)\<lparr>rw_next := v\<rparr>]\<rparr>"

interpretation re_link: linked re_nexts re_set_next
proof
  show "re_nexts (re_set_next i v e) = (re_nexts e)[i := v]" for i v e
    by (cases "i < length (re_rs e)")
      (auto simp: re_nexts_def re_set_next_def map_update list_eq_iff_nth_eq nth_list_update)
qed

definition wr_ptr :: "nat \<Rightarrow> recv_entries \<Rightarrow> recv_wr outcome" where
  "wr_ptr i e = (if i < length (re_rs e) then Inr (re_rs e ! i) else Inl Undefined)"

definition header_ptr :: "recv_entries \<Rightarrow> recv_wr outcome" where
  "header_ptr e = wr_ptr (unat (re_header e)) e"

definition entries_sanity_check :: "recv_entries \<Rightarrow> unit outcome" where
  "entries_sanity_check e =
     assertE (list_all (\<lambda>i. rw_next (re_rs e ! i) = Some (i + 1) \<and> rw_sg (re_rs e ! i) = Some i \<and>
                rw_num_sge (re_rs e ! i) = 1) [0..<length (re_rs e) - 1])"

text \<open>The factories: one buffer from the allocator for each entry, and the last entry links to the first.\<close>

definition recv_entry :: "nat \<Rightarrow> nat \<Rightarrow> ptr \<Rightarrow> recv_wr" where
  "recv_entry n i buf =
     \<lparr>rw_id = ptr_u64 buf, rw_sg = Some i, rw_num_sge = 1,
      rw_next = (if i < n - 1 then Some (i + 1) else Some 0)\<rparr>"

fun recv_fill ::
  "(usize \<Rightarrow> 'al \<Rightarrow> (ptr \<times> u32) option \<times> 'al) \<Rightarrow> usize \<Rightarrow> nat \<Rightarrow> nat \<Rightarrow> recv_entries \<Rightarrow> ('al, recv_entries) act"
where
  "recv_fill alloc_one sz i 0 e = retA e"
| "recv_fill alloc_one sz i (Suc k) e =
     bindA (callA (alloc_one sz)) (\<lambda>o1.
     bindA (liftA (opt_value o1)) (\<lambda>(buf, key).
       recv_fill alloc_one sz (Suc i) k
         (e\<lparr>re_rs := (re_rs e)[i := recv_entry (length (re_rs e)) i buf],
            re_sges := (re_sges e)[i := \<lparr>sge_addr = ptr_u64 buf, sge_length = sz, sge_lkey = key\<rparr>]\<rparr>)))"

definition recv_entries_create ::
  "(usize \<Rightarrow> 'al \<Rightarrow> (ptr \<times> u32) option \<times> 'al) \<Rightarrow> nat \<Rightarrow> usize \<Rightarrow> ('al, recv_entries) act"
where
  "recv_entries_create alloc_one n msg_sz = recv_fill alloc_one msg_sz 0 n (recv_entries_blank n)"

text \<open>The first version has the size as a template argument.\<close>

definition recv_entries_create_v1 ::
  "(usize \<Rightarrow> 'al \<Rightarrow> (ptr \<times> u32) option \<times> 'al) \<Rightarrow> nat \<Rightarrow> usize \<Rightarrow> ('al, recv_entries) act"
where
  "recv_entries_create_v1 alloc_one n entry_sz = recv_fill alloc_one entry_sz 0 n (recv_entries_blank n)"

section \<open>Posting\<close>

text \<open>What the device receives: it follows the \<open>next\<close> pointers from the header until null.\<close>

definition re_desc :: "recv_entries \<Rightarrow> nat \<Rightarrow> u64 \<times> sge" where
  "re_desc e i = (rw_id (re_rs e ! i), re_sges e ! the (rw_sg (re_rs e ! i)))"

definition re_posted :: "recv_entries \<Rightarrow> (u64 \<times> sge) list outcome" where
  "re_posted e = bindE (chain (re_nexts e) (Some (unat (re_header e)))) (\<lambda>is. Inr (map (re_desc e) is))"

text \<open>The index of the last entry to post, in unsigned arithmetic.\<close>

definition post_tail :: "recv_entries \<Rightarrow> c_int \<Rightarrow> usize" where
  "post_tail e num =
     (let tl = re_header e + num - 1; entries = of_nat (length (re_rs e))
      in if tl \<ge> entries then tl - entries else tl)"

text \<open>
  The chain is cut after the last entry for the call. When posting fails the function
  returns before it restores the pointer.
\<close>

definition post_recvs ::
  "'d verbs \<Rightarrow> ('x) qp_dummy_scheme \<Rightarrow> recv_entries \<Rightarrow> c_int \<Rightarrow> ('d, c_int result \<times> recv_entries) act"
where
  "post_recvs V q e num =
     (let i = unat (post_tail e num)
      in bindA (liftA (wr_ptr i e)) (\<lambda>wr.
         let e1 = re_set_next i None e
         in bindA (liftA (re_posted e1)) (\<lambda>wrs.
            bindA (callA (v_post_recv V (d_qp q) wrs)) (\<lambda>rc d.
              (Inr (if rc \<noteq> 0 then (Err (v_errno V d), e1)
                    else (Ok 0, (re_set_next i (rw_next wr) e1)
                            \<lparr>re_header := (post_tail e num + 1) mod of_nat (length (re_rs e))\<rparr>)), d)))))"

section \<open>The iterator\<close>

text \<open>
  \<open>ri_bound\<close>: whether the iterator has a queue pair and entries. The completions are read from
  the array that was polled into, the argument \<open>wcs\<close>.
\<close>

record recv_iter =
  ri_idx :: c_int
  ri_total :: c_int
  ri_bound :: bool

definition ri_default :: recv_iter where
  "ri_default = \<lparr>ri_idx = 0, ri_total = - 1, ri_bound = False\<rparr>"

text \<open>\<open>ibv_poll_cq\<close> writes the completions at the start of the array.\<close>

definition poll_into :: "'d verbs \<Rightarrow> ptr \<Rightarrow> nat \<Rightarrow> wc list \<Rightarrow> 'd \<Rightarrow> (c_int \<times> wc list) \<times> 'd" where
  "poll_into V cq es wcs d =
     (case v_poll_cq V cq es d of ((k, ws), d') \<Rightarrow> ((k, ws @ drop (length ws) wcs), d'))"

definition ri_of_cq :: "'d verbs \<Rightarrow> ptr \<Rightarrow> nat \<Rightarrow> wc list \<Rightarrow> ('d, recv_iter \<times> wc list) act" where
  "ri_of_cq V cq es wcs =
     bindA (callA (poll_into V cq es wcs)) (\<lambda>(k, ws). retA (ri_default\<lparr>ri_total := k\<rparr>, ws))"

definition ri_new :: "'d verbs \<Rightarrow> ('x) qp_dummy_scheme \<Rightarrow> recv_entries \<Rightarrow> ('d, recv_iter \<times> recv_entries) act" where
  "ri_new V q e =
     bindA (ri_of_cq V (d_recv_cq q) (length (re_rs e)) (re_wcs e)) (\<lambda>(it, ws).
       retA (it\<lparr>ri_bound := True\<rparr>, e\<lparr>re_wcs := ws\<rparr>))"

definition ri_set_meta :: "recv_iter \<Rightarrow> recv_iter" where
  "ri_set_meta it = it\<lparr>ri_bound := True\<rparr>"

definition ri_begin ::
  "'d verbs \<Rightarrow> ('x) qp_dummy_scheme \<Rightarrow> nat \<Rightarrow> wc list \<Rightarrow> recv_iter \<Rightarrow> ('d, recv_iter \<times> wc list) act"
where
  "ri_begin V q es wcs it =
     bindA (callA (poll_into V (d_recv_cq q) es wcs)) (\<lambda>(k, ws). retA (it\<lparr>ri_total := k, ri_idx := 0\<rparr>, ws))"

definition ri_has_msgs :: "recv_iter \<Rightarrow> bool" where
  "ri_has_msgs it \<longleftrightarrow> ri_idx it <s ri_total it"

definition u64_ptr :: "u64 \<Rightarrow> ptr" where
  "u64_ptr w = (if w = 0 then None else Some (unat w))"

definition ri_cur_msg :: "recv_iter \<Rightarrow> wc list \<Rightarrow> (u32 \<times> ptr) option outcome" where
  "ri_cur_msg it wcs =
     (if ri_has_msgs it
      then (if 0 \<le>s ri_idx it \<and> unat (ri_idx it) < length wcs
            then Inr (Some (wc_imm (wcs ! unat (ri_idx it)), u64_ptr (wc_id (wcs ! unat (ri_idx it)))))
            else Inl Undefined)
      else Inr None)"

definition ri_next :: "recv_iter \<Rightarrow> recv_iter" where
  "ri_next it = it\<lparr>ri_idx := ri_idx it + 1\<rparr>"

text \<open>A failure to post is only logged.\<close>

definition ri_clear ::
  "'d verbs \<Rightarrow> ('x) qp_dummy_scheme \<Rightarrow> recv_entries \<Rightarrow> recv_iter \<Rightarrow> ('d, recv_iter \<times> recv_entries) act"
where
  "ri_clear V q e it =
     bindA (if 0 <s ri_total it \<and> ri_bound it then bindA (post_recvs V q e (ri_total it)) (\<lambda>(_, e'). retA e')
            else retA e)
       (\<lambda>e'. retA (it\<lparr>ri_total := - 1\<rparr>, e'))"

lemma ri_next_decreases:
  assumes "ri_has_msgs it"
  shows "nat (sint (ri_total it) - sint (ri_idx (ri_next it))) < nat (sint (ri_total it) - sint (ri_idx it))"
proof -
  have lt: "sint (ri_idx it) < sint (ri_total it)"
    using assms by (simp add: ri_has_msgs_def word_sless_alt)
  moreover have "sint (ri_total it) < 2 ^ 31" "- (2 ^ 31) \<le> sint (ri_idx it)"
    using sint_lt [of "ri_total it"] sint_ge [of "ri_idx it"] by simp_all
  ultimately have "sint (ri_idx it + 1) = sint (ri_idx it) + 1"
    using lt by (simp add: sint_word_ariths signed_take_bit_int_eq_self)
  then show ?thesis
    using lt by (simp add: ri_next_def)
qed

lemma ri_next_total [simp]: "ri_total (ri_next it) = ri_total it"
  by (simp add: ri_next_def)

text \<open>The loop of the class's documentation, which collects the messages.\<close>

function ri_collect :: "recv_iter \<Rightarrow> wc list \<Rightarrow> (u32 \<times> ptr) list outcome" where
  "ri_collect it wcs =
     (if ri_has_msgs it
      then bindE (ri_cur_msg it wcs) (\<lambda>m. bindE (ri_collect (ri_next it) wcs) (\<lambda>ms. Inr (the m # ms)))
      else Inr [])"
  by pat_completeness auto
termination
  by (relation "measure (\<lambda>(it, _). nat (sint (ri_total it) - sint (ri_idx it)))")
    (use ri_next_decreases in auto)

declare ri_collect.simps [simp del]

definition recv_pass ::
  "'d verbs \<Rightarrow> ('x) qp_dummy_scheme \<Rightarrow> recv_entries \<Rightarrow> ('d, (u32 \<times> ptr) list \<times> recv_entries) act"
where
  "recv_pass V q e =
     bindA (ri_new V q e) (\<lambda>(it, e1).
     bindA (liftA (ri_collect it (re_wcs e1))) (\<lambda>ms.
     bindA (ri_clear V q e1 it) (\<lambda>(_, e2). retA (ms, e2))))"

end
