(* ===== verification/Bench.thy ===== *)
theory Bench
  imports Ops Recv
begin

text \<open>
  The measuring programs: the random numbers of tests/random.hh, the counters of
  benchs/statics.hh and their report (benchs/reporter.hh), the random operations of
  benchs/bench_op.hh, and the loops of the clients benchs/bench_client.cc, or_bench/client.cc,
  fly_bench/client.cc and db_bench/client.cc. The flag \<open>running\<close>, which the main thread clears,
  is the number of rounds that a worker makes before it reads false. The loop counters are
  natural numbers: the command line bounds them far below the range of \<open>int\<close>.
\<close>

unbundle bit_operations_syntax

section \<open>FastRandom\<close>

record fast_random =
  fr_seed :: u64

definition fr_set_seed :: "u64 \<Rightarrow> fast_random \<Rightarrow> fast_random" where
  "fr_set_seed s r = r\<lparr>fr_seed := s\<rparr>"

definition fr_set_seed0 :: "u64 \<Rightarrow> fast_random \<Rightarrow> fast_random" where
  "fr_set_seed0 s r = r\<lparr>fr_seed := (s XOR 0x5DEECE66D) AND mask 48\<rparr>"

definition fr_new :: "usize \<Rightarrow> fast_random" where
  "fr_new seed = fr_set_seed0 (ucast seed) \<lparr>fr_seed = 0\<rparr>"

definition fr_default :: fast_random where
  "fr_default = fr_set_seed0 0 \<lparr>fr_seed = 0\<rparr>"

definition fr_bits :: "nat \<Rightarrow> fast_random \<Rightarrow> u64 \<times> fast_random" where
  "fr_bits bits r =
     (let s = (fr_seed r * 0x5DEECE66D + 0xB) AND mask 48 in (drop_bit (48 - bits) s, r\<lparr>fr_seed := s\<rparr>))"

text \<open>The two calls are not ordered by the language; the left one is taken first.\<close>

definition fr_next :: "fast_random \<Rightarrow> u64 \<times> fast_random" where
  "fr_next r = (case fr_bits 32 r of (a, r1) \<Rightarrow> case fr_bits 32 r1 of (b, r2) \<Rightarrow> (push_bit 32 a + b, r2))"

definition fr_next_u32 :: "fast_random \<Rightarrow> u32 \<times> fast_random" where
  "fr_next_u32 r = (case fr_bits 32 r of (a, r1) \<Rightarrow> (ucast a, r1))"

definition fr_next_u16 :: "fast_random \<Rightarrow> u16 \<times> fast_random" where
  "fr_next_u16 r = (case fr_bits 16 r of (a, r1) \<Rightarrow> (ucast a, r1))"

definition fr_next_char :: "fast_random \<Rightarrow> u8 \<times> fast_random" where
  "fr_next_char r = (case fr_bits 8 r of (a, r1) \<Rightarrow> (ucast (a mod 256), r1))"

fun fr_next_string :: "nat \<Rightarrow> fast_random \<Rightarrow> bytes \<times> fast_random" where
  "fr_next_string 0 r = ([], r)"
| "fr_next_string (Suc n) r =
     (case fr_next_char r of (c, r1) \<Rightarrow> case fr_next_string n r1 of (cs, r2) \<Rightarrow> (c # cs, r2))"

section \<open>Counters and their report\<close>

record statics =
  st_counter :: u64
  st_counter1 :: u64
  st_counter2 :: u64
  st_counter3 :: u64

definition statics_new :: statics where
  "statics_new = \<lparr>st_counter = 0, st_counter1 = 0, st_counter2 = 0, st_counter3 = 0\<rparr>"

definition increment :: "c_int \<Rightarrow> statics \<Rightarrow> statics" where
  "increment d s = s\<lparr>st_counter := st_counter s + scast d\<rparr>"

definition increment_gap_1 :: "u64 \<Rightarrow> statics \<Rightarrow> statics" where
  "increment_gap_1 d s = s\<lparr>st_counter1 := st_counter1 s + d\<rparr>"

text \<open>
  One epoch of \<open>report_thpt\<close> and \<open>report_bandwidth\<close>: the requests finished since the last one,
  over all workers. The other threads move the counters meanwhile; \<open>snap\<close> holds what was read.
\<close>

fun epoch_sum :: "u64 list \<Rightarrow> u64 list \<Rightarrow> u64 \<Rightarrow> u64" where
  "epoch_sum (temp # snap) (old # olds) acc = epoch_sum snap olds (acc + (temp - old))"
| "epoch_sum _ _ acc = acc"

fun report_sums :: "u64 list \<Rightarrow> u64 list list \<Rightarrow> u64 list" where
  "report_sums olds [] = []"
| "report_sums olds (snap # snaps) = epoch_sum snap olds 0 # report_sums snap snaps"

definition report_thpt :: "nat \<Rightarrow> u64 list list \<Rightarrow> u64 list" where
  "report_thpt workers snaps = report_sums (replicate workers 0) snaps"

text \<open>The bytes of every epoch, which the code divides by the elapsed time in floating point.\<close>

definition report_bandwidth :: "nat \<Rightarrow> u64 list list \<Rightarrow> usize \<Rightarrow> nat list" where
  "report_bandwidth workers snaps payload_per_req =
     map (\<lambda>sum. unat sum * unat payload_per_req) (report_sums (replicate workers 0) snaps)"

section \<open>Random operations\<close>

definition RDMA_READ :: c_int where "RDMA_READ = 0"
definition RDMA_WRITE :: c_int where "RDMA_WRITE = 1"
definition ATOMIC_CAS :: c_int where "ATOMIC_CAS = 2"
definition ATOMIC_FAA :: c_int where "ATOMIC_FAA = 3"

lemmas op_types = RDMA_READ_def RDMA_WRITE_def ATOMIC_CAS_def ATOMIC_FAA_def

record bench_op =
  bo_op :: op
  bo_type :: c_int
  bo_lbuf :: ptr
  bo_rbuf :: ptr
  bo_rbuf_random :: u64
  bo_lbuf_random :: u64
  bo_rand :: fast_random

definition on_op :: "(op \<Rightarrow> op) \<Rightarrow> bench_op \<Rightarrow> bench_op" where
  "on_op f b = b\<lparr>bo_op := f (bo_op b)\<rparr>"

definition bo_valid :: "bench_op \<Rightarrow> bool" where
  "bo_valid b \<longleftrightarrow> bo_lbuf b \<noteq> None \<and> bo_rbuf b \<noteq> None"

definition bo_set_type :: "wr_opcodes \<Rightarrow> c_int \<Rightarrow> bench_op \<Rightarrow> bench_op" where
  "bo_set_type C ty b =
     (let b1 = b\<lparr>bo_type := ty\<rparr> in
      if ty = RDMA_READ then on_op (op_set_read C) b1
      else if ty = RDMA_WRITE then on_op (op_set_write C) b1
      else if ty = ATOMIC_CAS then on_op (op_set_cas C 0 0) b1
      else if ty = ATOMIC_FAA then on_op (op_set_fetch_add C 0) b1
      else b1)"

definition bo_new :: "wr_opcodes \<Rightarrow> nat \<Rightarrow> c_int \<Rightarrow> bench_op" where
  "bo_new C nsge ty =
     bo_set_type C ty \<lparr>bo_op = op_new nsge, bo_type = 0, bo_lbuf = None, bo_rbuf = None, bo_rbuf_random = 0,
       bo_lbuf_random = 0, bo_rand = fr_default\<rparr>"

definition bo_init_rbuf :: "ptr \<Rightarrow> u32 \<Rightarrow> u64 \<Rightarrow> bench_op \<Rightarrow> bench_op" where
  "bo_init_rbuf ra rk random b =
     (let b1 = b\<lparr>bo_rbuf := ra, bo_rbuf_random := random\<rparr> in
      if bo_type b = RDMA_READ \<or> bo_type b = RDMA_WRITE then on_op (op_set_rdma_rbuf (ptr_u64 ra) rk) b1
      else if bo_type b = ATOMIC_CAS \<or> bo_type b = ATOMIC_FAA then on_op (op_set_atomic_rbuf (ptr_u64 ra) rk) b1
      else b1)"

definition bo_init_lbuf :: "ptr \<Rightarrow> u32 \<Rightarrow> u32 \<Rightarrow> u64 \<Rightarrow> bench_op \<Rightarrow> bench_op" where
  "bo_init_lbuf la len lk random b =
     on_op (\<lambda>o1. snd (op_set_payload (ptr_u64 la) len lk 0 o1)) (b\<lparr>bo_lbuf := la, bo_lbuf_random := random\<rparr>)"

definition bo_draw :: "bench_op \<Rightarrow> u64 \<times> bench_op" where
  "bo_draw b = (case fr_next (bo_rand b) of (x, r) \<Rightarrow> (x, b\<lparr>bo_rand := r\<rparr>))"

definition op_set_sge_addr :: "u64 \<Rightarrow> op \<Rightarrow> op" where
  "op_set_sge_addr a o1 = o1\<lparr>op_sges := (op_sges o1)[0 := (op_sges o1 ! 0)\<lparr>sge_addr := a\<rparr>]\<rparr>"

text \<open>
  The pointers are to 64-bit words, so an index counts 8 bytes. A range of zero divides by
  zero. The arguments of \<open>set_cas\<close> are drawn from the left.
\<close>

definition bo_refresh :: "wr_opcodes \<Rightarrow> bench_op \<Rightarrow> bench_op outcome" where
  "bo_refresh C b =
     (if \<not> bo_valid b then Inr b
      else if bo_rbuf_random b = 0 \<or> bo_lbuf_random b = 0 then Inl Undefined
      else
        (case bo_draw b of (x, b1) \<Rightarrow>
         case bo_draw b1 of (y, b2) \<Rightarrow>
           let ra = ptr_u64 (bo_rbuf b) + 8 * (x mod bo_rbuf_random b);
               la = ptr_u64 (bo_lbuf b) + 8 * (y mod bo_lbuf_random b);
               set_ra = (\<lambda>o1. o1\<lparr>op_addr := ra\<rparr>)
           in if bo_type b = RDMA_READ then Inr (on_op set_ra b2)
              else if bo_type b = RDMA_WRITE then Inr (on_op (op_set_sge_addr la \<circ> set_ra) b2)
              else if bo_type b = ATOMIC_CAS then
                (case bo_draw b2 of (u, b3) \<Rightarrow>
                 case bo_draw b3 of (v, b4) \<Rightarrow>
                   Inr (on_op (op_set_cas C (u mod 100) (v mod 100) \<circ> op_set_sge_addr la \<circ> set_ra) b4))
              else if bo_type b = ATOMIC_FAA then
                (case bo_draw b2 of (u, b3) \<Rightarrow>
                   Inr (on_op (op_set_sge_addr la \<circ> op_set_fetch_add C (u mod 100) \<circ> set_ra) b3))
              else Inr b2))"

section \<open>Workers\<close>

record 'd worker =
  wk_rc :: rc
  wk_op :: op
  wk_rand :: fast_random
  wk_stat :: statics
  wk_drv :: 'd

text \<open>Executing an operation, with the assertion that follows it.\<close>

definition wk_execute :: "'d verbs \<Rightarrow> wr_opcodes \<Rightarrow> c_int \<Rightarrow> ('d worker, unit) act" where
  "wk_execute V C flags w =
     (case op_execute V C (wk_op w) (wk_rc w) flags 0 (wk_drv w) of
        (Inl e, d) \<Rightarrow> (Inl e, w\<lparr>wk_drv := d\<rparr>)
      | (Inr (r, q, o1), d) \<Rightarrow> (assertE (code r = IO_Ok), w\<lparr>wk_rc := q, wk_op := o1, wk_drv := d\<rparr>))"

text \<open>Waiting for a completion. A wait that never returns is the outcome Diverged.\<close>

definition wk_wait :: "'d verbs \<Rightarrow> int \<Rightarrow> ('d worker, bool) act" where
  "wk_wait V timeout w =
     (case wait_one_comp V timeout (wk_rc w) (wk_drv w) of
        None \<Rightarrow> (Inl Diverged, w)
      | Some (r, q, d) \<Rightarrow> (Inr (code r = IO_Ok), w\<lparr>wk_rc := q, wk_drv := d\<rparr>))"

definition wk_wait_ok :: "'d verbs \<Rightarrow> ('d worker, unit) act" where
  "wk_wait_ok V = bindA (wk_wait V no_timeout) (\<lambda>ok. liftA (assertE ok))"

definition wk_count :: "c_int \<Rightarrow> ('d worker, unit) act" where
  "wk_count n w = (Inr (), w\<lparr>wk_stat := increment n (wk_stat w)\<rparr>)"

text \<open>The next random address of the remote region.\<close>

definition wk_aim :: "reg_attr \<Rightarrow> ('d worker, unit) act" where
  "wk_aim attr w =
     (case fr_next (wk_rand w) of (x, r) \<Rightarrow>
        (Inr (), w\<lparr>wk_rand := r, wk_op := op_set_rdma_rbuf (ra_buf attr + 8 * (x mod 10000)) (ra_key attr) (wk_op w)\<rparr>))"

subsection \<open>or_bench: one signalled request in \<open>or_max\<close>\<close>

text \<open>\<open>k\<close> requests remain of the round, \<open>i\<close> have been posted.\<close>

fun or_loop :: "'d verbs \<Rightarrow> wr_opcodes \<Rightarrow> reg_attr \<Rightarrow> nat \<Rightarrow> nat \<Rightarrow> nat \<Rightarrow> nat \<Rightarrow> ('d worker, unit) act" where
  "or_loop V C attr or_max 0 i or_idx = retA ()"
| "or_loop V C attr or_max (Suc k) i or_idx =
     (let sig = or_idx = 0 \<or> or_idx \<ge> or_max;
          flags = if sig then v_signaled V else 0
      in bindA (wk_aim attr) (\<lambda>_.
         bindA (wk_execute V C flags) (\<lambda>_.
         bindA (if flags = v_signaled V \<and> i \<noteq> 0 then wk_wait_ok V else retA ()) (\<lambda>_.
           or_loop V C attr or_max k (Suc i) (Suc (if sig then 0 else or_idx))))))"

definition or_round :: "'d verbs \<Rightarrow> wr_opcodes \<Rightarrow> reg_attr \<Rightarrow> nat \<Rightarrow> nat \<Rightarrow> ('d worker, unit) act" where
  "or_round V C attr or_max or_factor =
     bindA (or_loop V C attr or_max or_factor 0 0) (\<lambda>_.
     bindA (wk_wait_ok V) (\<lambda>_. wk_count (of_nat or_factor)))"

fun or_rounds :: "'d verbs \<Rightarrow> wr_opcodes \<Rightarrow> reg_attr \<Rightarrow> nat \<Rightarrow> nat \<Rightarrow> nat \<Rightarrow> ('d worker, unit) act" where
  "or_rounds V C attr or_max or_factor 0 = retA ()"
| "or_rounds V C attr or_max or_factor (Suc n) =
     bindA (or_round V C attr or_max or_factor) (\<lambda>_. or_rounds V C attr or_max or_factor n)"

text \<open>The operation of the worker and the distance of its signals.\<close>

definition or_op :: "wr_opcodes \<Rightarrow> ptr \<Rightarrow> u32 \<Rightarrow> op" where
  "or_op C test_buf lkey =
     snd (op_set_payload (ptr_u64 test_buf) 8 lkey 0 (op_set_imm 0 (op_set_read C (op_new 1))))"

definition or_max_of :: "rc \<Rightarrow> nat" where
  "or_max_of q = nat (sint (max_send_sz (rc_config q)) div 2)"

definition or_run :: "'d verbs \<Rightarrow> wr_opcodes \<Rightarrow> reg_attr \<Rightarrow> ptr \<Rightarrow> u32 \<Rightarrow> nat \<Rightarrow> nat \<Rightarrow> ('d worker, unit) act" where
  "or_run V C attr test_buf lkey or_factor n w =
     or_rounds V C attr (or_max_of (wk_rc w)) or_factor n (w\<lparr>wk_op := or_op C test_buf lkey\<rparr>)"

subsection \<open>fly_bench: a window of requests in flight\<close>

fun fly_post :: "'d verbs \<Rightarrow> wr_opcodes \<Rightarrow> reg_attr \<Rightarrow> nat \<Rightarrow> ('d worker, unit) act" where
  "fly_post V C attr 0 = retA ()"
| "fly_post V C attr (Suc k) =
     bindA (wk_aim attr) (\<lambda>_.
     bindA (wk_execute V C (v_signaled V)) (\<lambda>_.
     bindA (wk_count 1) (\<lambda>_. fly_post V C attr k)))"

fun fly_try :: "'d verbs \<Rightarrow> nat \<Rightarrow> u64 \<Rightarrow> ('d worker, u64) act" where
  "fly_try V 0 recv_cnt = retA recv_cnt"
| "fly_try V (Suc k) recv_cnt =
     bindA (wk_wait V 0) (\<lambda>ok. fly_try V k (if ok then recv_cnt + 1 else recv_cnt))"

text \<open>The window \<open>para_factor - flying_cnt\<close> is computed in 64 unsigned bits.\<close>

definition fly_round :: "'d verbs \<Rightarrow> wr_opcodes \<Rightarrow> reg_attr \<Rightarrow> u64 \<Rightarrow> u64 \<Rightarrow> u64 \<Rightarrow> ('d worker, u64 \<times> u64) act" where
  "fly_round V C attr para recv_cnt flying_cnt =
     bindA (fly_post V C attr (unat (para - flying_cnt))) (\<lambda>_.
     bindA (fly_try V 5 recv_cnt) (\<lambda>recv_cnt' w.
       (Inr (recv_cnt', st_counter (wk_stat w) - recv_cnt'), w)))"

fun fly_rounds :: "'d verbs \<Rightarrow> wr_opcodes \<Rightarrow> reg_attr \<Rightarrow> u64 \<Rightarrow> nat \<Rightarrow> u64 \<Rightarrow> u64 \<Rightarrow> ('d worker, u64) act" where
  "fly_rounds V C attr para 0 recv_cnt flying_cnt = retA recv_cnt"
| "fly_rounds V C attr para (Suc n) recv_cnt flying_cnt =
     bindA (fly_round V C attr para recv_cnt flying_cnt) (\<lambda>(recv_cnt', flying_cnt').
       fly_rounds V C attr para n recv_cnt' flying_cnt')"

text \<open>The last loop waits for what is still in flight; \<open>None\<close> when it never ends.\<close>

partial_function (option) fly_drain :: "'d verbs \<Rightarrow> u64 \<Rightarrow> 'd worker \<Rightarrow> (u64 outcome \<times> 'd worker) option" where
  "fly_drain V recv_cnt w =
     (if recv_cnt < st_counter (wk_stat w)
      then (case wk_wait V 0 w of
              (Inl e, w') \<Rightarrow> Some (Inl e, w')
            | (Inr ok, w') \<Rightarrow> fly_drain V (if ok then recv_cnt + 1 else recv_cnt) w')
      else Some (Inr recv_cnt, w))"

definition fly_worker :: "'d verbs \<Rightarrow> wr_opcodes \<Rightarrow> reg_attr \<Rightarrow> u64 \<Rightarrow> nat \<Rightarrow> 'd worker \<Rightarrow> (u64 outcome \<times> 'd worker) option" where
  "fly_worker V C attr para n w =
     (case fly_rounds V C attr para n 0 0 w of
        (Inl e, w') \<Rightarrow> Some (Inl e, w')
      | (Inr recv_cnt, w') \<Rightarrow> fly_drain V recv_cnt w')"

subsection \<open>bench_client: one request at a time\<close>

record 'd bench_worker =
  bk_rc :: rc
  bk_ops :: "bench_op list"
  bk_stat :: statics
  bk_drv :: 'd

definition bk_wait_ok :: "'d verbs \<Rightarrow> ('d bench_worker, unit) act" where
  "bk_wait_ok V w =
     (case wait_one_comp V no_timeout (bk_rc w) (bk_drv w) of
        None \<Rightarrow> (Inl Diverged, w)
      | Some (r, q, d) \<Rightarrow> (assertE (code r = IO_Ok), w\<lparr>bk_rc := q, bk_drv := d\<rparr>))"

definition bk_count :: "c_int \<Rightarrow> ('d bench_worker, unit) act" where
  "bk_count n w = (Inr (), w\<lparr>bk_stat := increment n (bk_stat w)\<rparr>)"

fun refresh_all :: "wr_opcodes \<Rightarrow> bench_op list \<Rightarrow> bench_op list outcome" where
  "refresh_all C [] = Inr []"
| "refresh_all C (b # bs) = bindE (bo_refresh C b) (\<lambda>b'. bindE (refresh_all C bs) (\<lambda>bs'. Inr (b' # bs')))"

definition bk_refresh :: "wr_opcodes \<Rightarrow> ('d bench_worker, unit) act" where
  "bk_refresh C w =
     (case refresh_all C (bk_ops w) of Inl e \<Rightarrow> (Inl e, w) | Inr bs \<Rightarrow> (Inr (), w\<lparr>bk_ops := bs\<rparr>))"

definition bk_execute :: "'d verbs \<Rightarrow> wr_opcodes \<Rightarrow> ('d bench_worker, unit) act" where
  "bk_execute V C w =
     (case bk_ops w of
        [b] \<Rightarrow>
          (case op_execute V C (bo_op b) (bk_rc w) (v_signaled V) 0 (bk_drv w) of
             (Inl e, d) \<Rightarrow> (Inl e, w\<lparr>bk_drv := d\<rparr>)
           | (Inr (r, q, o1), d) \<Rightarrow>
               (assertE (code r = IO_Ok), w\<lparr>bk_rc := q, bk_ops := [b\<lparr>bo_op := o1\<rparr>], bk_drv := d\<rparr>))
      | _ \<Rightarrow> (Inl Undefined, w))"

definition bench_client_op :: "wr_opcodes \<Rightarrow> c_int \<Rightarrow> ptr \<Rightarrow> u32 \<Rightarrow> u32 \<Rightarrow> reg_attr \<Rightarrow> bench_op" where
  "bench_client_op C ty test_buf payload lkey attr =
     bo_init_rbuf (u64_ptr (ra_buf attr)) (ra_key attr) 10000 (bo_init_lbuf test_buf payload lkey 1000 (bo_new C 1 ty))"

definition bench_round :: "'d verbs \<Rightarrow> wr_opcodes \<Rightarrow> ('d bench_worker, unit) act" where
  "bench_round V C =
     bindA (bk_refresh C) (\<lambda>_. bindA (bk_execute V C) (\<lambda>_. bindA (bk_wait_ok V) (\<lambda>_. bk_count 1)))"

fun bench_rounds :: "'d verbs \<Rightarrow> wr_opcodes \<Rightarrow> nat \<Rightarrow> ('d bench_worker, unit) act" where
  "bench_rounds V C 0 = retA ()"
| "bench_rounds V C (Suc n) = bindA (bench_round V C) (\<lambda>_. bench_rounds V C n)"

definition bench_run ::
  "'d verbs \<Rightarrow> wr_opcodes \<Rightarrow> reg_attr \<Rightarrow> c_int \<Rightarrow> ptr \<Rightarrow> u32 \<Rightarrow> u32 \<Rightarrow> nat \<Rightarrow> ('d bench_worker, unit) act"
where
  "bench_run V C attr ty test_buf payload lkey n w =
     (let b = bench_client_op C ty test_buf payload lkey attr in
      bindA (liftA (assertE (bo_valid b))) (\<lambda>_. bench_rounds V C n) (w\<lparr>bk_ops := [b]\<rparr>))"

subsection \<open>db_bench: batches of ten requests\<close>

definition batch_factor :: nat where "batch_factor = 10"

definition batch_op :: "wr_opcodes \<Rightarrow> c_int \<Rightarrow> ptr \<Rightarrow> u32 \<Rightarrow> reg_attr \<Rightarrow> nat \<Rightarrow> bench_op" where
  "batch_op C ty test_buf lkey attr i =
     (let b = on_op (op_set_wrid (of_nat i))
                (bo_init_rbuf (u64_ptr (ra_buf attr)) (ra_key attr) 10000
                  (bo_init_lbuf test_buf 8 lkey 1000 (bo_set_type C ty (bo_new C 1 0))))
      in if i + 1 < batch_factor then on_op (op_set_next (i + 1)) b else b)"

definition batch_ops :: "wr_opcodes \<Rightarrow> c_int \<Rightarrow> ptr \<Rightarrow> u32 \<Rightarrow> reg_attr \<Rightarrow> bench_op list" where
  "batch_ops C ty test_buf lkey attr = map (batch_op C ty test_buf lkey attr) [0..<batch_factor]"

definition batch_set_flags :: "c_int \<Rightarrow> ('d bench_worker, unit) act" where
  "batch_set_flags flags w =
     (Inr (), w\<lparr>bk_ops := (bk_ops w)[batch_factor - 1 := on_op (op_set_flags flags) (bk_ops w ! (batch_factor - 1))]\<rparr>)"

definition batch_execute :: "'d verbs \<Rightarrow> wr_opcodes \<Rightarrow> ('d bench_worker, unit) act" where
  "batch_execute V C w =
     (case op_execute_batch V C (map bo_op (bk_ops w)) 0 (bk_rc w) (bk_drv w) of
        (Inl e, d) \<Rightarrow> (Inl e, w\<lparr>bk_drv := d\<rparr>)
      | (Inr (r, q), d) \<Rightarrow> (assertE (code r = IO_Ok), w\<lparr>bk_rc := q, bk_drv := d\<rparr>))"

text \<open>\<open>k\<close> batches remain of the round.\<close>

fun batch_loop :: "'d verbs \<Rightarrow> wr_opcodes \<Rightarrow> nat \<Rightarrow> nat \<Rightarrow> nat \<Rightarrow> nat \<Rightarrow> ('d bench_worker, unit) act" where
  "batch_loop V C or_max 0 i or_idx = retA ()"
| "batch_loop V C or_max (Suc k) i or_idx =
     (let sig = or_idx = 0 \<or> or_idx \<ge> or_max;
          flags = if sig then v_signaled V else 0
      in bindA (bk_refresh C) (\<lambda>_.
         bindA (batch_set_flags flags) (\<lambda>_.
         bindA (batch_execute V C) (\<lambda>_.
         bindA (if flags = v_signaled V \<and> i \<noteq> 0 then bk_wait_ok V else retA ()) (\<lambda>_.
           batch_loop V C or_max k (i + batch_factor) ((if sig then 0 else or_idx) + batch_factor))))))"

definition batch_round :: "'d verbs \<Rightarrow> wr_opcodes \<Rightarrow> nat \<Rightarrow> nat \<Rightarrow> ('d bench_worker, unit) act" where
  "batch_round V C or_max or_factor =
     bindA (batch_loop V C or_max (or_factor div batch_factor) 0 0) (\<lambda>_.
     bindA (bk_wait_ok V) (\<lambda>_. bk_count (of_nat or_factor)))"

fun batch_rounds :: "'d verbs \<Rightarrow> wr_opcodes \<Rightarrow> nat \<Rightarrow> nat \<Rightarrow> nat \<Rightarrow> ('d bench_worker, unit) act" where
  "batch_rounds V C or_max or_factor 0 = retA ()"
| "batch_rounds V C or_max or_factor (Suc n) =
     bindA (batch_round V C or_max or_factor) (\<lambda>_. batch_rounds V C or_max or_factor n)"

text \<open>The assertion that precedes the loop, the operations and the distance of the signals.\<close>

definition batch_run ::
  "'d verbs \<Rightarrow> wr_opcodes \<Rightarrow> reg_attr \<Rightarrow> c_int \<Rightarrow> ptr \<Rightarrow> u32 \<Rightarrow> nat \<Rightarrow> nat \<Rightarrow> ('d bench_worker, unit) act"
where
  "batch_run V C attr ty test_buf lkey or_factor n w =
     bindA (liftA (assertE (batch_factor < or_factor \<and> or_factor mod batch_factor = 0))) (\<lambda>_.
       batch_rounds V C (or_max_of (bk_rc w)) or_factor n) (w\<lparr>bk_ops := batch_ops C ty test_buf lkey attr\<rparr>)"

end
