(* ===== verification/Clients.thy ===== *)
theory Clients
  imports ConnMgr Bench
begin

text \<open>
  The client programs as a whole: opening a device, creating a queue pair, connecting it
  through the server's daemon, working, and cleaning up. The measuring clients are
  benchs/bench_client.cc, or_bench, fly_bench and db_bench, whose loops are in Bench; the examples
  are rc_write and rc_pingpong. A worker's thread runs alone: the report of the main thread only
  reads its counter. The command line's flags are arguments.
\<close>

unbundle bit_operations_syntax

section \<open>What a process starts with\<close>

text \<open>Its sockets, the cached addresses and the driver. An uncaught exception or a failed assertion ends it.\<close>

record 'd host =
  h_net :: "sockaddr_in net"
  h_cache :: ip_cache
  h_drv :: 'd

definition hostD :: "('d, 'x) act \<Rightarrow> ('d host, 'x) act" where
  "hostD m h = (case m (h_drv h) of (r, d) \<Rightarrow> (r, h\<lparr>h_drv := d\<rparr>))"

definition cmD :: "('d, 'x) act \<Rightarrow> (('a, 'd) cm_qp, 'x) act" where
  "cmD m s = (case m (cm_drv s) of (r, d) \<Rightarrow> (r, s\<lparr>cm_drv := d\<rparr>))"

definition on_rc :: "(rc \<Rightarrow> rc) \<Rightarrow> (('a, 'd) cm_qp, unit) act" where
  "on_rc f s = (Inr (), s\<lparr>cm_rc := f (cm_rc s)\<rparr>)"

text \<open>\<open>RDMA_ASSERT(res == IOCode::Ok)\<close>, and the value of the result.\<close>

definition expect_ok :: "'x result \<Rightarrow> ('s, 'x) act" where
  "expect_ok r = bindA (liftA (assertE (code r = IO_Ok))) (\<lambda>_. retA (desc r))"

text \<open>\<open>query_dev_names().at(idx)\<close> throws for an index out of range.\<close>

definition open_nic :: "'d verbs \<Rightarrow> u64 \<Rightarrow> ('d, rnic) act" where
  "open_nic V idx =
     bindA (query_dev_names V) (\<lambda>devs.
       if unat idx < length devs
       then bindA (rnic_create V (devs ! unat idx) 0) (\<lambda>n. liftA (opt_value n))
       else failA Thrown)"

definition open_qp :: "'d verbs \<Rightarrow> rnic \<Rightarrow> ('d, rc) act" where
  "open_qp V nic = bindA (rc_create V nic (default_config (v_access V)) None) (\<lambda>q. liftA (opt_value q))"

text \<open>A connection manager for the body of the program, with the queue pair that it connects.\<close>

definition with_manager ::
  "('ai, 'x) netlib_scheme \<Rightarrow> int \<Rightarrow> bytes \<Rightarrow> rc \<Rightarrow> ((sockaddr_in, 'd) cm_qp, 'y) act \<Rightarrow> ('d host, 'y \<times> rc) act"
where
  "with_manager L now addr q body h =
     (case srpc_new L now addr (h_cache h) of
        (Inl e, c) \<Rightarrow> (Inl e, h\<lparr>h_cache := c\<rparr>)
      | (Inr S, c) \<Rightarrow>
          (case body \<lparr>cm_rpc = S, cm_net = h_net h, cm_rc = q, cm_drv = h_drv h\<rparr> of
             (r, s) \<Rightarrow> (bindE r (\<lambda>y. Inr (y, cm_rc s)), h\<lparr>h_net := cm_net s, h_cache := c, h_drv := cm_drv s\<rparr>)))"

text \<open>The frame of the programs: what they create goes in the reverse order at the end.\<close>

definition client_program ::
  "'d verbs \<Rightarrow> ('ai, 'x) netlib_scheme \<Rightarrow> int \<Rightarrow> bytes \<Rightarrow> u64 \<Rightarrow> (rnic \<Rightarrow> ((sockaddr_in, 'd) cm_qp, 'y) act) \<Rightarrow> ('d host, 'y) act"
where
  "client_program V L now addr nic_idx body =
     bindA (hostD (open_nic V nic_idx)) (\<lambda>nic.
     bindA (hostD (open_qp V nic)) (\<lambda>q.
     bindA (with_manager L now addr q (body nic)) (\<lambda>(y, q').
     bindA (hostD (dummy_destroy V q')) (\<lambda>_.
     bindA (hostD (rnic_destroy V nic)) (\<lambda>_. retA y)))))"

section \<open>Setting up a session\<close>

text \<open>Only a timeout of \<open>wait_ready\<close> is an error to the clients; another failure goes unnoticed.\<close>

definition wait_server :: "nat \<Rightarrow> (('a, 'x) cm_scheme, unit) act" where
  "wait_server retry = bindA (wait_ready retry) (\<lambda>r. liftA (assertE (code r \<noteq> IO_Timeout)))"

definition connect_rc :: "'d verbs \<Rightarrow> bytes \<Rightarrow> u64 \<Rightarrow> (('a, 'd) cm_qp, u64) act" where
  "connect_rc V nm nic_name =
     bindA (cc_rc V nm nic_name (default_config (v_access V))) (\<lambda>qp_res.
     bindA (expect_ok qp_res) (\<lambda>(_, key). retA key))"

definition local_region :: "'d verbs \<Rightarrow> (u64 \<Rightarrow> ptr) \<Rightarrow> rnic \<Rightarrow> u64 \<Rightarrow> (('a, 'd) cm_qp, reg_handler) act" where
  "local_region V af nic sz =
     bindA (cmD (reg_handler_create V (rmem_new af sz) nic (default_flags (v_access V)))) (\<lambda>h. liftA (opt_value h))"

definition remote_region :: "u64 \<Rightarrow> (('a, 'x) cm_scheme, reg_attr) act" where
  "remote_region mem_name =
     bindA (fetch_remote_mr mem_name) (\<lambda>fetch_res. bindA (expect_ok fetch_res) (\<lambda>(_, attr). retA attr))"

definition bind_regions :: "reg_attr \<Rightarrow> reg_handler \<Rightarrow> (('a, 'd) cm_qp, reg_attr) act" where
  "bind_regions remote h =
     bindA (on_rc (bind_remote_mr remote)) (\<lambda>_.
     bindA (liftA (opt_value (get_reg_attr h))) (\<lambda>lmr.
     bindA (on_rc (bind_local_mr lmr)) (\<lambda>_. retA lmr)))"

text \<open>The key of the connection, the local region, and the attributes of both regions.\<close>

record session =
  se_key :: u64
  se_mr :: reg_handler
  se_local :: reg_attr
  se_remote :: reg_attr

definition client_session ::
  "'d verbs \<Rightarrow> (u64 \<Rightarrow> ptr) \<Rightarrow> rnic \<Rightarrow> bytes \<Rightarrow> u64 \<Rightarrow> u64 \<Rightarrow> u64 \<Rightarrow> (('a, 'd) cm_qp, session) act"
where
  "client_session V af nic nm nic_name mem_name sz =
     bindA (wait_server 2) (\<lambda>_.
     bindA (connect_rc V nm nic_name) (\<lambda>key.
     bindA (local_region V af nic sz) (\<lambda>h.
     bindA (remote_region mem_name) (\<lambda>remote.
     bindA (bind_regions remote h) (\<lambda>lmr.
       retA \<lparr>se_key = key, se_mr = h, se_local = lmr, se_remote = remote\<rparr>)))))"

text \<open>Writing the first word of the local buffer.\<close>

definition touch :: "ptr \<Rightarrow> ('s, unit) act" where
  "touch p = (if p = None then failA Undefined else retA ())"

definition end_session :: "'d verbs \<Rightarrow> session \<Rightarrow> (('a, 'd) cm_qp, unit) act" where
  "end_session V se = cmD (reg_handler_destroy V (se_mr se))"

section \<open>The measuring clients\<close>

definition worker_name :: "bytes \<Rightarrow> usize \<Rightarrow> bytes" where
  "worker_name client_name i = client_name @ bstr '' thread-qp'' @ to_string (uint i)"

definition bench_mem_sz :: u64 where "bench_mem_sz = 1024 * 1024 * 20"

text \<open>The loops of Bench work on the queue pair and the driver; the result is the counter.\<close>

definition run_worker :: "usize \<Rightarrow> statics \<Rightarrow> ('d worker, 'y) act \<Rightarrow> (('a, 'd) cm_qp, statics) act" where
  "run_worker seed st m s =
     (case m \<lparr>wk_rc = cm_rc s, wk_op = op_new 1, wk_rand = fr_new seed, wk_stat = st, wk_drv = cm_drv s\<rparr> of
        (r, w) \<Rightarrow> (bindE r (\<lambda>_. Inr (wk_stat w)), s\<lparr>cm_rc := wk_rc w, cm_drv := wk_drv w\<rparr>))"

definition run_bench_worker :: "statics \<Rightarrow> ('d bench_worker, 'y) act \<Rightarrow> (('a, 'd) cm_qp, statics) act" where
  "run_bench_worker st m s =
     (case m \<lparr>bk_rc = cm_rc s, bk_ops = [], bk_stat = st, bk_drv = cm_drv s\<rparr> of
        (r, w) \<Rightarrow> (bindE r (\<lambda>_. Inr (bk_stat w)), s\<lparr>cm_rc := bk_rc w, cm_drv := bk_drv w\<rparr>))"

text \<open>
  The seed of a worker's generator; the sum is computed in 32 bits. The result of deleting
  the remote queue pair is dropped.
\<close>

definition bench_body ::
  "'d verbs \<Rightarrow> (u64 \<Rightarrow> ptr) \<Rightarrow> bytes \<Rightarrow> u64 \<Rightarrow> u64 \<Rightarrow>
     (session \<Rightarrow> ((sockaddr_in, 'd) cm_qp, statics) act) \<Rightarrow> rnic \<Rightarrow> ((sockaddr_in, 'd) cm_qp, statics) act"
where
  "bench_body V af nm nic_name mem_name work nic =
     bindA (client_session V af nic nm nic_name mem_name bench_mem_sz) (\<lambda>se.
     bindA (touch (u64_ptr (ra_buf (se_local se)))) (\<lambda>_.
     bindA (work se) (\<lambda>st.
     bindA (delete_remote_rc nm (se_key se)) (\<lambda>_.
     bindA (end_session V se) (\<lambda>_. retA st)))))"

definition seed_of :: "usize \<Rightarrow> usize" where
  "seed_of worker_id = 0xdeadbeaf + worker_id"

definition or_bench_fn ::
  "'d verbs \<Rightarrow> wr_opcodes \<Rightarrow> ('ai, 'x) netlib_scheme \<Rightarrow> (u64 \<Rightarrow> ptr) \<Rightarrow> int \<Rightarrow> bytes \<Rightarrow> bytes \<Rightarrow> u64 \<Rightarrow> u64 \<Rightarrow> u64 \<Rightarrow>
     nat \<Rightarrow> nat \<Rightarrow> usize \<Rightarrow> statics \<Rightarrow> ('d host, statics) act"
where
  "or_bench_fn V C L af now addr client_name nic_idx nic_name mem_name or_factor rounds i st =
     client_program V L now addr nic_idx
       (bench_body V af (worker_name client_name i) nic_name mem_name (\<lambda>se.
          run_worker (seed_of i) st
            (or_run V C (se_remote se) (u64_ptr (ra_buf (se_local se))) (ra_key (se_local se)) or_factor rounds)))"

text \<open>The operation of fly_bench is built like that of or_bench. A drain that never ends is Diverged.\<close>

definition fly_run ::
  "'d verbs \<Rightarrow> wr_opcodes \<Rightarrow> reg_attr \<Rightarrow> ptr \<Rightarrow> u32 \<Rightarrow> u64 \<Rightarrow> nat \<Rightarrow> ('d worker, u64) act"
where
  "fly_run V C attr test_buf lkey para n w =
     (case fly_worker V C attr para n (w\<lparr>wk_op := or_op C test_buf lkey\<rparr>) of
        None \<Rightarrow> (Inl Diverged, w)
      | Some r \<Rightarrow> r)"

definition fly_bench_fn ::
  "'d verbs \<Rightarrow> wr_opcodes \<Rightarrow> ('ai, 'x) netlib_scheme \<Rightarrow> (u64 \<Rightarrow> ptr) \<Rightarrow> int \<Rightarrow> bytes \<Rightarrow> bytes \<Rightarrow> u64 \<Rightarrow> u64 \<Rightarrow> u64 \<Rightarrow>
     u64 \<Rightarrow> nat \<Rightarrow> usize \<Rightarrow> statics \<Rightarrow> ('d host, statics) act"
where
  "fly_bench_fn V C L af now addr client_name nic_idx nic_name mem_name para rounds i st =
     client_program V L now addr nic_idx
       (bench_body V af (worker_name client_name i) nic_name mem_name (\<lambda>se.
          run_worker (seed_of i) st
            (fly_run V C (se_remote se) (u64_ptr (ra_buf (se_local se))) (ra_key (se_local se)) para rounds)))"

definition db_bench_fn ::
  "'d verbs \<Rightarrow> wr_opcodes \<Rightarrow> ('ai, 'x) netlib_scheme \<Rightarrow> (u64 \<Rightarrow> ptr) \<Rightarrow> int \<Rightarrow> bytes \<Rightarrow> bytes \<Rightarrow> u64 \<Rightarrow> u64 \<Rightarrow> u64 \<Rightarrow>
     c_int \<Rightarrow> nat \<Rightarrow> nat \<Rightarrow> usize \<Rightarrow> statics \<Rightarrow> ('d host, statics) act"
where
  "db_bench_fn V C L af now addr client_name nic_idx nic_name mem_name op_type or_factor rounds i st =
     client_program V L now addr nic_idx
       (bench_body V af (worker_name client_name i) nic_name mem_name (\<lambda>se.
          run_bench_worker st
            (batch_run V C (se_remote se) op_type (u64_ptr (ra_buf (se_local se))) (ra_key (se_local se)) or_factor rounds)))"

text \<open>bench_client takes the device and both names from the worker's number.\<close>

definition bench_client_fn ::
  "'d verbs \<Rightarrow> wr_opcodes \<Rightarrow> ('ai, 'x) netlib_scheme \<Rightarrow> (u64 \<Rightarrow> ptr) \<Rightarrow> int \<Rightarrow> bytes \<Rightarrow> bytes \<Rightarrow>
     c_int \<Rightarrow> u32 \<Rightarrow> nat \<Rightarrow> usize \<Rightarrow> statics \<Rightarrow> ('d host, statics) act"
where
  "bench_client_fn V C L af now addr client_name op_type payload rounds i st =
     client_program V L now addr (ucast (i mod 2))
       (bench_body V af (worker_name client_name i) (ucast (i mod 2)) (ucast (i mod 2)) (\<lambda>se.
          run_bench_worker st
            (bench_run V C (se_remote se) op_type (u64_ptr (ra_buf (se_local se))) payload (ra_key (se_local se)) rounds)))"

section \<open>The examples with a reliable connection\<close>

definition example_name :: bytes where "example_name = bstr ''client-qp''"

text \<open>One signalled request of \<open>send_normal\<close> with the bound regions, and waiting for its completion.\<close>

definition send_and_wait :: "'d verbs \<Rightarrow> req_desc \<Rightarrow> req_payload \<Rightarrow> (('a, 'd) cm_qp, unit) act" where
  "send_and_wait V rdesc payload s =
     (case rc_send_default V rdesc payload (cm_rc s) (cm_drv s) of
        (Inl e, d) \<Rightarrow> (Inl e, s\<lparr>cm_drv := d\<rparr>)
      | (Inr (res_s, q), d) \<Rightarrow>
          if code res_s \<noteq> IO_Ok then (Inl Aborted, s\<lparr>cm_rc := q, cm_drv := d\<rparr>)
          else (case wait_one_comp V no_timeout q d of
                  None \<Rightarrow> (Inl Diverged, s\<lparr>cm_rc := q, cm_drv := d\<rparr>)
                | Some (res_p, q', d') \<Rightarrow> (assertE (code res_p = IO_Ok), s\<lparr>cm_rc := q', cm_drv := d'\<rparr>)))"

definition example_body ::
  "'d verbs \<Rightarrow> (u64 \<Rightarrow> ptr) \<Rightarrow> u64 \<Rightarrow> u64 \<Rightarrow>
     (session \<Rightarrow> ((sockaddr_in, 'd) cm_qp, unit) act) \<Rightarrow> rnic \<Rightarrow> ((sockaddr_in, 'd) cm_qp, unit) act"
where
  "example_body V af nic_name mem_name work nic =
     bindA (client_session V af nic example_name nic_name mem_name 1024) (\<lambda>se.
     bindA (touch (rm_ptr (rh_mem (se_mr se)))) (\<lambda>_.
     bindA (work se) (\<lambda>_.
     bindA (delete_remote_rc example_name (se_key se)) (\<lambda>del_res.
     bindA (expect_ok del_res) (\<lambda>_. end_session V se)))))"

text \<open>rc_write: one byte to the second byte of the remote region.\<close>

definition write_one :: "'d verbs \<Rightarrow> wr_opcodes \<Rightarrow> session \<Rightarrow> (('a, 'd) cm_qp, unit) act" where
  "write_one V C se =
     send_and_wait V \<lparr>rd_op = wro_write C, rd_flags = v_signaled V, rd_len = 1, rd_wr_id = 0\<rparr>
       \<lparr>rp_local_addr = rm_ptr (rh_mem (se_mr se)), rp_remote_addr = 1, rp_imm_data = 0\<rparr>"

text \<open>rc_pingpong: twelve words of the remote region, one after the other.\<close>

definition read_word :: "'d verbs \<Rightarrow> wr_opcodes \<Rightarrow> session \<Rightarrow> nat \<Rightarrow> (('a, 'd) cm_qp, unit) act" where
  "read_word V C se i =
     send_and_wait V \<lparr>rd_op = wro_read C, rd_flags = v_signaled V, rd_len = 8, rd_wr_id = 0\<rparr>
       \<lparr>rp_local_addr = rm_ptr (rh_mem (se_mr se)), rp_remote_addr = of_nat i * 8, rp_imm_data = 0\<rparr>"

fun each :: "('b \<Rightarrow> ('s, unit) act) \<Rightarrow> 'b list \<Rightarrow> ('s, unit) act" where
  "each f [] = retA ()"
| "each f (x # xs) = bindA (f x) (\<lambda>_. each f xs)"

definition read_words :: "'d verbs \<Rightarrow> wr_opcodes \<Rightarrow> session \<Rightarrow> (('a, 'd) cm_qp, unit) act" where
  "read_words V C se = each (read_word V C se) [0..<12]"

definition rc_write_main ::
  "'d verbs \<Rightarrow> wr_opcodes \<Rightarrow> ('ai, 'x) netlib_scheme \<Rightarrow> (u64 \<Rightarrow> ptr) \<Rightarrow> int \<Rightarrow> bytes \<Rightarrow> u64 \<Rightarrow> u64 \<Rightarrow> u64 \<Rightarrow> ('d host, unit) act"
where
  "rc_write_main V C L af now addr nic_idx nic_name mem_name =
     client_program V L now addr nic_idx (example_body V af nic_name mem_name (write_one V C))"

definition rc_pingpong_main ::
  "'d verbs \<Rightarrow> wr_opcodes \<Rightarrow> ('ai, 'x) netlib_scheme \<Rightarrow> (u64 \<Rightarrow> ptr) \<Rightarrow> int \<Rightarrow> bytes \<Rightarrow> u64 \<Rightarrow> u64 \<Rightarrow> u64 \<Rightarrow> ('d host, unit) act"
where
  "rc_pingpong_main V C L af now addr nic_idx nic_name mem_name =
     client_program V L now addr nic_idx (example_body V af nic_name mem_name (read_words V C))"

end
