(* ===== verification/RecvMgr.thy ===== *)
theory RecvMgr
  imports RCtrl Recv
begin

text \<open>
  Connections that can receive: \<open>RecvCommon\<close> and \<open>RecvManager\<close> of core/qps/rc_recv_manager.hh.
  The state extends the control daemon's by the registries of receive channels and of
  receive entries; the entries are shared by reference, so the registry maps a name to an
  index of \<open>rm_entries\<close>. Allocators are shared objects too: \<open>rcm_alloc\<close> is a handle, and
  \<open>alloc_one\<close>, of core/qps/abs_recv_allocator.hh, is a parameter on the allocators' state.
\<close>

record recv_common =
  rcm_cq :: ptr
  rcm_alloc :: nat

text \<open>\<open>create\<close> always gives an object.\<close>

definition recv_common_create :: "ptr \<Rightarrow> nat \<Rightarrow> recv_common option" where
  "recv_common_create cq al = Some \<lparr>rcm_cq = cq, rcm_alloc = al\<rparr>"

record ('r, 'd, 'al) recv_mgr =
  rm_ctrl :: "('r, 'd) rctrl"
  reg_recv_cqs :: "(bytes, recv_common) factory"
  reg_recv_entries :: "(bytes, nat) factory"
  rm_entries :: "recv_entries list"
  rm_al :: 'al

definition ctrlA :: "(('r, 'd) rctrl, 'a) act \<Rightarrow> (('r, 'd, 'al) recv_mgr, 'a) act" where
  "ctrlA m s = (case m (rm_ctrl s) of (r, c) \<Rightarrow> (r, s\<lparr>rm_ctrl := c\<rparr>))"

definition allocA :: "('al, 'a) act \<Rightarrow> (('r, 'd, 'al) recv_mgr, 'a) act" where
  "allocA m s = (case m (rm_al s) of (r, a) \<Rightarrow> (r, s\<lparr>rm_al := a\<rparr>))"

definition recv_reply_of :: "callback_status \<Rightarrow> bytes" where
  "recv_reply_of st = dump 69 enc_rc_reply \<lparr>rrp_status = st, rrp_attr = null_qp_attr, rrp_key = 0\<rparr>"

text \<open>Looking a channel up by the name in the request; an absent channel means no queue of its own.\<close>

definition channel_of :: "bytes \<Rightarrow> (('r, 'd, 'al) recv_mgr, recv_common option) act" where
  "channel_of arr s = (bindE (c_string arr) (\<lambda>cn. Inr (query (reg_recv_cqs s) cn)), s)"

definition recv_cq_of :: "rc_req \<Rightarrow> (('r, 'd, 'al) recv_mgr, ptr) act" where
  "recv_cq_of req =
     (if rrq_whether_recv req = 1
      then bindA (channel_of (rrq_name_recv req)) (\<lambda>co. retA (case co of None \<Rightarrow> None | Some c \<Rightarrow> rcm_cq c))
      else retA None)"

text \<open>A new object for the entries, and its registration.\<close>

definition new_entries :: "recv_entries \<Rightarrow> (('r, 'd, 'al) recv_mgr, nat) act" where
  "new_entries e s = (Inr (length (rm_entries s)), s\<lparr>rm_entries := rm_entries s @ [e]\<rparr>)"

definition register_entries ::
  "('r \<Rightarrow> u64 \<times> 'r) \<Rightarrow> bytes \<Rightarrow> nat \<Rightarrow> (('r, 'd, 'al) recv_mgr, u64 option) act"
where
  "register_entries rnd nm j s =
     (case reg rnd (reg_recv_entries s) nm j (rt_rng (rm_ctrl s)) of
        Inl e \<Rightarrow> (Inl e, s)
      | Inr (key, f, r') \<Rightarrow> (Inr key, s\<lparr>reg_recv_entries := f, rm_ctrl := (rm_ctrl s)\<lparr>rt_rng := r'\<rparr>\<rparr>))"

text \<open>Posting the entries \<open>j\<close> to the queue pair that is the object \<open>i\<close>.\<close>

definition post_entries :: "'d verbs \<Rightarrow> nat \<Rightarrow> nat \<Rightarrow> nat \<Rightarrow> (('r, 'd, 'al) recv_mgr, c_int result) act" where
  "post_entries V n i j s =
     (case ho_qp (qp_heap (rm_ctrl s) ! i) of
        Q_RC rc \<Rightarrow>
          (case post_recvs V rc (rm_entries s ! j) (of_nat n) (rt_drv (rm_ctrl s)) of
             (Inl e, d) \<Rightarrow> (Inl e, s\<lparr>rm_ctrl := (rm_ctrl s)\<lparr>rt_drv := d\<rparr>\<rparr>)
           | (Inr (r, e'), d) \<Rightarrow>
               (Inr r, s\<lparr>rm_ctrl := (rm_ctrl s)\<lparr>rt_drv := d\<rparr>, rm_entries := (rm_entries s)[j := e']\<rparr>))
      | _ \<Rightarrow> (Inl Undefined, s))"

text \<open>
  The steps 1.3 and 1.4 of the handler: the channel is looked up again, whatever step 1.0
  found; the buffers are allocated, registered under the queue pair's name and posted.
\<close>

definition setup_recv ::
  "('r \<Rightarrow> u64 \<times> 'r) \<Rightarrow> 'd verbs \<Rightarrow> (nat \<Rightarrow> usize \<Rightarrow> 'al \<Rightarrow> (ptr \<times> u32) option \<times> 'al) \<Rightarrow> nat \<Rightarrow> rc_req \<Rightarrow> nat \<Rightarrow>
     (('r, 'd, 'al) recv_mgr, unit) act"
where
  "setup_recv rnd V alloc_one n req i =
     bindA (channel_of (rrq_name_recv req)) (\<lambda>co.
     bindA (liftA (opt_value co)) (\<lambda>rcm.
     bindA (allocA (recv_entries_create (alloc_one (rcm_alloc rcm)) n (ucast (rrq_max_recv_sz req)))) (\<lambda>e.
     bindA (new_entries e) (\<lambda>j.
     bindA (liftA (c_string (rrq_name req))) (\<lambda>nm.
     bindA (register_entries rnd nm j) (\<lambda>ko.
     bindA (liftA (assertE (ko \<noteq> None))) (\<lambda>_.
     bindA (post_entries V n i j) (\<lambda>res.
       liftA (assertE (code res = IO_Ok))))))))))"

definition msg_rc_handler ::
  "('r \<Rightarrow> u64 \<times> 'r) \<Rightarrow> 'd verbs \<Rightarrow> (nat \<Rightarrow> usize \<Rightarrow> 'al \<Rightarrow> (ptr \<times> u32) option \<times> 'al) \<Rightarrow> nat \<Rightarrow> bytes \<Rightarrow>
     (('r, 'd, 'al) recv_mgr, bytes) act"
where
  "msg_rc_handler rnd V alloc_one n b =
     (case dedump 246 dec_rc_req b of
        None \<Rightarrow> retA (recv_reply_of CB_WrongArg)
      | Some req \<Rightarrow>
          if \<not> (rrq_whether_create req = 1 \<or> rrq_whether_create req \<noteq> 0)
          then retA (recv_reply_of CB_WrongArg)
          else if rrq_whether_create req = 1
          then (\<lambda>s.
            case query (opened_nics (rm_ctrl s)) (rrq_nic_id req) of
              None \<Rightarrow> (Inr (recv_reply_of CB_WrongArg), s)
            | Some nic \<Rightarrow>
                bindA (recv_cq_of req) (\<lambda>recv_cq s0.
                  bindA (ctrlA (create_and_connect rnd V nic recv_cq req)) (\<lambda>key.
                    case key of
                      None \<Rightarrow> retA (recv_reply_of CB_WrongArg)
                    | Some k \<Rightarrow>
                        bindA (setup_recv rnd V alloc_one n req (length (qp_heap (rm_ctrl s0)))) (\<lambda>_.
                          ctrlA (fetch_qp_attr V (rrq_name req) k))) s0) s)
          else ctrlA (fetch_qp_attr V (rrq_name req) 0))"

text \<open>
  The constructor registers the handler with the daemon; the registration is asserted. The
  daemon's own handlers work on their part of the state.
\<close>

definition lift_handler :: "('r, 'd) rctrl handler \<Rightarrow> ('r, 'd, 'al) recv_mgr handler" where
  "lift_handler h b = ctrlA (h b)"

definition recv_manager_new ::
  "('r \<Rightarrow> u64 \<times> 'r) \<Rightarrow> 'd verbs \<Rightarrow> (nat \<Rightarrow> usize \<Rightarrow> 'al \<Rightarrow> (ptr \<times> u32) option \<times> 'al) \<Rightarrow> nat \<Rightarrow>
     ('a, ('r, 'd, 'al) recv_mgr) srpc_handler \<Rightarrow> ('a, ('r, 'd, 'al) recv_mgr) srpc_handler outcome"
where
  "recv_manager_new rnd V alloc_one n H =
     (case handler_register H CreateRCM (msg_rc_handler rnd V alloc_one n) of
        (ok, H') \<Rightarrow> bindE (assertE ok) (\<lambda>_. Inr H'))"

end
