(* ===== verification/RecvSpec.thy ===== *)
theory RecvSpec
  imports Recv QPsSpec "HOL-Library.Multiset"
begin

text \<open>
  What the receive side promises: the entries form a ring from the factory on, posting hands
  the device exactly the entries asked for and leaves the ring intact, and a pass of
  the iterator returns the messages of the oldest posted buffers and posts just these
  buffers again, so that no buffer is lost or in the device's hands twice.
\<close>

section \<open>Well-formed entries\<close>

definition recv_wf :: "recv_entries \<Rightarrow> bool" where
  "recv_wf e \<longleftrightarrow> 0 < length (re_rs e) \<and> length (re_rs e) < 2 ^ 31 \<and> ring (re_nexts e) \<and>
     length (re_sges e) = length (re_rs e) \<and> length (re_wcs e) = length (re_rs e) \<and>
     (\<forall>i < length (re_rs e). rw_sg (re_rs e ! i) = Some i \<and> rw_num_sge (re_rs e ! i) = 1) \<and>
     unat (re_header e) < length (re_rs e)"

text \<open>The entries below \<open>j\<close> are initialised.\<close>

definition filled :: "nat \<Rightarrow> recv_entries \<Rightarrow> bool" where
  "filled j e \<longleftrightarrow> length (re_sges e) = length (re_rs e) \<and> length (re_wcs e) = length (re_rs e) \<and>
     re_header e = 0 \<and> (\<forall>i < j. \<exists>buf. re_rs e ! i = recv_entry (length (re_rs e)) i buf)"

lemma recv_fill_filled:
  assumes "recv_fill al sz i k e a = (Inr e', a')" "filled i e" "i + k \<le> length (re_rs e)"
  shows "filled (i + k) e' \<and> length (re_rs e') = length (re_rs e)"
  using assms
proof (induction k arbitrary: i e a)
  case 0
  then show ?case
    by (simp add: retA_def)
next
  case (Suc k)
  obtain o1 a1 where o1: "al sz a = (o1, a1)"
    by fastforce
  then obtain b where b: "o1 = Some b"
    using Suc.prems(1) by (cases o1) (auto simp: bindA_def callA_def liftA_def)
  obtain buf key where bk: "b = (buf, key)"
    by fastforce
  let ?e = "e\<lparr>re_rs := (re_rs e)[i := recv_entry (length (re_rs e)) i buf],
            re_sges := (re_sges e)[i := \<lparr>sge_addr = ptr_u64 buf, sge_length = sz, sge_lkey = key\<rparr>]\<rparr>"
  have "recv_fill al sz (Suc i) k ?e a1 = (Inr e', a')"
    using Suc.prems(1) by (simp add: bindA_def callA_def liftA_def o1 b bk)
  moreover have "filled (Suc i) ?e"
    using Suc.prems(2,3) by (auto simp: filled_def less_Suc_eq nth_list_update)
  ultimately show ?case
    using Suc.IH [of "Suc i" ?e a1] Suc.prems(3) by simp
qed

lemma recv_fill_returns:
  assumes "\<And>a. \<exists>b. fst (al sz a) = Some b"
  shows "\<exists>e' a'. recv_fill al sz i k e a = (Inr e', a')"
proof (induction k arbitrary: i e a)
  case (Suc k)
  obtain b a1 where "al sz a = (Some b, a1)"
    using assms by (metis prod.collapse)
  then show ?case
    using Suc.IH by (cases b) (simp add: bindA_def callA_def liftA_def)
qed (simp add: retA_def)

lemma recv_entries_create_wf:
  assumes "recv_entries_create al n sz a = (Inr e, a')" "0 < n" "n < 2 ^ 31"
  shows "recv_wf e" "length (re_rs e) = n" "re_header e = 0"
proof -
  have "filled 0 (recv_entries_blank n)" "length (re_rs (recv_entries_blank n)) = n"
    by (simp_all add: filled_def recv_entries_blank_def)
  then have f: "filled n e" "length (re_rs e) = n"
    using recv_fill_filled [of al sz 0 n "recv_entries_blank n" a e a'] assms(1)
    by (simp_all add: recv_entries_create_def)
  have nx: "re_nexts e ! i = Some (Suc i mod n)" if lt: "i < n" for i
  proof -
    obtain buf where "re_rs e ! i = recv_entry n i buf"
      using f(1) lt unfolding filled_def f(2) by blast
    moreover have "i < n - 1 \<Longrightarrow> Suc i mod n = Suc i" "\<not> i < n - 1 \<Longrightarrow> Suc i = n"
      using lt by auto
    ultimately show ?thesis
      using lt f(2) by (auto simp: re_nexts_def recv_entry_def)
  qed
  show "recv_wf e"
    using f assms(2,3) nx by (auto simp: recv_wf_def filled_def ring_def re_nexts_def recv_entry_def)
  show "length (re_rs e) = n" "re_header e = 0"
    using f by (simp_all add: filled_def)
qed

section \<open>Posting\<close>

lemma length_re_nexts [simp]: "length (re_nexts e) = length (re_rs e)"
  by (simp add: re_nexts_def)

lemma re_set_next_fields [simp]:
  "length (re_rs (re_set_next i v e)) = length (re_rs e)" "re_sges (re_set_next i v e) = re_sges e"
  "re_wcs (re_set_next i v e) = re_wcs e" "re_header (re_set_next i v e) = re_header e"
  by (simp_all add: re_set_next_def)

lemma re_desc_set_next [simp]: "re_desc (re_set_next i v e) j = re_desc e j"
  by (cases "i < length (re_rs e)") (auto simp: re_desc_def re_set_next_def nth_list_update list_update_beyond)

lemma re_set_next_twice: "re_set_next i v (re_set_next i w e) = re_set_next i v e"
  by (cases "i < length (re_rs e)") (simp_all add: re_set_next_def list_update_beyond)

lemma re_set_next_same: "i < length (re_rs e) \<Longrightarrow> re_set_next i (rw_next (re_rs e ! i)) e = e"
  by (simp add: re_set_next_def)

lemma re_set_next_restore:
  "i < length (re_rs e) \<Longrightarrow> re_set_next i (rw_next (re_rs e ! i)) (re_set_next i None e) = e"
  by (simp add: re_set_next_twice re_set_next_same)

lemma nat_turn: "h < n \<Longrightarrow> j < n \<Longrightarrow> (if n \<le> h + j then h + j - n else h + j) = (h + j) mod (n::nat)"
  by (auto simp: mod_if)

lemma usize_nat: "m < 2 ^ 32 \<Longrightarrow> unat (of_nat m :: usize) = m"
  by (simp add: unat_of_nat)

lemma post_tail_unat:
  assumes "recv_wf e" "k < length (re_rs e)"
  shows "unat (post_tail e (of_nat (Suc k))) = (unat (re_header e) + k) mod length (re_rs e)"
    and "(post_tail e (of_nat (Suc k)) + 1) mod of_nat (length (re_rs e)) =
           of_nat ((unat (re_header e) + Suc k) mod length (re_rs e))"
proof -
  let ?h = "unat (re_header e)" and ?n = "length (re_rs e)"
  have lt: "?h < ?n" "?n < 2 ^ 31"
    using assms(1) by (simp_all add: recv_wf_def)
  have add: "re_header e + of_nat (Suc k) - 1 = of_nat (?h + k)"
    by simp
  have un: "unat (of_nat (?h + k) :: usize) = ?h + k" "unat (of_nat ?n :: usize) = ?n"
    using lt assms(2) usize_nat [of "?h + k"] usize_nat [of ?n] by (simp_all del: of_nat_add)
  have "unat (post_tail e (of_nat (Suc k))) = (if ?n \<le> ?h + k then ?h + k - ?n else ?h + k)"
    unfolding post_tail_def Let_def add using un by (simp add: word_le_nat_alt unat_sub del: of_nat_add)
  also have "\<dots> = (?h + k) mod ?n"
    using nat_turn lt(1) assms(2) by blast
  finally show eq: "unat (post_tail e (of_nat (Suc k))) = (?h + k) mod ?n" .
  have "unat (post_tail e (of_nat (Suc k)) + 1) = (?h + k) mod ?n + 1"
  proof -
    have "(?h + k) mod ?n < ?n"
      by (rule mod_less_divisor) (use lt(1) in linarith)
    then show ?thesis
      using lt(2) by (intro unat_add_lem [THEN iffD1, THEN trans]) (simp_all add: eq del: of_nat_Suc)
  qed
  moreover have "(?h + Suc k) mod ?n < ?n"
    by (rule mod_less_divisor) (use lt(1) in linarith)
  ultimately show "(post_tail e (of_nat (Suc k)) + 1) mod of_nat ?n = of_nat ((?h + Suc k) mod ?n)"
    using un(2) lt by (intro word_unat_eq_iff [THEN iffD2]) (simp add: unat_mod unat_of_nat mod_Suc_eq)
qed

lemma post_recvs_call:
  assumes "recv_wf e" "k < length (re_rs e)"
    and "v_post_recv V (d_qp q) (map (re_desc e) (ring_seg (length (re_rs e)) (unat (re_header e)) (Suc k))) d = (rc, d')"
  shows "post_recvs V q e (of_nat (Suc k)) d =
    (Inr (if rc \<noteq> 0
          then (Err (v_errno V d'), re_set_next ((unat (re_header e) + k) mod length (re_rs e)) None e)
          else (Ok 0, e\<lparr>re_header := of_nat ((unat (re_header e) + Suc k) mod length (re_rs e))\<rparr>)), d')"
proof -
  let ?h = "unat (re_header e)" and ?n = "length (re_rs e)"
  let ?t = "(?h + k) mod ?n"
  have wf: "ring (re_nexts e)" "re_nexts e \<noteq> []" "?h < ?n" "?t < ?n"
    using assms(1) by (auto simp: recv_wf_def re_nexts_def)
  have "chain (re_nexts (re_set_next ?t None e)) (Some ?h) = Inr (ring_seg ?n ?h (Suc k))"
    using re_link.posted_cut [of e ?h k] wf assms(2) by simp
  then have "re_posted (re_set_next ?t None e) = Inr (map (re_desc e) (ring_seg ?n ?h (Suc k)))"
    by (simp add: re_posted_def)
  then show ?thesis
    using wf assms(3)
    by (simp add: post_recvs_def Let_def post_tail_unat [OF assms(1,2)] act_simps wr_ptr_def re_set_next_restore
        del: of_nat_Suc)
qed

lemma post_recvs_ok:
  assumes "recv_wf e" "k < length (re_rs e)"
    and "v_post_recv V (d_qp q) (map (re_desc e) (ring_seg (length (re_rs e)) (unat (re_header e)) (Suc k))) d = (0, d')"
  shows "post_recvs V q e (of_nat (Suc k)) d =
    (Inr (Ok 0, e\<lparr>re_header := of_nat ((unat (re_header e) + Suc k) mod length (re_rs e))\<rparr>), d')"
  using post_recvs_call [OF assms] by simp

text \<open>Moving the header keeps the entries well formed.\<close>

lemma re_header_at:
  assumes "recv_wf e"
  shows "unat (of_nat (t mod length (re_rs e)) :: usize) = t mod length (re_rs e)"
    and "recv_wf (e\<lparr>re_header := of_nat (t mod length (re_rs e))\<rparr>)"
proof -
  have n: "0 < length (re_rs e)" "length (re_rs e) < 2 ^ 31"
    using assms by (simp_all add: recv_wf_def)
  have m: "t mod length (re_rs e) < length (re_rs e)"
    by (rule mod_less_divisor [OF n(1)])
  show u: "unat (of_nat (t mod length (re_rs e)) :: usize) = t mod length (re_rs e)"
    by (rule usize_nat) (use m n(2) in simp)
  show "recv_wf (e\<lparr>re_header := of_nat (t mod length (re_rs e))\<rparr>)"
    using assms m u by (auto simp: recv_wf_def re_nexts_def)
qed

section \<open>The iterator\<close>

lemma ri_at:
  assumes "i < k" "k \<le> length wcs" "k < 2 ^ 31"
  shows "ri_has_msgs \<lparr>ri_idx = of_nat i, ri_total = of_nat k, ri_bound = b\<rparr>"
    and "ri_next \<lparr>ri_idx = of_nat i, ri_total = of_nat k, ri_bound = b\<rparr> = \<lparr>ri_idx = of_nat (Suc i), ri_total = of_nat k, ri_bound = b\<rparr>"
    and "ri_cur_msg \<lparr>ri_idx = of_nat i, ri_total = of_nat k, ri_bound = b\<rparr> wcs = Inr (Some (wc_imm (wcs ! i), u64_ptr (wc_id (wcs ! i))))"
proof -
  have si: "sint (of_nat i :: c_int) = int i" "sint (of_nat k :: c_int) = int k" "unat (of_nat i :: c_int) = i"
    using assms usize_nat [of i] by (simp_all add: signed_of_nat signed_take_bit_int_eq_self)
  show has: "ri_has_msgs \<lparr>ri_idx = of_nat i, ri_total = of_nat k, ri_bound = b\<rparr>"
    using assms(1) by (simp add: ri_has_msgs_def word_sless_alt si)
  show "ri_next \<lparr>ri_idx = of_nat i, ri_total = of_nat k, ri_bound = b\<rparr> = \<lparr>ri_idx = of_nat (Suc i), ri_total = of_nat k, ri_bound = b\<rparr>"
    by (simp add: ri_next_def add.commute)
  show "ri_cur_msg \<lparr>ri_idx = of_nat i, ri_total = of_nat k, ri_bound = b\<rparr> wcs = Inr (Some (wc_imm (wcs ! i), u64_ptr (wc_id (wcs ! i))))"
    using has si assms by (simp add: ri_cur_msg_def word_sle_eq)
qed

lemma ri_end: "\<not> ri_has_msgs \<lparr>ri_idx = of_nat k, ri_total = of_nat k, ri_bound = b\<rparr>"
  by (simp add: ri_has_msgs_def)

lemma ri_collect_messages:
  assumes "k \<le> length wcs" "k < 2 ^ 31" "i \<le> k"
  shows "ri_collect \<lparr>ri_idx = of_nat i, ri_total = of_nat k, ri_bound = b\<rparr> wcs =
    Inr (map (\<lambda>w. (wc_imm w, u64_ptr (wc_id w))) (drop i (take k wcs)))"
  using assms(3)
proof (induction "k - i" arbitrary: i)
  case 0
  then show ?case
    by (subst ri_collect.simps) (simp add: ri_has_msgs_def word_sless_alt)
next
  case (Suc m)
  then have i: "i < k"
    by simp
  note r = ri_at [OF i assms(1,2), of b]
  have "drop i (take k wcs) = wcs ! i # drop (Suc i) (take k wcs)"
    using i assms(1) by (metis Cons_nth_drop_Suc length_take min.absorb2 nth_take)
  then show ?case
    using Suc.hyps(1) [of "Suc i"] Suc.hyps(2) i r
    by (subst ri_collect.simps) (simp del: of_nat_Suc)
qed

lemma ri_collect_none: "k <s 0 \<Longrightarrow> ri_collect \<lparr>ri_idx = 0, ri_total = k, ri_bound = b\<rparr> wcs = Inr []"
  by (subst ri_collect.simps) (simp add: ri_has_msgs_def word_sless_alt)

section \<open>The device's receive queue\<close>

text \<open>
  The documented behaviour of the device: posted receives queue up, and the completions
  polled from the receive queue are those of the oldest ones, in order. \<open>rq d h\<close> is the queue
  of the queue pair \<open>h\<close> in the driver's state \<open>d\<close>.
\<close>

definition recv_post_law :: "'d verbs \<Rightarrow> ('d \<Rightarrow> nat \<Rightarrow> (u64 \<times> sge) list) \<Rightarrow> bool" where
  "recv_post_law V rq \<longleftrightarrow>
     (\<forall>h wrs d. fst (v_post_recv V (Some h) wrs d) = 0 \<longrightarrow> rq (snd (v_post_recv V (Some h) wrs d)) h = rq d h @ wrs)"

definition recv_poll_law :: "'d verbs \<Rightarrow> ('d \<Rightarrow> nat \<Rightarrow> (u64 \<times> sge) list) \<Rightarrow> nat \<Rightarrow> nat \<Rightarrow> bool" where
  "recv_poll_law V rq h c \<longleftrightarrow>
     (\<forall>n d k ws d'. v_poll_cq V (Some c) n d = ((k, ws), d') \<longrightarrow>
        (if k <s 0 then ws = [] \<and> rq d' h = rq d h
         else length ws = unat k \<and> unat k \<le> n \<and>
              (\<exists>used. rq d h = used @ rq d' h \<and> map wc_id ws = map fst used)))"

definition recv_lawful :: "'d verbs \<Rightarrow> ('d \<Rightarrow> nat \<Rightarrow> (u64 \<times> sge) list) \<Rightarrow> nat \<Rightarrow> nat \<Rightarrow> bool" where
  "recv_lawful V rq h c \<longleftrightarrow> recv_post_law V rq \<and> recv_poll_law V rq h c \<and>
     (\<forall>wrs d. fst (v_post_recv V (Some h) wrs d) = 0)"

lemma recv_lawful_poll:
  assumes "recv_lawful V rq h c" "v_poll_cq V (Some c) n d = ((k, ws), d')"
  shows "k <s 0 \<Longrightarrow> ws = [] \<and> rq d' h = rq d h"
    and "\<not> k <s 0 \<Longrightarrow> length ws = unat k \<and> unat k \<le> n \<and> (\<exists>used. rq d h = used @ rq d' h \<and> map wc_id ws = map fst used)"
proof -
  have "recv_poll_law V rq h c"
    using assms(1) by (simp add: recv_lawful_def)
  then have "if k <s 0 then ws = [] \<and> rq d' h = rq d h
      else length ws = unat k \<and> unat k \<le> n \<and> (\<exists>used. rq d h = used @ rq d' h \<and> map wc_id ws = map fst used)"
    unfolding recv_poll_law_def using assms(2) by blast
  then show "k <s 0 \<Longrightarrow> ws = [] \<and> rq d' h = rq d h"
    and "\<not> k <s 0 \<Longrightarrow> length ws = unat k \<and> unat k \<le> n \<and> (\<exists>used. rq d h = used @ rq d' h \<and> map wc_id ws = map fst used)"
    by simp_all
qed

text \<open>All entries are posted, the oldest is the entry number \<open>t\<close> (counted from the start).\<close>

definition posted_from :: "recv_entries \<Rightarrow> nat \<Rightarrow> (u64 \<times> sge) list" where
  "posted_from e t = map (re_desc e) (ring_seg (length (re_rs e)) t (length (re_rs e)))"

definition recv_bufs :: "recv_entries \<Rightarrow> nat \<Rightarrow> nat \<Rightarrow> ptr list" where
  "recv_bufs e t k = map (\<lambda>i. u64_ptr (rw_id (re_rs e ! i))) (ring_seg (length (re_rs e)) t k)"

definition at_entry :: "recv_entries \<Rightarrow> nat \<Rightarrow> bool" where
  "at_entry e t \<longleftrightarrow> recv_wf e \<and> re_header e = of_nat (t mod length (re_rs e))"

lemma at_entry_header: "at_entry e t \<Longrightarrow> unat (re_header e) = t mod length (re_rs e)"
  using re_header_at(1) [of e t] by (simp add: at_entry_def)

lemma posted_from_parts:
  assumes "k \<le> length (re_rs e)"
  shows "posted_from e t = map (re_desc e) (ring_seg (length (re_rs e)) t k) @
           map (re_desc e) (ring_seg (length (re_rs e)) (t + k) (length (re_rs e) - k))"
    and "map (re_desc e) (ring_seg (length (re_rs e)) (t + k) (length (re_rs e) - k)) @
           map (re_desc e) (ring_seg (length (re_rs e)) t k) = posted_from e (t + k)"
proof -
  show "posted_from e t = map (re_desc e) (ring_seg (length (re_rs e)) t k) @
           map (re_desc e) (ring_seg (length (re_rs e)) (t + k) (length (re_rs e) - k))"
    using assms ring_seg_add [of "length (re_rs e)" t k "length (re_rs e) - k"] by (simp add: posted_from_def)
  have "ring_seg (length (re_rs e)) (t + k) (length (re_rs e) - k) @ ring_seg (length (re_rs e)) t k =
      ring_seg (length (re_rs e)) (t + k) (length (re_rs e))"
    using assms ring_seg_add [of "length (re_rs e)" "t + k" "length (re_rs e) - k" k]
      ring_seg_turn [of "length (re_rs e)" t k] by simp
  then show "map (re_desc e) (ring_seg (length (re_rs e)) (t + k) (length (re_rs e) - k)) @
           map (re_desc e) (ring_seg (length (re_rs e)) t k) = posted_from e (t + k)"
    by (simp add: posted_from_def flip: map_append)
qed

lemma ri_new_apply:
  assumes "v_poll_cq V (d_recv_cq q) (length (re_rs e)) d = ((k, ws), d1)"
  shows "ri_new V q e d =
    (Inr (\<lparr>ri_idx = 0, ri_total = k, ri_bound = True\<rparr>, e\<lparr>re_wcs := ws @ drop (length ws) (re_wcs e)\<rparr>), d1)"
  using assms by (simp add: ri_new_def ri_of_cq_def ri_default_def poll_into_def act_simps)

text \<open>The first half of a pass: what a successful poll brought are the oldest entries.\<close>

lemma pass_collects:
  fixes ws :: "wc list" and kk :: c_int
  defines "ms \<equiv> map (\<lambda>w. (wc_imm w, u64_ptr (wc_id w))) ws" and "k \<equiv> unat kk"
  assumes law: "recv_lawful V rq h c" and e: "at_entry e t" "rq d h = posted_from e t"
    and poll: "v_poll_cq V (Some c) (length (re_rs e)) d = ((kk, ws), d1)" "\<not> kk <s 0"
  shows "kk = of_nat k" "k < 2 ^ 31" "k \<le> length (re_rs e)" "length ws = k"
    "recv_wf (e\<lparr>re_wcs := ws @ drop (length ws) (re_wcs e)\<rparr>)"
    "ri_collect \<lparr>ri_idx = 0, ri_total = kk, ri_bound = True\<rparr> (ws @ drop (length ws) (re_wcs e)) = Inr ms"
    "map snd ms = recv_bufs e t k"
    "rq d1 h = map (re_desc e) (ring_seg (length (re_rs e)) (t + k) (length (re_rs e) - k))"
proof -
  have wf: "recv_wf e"
    using e(1) by (simp add: at_entry_def)
  obtain used where k: "length ws = k" "k \<le> length (re_rs e)"
    and u: "rq d h = used @ rq d1 h" "map wc_id ws = map fst used"
    using recv_lawful_poll(2) [OF law poll] by (auto simp: k_def)
  then show "length ws = k" "k \<le> length (re_rs e)"
    by simp_all
  have kk: "kk = of_nat k" "k < 2 ^ 31" "length (re_wcs e) = length (re_rs e)"
    using wf k(2) by (auto simp: k_def recv_wf_def)
  then show "kk = of_nat k" "k < 2 ^ 31"
    by simp_all
  have "length used = k"
    using k(1) u(2) by (metis length_map)
  then have used: "used = map (re_desc e) (ring_seg (length (re_rs e)) t k)"
    and rest: "rq d1 h = map (re_desc e) (ring_seg (length (re_rs e)) (t + k) (length (re_rs e) - k))"
    using u(1) e(2) posted_from_parts(1) [OF k(2), of t] by (simp_all add: append_eq_append_conv)
  show "rq d1 h = map (re_desc e) (ring_seg (length (re_rs e)) (t + k) (length (re_rs e) - k))"
    by (rule rest)
  show "recv_wf (e\<lparr>re_wcs := ws @ drop (length ws) (re_wcs e)\<rparr>)"
    using wf k kk(3) by (auto simp: recv_wf_def re_nexts_def)
  show "ri_collect \<lparr>ri_idx = 0, ri_total = kk, ri_bound = True\<rparr> (ws @ drop (length ws) (re_wcs e)) = Inr ms"
    using ri_collect_messages [of k "ws @ drop (length ws) (re_wcs e)" 0 True] k kk by (simp add: ms_def)
  have "map snd ms = map (\<lambda>x. u64_ptr (fst x)) used"
    using arg_cong [OF u(2), of "map u64_ptr"] by (simp add: ms_def comp_def)
  then show "map snd ms = recv_bufs e t k"
    by (simp add: used recv_bufs_def re_desc_def comp_def)
qed

text \<open>The second half: clearing the iterator posts these entries again, behind the others.\<close>

lemma clear_reposts:
  assumes law: "recv_lawful V rq h c" and q: "d_qp q = Some h" and wf: "recv_wf e" "unat (re_header e) = t mod length (re_rs e)"
    and k: "0 < k" "k \<le> length (re_rs e)" "k < 2 ^ 31"
    and rest: "rq d h = map (re_desc e) (ring_seg (length (re_rs e)) (t + k) (length (re_rs e) - k))"
  obtains e' d' where "ri_clear V q e \<lparr>ri_idx = 0, ri_total = of_nat k, ri_bound = True\<rparr> d =
      (Inr (\<lparr>ri_idx = 0, ri_total = - 1, ri_bound = True\<rparr>, e'), d')"
    and "re_rs e' = re_rs e" "re_sges e' = re_sges e" "at_entry e' (t + k)" "rq d' h = posted_from e' (t + k)"
proof -
  obtain j where j: "k = Suc j"
    using k(1) by (cases k) auto
  let ?wrs = "map (re_desc e) (ring_seg (length (re_rs e)) (unat (re_header e)) (Suc j))"
  obtain d' where d': "v_post_recv V (Some h) ?wrs d = (0, d')"
    using law unfolding recv_lawful_def by (metis prod.collapse)
  let ?e = "e\<lparr>re_header := of_nat ((unat (re_header e) + Suc j) mod length (re_rs e))\<rparr>"
  have "post_recvs V q e (of_nat (Suc j)) d = (Inr (Ok 0, ?e), d')"
    using post_recvs_ok [OF wf(1), of j V q d d'] d' j k(2) q by simp
  moreover have "0 <s (of_nat k :: c_int)"
    using k by (simp add: word_sless_alt signed_of_nat signed_take_bit_int_eq_self)
  ultimately have clear: "ri_clear V q e \<lparr>ri_idx = 0, ri_total = of_nat k, ri_bound = True\<rparr> d =
      (Inr (\<lparr>ri_idx = 0, ri_total = - 1, ri_bound = True\<rparr>, ?e), d')"
    by (simp add: ri_clear_def act_simps j del: of_nat_Suc)
  have "rq d' h = rq d h @ ?wrs"
    using law d' unfolding recv_lawful_def recv_post_law_def by (metis fst_conv snd_conv)
  also have "\<dots> = posted_from e (t + k)"
    using posted_from_parts(2) [OF k(2), of t] by (simp add: rest wf(2) j)
  also have "\<dots> = posted_from ?e (t + k)"
    by (simp add: posted_from_def re_desc_def)
  finally have rq: "rq d' h = posted_from ?e (t + k)" .
  have "(unat (re_header e) + k) mod length (re_rs e) = (t + k) mod length (re_rs e)"
    by (simp add: wf(2) mod_add_left_eq)
  then have "at_entry ?e (t + k)"
    using re_header_at(2) [OF wf(1), of "t + k"] by (simp add: at_entry_def j)
  with that [OF clear] rq show thesis
    by simp
qed

text \<open>One pass from a full queue.\<close>

lemma recv_pass_step:
  assumes law: "recv_lawful V rq h c" and q: "d_qp q = Some h" "d_recv_cq q = Some c"
    and e: "at_entry e t" "rq d h = posted_from e t"
  obtains k ms e' d' where "recv_pass V q e d = (Inr (ms, e'), d')"
    and "map snd ms = recv_bufs e t k" "re_rs e' = re_rs e" "re_sges e' = re_sges e"
    and "at_entry e' (t + k)" "rq d' h = posted_from e' (t + k)"
proof -
  obtain kk ws d1 where poll: "v_poll_cq V (Some c) (length (re_rs e)) d = ((kk, ws), d1)"
    by (metis prod.collapse)
  let ?e1 = "e\<lparr>re_wcs := ws @ drop (length ws) (re_wcs e)\<rparr>"
  have new: "ri_new V q e d = (Inr (\<lparr>ri_idx = 0, ri_total = kk, ri_bound = True\<rparr>, ?e1), d1)"
    using ri_new_apply [of V q e d kk ws d1] poll q(2) by simp
  show thesis
  proof (cases "kk <s 0")
    case True
    then have "ws = []" "rq d1 h = rq d h" "\<not> 0 <s kk"
      using recv_lawful_poll(1) [OF law poll] by (simp_all add: word_sless_alt)
    moreover from this have "recv_pass V q e d = (Inr ([], e), d1)"
      using True new by (simp add: recv_pass_def act_simps ri_collect_none ri_clear_def)
    ultimately show thesis
      using that [of "[]" e d1 0] e by (simp add: recv_bufs_def)
  next
    case False
    note col = pass_collects [OF law e poll False]
    show thesis
    proof (cases "unat kk = 0")
      case True
      then have "recv_pass V q e d = (Inr ([], e), d1)"
        using new col(1,4,6) by (simp add: recv_pass_def act_simps ri_clear_def)
      then show thesis
        using that [of "[]" e d1 0] e True col(8) by (simp add: recv_bufs_def posted_from_def)
    next
      case False
      have same: "re_desc ?e1 = re_desc e" "unat (re_header ?e1) = t mod length (re_rs ?e1)"
        using e(1) at_entry_header by (auto simp: re_desc_def fun_eq_iff)
      obtain e2 d2 where clear: "ri_clear V q ?e1 \<lparr>ri_idx = 0, ri_total = of_nat (unat kk), ri_bound = True\<rparr> d1 =
            (Inr (\<lparr>ri_idx = 0, ri_total = - 1, ri_bound = True\<rparr>, e2), d2)"
          "re_rs e2 = re_rs ?e1" "re_sges e2 = re_sges ?e1" "at_entry e2 (t + unat kk)" "rq d2 h = posted_from e2 (t + unat kk)"
        by (rule clear_reposts [OF law q(1) col(5) same(2), of "unat kk" d1]) (use False col(2,3,8) same(1) in auto)
      have "recv_pass V q e d = (Inr (map (\<lambda>w. (wc_imm w, u64_ptr (wc_id w))) ws, e2), d2)"
        using new col(1,6) clear(1) by (simp add: recv_pass_def act_simps)
      then show thesis
        using that [of _ e2 d2 "unat kk"] col(7) clear(2-5) by simp
    qed
  qed
qed

section \<open>Any number of passes\<close>

fun recv_passes ::
  "'d verbs \<Rightarrow> ('x) qp_dummy_scheme \<Rightarrow> nat \<Rightarrow> recv_entries \<Rightarrow> ('d, (u32 \<times> ptr) list \<times> recv_entries) act"
where
  "recv_passes V q 0 e = retA ([], e)"
| "recv_passes V q (Suc m) e =
     bindA (recv_pass V q e) (\<lambda>(ms, e').
     bindA (recv_passes V q m e') (\<lambda>(ms', e''). retA (ms @ ms', e'')))"

lemma posted_from_cong: "re_rs e' = re_rs e \<Longrightarrow> re_sges e' = re_sges e \<Longrightarrow> posted_from e' t = posted_from e t"
  by (simp add: posted_from_def re_desc_def)

lemma recv_passes_from:
  assumes "recv_lawful V rq h c" "d_qp q = Some h" "d_recv_cq q = Some c"
    and "at_entry e t" "rq d h = posted_from e t"
  shows "\<exists>k ms e' d'. recv_passes V q m e d = (Inr (ms, e'), d') \<and> map snd ms = recv_bufs e t k \<and>
           rq d' h = posted_from e (t + k)"
  using assms(4,5)
proof (induction m arbitrary: e t d)
  case 0
  then show ?case
    by (auto simp: retA_def recv_bufs_def intro: exI [of _ "0::nat"])
next
  case (Suc m)
  obtain k ms e1 d1 where p: "recv_pass V q e d = (Inr (ms, e1), d1)" "map snd ms = recv_bufs e t k"
      "re_rs e1 = re_rs e" "re_sges e1 = re_sges e" "at_entry e1 (t + k)" "rq d1 h = posted_from e1 (t + k)"
    using recv_pass_step [OF assms(1-3) Suc.prems] .
  obtain k' ms' e' d' where r: "recv_passes V q m e1 d1 = (Inr (ms', e'), d')" "map snd ms' = recv_bufs e1 (t + k) k'"
      "rq d' h = posted_from e1 (t + k + k')"
    using Suc.IH [OF p(5,6)] by blast
  have "recv_passes V q (Suc m) e d = (Inr (ms @ ms', e'), d')"
    using p(1) r(1) by (simp add: act_simps)
  moreover have "map snd (ms @ ms') = recv_bufs e t (k + k')"
    using p(2,3) r(2) by (simp add: recv_bufs_def ring_seg_add)
  moreover have "rq d' h = posted_from e (t + (k + k'))"
    using r(3) posted_from_cong [OF p(3,4)] by (simp add: add.assoc)
  ultimately show ?case
    by blast
qed

lemma mset_ring_seg: "0 < n \<Longrightarrow> mset (ring_seg n t n) = mset [0..<n]"
  using set_eq_iff_mset_eq_distinct [OF distinct_ring_seg [of n n t], of "[0..<n]"] ring_seg_cycle [of n t]
  by (simp add: lessThan_atLeast0)


text \<open>A device of the model that is nothing but one receive queue, for the witnesses.\<close>

definition null_verbs :: "'d verbs" where
  "null_verbs = \<lparr>
     v_get_device_list = (\<lambda>d. ((0, None), d)), v_open_device = (\<lambda>_ d. (None, d)), v_close_device = (\<lambda>_ d. (0, d)),
     v_alloc_pd = (\<lambda>_ d. (None, d)), v_dealloc_pd = (\<lambda>_ d. (0, d)),
     v_query_port = (\<lambda>_ _ d. ((0, \<lparr>pt_active = True, pt_lid = 4\<rparr>), d)), v_query_gid = (\<lambda>_ _ _ d. (None, d)),
     v_query_device = (\<lambda>_ d. ((0, 0), d)), v_reg_mr = (\<lambda>_ _ _ _ d. (None, d)), v_dereg_mr = (\<lambda>_ d. (0, d)),
     v_create_cq = (\<lambda>_ _ d. (None, d)), v_destroy_cq = (\<lambda>_ d. (0, d)), v_create_qp = (\<lambda>_ _ d. (None, d)),
     v_create_qp_ex = (\<lambda>_ _ _ d. (None, d)), v_destroy_qp = (\<lambda>_ d. (0, d)),
     v_create_srq = (\<lambda>_ _ _ d. (None, d)), v_destroy_srq = (\<lambda>_ d. (0, d)),
     v_create_dct = (\<lambda>_ _ d. ((None, 0), d)), v_destroy_dct = (\<lambda>_ d. (0, d)), v_create_ah = (\<lambda>_ _ d. (None, d)),
     v_qp_type = (\<lambda>_ _. QPT_RC), v_qp_num = (\<lambda>_ _. 0), v_modify_qp = (\<lambda>_ _ _ d. (0, d)),
     v_query_qp_state = (\<lambda>_ d. ((0, QPS_RTS), d)), v_post_send = (\<lambda>_ _ d. (0, d)), v_exp_post_send = (\<lambda>_ _ d. (0, d)),
     v_post_recv = (\<lambda>_ _ d. (0, d)), v_poll_cq = (\<lambda>_ _ d. ((0, []), d)),
     v_errno = (\<lambda>_. 22), v_strerror = (\<lambda>_. []), v_access = sample_flags, v_signaled = 2, v_inline = 8,
     v_now = (\<lambda>d. (0, d))\<rparr>"

definition rq_verbs :: "(u64 \<times> sge) list verbs" where
  "rq_verbs = null_verbs\<lparr>v_post_recv := (\<lambda>_ wrs d. (0, d @ wrs)),
     v_poll_cq := (\<lambda>_ n d. case d of [] \<Rightarrow> ((0, []), [])
       | x # xs \<Rightarrow> if n = 0 then ((0, []), d) else ((1, [\<lparr>wc_id = fst x, wc_ok = True, wc_imm = 7\<rparr>]), xs))\<rparr>"

lemma rq_lawful: "recv_lawful rq_verbs (\<lambda>d _. d) h c"
  by (auto simp: recv_lawful_def recv_post_law_def recv_poll_law_def rq_verbs_def word_sless_alt
      split: list.splits if_splits)

text \<open>Buffers of 64 bytes from one region.\<close>

definition sample_alloc :: "usize \<Rightarrow> nat \<Rightarrow> (ptr \<times> u32) option \<times> nat" where
  "sample_alloc sz a = (Some (Some a, 3), a + 64)"

definition sample_qp :: "unit qp_dummy_scheme" where
  "sample_qp = \<lparr>d_qp = Some 1, d_cq = Some 2, d_recv_cq = Some 3, d_out_signaled = 0, d_nic = sample_nic\<rparr>"

lemma sample_entries: "\<exists>e a'. recv_entries_create sample_alloc 4 64 4096 = (Inr e, a')"
  unfolding recv_entries_create_def by (rule recv_fill_returns) (simp add: sample_alloc_def)


section \<open>A failed post\<close>

lemma post_tail_set_next [simp]: "post_tail (re_set_next i v e) num = post_tail e num"
  by (simp add: post_tail_def)

text \<open>
  After a failed post the ring stays cut. The next post, of more entries, hands the device
  only the entries up to the cut, yet moves the header past all of them: the buffers
  between are never posted.
\<close>
theorem failed_post_cuts_ring:
  assumes "recv_wf e" and "k < j" and "j < length (re_rs e)"
    and "sent = map (re_desc e) (ring_seg (length (re_rs e)) (unat (re_header e)) (Suc k))"
    and "v_post_recv V (d_qp q) sent d = (rc, d1)" and "rc \<noteq> 0"
    and "v_post_recv V (d_qp q) sent d1 = (0, d2)"
  shows "\<exists>e1 e2. post_recvs V q e (of_nat (Suc k)) d = (Inr (Err (v_errno V d1), e1), d1) \<and>
    post_recvs V q e1 (of_nat (Suc j)) d1 = (Inr (Ok 0, e2), d2) \<and>
    unat (re_header e2) = (unat (re_header e) + Suc j) mod length (re_rs e)"
proof -
  let ?h = "unat (re_header e)" and ?n = "length (re_rs e)"
  let ?t1 = "(?h + k) mod ?n" and ?t2 = "(?h + j) mod ?n"
  have wf: "ring (re_nexts e)" "re_nexts e \<noteq> []" "?h < ?n" "?t1 < ?n" "?t2 < ?n"
    using assms(1) by (auto simp: recv_wf_def re_nexts_def)
  let ?e1 = "re_set_next ?t1 None e"
  have first: "post_recvs V q e (of_nat (Suc k)) d = (Inr (Err (v_errno V d1), ?e1), d1)"
    using post_recvs_call [OF assms(1), of k V q d rc d1] assms(2-6) by simp
  have "chain (re_nexts ?e1) (Some ?h) = Inr (ring_seg ?n ?h (Suc k))"
    using re_link.posted_cut [of e ?h k] wf assms(2,3) by simp
  moreover have "?t2 \<notin> set (ring_seg ?n ?h (Suc k))"
  proof -
    have "set (ring_seg ?n ?h (Suc k)) \<subseteq> set (ring_seg ?n ?h j)"
      using assms(2) ring_seg_add [of ?n ?h "Suc k" "j - Suc k"] by auto
    moreover have "?t2 \<notin> set (ring_seg ?n ?h j)"
      using assms(3) distinct_ring_seg [of "Suc j" ?n ?h] by (simp add: ring_seg_Suc)
    ultimately show ?thesis
      by blast
  qed
  ultimately have "chain (re_nexts (re_set_next ?t2 None ?e1)) (Some ?h) = Inr (ring_seg ?n ?h (Suc k))"
    by (simp add: chain_path re_link.nexts_set)
  then have posted: "re_posted (re_set_next ?t2 None ?e1) = Inr sent"
    by (simp add: re_posted_def assms(4))
  let ?e2 = "?e1\<lparr>re_header := of_nat ((?h + Suc j) mod ?n)\<rparr>"
  have "post_recvs V q ?e1 (of_nat (Suc j)) d1 = (Inr (Ok 0, ?e2), d2)"
    using posted wf assms(7) re_set_next_restore [of ?t2 ?e1]
    by (simp add: post_recvs_def Let_def post_tail_unat [OF assms(1,3)] act_simps wr_ptr_def del: of_nat_Suc)
  with first show ?thesis
    using re_header_at(1) [OF assms(1), of "?h + Suc j"] by auto
qed

text \<open>A device that refuses the first post.\<close>

definition once_failing :: "bool verbs" where
  "once_failing = null_verbs\<lparr>v_post_recv := (\<lambda>_ _ d. (if d then 12 else 0, False))\<rparr>"

theorem failed_post_cuts_ring_witness:
  "\<exists>e a' e1 e2. recv_entries_create sample_alloc 4 64 4096 = (Inr e, a') \<and>
     post_recvs once_failing sample_qp e 1 True = (Inr (Err 22, e1), False) \<and>
     post_recvs once_failing sample_qp e1 3 False = (Inr (Ok 0, e2), False) \<and> unat (re_header e2) = 3"
proof -
  obtain e a' where c: "recv_entries_create sample_alloc 4 64 4096 = (Inr e, a')"
    using sample_entries by blast
  note wf = recv_entries_create_wf [OF c]
  have "recv_wf e" "length (re_rs e) = 4" "re_header e = 0"
    using wf by simp_all
  with failed_post_cuts_ring [of e 0 2 _ once_failing sample_qp True 12 False False] c show ?thesis
    by (simp add: once_failing_def null_verbs_def del: split_paired_Ex)
qed

end
