(* ===== verification/RecvAlloc.thy ===== *)
theory RecvAlloc
  imports RecvSpec "HOL-Library.Disjoint_Sets"
begin

text \<open>
  Allocators of receive buffers: the contract of \<open>AbsRecvAllocator\<close>
  (core/qps/abs_recv_allocator.hh) as a locale, what the factory of receive entries makes of
  any allocator that keeps it, and \<open>SimpleAllocator\<close>, with which the programs of examples/
  cut their receive buffers from one registered memory (examples/ud_pingpong/server.cc).
\<close>

section \<open>The contract of an allocator\<close>

definition sge_mem :: "sge \<Rightarrow> nat set" where
  "sge_mem s = {unat (sge_addr s) ..< unat (sge_addr s) + unat (sge_length s)}"

definition entry_mem :: "recv_entries \<Rightarrow> nat \<Rightarrow> nat set" where
  "entry_mem e i = sge_mem (re_sges e ! i)"

text \<open>
  \<open>free_mem\<close> holds the addresses still to be handed out: a buffer comes out of it and is gone
  from it afterwards. All buffers are of one registered region, with the key \<open>region_key\<close>.
\<close>

locale recv_allocator =
  fixes alloc_one :: "usize \<Rightarrow> 'al \<Rightarrow> (ptr \<times> u32) option \<times> 'al"
    and good :: "'al \<Rightarrow> bool"
    and free_mem :: "'al \<Rightarrow> nat set"
    and region_key :: "'al \<Rightarrow> u32"
  assumes handed_out:
    "good a \<Longrightarrow> alloc_one sz a = (Some (p, k), a') \<Longrightarrow>
       good a' \<and> k = region_key a \<and> region_key a' = region_key a \<and>
       sge_mem \<lparr>sge_addr = ptr_u64 p, sge_length = sz, sge_lkey = k\<rparr> \<subseteq> free_mem a \<and>
       free_mem a' \<subseteq> free_mem a - sge_mem \<lparr>sge_addr = ptr_u64 p, sge_length = sz, sge_lkey = k\<rparr>"
begin

lemma fill_buffers:
  assumes "recv_fill alloc_one sz i k e a = (Inr e', a')" "good a"
    "i + k \<le> length (re_rs e)" "length (re_sges e) = length (re_rs e)"
  shows "good a' \<and> free_mem a' \<subseteq> free_mem a \<and> (\<forall>j < i. re_sges e' ! j = re_sges e ! j) \<and>
    (\<forall>j \<in> {i..<i + k}. entry_mem e' j \<subseteq> free_mem a - free_mem a' \<and> sge_length (re_sges e' ! j) = sz \<and>
       sge_lkey (re_sges e' ! j) = region_key a) \<and>
    disjoint_family_on (entry_mem e') {i..<i + k}"
  using assms
proof (induction k arbitrary: i e a)
  case 0
  then show ?case
    by (simp add: retA_def disjoint_family_on_def)
next
  case (Suc k)
  obtain o1 a1 where o1: "alloc_one sz a = (o1, a1)"
    by fastforce
  then obtain buf key where b: "o1 = Some (buf, key)"
    using Suc.prems(1) by (cases o1) (auto simp: bindA_def callA_def liftA_def)
  let ?s = "\<lparr>sge_addr = ptr_u64 buf, sge_length = sz, sge_lkey = key\<rparr>"
  let ?e = "e\<lparr>re_rs := (re_rs e)[i := recv_entry (length (re_rs e)) i buf], re_sges := (re_sges e)[i := ?s]\<rparr>"
  have law: "good a1" "key = region_key a" "region_key a1 = region_key a" "sge_mem ?s \<subseteq> free_mem a"
      "free_mem a1 \<subseteq> free_mem a - sge_mem ?s"
    using handed_out [OF Suc.prems(2) o1 [unfolded b]] by auto
  have "recv_fill alloc_one sz (Suc i) k ?e a1 = (Inr e', a')"
    using Suc.prems(1) by (simp add: bindA_def callA_def liftA_def o1 b)
  from Suc.IH [OF this law(1)] Suc.prems(3,4)
  have ih: "good a'" "free_mem a' \<subseteq> free_mem a1" "\<forall>j < Suc i. re_sges e' ! j = re_sges ?e ! j"
      "\<forall>j \<in> {Suc i..<Suc i + k}. entry_mem e' j \<subseteq> free_mem a1 - free_mem a' \<and> sge_length (re_sges e' ! j) = sz \<and>
         sge_lkey (re_sges e' ! j) = region_key a"
      "disjoint_family_on (entry_mem e') {Suc i..<Suc i + k}"
    by (auto simp: law(3))
  have at_i: "re_sges e' ! i = ?s" "entry_mem e' i = sge_mem ?s"
    using ih(3) Suc.prems(3,4) by (auto simp: entry_mem_def)
  have range: "{i..<i + Suc k} = insert i {Suc i..<Suc i + k}"
    by auto
  have "disjoint_family_on (entry_mem e') {i..<i + Suc k}"
    unfolding range using ih(4,5) law(5) at_i(2)
    by (subst disjoint_family_on_insert) (auto simp: subset_iff disjoint_iff)
  moreover have "\<forall>j < i. re_sges e' ! j = re_sges e ! j"
    using ih(3) by simp
  moreover have "\<forall>j \<in> {i..<i + Suc k}. entry_mem e' j \<subseteq> free_mem a - free_mem a' \<and>
      sge_length (re_sges e' ! j) = sz \<and> sge_lkey (re_sges e' ! j) = region_key a"
  proof -
    have "free_mem a1 \<subseteq> free_mem a" "sge_mem ?s \<subseteq> free_mem a - free_mem a'"
      using law(4,5) ih(2) by auto
    then show ?thesis
      unfolding range using ih(4) law(2) at_i by fastforce
  qed
  ultimately show ?case
    using ih(1,2) law(5) by blast
qed

text \<open>The factory gives every entry a buffer of its own, inside the allocator's memory.\<close>

lemma create_buffers:
  assumes "recv_entries_create alloc_one n sz a = (Inr e, a')" "good a"
  shows "disjoint_family_on (entry_mem e) {..<n}"
    and "i < n \<Longrightarrow> entry_mem e i \<subseteq> free_mem a - free_mem a'"
    and "i < n \<Longrightarrow> sge_length (re_sges e ! i) = sz \<and> sge_lkey (re_sges e ! i) = region_key a"
  using fill_buffers [of sz 0 n "recv_entries_blank n" a e a'] assms
  by (simp_all add: recv_entries_create_def recv_entries_blank_def atLeast0LessThan)

end

section \<open>SimpleAllocator\<close>

record simple_alloc =
  sa_buf :: ptr
  sa_total :: usize
  sa_key :: u32

text \<open>The size of the memory is a \<open>u64\<close>; the member that holds it has 32 bits.\<close>

definition sa_new :: "rmem \<Rightarrow> u32 \<Rightarrow> simple_alloc" where
  "sa_new mem key = \<lparr>sa_buf = rm_ptr mem, sa_total = ucast (rm_sz mem), sa_key = key\<rparr>"

definition sa_alloc_one :: "usize \<Rightarrow> simple_alloc \<Rightarrow> (ptr \<times> u32) option \<times> simple_alloc" where
  "sa_alloc_one sz a =
     (if sa_total a < sz then (None, a)
      else (Some (sa_buf a, sa_key a),
            a\<lparr>sa_buf := u64_ptr (ptr_u64 (sa_buf a) + ucast sz), sa_total := sa_total a - sz\<rparr>))"

definition sa_alloc_one_for_remote :: "usize \<Rightarrow> simple_alloc \<Rightarrow> (ptr \<times> reg_attr) option \<times> simple_alloc" where
  "sa_alloc_one_for_remote sz a = (None, a)"

definition sa_at :: "nat \<Rightarrow> nat \<Rightarrow> u32 \<Rightarrow> simple_alloc" where
  "sa_at b t key = \<lparr>sa_buf = Some b, sa_total = of_nat t, sa_key = key\<rparr>"

definition sa_good :: "simple_alloc \<Rightarrow> bool" where
  "sa_good a \<longleftrightarrow> (case sa_buf a of None \<Rightarrow> False | Some b \<Rightarrow> 0 < b \<and> b + unat (sa_total a) < 2 ^ 64)"

definition sa_free :: "simple_alloc \<Rightarrow> nat set" where
  "sa_free a = (case sa_buf a of None \<Rightarrow> {} | Some b \<Rightarrow> {b ..< b + unat (sa_total a)})"

lemma u64_of_nat: "b < 2 ^ 64 \<Longrightarrow> unat (of_nat b :: u64) = b"
  by (simp add: unat_of_nat)

lemma sa_alloc_at:
  assumes "0 < b" "b + t < 2 ^ 64" "t < 2 ^ 32"
  shows "sa_alloc_one sz (sa_at b t key) =
    (if t < unat sz then (None, sa_at b t key)
     else (Some (Some b, key), sa_at (b + unat sz) (t - unat sz) key))"
proof -
  have t: "unat (of_nat t :: usize) = t"
    using assms(3) by (rule usize_nat)
  have "(of_nat b :: u64) + ucast sz = of_nat (b + unat sz)"
    by simp
  moreover have "unat (of_nat (b + unat sz) :: u64) = b + unat sz" if "unat sz \<le> t"
    by (rule u64_of_nat) (use that assms in linarith)
  moreover have "(of_nat t :: usize) - sz = of_nat (t - unat sz)" if "unat sz \<le> t"
    using that by (simp add: of_nat_diff)
  moreover have "(of_nat (b + unat sz) :: u64) \<noteq> 0" if "unat sz \<le> t"
    using calculation(2) [OF that] assms(1) by (metis add_is_0 less_numeral_extra(3) unat_0)
  ultimately show ?thesis
    using t by (auto simp: sa_alloc_one_def sa_at_def u64_ptr_def ptr_u64_def word_less_nat_alt simp del: of_nat_add)
qed

lemma sa_goodE:
  assumes "sa_good a"
  obtains b t where "a = sa_at b t (sa_key a)" "0 < b" "b + t < 2 ^ 64" "t < 2 ^ 32" "sa_free a = {b..<b + t}"
proof -
  obtain b where "sa_buf a = Some b" "0 < b" "b + unat (sa_total a) < 2 ^ 64"
    using assms by (auto simp: sa_good_def split: option.splits)
  moreover have "unat (sa_total a) < 2 ^ 32"
    using unsigned_less [of "sa_total a"] by simp
  ultimately show ?thesis
    using that [of b "unat (sa_total a)"] by (simp add: sa_at_def sa_free_def)
qed

interpretation sa: recv_allocator sa_alloc_one sa_good sa_free sa_key
proof
  fix a sz p k a'
  assume g: "sa_good a" and al: "sa_alloc_one sz a = (Some (p, k), a')"
  obtain b t where a: "a = sa_at b t (sa_key a)" "0 < b" "b + t < 2 ^ 64" "t < 2 ^ 32" "sa_free a = {b..<b + t}"
    using g by (rule sa_goodE)
  have r: "unat sz \<le> t" "p = Some b" "k = sa_key a" "a' = sa_at (b + unat sz) (t - unat sz) (sa_key a)"
    using al a(1) sa_alloc_at [OF a(2-4), of sz "sa_key a"] by (auto split: if_splits)
  have u: "unat (of_nat b :: u64) = b" "unat (of_nat (t - unat sz) :: usize) = t - unat sz"
    using a(3,4) u64_of_nat [of b] usize_nat [of "t - unat sz"] by linarith+
  have "sa_good a'" "sa_free a' = {b + unat sz..<b + t}" "sa_key a' = sa_key a"
    using a(2-4) r u(2) by (auto simp: sa_good_def sa_free_def sa_at_def simp del: of_nat_diff)
  moreover have "sge_mem \<lparr>sge_addr = ptr_u64 p, sge_length = sz, sge_lkey = k\<rparr> = {b..<b + unat sz}"
    by (simp add: sge_mem_def r(2) ptr_u64_def u(1))
  ultimately show "sa_good a' \<and> k = sa_key a \<and> sa_key a' = sa_key a \<and>
       sge_mem \<lparr>sge_addr = ptr_u64 p, sge_length = sz, sge_lkey = k\<rparr> \<subseteq> sa_free a \<and>
       sa_free a' \<subseteq> sa_free a - sge_mem \<lparr>sge_addr = ptr_u64 p, sge_length = sz, sge_lkey = k\<rparr>"
    using r(1,3) a(5) by auto
qed

section \<open>Receive entries from a SimpleAllocator\<close>

lemma sa_fill_step:
  fixes e :: recv_entries
  assumes "0 < b" "b + t < 2 ^ 64" "t < 2 ^ 32" "unat sz \<le> t"
  obtains e' where "recv_fill sa_alloc_one sz i (Suc k) e (sa_at b t key) =
      recv_fill sa_alloc_one sz (Suc i) k e' (sa_at (b + unat sz) (t - unat sz) key)"
    "length (re_rs e') = length (re_rs e)"
    "re_sges e' = (re_sges e)[i := \<lparr>sge_addr = of_nat b, sge_length = sz, sge_lkey = key\<rparr>]"
proof -
  let ?e = "e\<lparr>re_rs := (re_rs e)[i := recv_entry (length (re_rs e)) i (Some b)],
      re_sges := (re_sges e)[i := \<lparr>sge_addr = ptr_u64 (Some b), sge_length = sz, sge_lkey = key\<rparr>]\<rparr>"
  have "recv_fill sa_alloc_one sz i (Suc k) e (sa_at b t key) =
      recv_fill sa_alloc_one sz (Suc i) k ?e (sa_at (b + unat sz) (t - unat sz) key)"
    using sa_alloc_at [OF assms(1-3), of sz key] assms(4) by (simp add: bindA_def callA_def liftA_def opt_value_def)
  then show thesis
    using that by (simp add: ptr_u64_def)
qed

lemma sa_fill_fits:
  assumes "0 < b" "b + t < 2 ^ 64" "t < 2 ^ 32" "i + k \<le> length (re_rs e)" "length (re_sges e) = length (re_rs e)" "k * unat sz \<le> t"
  shows "\<exists>e'. recv_fill sa_alloc_one sz i k e (sa_at b t key) = (Inr e', sa_at (b + k * unat sz) (t - k * unat sz) key) \<and>
    (\<forall>j < i. re_sges e' ! j = re_sges e ! j) \<and>
    (\<forall>j < k. re_sges e' ! (i + j) = \<lparr>sge_addr = of_nat (b + j * unat sz), sge_length = sz, sge_lkey = key\<rparr>)"
  using assms
proof (induction k arbitrary: i e b t)
  case 0
  then show ?case
    by (simp add: retA_def)
next
  case (Suc k)
  have fits: "unat sz \<le> t" "k * unat sz \<le> t - unat sz"
    using Suc.prems(6) by simp_all
  obtain e1 where e1: "recv_fill sa_alloc_one sz i (Suc k) e (sa_at b t key) =
        recv_fill sa_alloc_one sz (Suc i) k e1 (sa_at (b + unat sz) (t - unat sz) key)"
      "length (re_rs e1) = length (re_rs e)" "re_sges e1 = (re_sges e)[i := \<lparr>sge_addr = of_nat b, sge_length = sz, sge_lkey = key\<rparr>]"
    by (rule sa_fill_step [OF Suc.prems(1-3) fits(1), of i k e key]) (rule that)
  have "\<exists>e'. recv_fill sa_alloc_one sz (Suc i) k e1 (sa_at (b + unat sz) (t - unat sz) key) =
        (Inr e', sa_at (b + unat sz + k * unat sz) (t - unat sz - k * unat sz) key) \<and>
      (\<forall>j < Suc i. re_sges e' ! j = re_sges e1 ! j) \<and>
      (\<forall>j < k. re_sges e' ! (Suc i + j) = \<lparr>sge_addr = of_nat (b + unat sz + j * unat sz), sge_length = sz, sge_lkey = key\<rparr>)"
    by (rule Suc.IH) (use Suc.prems e1(2,3) fits in auto)
  then obtain e' where e': "recv_fill sa_alloc_one sz (Suc i) k e1 (sa_at (b + unat sz) (t - unat sz) key) =
        (Inr e', sa_at (b + unat sz + k * unat sz) (t - unat sz - k * unat sz) key)"
      "\<forall>j < Suc i. re_sges e' ! j = re_sges e1 ! j"
      "\<forall>j < k. re_sges e' ! (Suc i + j) = \<lparr>sge_addr = of_nat (b + unat sz + j * unat sz), sge_length = sz, sge_lkey = key\<rparr>"
    by blast
  have "re_sges e' ! (i + j) = \<lparr>sge_addr = of_nat (b + j * unat sz), sge_length = sz, sge_lkey = key\<rparr>" if "j < Suc k" for j
  proof (cases j)
    case 0
    then show ?thesis
      using e'(2) e1(3) Suc.prems(4,5) by simp
  next
    case (Suc j')
    then show ?thesis
      using e'(3) [rule_format, of j'] that by (simp add: add.assoc)
  qed
  moreover have "\<forall>j < i. re_sges e' ! j = re_sges e ! j"
    using e'(2) e1(3) by simp
  moreover have "sa_at (b + unat sz + k * unat sz) (t - unat sz - k * unat sz) key = sa_at (b + Suc k * unat sz) (t - Suc k * unat sz) key"
    by (simp add: add.assoc)
  then have "recv_fill sa_alloc_one sz i (Suc k) e (sa_at b t key) = (Inr e', sa_at (b + Suc k * unat sz) (t - Suc k * unat sz) key)"
    using e'(1) e1(1) by (simp only:)
  ultimately show ?case
    by blast
qed

lemma sa_fill_short:
  assumes "0 < b" "b + t < 2 ^ 64" "t < 2 ^ 32" "t < k * unat sz"
  shows "\<exists>a'. recv_fill sa_alloc_one sz i k e (sa_at b t key) = (Inl Thrown, a')"
  using assms
proof (induction k arbitrary: i e b t)
  case (Suc k)
  show ?case
  proof (cases "unat sz \<le> t")
    case True
    obtain e1 where "recv_fill sa_alloc_one sz i (Suc k) e (sa_at b t key) =
        recv_fill sa_alloc_one sz (Suc i) k e1 (sa_at (b + unat sz) (t - unat sz) key)"
      by (rule sa_fill_step [OF Suc.prems(1-3) True, of i k e key]) (rule that)
    then show ?thesis
      using Suc.IH [of "b + unat sz" "t - unat sz" "Suc i" e1] Suc.prems True by auto
  qed (use sa_alloc_at [OF Suc.prems(1-3), of sz key] in \<open>auto simp: bindA_def callA_def liftA_def opt_value_def\<close>)
qed simp

lemma sa_fill:
  assumes "0 < b" "b + t < 2 ^ 64" "t < 2 ^ 32" "i + k \<le> length (re_rs e)" "length (re_sges e) = length (re_rs e)"
  shows "if k * unat sz \<le> t
    then \<exists>e'. recv_fill sa_alloc_one sz i k e (sa_at b t key) = (Inr e', sa_at (b + k * unat sz) (t - k * unat sz) key) \<and>
           (\<forall>j < i. re_sges e' ! j = re_sges e ! j) \<and>
           (\<forall>j < k. re_sges e' ! (i + j) = \<lparr>sge_addr = of_nat (b + j * unat sz), sge_length = sz, sge_lkey = key\<rparr>)
    else \<exists>a'. recv_fill sa_alloc_one sz i k e (sa_at b t key) = (Inl Thrown, a')"
  using sa_fill_fits [OF assms] sa_fill_short [OF assms(1-3)] by simp

text \<open>
  C13: The buffers that the factory cuts from a registered memory. When the memory holds \<open>n\<close>
  buffers of the size asked for, entry \<open>i\<close> gets the \<open>i\<close>-th of them, with the key of the memory,
  no two entries share an address, and the rest stays with the allocator; otherwise the
  factory throws.
\<close>
theorem simple_alloc_entries:
  assumes "rm_ptr mem = Some b" and "0 < b" and "b + unat (rm_sz mem) < 2 ^ 64" and "unat (rm_sz mem) < 2 ^ 32"
  shows "if n * unat sz \<le> unat (rm_sz mem)
    then \<exists>e a'. recv_entries_create sa_alloc_one n sz (sa_new mem key) = (Inr e, a') \<and>
           (\<forall>i < n. re_sges e ! i = \<lparr>sge_addr = of_nat (b + i * unat sz), sge_length = sz, sge_lkey = key\<rparr>) \<and>
           disjoint_family_on (entry_mem e) {..<n} \<and> (\<forall>i < n. entry_mem e i \<subseteq> {b ..< b + unat (rm_sz mem)}) \<and>
           sa_free a' = {b + n * unat sz ..< b + unat (rm_sz mem)}
    else \<exists>a'. recv_entries_create sa_alloc_one n sz (sa_new mem key) = (Inl Thrown, a')"
proof -
  let ?t = "unat (rm_sz mem)"
  have new: "sa_new mem key = sa_at b ?t key"
    using assms(1) by (simp add: sa_new_def sa_at_def)
  have good: "sa_good (sa_at b ?t key)" "sa_free (sa_at b ?t key) = {b..<b + ?t}"
    using assms(2-4) usize_nat [of ?t] by (simp_all add: sa_good_def sa_free_def sa_at_def)
  have blank: "0 + n \<le> length (re_rs (recv_entries_blank n))"
      "length (re_sges (recv_entries_blank n)) = length (re_rs (recv_entries_blank n))"
    by (simp_all add: recv_entries_blank_def)
  have fill: "if n * unat sz \<le> ?t
    then \<exists>e. recv_entries_create sa_alloc_one n sz (sa_at b ?t key) = (Inr e, sa_at (b + n * unat sz) (?t - n * unat sz) key) \<and>
           (\<forall>j < n. re_sges e ! j = \<lparr>sge_addr = of_nat (b + j * unat sz), sge_length = sz, sge_lkey = key\<rparr>)
    else \<exists>a'. recv_entries_create sa_alloc_one n sz (sa_at b ?t key) = (Inl Thrown, a')"
    using sa_fill [OF assms(2-4) blank, of sz key]
    by (simp only: recv_entries_create_def not_less_zero simp_thms add_0)
  show ?thesis
  proof (cases "n * unat sz \<le> ?t")
    case True
    then obtain e where e: "recv_entries_create sa_alloc_one n sz (sa_at b ?t key) =
          (Inr e, sa_at (b + n * unat sz) (?t - n * unat sz) key)"
        "\<forall>j < n. re_sges e ! j = \<lparr>sge_addr = of_nat (b + j * unat sz), sge_length = sz, sge_lkey = key\<rparr>"
      using fill by (simp only: if_True) blast
    have "sa_free (sa_at (b + n * unat sz) (?t - n * unat sz) key) = {b + n * unat sz..<b + ?t}"
      using True assms(4) usize_nat [of "?t - n * unat sz"] by (simp add: sa_free_def sa_at_def del: of_nat_diff)
    then show ?thesis
      using e sa.create_buffers(1,2) [OF e(1) good(1)] True good(2) by (auto simp: new simp del: of_nat_add of_nat_mult)
  qed (use fill new in simp)
qed

theorem simple_alloc_entries_witness:
  "(\<exists>e a'. recv_entries_create sa_alloc_one 16 4096 (sa_new \<lparr>rm_ptr = Some 8192, rm_sz = 65536\<rparr> 7) = (Inr e, a') \<and>
      re_sges e ! 15 = \<lparr>sge_addr = 69632, sge_length = 4096, sge_lkey = 7\<rparr> \<and> sa_free a' = {}) \<and>
   (\<exists>a'. recv_entries_create sa_alloc_one 17 4096 (sa_new \<lparr>rm_ptr = Some 8192, rm_sz = 65536\<rparr> 7) = (Inl Thrown, a'))"
proof
  show "\<exists>e a'. recv_entries_create sa_alloc_one 16 4096 (sa_new \<lparr>rm_ptr = Some 8192, rm_sz = 65536\<rparr> 7) = (Inr e, a') \<and>
      re_sges e ! 15 = \<lparr>sge_addr = 69632, sge_length = 4096, sge_lkey = 7\<rparr> \<and> sa_free a' = {}"
    using simple_alloc_entries [of "\<lparr>rm_ptr = Some 8192, rm_sz = 65536\<rparr>" 8192 16 4096 7] by (auto simp del: split_paired_Ex)
  show "\<exists>a'. recv_entries_create sa_alloc_one 17 4096 (sa_new \<lparr>rm_ptr = Some 8192, rm_sz = 65536\<rparr> 7) = (Inl Thrown, a')"
    using simple_alloc_entries [of "\<lparr>rm_ptr = Some 8192, rm_sz = 65536\<rparr>" 8192 17 4096 7] by simp
qed

end
