(* ===== verification/Servers.thy ===== *)
theory Servers
  imports Clients RecvMgr RecvAlloc
begin

text \<open>
  The server programs: benchs/bench_server.cc, benchs/dc_bench/dc_server.cc and the servers of
  examples/. Each creates the control daemon, opens devices, registers them and memory under
  the names that clients ask for, fills the memory, and starts the daemon; the servers of
  the two-sided examples then receive. The state adds the process's memory to the daemon's.
\<close>

unbundle bit_operations_syntax

section \<open>State and shared steps\<close>

record ('r, 'd) server =
  sv_ctrl :: "('r, 'd) rctrl"
  sv_mem :: "u64 \<Rightarrow> u8"
  sv_daemon :: daemon_ctl

definition on_ctrl :: "(('r, 'd) rctrl, 'x) act \<Rightarrow> (('r, 'd) server, 'x) act" where
  "on_ctrl m s = (case m (sv_ctrl s) of (r, c) \<Rightarrow> (r, s\<lparr>sv_ctrl := c\<rparr>))"

text \<open>The constructor of \<open>RCtrl\<close>: the channel, the five handlers and empty registries.\<close>

definition rctrl_new ::
  "('r \<Rightarrow> u64 \<times> 'r) \<Rightarrow> 'd verbs \<Rightarrow> ('ai, 'x) netlib_scheme \<Rightarrow> int \<Rightarrow> ('a, ('r, 'd) rctrl) srpc_handler outcome"
where
  "rctrl_new rnd V L port =
     bindE (srpc_handler_new L port (bstr ''localhost'')) (register_all (rctrl_handlers rnd V))"

definition rctrl_blank :: "'r \<Rightarrow> 'd \<Rightarrow> ('r, 'd) rctrl" where
  "rctrl_blank r d =
     \<lparr>registered_mrs = factory_empty, registered_qps = factory_empty, registered_dcs = factory_empty,
      opened_nics = factory_empty, qp_heap = [], rt_rng = r, rt_drv = d\<rparr>"

text \<open>\<open>RDMA_ASSERT(ctrl.opened_nics.reg(name, nic))\<close>\<close>

definition register_nic :: "('r \<Rightarrow> u64 \<times> 'r) \<Rightarrow> u64 \<Rightarrow> rnic \<Rightarrow> (('r, 'd) rctrl, unit) act" where
  "register_nic rnd nm nic s =
     (case reg rnd (opened_nics s) nm nic (rt_rng s) of
        Inl e \<Rightarrow> (Inl e, s)
      | Inr (key, f, r) \<Rightarrow> (assertE (key \<noteq> None), s\<lparr>opened_nics := f, rt_rng := r\<rparr>))"

text \<open>\<open>RDMA_ASSERT(ctrl.registered_mrs.create_then_reg(name, new RMem(sz), nic))\<close>\<close>

definition register_region ::
  "('r \<Rightarrow> u64 \<times> 'r) \<Rightarrow> 'd verbs \<Rightarrow> (u64 \<Rightarrow> ptr) \<Rightarrow> u64 \<Rightarrow> u64 \<Rightarrow> rnic \<Rightarrow> (('r, 'd) rctrl, unit) act"
where
  "register_region rnd V af nm sz nic =
     bindA (drvA (reg_handler_create V (rmem_new af sz) nic (default_flags (v_access V)))) (\<lambda>created s.
       case create_then_reg rnd (registered_mrs s) nm created (rt_rng s) of
         Inl e \<Rightarrow> (Inl e, s)
       | Inr (res, f, r) \<Rightarrow> (assertE (res \<noteq> None), s\<lparr>registered_mrs := f, rt_rng := r\<rparr>))"

definition opened_nic :: "u64 \<Rightarrow> (('r, 'd) rctrl, rnic) act" where
  "opened_nic nm s = (opt_value (query (opened_nics s) nm), s)"

definition region_buf :: "u64 \<Rightarrow> (('r, 'd) rctrl, u64) act" where
  "region_buf nm s =
     (bindE (opt_value (query (registered_mrs s) nm)) (\<lambda>h.
        bindE (opt_value (get_reg_attr h)) (\<lambda>a. Inr (ra_buf a))), s)"

definition launch :: "bool \<Rightarrow> (('r, 'd) server, unit) act" where
  "launch create_ok s = (Inr (), s\<lparr>sv_daemon := snd (start_daemon create_ok (sv_daemon s))\<rparr>)"

section \<open>Memory\<close>

definition mem_write :: "u64 \<Rightarrow> bytes \<Rightarrow> (u64 \<Rightarrow> u8) \<Rightarrow> u64 \<Rightarrow> u8" where
  "mem_write a bs m x = (if unat (x - a) < length bs then bs ! unat (x - a) else m x)"

definition mem_read :: "u64 \<Rightarrow> nat \<Rightarrow> (u64 \<Rightarrow> u8) \<Rightarrow> bytes" where
  "mem_read a n m = map (\<lambda>i. m (a + of_nat i)) [0..<n]"

text \<open>Storing through a pointer that may be null.\<close>

definition store_bytes :: "u64 \<Rightarrow> u64 \<Rightarrow> bytes \<Rightarrow> (('r, 'd) server, unit) act" where
  "store_bytes buf off bs s =
     (if buf = 0 then (Inl Undefined, s) else (Inr (), s\<lparr>sv_mem := mem_write (buf + off) bs (sv_mem s)\<rparr>))"

definition store_words :: "u64 \<Rightarrow> u64 \<Rightarrow> nat \<Rightarrow> (('r, 'd) server, unit) act" where
  "store_words buf magic n = each (\<lambda>i. store_bytes buf (8 * of_nat i) (enc_word (magic + of_nat i))) [0..<n]"

section \<open>One-sided servers\<close>

text \<open>The examples' servers: a device and a region, each under a name of the command line.\<close>

definition example_server ::
  "('r \<Rightarrow> u64 \<times> 'r) \<Rightarrow> 'd verbs \<Rightarrow> (u64 \<Rightarrow> ptr) \<Rightarrow> u64 \<Rightarrow> u64 \<Rightarrow> u64 \<Rightarrow> (u64 \<Rightarrow> (('r, 'd) server, unit) act) \<Rightarrow> bool \<Rightarrow>
     (('r, 'd) server, unit) act"
where
  "example_server rnd V af nic_idx nic_name mem_name fill create_ok =
     bindA (on_ctrl (drvA (open_nic V nic_idx))) (\<lambda>nic.
     bindA (on_ctrl (register_nic rnd nic_name nic)) (\<lambda>_.
     bindA (on_ctrl (opened_nic nic_name)) (\<lambda>n.
     bindA (on_ctrl (register_region rnd V af mem_name 1024 n)) (\<lambda>_.
     bindA (on_ctrl (region_buf mem_name)) (\<lambda>buf.
     bindA (fill buf) (\<lambda>_. launch create_ok))))))"

definition pingpong_server ::
  "('r \<Rightarrow> u64 \<times> 'r) \<Rightarrow> 'd verbs \<Rightarrow> (u64 \<Rightarrow> ptr) \<Rightarrow> u64 \<Rightarrow> u64 \<Rightarrow> u64 \<Rightarrow> u64 \<Rightarrow> bool \<Rightarrow> (('r, 'd) server, unit) act"
where
  "pingpong_server rnd V af nic_idx nic_name mem_name magic create_ok =
     example_server rnd V af nic_idx nic_name mem_name (\<lambda>buf. store_words buf magic 12) create_ok"

text \<open>rc_write copies the text without its terminating zero, and prints the region as a string.\<close>

definition write_server ::
  "('r \<Rightarrow> u64 \<times> 'r) \<Rightarrow> 'd verbs \<Rightarrow> (u64 \<Rightarrow> ptr) \<Rightarrow> u64 \<Rightarrow> u64 \<Rightarrow> u64 \<Rightarrow> bool \<Rightarrow> (('r, 'd) server, unit) act"
where
  "write_server rnd V af nic_idx nic_name mem_name create_ok =
     example_server rnd V af nic_idx nic_name mem_name (\<lambda>buf. store_bytes buf 0 (bstr ''Hello world'')) create_ok"

text \<open>
  bench_server: every device of the machine under its index, and a region on each. The bound
  of the loops is queried again in each round; \<open>fuel\<close> is a limit on the rounds, and one more than the
  number of devices is enough. The flags for the names are not used.
\<close>

fun bench_nics :: "('r \<Rightarrow> u64 \<times> 'r) \<Rightarrow> 'd verbs \<Rightarrow> nat \<Rightarrow> nat \<Rightarrow> (('r, 'd) rctrl, unit) act" where
  "bench_nics rnd V 0 i = failA Diverged"
| "bench_nics rnd V (Suc fuel) i =
     bindA (drvA (query_dev_names V)) (\<lambda>devs.
       if i < length devs
       then bindA (drvA (open_nic V (of_nat i))) (\<lambda>nic.
            bindA (register_nic rnd (of_nat i) nic) (\<lambda>_. bench_nics rnd V fuel (Suc i)))
       else retA ())"

fun bench_regions :: "('r \<Rightarrow> u64 \<times> 'r) \<Rightarrow> 'd verbs \<Rightarrow> (u64 \<Rightarrow> ptr) \<Rightarrow> nat \<Rightarrow> nat \<Rightarrow> (('r, 'd) rctrl, unit) act" where
  "bench_regions rnd V af 0 i = failA Diverged"
| "bench_regions rnd V af (Suc fuel) i =
     bindA (drvA (query_dev_names V)) (\<lambda>devs.
       if i < length devs
       then bindA (opened_nic (of_nat i)) (\<lambda>nic.
            bindA (register_region rnd V af (of_nat i) (1024 * 1024 * 64) nic) (\<lambda>_. bench_regions rnd V af fuel (Suc i)))
       else retA ())"

definition bench_server ::
  "('r \<Rightarrow> u64 \<times> 'r) \<Rightarrow> 'd verbs \<Rightarrow> (u64 \<Rightarrow> ptr) \<Rightarrow> u64 \<Rightarrow> bool \<Rightarrow> nat \<Rightarrow> (('r, 'd) server, unit) act"
where
  "bench_server rnd V af magic create_ok fuel =
     bindA (on_ctrl (bench_nics rnd V fuel 0)) (\<lambda>_.
     bindA (on_ctrl (bench_regions rnd V af fuel 0)) (\<lambda>_.
     bindA (on_ctrl (region_buf 0)) (\<lambda>buf.
     bindA (store_words buf magic 10000) (\<lambda>_. launch create_ok))))"

text \<open>
  dc_server: a target for dynamic connections, a device and a region. Whether the target was
  registered is not looked at.
\<close>

definition register_dc :: "('r \<Rightarrow> u64 \<times> 'r) \<Rightarrow> bytes \<Rightarrow> dct_target \<Rightarrow> (('r, 'd) rctrl, unit) act" where
  "register_dc rnd nm t s =
     (case reg rnd (registered_dcs s) nm t (rt_rng s) of
        Inl e \<Rightarrow> (Inl e, s)
      | Inr (key, f, r) \<Rightarrow> (Inr (), s\<lparr>registered_dcs := f, rt_rng := r\<rparr>))"

definition dc_server ::
  "('r \<Rightarrow> u64 \<times> 'r) \<Rightarrow> 'd verbs \<Rightarrow> (u64 \<Rightarrow> ptr) \<Rightarrow> u64 \<Rightarrow> u64 \<Rightarrow> u64 \<Rightarrow> bool \<Rightarrow> (('r, 'd) server, unit) act"
where
  "dc_server rnd V af nic_idx nic_name mem_name create_ok =
     bindA (on_ctrl (drvA (open_nic V nic_idx))) (\<lambda>nic.
     bindA (on_ctrl (drvA (dct_target_create V nic (default_config (v_access V))))) (\<lambda>t.
     bindA (on_ctrl (register_dc rnd (bstr ''server_dc'') t)) (\<lambda>_.
     bindA (on_ctrl (register_nic rnd nic_name nic)) (\<lambda>_.
     bindA (on_ctrl (opened_nic nic_name)) (\<lambda>n.
     bindA (on_ctrl (register_region rnd V af mem_name (1024 * 1024) n)) (\<lambda>_. launch create_ok))))))"

end
