(* ===== verification/TwoSided.thy ===== *)
theory TwoSided
  imports Servers
begin

text \<open>
  The programs that exchange messages: examples/rc_overflow, ud_overflow and ud_pingpong. A
  client prints numbers or copies typed lines into a registered buffer and sends it; a server
  posts a ring of receive buffers, waits for messages and reads the numbers back.
\<close>

unbundle bit_operations_syntax

section \<open>Memory shared with the device\<close>

text \<open>
  The memory of a process is part of the state of its driver: the device reads it when it
  sends and writes it when a message arrives. \<open>mem_of\<close> is a load, \<open>mem_put\<close> a store.
\<close>

record 'd memory =
  mem_of :: "'d \<Rightarrow> u64 \<Rightarrow> u8"
  mem_put :: "u64 \<Rightarrow> bytes \<Rightarrow> 'd \<Rightarrow> 'd"

text \<open>A store into a buffer of \<open>sz\<close> bytes; null and what is too long are undefined.\<close>

definition store_local :: "'d memory \<Rightarrow> u64 \<Rightarrow> u64 \<Rightarrow> bytes \<Rightarrow> ('d, unit) act" where
  "store_local M buf sz bs d =
     (if buf = 0 \<or> unat sz < length bs then (Inl Undefined, d) else (Inr (), mem_put M buf bs d))"

text \<open>\<open>memset(buf, 0, msg.size() + 1)\<close> and \<open>memcpy(buf, msg.data(), msg.size())\<close>\<close>

definition put_text :: "'d memory \<Rightarrow> u64 \<Rightarrow> u64 \<Rightarrow> bytes \<Rightarrow> ('d, unit) act" where
  "put_text M buf sz msg =
     bindA (store_local M buf sz (replicate (length msg + 1) 0)) (\<lambda>_. store_local M buf sz msg)"

section \<open>Reading a number back\<close>

text \<open>\<open>c_str\<close> of a string up to its first zero, and \<open>atoi\<close>: a result out of range is undefined.\<close>

definition c_str :: "bytes \<Rightarrow> bytes" where
  "c_str s = takeWhile (\<lambda>c. c \<noteq> 0) s"

definition atoi :: "bytes \<Rightarrow> c_int outcome" where
  "atoi s =
     (let t = dropWhile is_space s;
          neg = (t \<noteq> [] \<and> hd t = 45);
          u = (if t \<noteq> [] \<and> (hd t = 45 \<or> hd t = 43) then tl t else t);
          v = digits_value (takeWhile is_digit u) 0;
          w = (if neg then - v else v)
      in if w < - (2 ^ 31) \<or> 2 ^ 31 \<le> w then Inl Undefined else Inr (of_int w))"

text \<open>
  \<open>std::string msg(buf, sz)\<close>, \<open>u64 seq = std::atoi(msg.c_str())\<close>: the number is extended with its sign.
\<close>

definition read_seq :: "(u64 \<Rightarrow> u8) \<Rightarrow> ptr \<Rightarrow> u64 \<Rightarrow> nat \<Rightarrow> u64 outcome" where
  "read_seq m p off sz =
     (if p = None then Inl Undefined
      else bindE (atoi (c_str (mem_read (ptr_u64 p + off) sz m))) (\<lambda>seq. Inr (scast seq)))"

section \<open>Receiving numbers\<close>

text \<open>
  The body of the servers' loop over an iterator: the count goes up with every message, and
  the first number that reaches the limit ends the program.
\<close>

function seq_loop ::
  "(u64 \<Rightarrow> u8) \<Rightarrow> u64 \<Rightarrow> nat \<Rightarrow> u64 \<Rightarrow> recv_iter \<Rightarrow> wc list \<Rightarrow> u64 \<Rightarrow> (bool \<times> u64) outcome"
where
  "seq_loop m off sz limit it wcs cnt =
     (if ri_has_msgs it
      then bindE (ri_cur_msg it wcs) (\<lambda>imm_msg.
           bindE (read_seq m (snd (the imm_msg)) off sz) (\<lambda>seq.
             if limit \<le> seq then Inr (True, cnt + 1)
             else seq_loop m off sz limit (ri_next it) wcs (cnt + 1)))
      else Inr (False, cnt))"
  by pat_completeness auto
termination
  by (relation "measure (\<lambda>(_, _, _, _, it, _, _). nat (sint (ri_total it) - sint (ri_idx it)))")
    (use ri_next_decreases in auto)

declare seq_loop.simps [simp del]

text \<open>One iterator, from its construction to its destruction, which also runs on the return.\<close>

definition seq_pass ::
  "'d verbs \<Rightarrow> 'd memory \<Rightarrow> u64 \<Rightarrow> nat \<Rightarrow> u64 \<Rightarrow> ('x) qp_dummy_scheme \<Rightarrow> recv_entries \<Rightarrow> u64 \<Rightarrow>
     ('d, (bool \<times> u64) \<times> recv_entries) act"
where
  "seq_pass V M off sz limit q e cnt =
     bindA (ri_new V q e) (\<lambda>(it, e1).
     bindA (\<lambda>d. (seq_loop (mem_of M d) off sz limit it (re_wcs e1) cnt, d)) (\<lambda>r.
     bindA (ri_clear V q e1 it) (\<lambda>(_, e2). retA (r, e2))))"

text \<open>\<open>while (1)\<close>: the result is the count of messages; \<open>fuel\<close> bounds the number of iterators.\<close>

fun seq_serve ::
  "'d verbs \<Rightarrow> 'd memory \<Rightarrow> u64 \<Rightarrow> nat \<Rightarrow> u64 \<Rightarrow> ('x) qp_dummy_scheme \<Rightarrow> nat \<Rightarrow> recv_entries \<Rightarrow> u64 \<Rightarrow>
     ('d, u64 \<times> recv_entries) act"
where
  "seq_serve V M off sz limit q 0 e cnt = failA Diverged"
| "seq_serve V M off sz limit q (Suc fuel) e cnt =
     bindA (seq_pass V M off sz limit q e cnt) (\<lambda>((stop, cnt'), e').
       if stop then retA (cnt', e') else seq_serve V M off sz limit q fuel e' cnt')"

section \<open>rc_overflow\<close>

text \<open>
  The client. A timeout of \<open>wait_ready\<close> is only logged; the number is an \<open>int\<close>, the limit a
  64-bit flag.
\<close>

definition send_number ::
  "'d verbs \<Rightarrow> nat \<Rightarrow> 'd memory \<Rightarrow> u64 \<Rightarrow> u64 \<Rightarrow> nat \<Rightarrow> (('a, 'd) cm_qp, unit) act"
where
  "send_number V send_imm M buf sz i =
     (if 2 ^ 31 \<le> i then failA Undefined
      else
        let msg = to_string (int i) in
        bindA (cmD (put_text M buf sz msg)) (\<lambda>_.
          send_and_wait V
            \<lparr>rd_op = send_imm, rd_flags = v_signaled V, rd_len = of_nat (length msg) + 1, rd_wr_id = 0\<rparr>
            \<lparr>rp_local_addr = u64_ptr buf, rp_remote_addr = 0, rp_imm_data = 0\<rparr>))"

definition send_numbers ::
  "'d verbs \<Rightarrow> nat \<Rightarrow> 'd memory \<Rightarrow> u64 \<Rightarrow> u64 \<Rightarrow> nat \<Rightarrow> (('a, 'd) cm_qp, unit) act"
where
  "send_numbers V send_imm M buf sz msg_cnt = each (send_number V send_imm M buf sz) [1..<Suc msg_cnt]"

definition overflow_name :: bytes where "overflow_name = bstr ''client_qp''"

definition rc_overflow_body ::
  "'d verbs \<Rightarrow> nat \<Rightarrow> 'd memory \<Rightarrow> (u64 \<Rightarrow> ptr) \<Rightarrow> bytes \<Rightarrow> u64 \<Rightarrow> u64 \<Rightarrow> nat \<Rightarrow> rnic \<Rightarrow>
     ((sockaddr_in, 'd) cm_qp, unit) act"
where
  "rc_overflow_body V send_imm M af cq_name nic_idx mem_name msg_cnt nic =
     bindA (wait_ready 4) (\<lambda>_.
     bindA (cc_rc_msg V overflow_name cq_name 4096 nic_idx (default_config (v_access V))) (\<lambda>qp_res.
     bindA (expect_ok qp_res) (\<lambda>_.
     bindA (remote_region mem_name) (\<lambda>remote_attr.
     bindA (local_region V af nic (1024 * 1024)) (\<lambda>h.
     bindA (bind_regions remote_attr h) (\<lambda>lmr.
     bindA (send_numbers V send_imm M (ra_buf lmr) (1024 * 1024) msg_cnt) (\<lambda>_.
       cmD (reg_handler_destroy V h))))))))"

definition rc_overflow_main ::
  "'d verbs \<Rightarrow> nat \<Rightarrow> 'd memory \<Rightarrow> ('ai, 'x) netlib_scheme \<Rightarrow> (u64 \<Rightarrow> ptr) \<Rightarrow> int \<Rightarrow> bytes \<Rightarrow> bytes \<Rightarrow>
     u64 \<Rightarrow> u64 \<Rightarrow> nat \<Rightarrow> ('d host, unit) act"
where
  "rc_overflow_main V send_imm M L af now addr cq_name nic_idx mem_name msg_cnt =
     client_program V L now addr nic_idx (rc_overflow_body V send_imm M af cq_name nic_idx mem_name msg_cnt)"

text \<open>
  The server: the device, a completion queue under the channel's name with an allocator over a
  registered memory, and the memory itself. The allocators' objects are a list. Whether the
  channel and the memory could be registered is not looked at.
\<close>

definition pool_alloc :: "nat \<Rightarrow> usize \<Rightarrow> simple_alloc list \<Rightarrow> (ptr \<times> u32) option \<times> simple_alloc list" where
  "pool_alloc i sz as = (case sa_alloc_one sz (as ! i) of (r, a) \<Rightarrow> (r, as[i := a]))"

definition register_channel ::
  "('r \<Rightarrow> u64 \<times> 'r) \<Rightarrow> bytes \<Rightarrow> ptr \<Rightarrow> simple_alloc \<Rightarrow> (('r, 'd, simple_alloc list) recv_mgr, unit) act"
where
  "register_channel rnd nm cq a s =
     (let s1 = s\<lparr>rm_al := rm_al s @ [a]\<rparr> in
      case create_then_reg rnd (reg_recv_cqs s) nm (recv_common_create cq (length (rm_al s))) (rt_rng (rm_ctrl s)) of
        Inl e \<Rightarrow> (Inl e, s1)
      | Inr (res, f, r) \<Rightarrow> (Inr (), s1\<lparr>reg_recv_cqs := f, rm_ctrl := (rm_ctrl s)\<lparr>rt_rng := r\<rparr>\<rparr>))"

definition offer_region :: "('r \<Rightarrow> u64 \<times> 'r) \<Rightarrow> u64 \<Rightarrow> reg_handler \<Rightarrow> (('r, 'd) rctrl, unit) act" where
  "offer_region rnd nm h s =
     (case reg rnd (registered_mrs s) nm h (rt_rng s) of
        Inl e \<Rightarrow> (Inl e, s)
      | Inr (key, f, r) \<Rightarrow> (Inr (), s\<lparr>registered_mrs := f, rt_rng := r\<rparr>))"

definition new_region :: "'d verbs \<Rightarrow> (u64 \<Rightarrow> ptr) \<Rightarrow> u64 \<Rightarrow> rnic \<Rightarrow> (('r, 'd) rctrl, reg_handler) act" where
  "new_region V af sz nic =
     bindA (drvA (reg_handler_create V (rmem_new af sz) nic (default_flags (v_access V)))) (\<lambda>h. liftA (opt_value h))"

definition rc_overflow_setup ::
  "('r \<Rightarrow> u64 \<times> 'r) \<Rightarrow> 'd verbs \<Rightarrow> (u64 \<Rightarrow> ptr) \<Rightarrow> u64 \<Rightarrow> u64 \<Rightarrow> bytes \<Rightarrow>
     (('r, 'd, simple_alloc list) recv_mgr, unit) act"
where
  "rc_overflow_setup rnd V af nic_idx mem_name cq_name =
     bindA (ctrlA (drvA (open_nic V nic_idx))) (\<lambda>nic.
     bindA (ctrlA (register_nic rnd 0 nic)) (\<lambda>_.
     bindA (ctrlA (drvA (create_cq V nic 128))) (\<lambda>recv_cq_res.
     bindA (liftA (assertE (code recv_cq_res = IO_Ok))) (\<lambda>_.
     bindA (ctrlA (new_region V af (16 * 1024 * 1024) nic)) (\<lambda>h.
     bindA (liftA (opt_value (get_reg_attr h))) (\<lambda>attr.
     bindA (register_channel rnd cq_name (fst (desc recv_cq_res)) (sa_new (rh_mem h) (ra_key attr))) (\<lambda>_.
       ctrlA (offer_region rnd mem_name h))))))))"

text \<open>
  After the daemon has run for three seconds: the queue pair and the entries under the
  client's name, or an exception when it has not connected yet.
\<close>

fun seq_serve_any ::
  "'d verbs \<Rightarrow> 'd memory \<Rightarrow> u64 \<Rightarrow> nat \<Rightarrow> u64 \<Rightarrow> any_qp \<Rightarrow> nat \<Rightarrow> recv_entries \<Rightarrow> ('d, u64 \<times> recv_entries) act"
where
  "seq_serve_any V M off sz limit (Q_RC q) fuel e = seq_serve V M off sz limit q fuel e 0"
| "seq_serve_any V M off sz limit (Q_UD q) fuel e = seq_serve V M off sz limit q fuel e 0"
| "seq_serve_any V M off sz limit (Q_DC q) fuel e = seq_serve V M off sz limit q fuel e 0"

definition rc_overflow_serve ::
  "'d verbs \<Rightarrow> 'd memory \<Rightarrow> u64 \<Rightarrow> nat \<Rightarrow> (('r, 'd, simple_alloc list) recv_mgr, u64) act"
where
  "rc_overflow_serve V M msg_cnt fuel s =
     (case (query (registered_qps (rm_ctrl s)) overflow_name, query (reg_recv_entries s) overflow_name) of
        (Some i, Some j) \<Rightarrow>
          (case seq_serve_any V M 0 2048 msg_cnt (ho_qp (qp_heap (rm_ctrl s) ! i)) fuel (rm_entries s ! j) (rt_drv (rm_ctrl s)) of
             (Inl e, d) \<Rightarrow> (Inl e, s\<lparr>rm_ctrl := (rm_ctrl s)\<lparr>rt_drv := d\<rparr>\<rparr>)
           | (Inr (cnt, e'), d) \<Rightarrow>
               (Inr cnt, s\<lparr>rm_ctrl := (rm_ctrl s)\<lparr>rt_drv := d\<rparr>, rm_entries := (rm_entries s)[j := e']\<rparr>))
      | _ \<Rightarrow> (Inl Thrown, s))"

section \<open>Unreliable datagrams: the clients\<close>

text \<open>
  A request with the \<open>ud\<close> member of the union. The clients call \<open>ibv_post_send\<close> themselves, past the
  library; the call with such a request is the argument \<open>ud_post\<close>.
\<close>

record ud_wr =
  uw_op :: nat
  uw_flags :: c_int
  uw_imm :: u32
  uw_sge :: sge
  uw_ah :: ptr
  uw_remote_qpn :: u32
  uw_remote_qkey :: u32

record ('a, 'd) cm_ud = "'a cm" +
  cu_ud :: ud
  cu_drv :: 'd

definition cuD :: "('d, 'x) act \<Rightarrow> (('a, 'd) cm_ud, 'x) act" where
  "cuD m s = (case m (cu_drv s) of (r, d) \<Rightarrow> (r, s\<lparr>cu_drv := d\<rparr>))"

definition ud_program ::
  "'d verbs \<Rightarrow> ('ai, 'x) netlib_scheme \<Rightarrow> int \<Rightarrow> bytes \<Rightarrow> u64 \<Rightarrow> (rnic \<Rightarrow> ((sockaddr_in, 'd) cm_ud, unit) act) \<Rightarrow>
     ('d host, unit) act"
where
  "ud_program V L now addr nic_idx body h =
     (case bindA (hostD (open_nic V nic_idx)) (\<lambda>nic.
           bindA (hostD (ud_create V nic (set_qkey 73 (default_config (v_access V))))) (\<lambda>u.
           bindA (liftA (opt_value u)) (\<lambda>q. retA (nic, q)))) h of
        (Inl e, h1) \<Rightarrow> (Inl e, h1)
      | (Inr (nic, q), h1) \<Rightarrow>
          (case srpc_new L now addr (h_cache h1) of
             (Inl e, c) \<Rightarrow> (Inl e, h1\<lparr>h_cache := c\<rparr>)
           | (Inr S, c) \<Rightarrow>
               (case body nic \<lparr>cm_rpc = S, cm_net = h_net h1, cu_ud = q, cu_drv = h_drv h1\<rparr> of
                  (r, s) \<Rightarrow>
                    bindA (\<lambda>h2. (r, h2)) (\<lambda>_.
                    bindA (hostD (dummy_destroy V (cu_ud s))) (\<lambda>_. hostD (rnic_destroy V nic)))
                      (h1\<lparr>h_net := cm_net s, h_cache := c, h_drv := cu_drv s\<rparr>))))"

text \<open>
  The request is filled once and changed before each post. The buffer has 4000 bytes; the
  local key is \<open>RegAttr::key\<close>.
\<close>

record ud_sender =
  us_wr :: ud_wr
  us_buf :: u64
  us_mr :: reg_handler

definition ud_connect ::
  "'d verbs \<Rightarrow> nat \<Rightarrow> (u64 \<Rightarrow> ptr) \<Rightarrow> c_int \<Rightarrow> rnic \<Rightarrow> (('a, 'd) cm_ud, ud_sender) act"
where
  "ud_connect V send_imm af flags nic =
     bindA (wait_ready 4) (\<lambda>_.
     bindA (cm_fetch_qp_attr (bstr ''server_ud'')) (\<lambda>res.
     bindA (expect_ok res) (\<lambda>(_, attr).
     bindA (cuD (reg_handler_create V (rmem_new af 4000) nic (default_flags (v_access V)))) (\<lambda>mr.
     bindA (liftA (opt_value mr)) (\<lambda>h.
     bindA (liftA (opt_value (get_reg_attr h))) (\<lambda>a.
     bindA (\<lambda>s. cuD (create_ah V (cu_ud s) attr) s) (\<lambda>ah.
       retA \<lparr>us_wr = \<lparr>uw_op = send_imm, uw_flags = flags, uw_imm = 73,
                        uw_sge = \<lparr>sge_addr = ra_buf a, sge_length = 0, sge_lkey = ra_key a\<rparr>,
                        uw_ah = ah, uw_remote_qpn = ucast (q_qpn attr), uw_remote_qkey = ucast (q_qkey attr)\<rparr>,
             us_buf = ra_buf a, us_mr = h\<rparr>)))))))"

definition ud_send ::
  "'d verbs \<Rightarrow> (ptr \<Rightarrow> ud_wr \<Rightarrow> 'd \<Rightarrow> c_int \<times> 'd) \<Rightarrow> 'd memory \<Rightarrow> ud_sender \<Rightarrow> bytes \<Rightarrow> (('a, 'd) cm_ud, unit) act"
where
  "ud_send V ud_post M us msg =
     bindA (cuD (put_text M (us_buf us) 4000 msg)) (\<lambda>_ s.
       case ud_post (d_qp (cu_ud s))
              ((us_wr us)\<lparr>uw_sge := (uw_sge (us_wr us))\<lparr>sge_length := of_nat (length msg + 1)\<rparr>\<rparr>) (cu_drv s) of
         (rc, d) \<Rightarrow>
           if rc \<noteq> 0 then (Inl Aborted, s\<lparr>cu_drv := d\<rparr>)
           else (case wait_one_comp V no_timeout (cu_ud s) d of
                   None \<Rightarrow> (Inl Diverged, s\<lparr>cu_drv := d\<rparr>)
                 | Some (ret_r, q', d') \<Rightarrow> (assertE (code ret_r = IO_Ok), s\<lparr>cu_ud := q', cu_drv := d'\<rparr>)))"

text \<open>ud_overflow sends the numbers up to the limit and, after a pause, one more.\<close>

definition ud_number ::
  "'d verbs \<Rightarrow> (ptr \<Rightarrow> ud_wr \<Rightarrow> 'd \<Rightarrow> c_int \<times> 'd) \<Rightarrow> 'd memory \<Rightarrow> ud_sender \<Rightarrow> nat \<Rightarrow> (('a, 'd) cm_ud, unit) act"
where
  "ud_number V ud_post M us i = (if 2 ^ 31 \<le> i then failA Undefined else ud_send V ud_post M us (to_string (int i)))"

definition ud_overflow_main ::
  "'d verbs \<Rightarrow> (ptr \<Rightarrow> ud_wr \<Rightarrow> 'd \<Rightarrow> c_int \<times> 'd) \<Rightarrow> nat \<Rightarrow> 'd memory \<Rightarrow> ('ai, 'x) netlib_scheme \<Rightarrow> (u64 \<Rightarrow> ptr) \<Rightarrow>
     int \<Rightarrow> bytes \<Rightarrow> u64 \<Rightarrow> nat \<Rightarrow> ('d host, unit) act"
where
  "ud_overflow_main V ud_post send_imm M L af now addr nic_idx msg_cnt =
     ud_program V L now addr nic_idx (\<lambda>nic.
       bindA (ud_connect V send_imm af (v_signaled V OR v_inline V) nic) (\<lambda>us.
       bindA (each (ud_number V ud_post M us) [1..<msg_cnt + 2]) (\<lambda>_. cuD (reg_handler_destroy V (us_mr us)))))"

text \<open>
  ud_pingpong sends what is typed, line by line and without end; \<open>lines\<close> is what
  \<open>getline\<close> gives in each round, which after the end of the input is empty. The remark that a message
  is too large is only logged.
\<close>

definition ud_pingpong_main ::
  "'d verbs \<Rightarrow> (ptr \<Rightarrow> ud_wr \<Rightarrow> 'd \<Rightarrow> c_int \<times> 'd) \<Rightarrow> nat \<Rightarrow> 'd memory \<Rightarrow> ('ai, 'x) netlib_scheme \<Rightarrow> (u64 \<Rightarrow> ptr) \<Rightarrow>
     int \<Rightarrow> bytes \<Rightarrow> u64 \<Rightarrow> bytes list \<Rightarrow> ('d host, unit) act"
where
  "ud_pingpong_main V ud_post send_imm M L af now addr nic_idx lines =
     ud_program V L now addr nic_idx (\<lambda>nic.
       bindA (ud_connect V send_imm af (v_signaled V) nic) (\<lambda>us. each (ud_send V ud_post M us) lines))"

section \<open>Unreliable datagrams: the servers\<close>

definition register_ud :: "('r \<Rightarrow> u64 \<times> 'r) \<Rightarrow> bytes \<Rightarrow> ud \<Rightarrow> (('r, 'd) rctrl, unit) act" where
  "register_ud rnd nm u s =
     bindA (reg_qp rnd nm (length (qp_heap s))) (\<lambda>_. retA ())
       (s\<lparr>qp_heap := qp_heap s @ [\<lparr>ho_qp = Q_UD u, ho_held = True\<rparr>]\<rparr>)"

text \<open>
  A region, \<open>n\<close> receive buffers of 4096 bytes cut from it, and a queue pair with all of them
  posted. The region and the queue pair are registered without looking at the result.
\<close>

definition ud_server_setup ::
  "('r \<Rightarrow> u64 \<times> 'r) \<Rightarrow> 'd verbs \<Rightarrow> (u64 \<Rightarrow> ptr) \<Rightarrow> u64 \<Rightarrow> u64 \<Rightarrow> u64 \<Rightarrow> nat \<Rightarrow> (('r, 'd) rctrl, ud \<times> recv_entries) act"
where
  "ud_server_setup rnd V af nic_idx mem_name mem_sz n =
     bindA (drvA (open_nic V nic_idx)) (\<lambda>nic.
     bindA (new_region V af mem_sz nic) (\<lambda>h.
     bindA (liftA (opt_value (get_reg_attr h))) (\<lambda>attr.
     bindA (liftA (fst (recv_entries_create sa_alloc_one n 4096 (sa_new (rh_mem h) (ra_key attr))))) (\<lambda>recv_rs.
     bindA (offer_region rnd mem_name h) (\<lambda>_.
     bindA (drvA (ud_create V nic (default_config (v_access V)))) (\<lambda>u.
     bindA (liftA (opt_value u)) (\<lambda>q.
     bindA (register_ud rnd (bstr ''server_ud'') q) (\<lambda>_.
     bindA (liftA (entries_sanity_check recv_rs)) (\<lambda>_.
     bindA (drvA (post_recvs V q recv_rs (of_nat n))) (\<lambda>(res, recv_rs').
     bindA (liftA (assertE (code res = IO_Ok))) (\<lambda>_. retA (q, recv_rs'))))))))))))"

definition ud_overflow_server ::
  "('r \<Rightarrow> u64 \<times> 'r) \<Rightarrow> 'd verbs \<Rightarrow> 'd memory \<Rightarrow> (u64 \<Rightarrow> ptr) \<Rightarrow> u64 \<Rightarrow> u64 \<Rightarrow> u64 \<Rightarrow> bool \<Rightarrow> nat \<Rightarrow> (('r, 'd) server, u64) act"
where
  "ud_overflow_server rnd V M af nic_idx mem_name msg_cnt create_ok fuel =
     bindA (on_ctrl (ud_server_setup rnd V af nic_idx mem_name (4 * 1024 * 1024) 128)) (\<lambda>(q, recv_rs).
     bindA (launch create_ok) (\<lambda>_.
     bindA (on_ctrl (drvA (seq_serve V M (ucast kGRHSz) 4096 msg_cnt q fuel recv_rs 0))) (\<lambda>(cnt, _). retA cnt)))"

text \<open>
  ud_pingpong prints the messages; each is read as 4096 bytes behind the header of 40 bytes,
  so that the last 40 lie in the next buffer. The result is the list of texts of \<open>rounds\<close> iterators.
\<close>

fun read_texts :: "(u64 \<Rightarrow> u8) \<Rightarrow> (u32 \<times> ptr) list \<Rightarrow> bytes list outcome" where
  "read_texts m [] = Inr []"
| "read_texts m ((imm, p) # ms) =
     (if p = None then Inl Undefined
      else bindE (read_texts m ms) (\<lambda>ts. Inr (mem_read (ptr_u64 p + ucast kGRHSz) 4096 m # ts)))"

definition echo_pass ::
  "'d verbs \<Rightarrow> 'd memory \<Rightarrow> ('x) qp_dummy_scheme \<Rightarrow> recv_entries \<Rightarrow> ('d, bytes list \<times> recv_entries) act"
where
  "echo_pass V M q e =
     bindA (ri_new V q e) (\<lambda>(it, e1).
     bindA (\<lambda>d. (bindE (ri_collect it (re_wcs e1)) (read_texts (mem_of M d)), d)) (\<lambda>ts.
     bindA (ri_clear V q e1 it) (\<lambda>(_, e2). retA (ts, e2))))"

fun echo_serve ::
  "'d verbs \<Rightarrow> 'd memory \<Rightarrow> ('x) qp_dummy_scheme \<Rightarrow> nat \<Rightarrow> recv_entries \<Rightarrow> ('d, bytes list \<times> recv_entries) act"
where
  "echo_serve V M q 0 e = retA ([], e)"
| "echo_serve V M q (Suc rounds) e =
     bindA (echo_pass V M q e) (\<lambda>(ts, e').
     bindA (echo_serve V M q rounds e') (\<lambda>(ts', e''). retA (ts @ ts', e'')))"

definition ud_pingpong_server ::
  "('r \<Rightarrow> u64 \<times> 'r) \<Rightarrow> 'd verbs \<Rightarrow> 'd memory \<Rightarrow> (u64 \<Rightarrow> ptr) \<Rightarrow> u64 \<Rightarrow> u64 \<Rightarrow> bool \<Rightarrow> nat \<Rightarrow> (('r, 'd) server, bytes list) act"
where
  "ud_pingpong_server rnd V M af nic_idx mem_name create_ok rounds =
     bindA (on_ctrl (ud_server_setup rnd V af nic_idx mem_name (16 * 1024 * 1024) 1024)) (\<lambda>(q, recv_rs).
     bindA (launch create_ok) (\<lambda>_.
     bindA (on_ctrl (drvA (echo_serve V M q rounds recv_rs))) (\<lambda>(ts, _). retA ts)))"

end
