(* ===== verification/Dynamic.thy ===== *)
theory Dynamic
  imports TwoSided "HOL-Library.Signed_Division"
begin

text \<open>
  The client of benchs/dc_bench: it asks several machines for a target of dynamic connections
  and a memory region, and then reads from them at random, each request over the next of its
  queue pairs. As in Bench a worker runs alone, and \<open>n\<close> is the number of rounds it makes before
  it sees the flag \<open>running\<close> cleared.
\<close>

section \<open>The list of machines\<close>

text \<open>\<open>strtok\<close>: a token of characters that are no delimiters, and what is left of the string.\<close>

definition strtok :: "bytes \<Rightarrow> bytes \<Rightarrow> (bytes \<times> bytes) option" where
  "strtok d s =
     (let t = dropWhile (\<lambda>c. c \<in> set d) s in
      if t = [] then None
      else Some (takeWhile (\<lambda>c. c \<notin> set d) t, tl (dropWhile (\<lambda>c. c \<notin> set d) t)))"

lemma strtok_shorter: "strtok d s = Some (t, r) \<Longrightarrow> length r < length s"
  using length_dropWhile_le [of "\<lambda>c. c \<in> set d" s]
    length_dropWhile_le [of "\<lambda>c. c \<notin> set d" "dropWhile (\<lambda>c. c \<in> set d) s"]
  by (cases "dropWhile (\<lambda>c. c \<in> set d) s") (auto simp: strtok_def Let_def split: if_splits)

function split_loop :: "bytes \<Rightarrow> bytes \<Rightarrow> bytes list" where
  "split_loop d s = (case strtok d s of None \<Rightarrow> [] | Some (t, r) \<Rightarrow> t # split_loop d r)"
  by pat_completeness auto
termination
  by (relation "measure (\<lambda>(_, s). length s)") (auto dest: strtok_shorter)

declare split_loop.simps [simp del]

definition split_str :: "bytes \<Rightarrow> bytes \<Rightarrow> bytes list" where
  "split_str str delim = (if str = [] then [] else split_loop (c_str delim) (c_str str))"

section \<open>Asking the machines\<close>

text \<open>The command line's flags that the worker uses.\<close>

record dc_flags =
  df_nic_idx :: u64
  df_mem_name :: u64
  df_mem_sz :: u64
  df_dc_num :: nat
  df_payload_sz :: c_int
  df_machines :: bytes

text \<open>A connection manager with the driver at hand.\<close>

record ('a, 'd) cm_dev = "'a cm" +
  cv_drv :: 'd

definition cvD :: "('d, 'x) act \<Rightarrow> (('a, 'd) cm_dev, 'x) act" where
  "cvD m s = (case m (cv_drv s) of (r, d) \<Rightarrow> (r, s\<lparr>cv_drv := d\<rparr>))"

text \<open>\<open>lid\<close> is an \<open>int\<close> and the field has 16 bits.\<close>

definition dc_create_ah :: "'d verbs \<Rightarrow> ptr \<Rightarrow> c_int \<Rightarrow> ('d, ptr) act" where
  "dc_create_ah V pd lid =
     callA (v_create_ah V pd
       (zero_ah\<lparr>ah_is_global := 0, ah_dlid := ucast lid, ah_sl := 0, ah_src_path_bits := 0, ah_port_num := 1\<rparr>))"

definition query_body ::
  "'d verbs \<Rightarrow> rnic \<Rightarrow> u64 \<Rightarrow> (('a, 'd) cm_dev, dc_attr \<times> ptr \<times> reg_attr) act"
where
  "query_body V nic mem_name =
     bindA (wait_server 2) (\<lambda>_.
     bindA (cm_fetch_dc_attr (bstr ''server_dc'')) (\<lambda>fetch_qp_attr_res.
     bindA (expect_ok fetch_qp_attr_res) (\<lambda>(_, attr).
     bindA (cvD (dc_create_ah V (nic_pd nic) (ucast (dc_lid attr)))) (\<lambda>ah.
     bindA (remote_region mem_name) (\<lambda>remote_attr. retA (attr, ah, remote_attr))))))"

definition query_machine ::
  "'d verbs \<Rightarrow> ('ai, 'x) netlib_scheme \<Rightarrow> int \<Rightarrow> rnic \<Rightarrow> u64 \<Rightarrow> bytes \<Rightarrow> ('d host, dc_attr \<times> ptr \<times> reg_attr) act"
where
  "query_machine V L now nic mem_name addr h =
     (case srpc_new L now addr (h_cache h) of
        (Inl e, c) \<Rightarrow> (Inl e, h\<lparr>h_cache := c\<rparr>)
      | (Inr S, c) \<Rightarrow>
          (case query_body V nic mem_name \<lparr>cm_rpc = S, cm_net = h_net h, cv_drv = h_drv h\<rparr> of
             (r, s) \<Rightarrow> (r, h\<lparr>h_net := cm_net s, h_cache := c, h_drv := cv_drv s\<rparr>)))"

text \<open>The three vectors that the loop over the machines fills.\<close>

record dc_peers =
  pe_nodes :: "dc_attr list"
  pe_ahs :: "ptr list"
  pe_regs :: "reg_attr list"

definition no_peers :: dc_peers where
  "no_peers = \<lparr>pe_nodes = [], pe_ahs = [], pe_regs = []\<rparr>"

fun query_machines ::
  "'d verbs \<Rightarrow> ('ai, 'x) netlib_scheme \<Rightarrow> int \<Rightarrow> rnic \<Rightarrow> u64 \<Rightarrow> bytes list \<Rightarrow> dc_peers \<Rightarrow> ('d host, dc_peers) act"
where
  "query_machines V L now nic mem_name [] P = retA P"
| "query_machines V L now nic mem_name (addr # ms) P =
     bindA (query_machine V L now nic mem_name addr) (\<lambda>(attr, ah, remote_attr).
       query_machines V L now nic mem_name ms
         \<lparr>pe_nodes = pe_nodes P @ [attr], pe_ahs = pe_ahs P @ [ah], pe_regs = pe_regs P @ [remote_attr]\<rparr>)"

section \<open>The rounds\<close>

record 'd dc_worker =
  dk_dcs :: "dc list"
  dk_idx :: nat
  dk_rand :: fast_random
  dk_stat :: statics
  dk_drv :: 'd

text \<open>
  \<open>int mod = FLAGS_mem_sz / FLAGS_payload_sz\<close>: a signed division in 64 bits, truncated to 32.
  A divisor of zero and a quotient out of range are undefined.
\<close>

definition dc_modulus :: "u64 \<Rightarrow> c_int \<Rightarrow> c_int outcome" where
  "dc_modulus mem_sz payload =
     (if payload = 0 \<or> (sint mem_sz = - (2 ^ 63) \<and> sint payload = - 1) then Inl Undefined
      else Inr (of_int (sint mem_sz sdiv sint payload)))"

text \<open>
  One read of \<open>payload\<close> bytes. The modulus is extended with its sign; the local key is
  \<open>RegAttr::key\<close>. The opcode and the flag are those of the experimental verbs.
\<close>

definition dc_request ::
  "nat \<Rightarrow> u32 \<Rightarrow> c_int \<Rightarrow> reg_attr \<Rightarrow> dc_peers \<Rightarrow> nat \<Rightarrow> u64 \<Rightarrow> dc_req_desc \<times> dc_req_payload"
where
  "dc_request exp_read exp_signaled payload lattr P idx off =
     (\<lparr>dq_op = exp_read, dq_send_flags = exp_signaled, dq_ah = pe_ahs P ! idx,
       dq_dct_num = dc_dct_num (pe_nodes P ! idx), dq_dc_key = dc_key (pe_nodes P ! idx), dq_len = payload\<rparr>,
      \<lparr>dp_laddr = ra_buf lattr, dp_raddr = ra_buf (pe_regs P ! idx) + off * scast payload,
       dp_lkey = ra_key lattr, dp_rkey = ra_key (pe_regs P ! idx)\<rparr>)"

definition dc_round ::
  "'d verbs \<Rightarrow> nat \<Rightarrow> u32 \<Rightarrow> nat \<Rightarrow> c_int \<Rightarrow> c_int \<Rightarrow> reg_attr \<Rightarrow> dc_peers \<Rightarrow> ('d dc_worker, unit) act"
where
  "dc_round V exp_read exp_signaled dc_num payload md lattr P w =
     (if dc_num = 0 \<or> md = 0 \<or> pe_nodes P = [] then (Inl Undefined, w)
      else
        let i = (dk_idx w + 1) mod dc_num;
            (rand_val, r) = fr_next (dk_rand w);
            off = rand_val mod scast md;
            idx = unat (rand_val mod of_nat (length (pe_nodes P)));
            w1 = w\<lparr>dk_idx := i, dk_rand := r\<rparr>;
            (rdesc, payl) = dc_request exp_read exp_signaled payload lattr P idx off
        in case dc_post_send V rdesc payl (dk_dcs w ! i) (dk_drv w) of
             (Inl e, d) \<Rightarrow> (Inl e, w1\<lparr>dk_drv := d\<rparr>)
           | (Inr send_res, d) \<Rightarrow>
               if code send_res \<noteq> IO_Ok then (Inl Aborted, w1\<lparr>dk_drv := d\<rparr>)
               else (case dc_wait_one_comp V no_timeout (dk_dcs w ! i) d of
                       None \<Rightarrow> (Inl Diverged, w1\<lparr>dk_drv := d\<rparr>)
                     | Some (res, q, d') \<Rightarrow>
                         let w2 = w1\<lparr>dk_dcs := (dk_dcs w)[i := q], dk_drv := d'\<rparr>
                         in if code res \<noteq> IO_Ok then (Inl Aborted, w2)
                            else (Inr (), w2\<lparr>dk_stat := increment 1 (dk_stat w)\<rparr>)))"

fun dc_rounds ::
  "'d verbs \<Rightarrow> nat \<Rightarrow> u32 \<Rightarrow> nat \<Rightarrow> c_int \<Rightarrow> c_int \<Rightarrow> reg_attr \<Rightarrow> dc_peers \<Rightarrow> nat \<Rightarrow> ('d dc_worker, unit) act"
where
  "dc_rounds V exp_read exp_signaled dc_num payload md lattr P 0 = retA ()"
| "dc_rounds V exp_read exp_signaled dc_num payload md lattr P (Suc n) =
     bindA (dc_round V exp_read exp_signaled dc_num payload md lattr P) (\<lambda>_.
       dc_rounds V exp_read exp_signaled dc_num payload md lattr P n)"

section \<open>The worker\<close>

fun dc_pairs :: "'d verbs \<Rightarrow> rnic \<Rightarrow> nat \<Rightarrow> ('d, dc list) act" where
  "dc_pairs V nic 0 = retA []"
| "dc_pairs V nic (Suc n) =
     bindA (dc_create V nic (default_config (v_access V)) None) (\<lambda>q.
     bindA (dc_pairs V nic n) (\<lambda>qs. retA (q # qs)))"

text \<open>
  The function is declared to return a number and returns none: after the loop it falls off
  its end. What it did before is in the statistics and the driver's state.
\<close>

definition dc_worker_fn ::
  "'d verbs \<Rightarrow> nat \<Rightarrow> u32 \<Rightarrow> ('ai, 'x) netlib_scheme \<Rightarrow> (u64 \<Rightarrow> ptr) \<Rightarrow> int \<Rightarrow> dc_flags \<Rightarrow> nat \<Rightarrow> usize \<Rightarrow>
     statics \<Rightarrow> 'd host \<Rightarrow> (usize outcome \<times> statics) \<times> 'd host"
where
  "dc_worker_fn V exp_read exp_signaled L af now F n worker_id st h =
     (let set_up =
        bindA (hostD (open_nic V (df_nic_idx F))) (\<lambda>nic.
        bindA (liftA (assertE (split_str (df_machines F) (bstr '' '') \<noteq> []))) (\<lambda>_.
        bindA (query_machines V L now nic (df_mem_name F) (split_str (df_machines F) (bstr '' '')) no_peers) (\<lambda>P.
        bindA (hostD (reg_handler_create V (rmem_new af (df_mem_sz F)) nic (default_flags (v_access V)))) (\<lambda>mr.
        bindA (liftA (opt_value mr)) (\<lambda>local_mr.
        bindA (liftA (opt_value (get_reg_attr local_mr))) (\<lambda>lattr.
        bindA (hostD (dc_pairs V nic (df_dc_num F))) (\<lambda>dcs.
        bindA (liftA (dc_modulus (df_mem_sz F) (df_payload_sz F))) (\<lambda>md. retA (P, lattr, dcs, md)))))))))
      in case set_up h of
           (Inl e, h1) \<Rightarrow> ((Inl e, st), h1)
         | (Inr (P, lattr, dcs, md), h1) \<Rightarrow>
             (case dc_rounds V exp_read exp_signaled (df_dc_num F) (df_payload_sz F) md lattr P n
                     \<lparr>dk_dcs = dcs, dk_idx = 0, dk_rand = fr_new (0xdeafbeaf + worker_id), dk_stat = st, dk_drv = h_drv h1\<rparr> of
                (Inl e, w) \<Rightarrow> ((Inl e, dk_stat w), h1\<lparr>h_drv := dk_drv w\<rparr>)
              | (Inr _, w) \<Rightarrow> ((Inl Undefined, dk_stat w), h1\<lparr>h_drv := dk_drv w\<rparr>)))"

end
