(* ===== verification/ConnMgrSpec.thy ===== *)
theory ConnMgrSpec
  imports ConnMgr RCtrlSpec
begin

text \<open>
  Client and server together: the operations of the connection manager against the control
  daemon, over a network that delivers the datagrams of both.
\<close>

section \<open>Calls of the connection manager\<close>

text \<open>The events a client finds: heartbeat replies left over, then the datagram, then others.\<close>

definition with_answer :: "'a net \<Rightarrow> ('a \<times> bytes) list \<Rightarrow> 'a \<Rightarrow> bytes \<Rightarrow> 'a sel_ev list \<Rightarrow> 'a net" where
  "with_answer n hbs b e es = n\<lparr>inbox := map (\<lambda>h. SelData (fst h) (snd h)) hbs @ SelData b e # es\<rparr>"

definition after_call :: "'a srpc \<Rightarrow> 'a net \<Rightarrow> bytes \<Rightarrow> 'a sel_ev list \<Rightarrow> 'a net" where
  "after_call S n d es = n\<lparr>inbox := es, outbox := outbox n @ [(sc_end (sp_chan S), d)]\<rparr>"

definition next_ck :: "'a srpc \<Rightarrow> 'a srpc" where
  "next_ck S = S\<lparr>sp_checksum := sp_checksum S + 1\<rparr>"

text \<open>
  One call: the request \<open>d\<close> and the reply \<open>e\<close> do not depend on what else the network
  holds, so that calls can be put in sequence.
\<close>

definition one_exchange ::
  "('a, 's) srpc_handler \<Rightarrow> 's \<Rightarrow> 'a \<Rightarrow> bytes \<Rightarrow> bytes \<Rightarrow> ('a, 's) srpc_handler \<Rightarrow> 's \<Rightarrow> bool"
where
  "one_exchange H s a d e H' s' \<longleftrightarrow>
     run_one_event_loop H s (empty_net\<lparr>inbox := [SelData a d]\<rparr>) =
       (Inr 1, H', s', empty_net\<lparr>outbox := [(a, e)]\<rparr>) \<and> idle H' \<and> hd_fac H' = hd_fac H"

lemma cm_exchange:
  fixes S :: "'a srpc"
  assumes "fd_valid (sc_fd (sp_chan S))" "length p \<le> 4054"
    and "idle H" "map_of (hd_fac H) rid = Some fn"
    and "fn p s = (Inr r, s')" "length r \<le> 4053" "rid \<noteq> HeartBeat"
    and "\<forall>h \<in> set hbs. heartbeat_packet (snd h)"
  shows "\<exists>d e H'. one_exchange H s a d e H' s' \<and>
    (\<forall>n es. \<forall>c :: ('a, 'x) cm_scheme. send_fails n = [] \<longrightarrow> cm_rpc c = S \<longrightarrow> cm_net c = with_answer n hbs b e es \<longrightarrow>
       (\<exists>c1. cm_call rid p c = (Inr (Ok []), c1) \<and>
             c1 = c\<lparr>cm_net := (cm_net c)\<lparr>outbox := outbox n @ [(sc_end (sp_chan S), d)]\<rparr>\<rparr> \<and>
             cm_receive False c1 = (Inr (Ok r), c\<lparr>cm_rpc := next_ck S, cm_net := after_call S n d es\<rparr>)))"
proof -
  obtain d e H' where
    call: "\<forall>n. send_fails n = [] \<longrightarrow>
       srpc_call S rid p n = (Inr (Ok []), n\<lparr>outbox := outbox n @ [(sc_end (sp_chan S), d)]\<rparr>)"
    and run: "one_exchange H s a d e H' s'"
    and recv: "\<forall>n es. inbox n = map (\<lambda>h. SelData (fst h) (snd h)) hbs @ SelData b e # es \<longrightarrow>
       receive_reply S False n = (Inr (Ok r), S\<lparr>sp_checksum := sp_checksum S + 1\<rparr>, n\<lparr>inbox := es\<rparr>)"
    using rpc_round_trip [OF assms, of a b] unfolding one_exchange_def by blast
  have "cm_call rid p c = (Inr (Ok []), c\<lparr>cm_net := (cm_net c)\<lparr>outbox := outbox n @ [(sc_end (sp_chan S), d)]\<rparr>\<rparr>) \<and>
      cm_receive False (c\<lparr>cm_net := (cm_net c)\<lparr>outbox := outbox n @ [(sc_end (sp_chan S), d)]\<rparr>\<rparr>) =
        (Inr (Ok r), c\<lparr>cm_rpc := next_ck S, cm_net := after_call S n d es\<rparr>)"
    if "send_fails n = []" "cm_rpc c = S" "cm_net c = with_answer n hbs b e es" for n es and c :: "('a, 'x) cm_scheme"
    using that call
      recv [rule_format, of "(with_answer n hbs b e es)\<lparr>outbox := outbox n @ [(sc_end (sp_chan S), d)]\<rparr>" es]
    by (simp add: cm_call_def cm_receive_def with_answer_def after_call_def next_ck_def)
  with run show ?thesis
    by blast
qed

lemma fetch_mr_exchange:
  fixes S :: "'a srpc"
  assumes "fd_valid (sc_fd (sp_chan S))"
    and "idle H" and "map_of (hd_fac H) FetchMr = Some fetch_mr_handler"
    and "query (registered_mrs s) rid = Some mr" and "get_reg_attr mr = Some attr"
    and "\<forall>h \<in> set hbs. heartbeat_packet (snd h)"
  shows "\<exists>d e H'. one_exchange H s a d e H' s \<and>
    (\<forall>n es. \<forall>c :: ('a, 'x) cm_scheme. send_fails n = [] \<longrightarrow> cm_rpc c = S \<longrightarrow> cm_net c = with_answer n hbs b e es \<longrightarrow>
       fetch_remote_mr rid c = (Inr (Ok ([], attr)), c\<lparr>cm_rpc := next_ck S, cm_net := after_call S n d es\<rparr>))"
proof -
  let ?p = "dump 8 enc_mr_req \<lparr>mrq_id = rid\<rparr>"
  let ?r = "dump 25 enc_mr_reply \<lparr>mrp_status = CB_Ok, mrp_attr = attr\<rparr>"
  have fn: "fetch_mr_handler ?p s = (Inr ?r, s)"
    using assms(4,5) mr_req_packed.dedump_dump [of "\<lparr>mrq_id = rid\<rparr>"] by (simp add: fetch_mr_handler_def)
  have len: "length ?p \<le> 4054" "length ?r \<le> 4053"
    by (simp_all add: mr_req_packed.length_dump mr_reply_packed.length_dump)
  have "FetchMr \<noteq> HeartBeat"
    by (simp add: FetchMr_def HeartBeat_def)
  from cm_exchange [OF assms(1) len(1) assms(2,3) fn len(2) this assms(6), of a b]
  obtain d e H' where run: "one_exchange H s a d e H' s"
    and cm: "\<forall>n es. \<forall>c :: ('a, 'x) cm_scheme. send_fails n = [] \<longrightarrow> cm_rpc c = S \<longrightarrow> cm_net c = with_answer n hbs b e es \<longrightarrow>
       (\<exists>c1. cm_call FetchMr ?p c = (Inr (Ok []), c1) \<and>
             c1 = c\<lparr>cm_net := (cm_net c)\<lparr>outbox := outbox n @ [(sc_end (sp_chan S), d)]\<rparr>\<rparr> \<and>
             cm_receive False c1 = (Inr (Ok ?r), c\<lparr>cm_rpc := next_ck S, cm_net := after_call S n d es\<rparr>))"
    by blast
  have "fetch_remote_mr rid c = (Inr (Ok ([], attr)), c\<lparr>cm_rpc := next_ck S, cm_net := after_call S n d es\<rparr>)"
    if "send_fails n = []" "cm_rpc c = S" "cm_net c = with_answer n hbs b e es" for n es and c :: "('a, 'x) cm_scheme"
    using cm [rule_format, OF that] mr_reply_packed.dedump_dump [of "\<lparr>mrp_status = CB_Ok, mrp_attr = attr\<rparr>"]
    by (auto simp: fetch_remote_mr_def bindA_def retA_def)
  with run show ?thesis
    by blast
qed

text \<open>
  Fetching a memory region from end to end. When the region is registered at the
  server under the id and known to its driver, one request and one reply make the client
  return exactly the region's attribute.
\<close>
theorem fetch_remote_mr_end_to_end:
  fixes S :: "'a srpc"
  assumes "fd_valid (sc_fd (sp_chan S))" and "send_fails n = []"
    and "idle H" and "map_of (hd_fac H) FetchMr = Some fetch_mr_handler"
    and "query (registered_mrs s) rid = Some mr" and "get_reg_attr mr = Some attr"
    and "\<forall>h \<in> set hbs. heartbeat_packet (snd h)"
  shows "\<exists>d e H'.
    run_one_event_loop H s (empty_net\<lparr>inbox := [SelData a d]\<rparr>) =
      (Inr 1, H', s, empty_net\<lparr>outbox := [(a, e)]\<rparr>) \<and>
    fetch_remote_mr rid \<lparr>cm_rpc = S, cm_net = with_answer n hbs b e es\<rparr> =
      (Inr (Ok ([], attr)), \<lparr>cm_rpc = next_ck S, cm_net = after_call S n d es\<rparr>)"
proof -
  obtain d e H' where d: "one_exchange H s a d e H' s"
    "\<forall>n es. \<forall>c :: 'a cm. send_fails n = [] \<longrightarrow> cm_rpc c = S \<longrightarrow> cm_net c = with_answer n hbs b e es \<longrightarrow>
       fetch_remote_mr rid c = (Inr (Ok ([], attr)), c\<lparr>cm_rpc := next_ck S, cm_net := after_call S n d es\<rparr>)"
    using fetch_mr_exchange [OF assms(1,3-7), of a b] by blast
  show ?thesis
    using d(1) d(2) [rule_format, OF assms(2), of "\<lparr>cm_rpc = S, cm_net = with_answer n hbs b e es\<rparr>" es]
    by (intro exI [of _ d] exI [of _ e] exI [of _ H']) (simp add: one_exchange_def)
qed

text \<open>A daemon with a registered region, for the witnesses.\<close>

definition sample_region :: reg_handler where
  "sample_region = \<lparr>rh_mr = Some (11, 12), rh_nic = sample_nic, rh_mem = \<lparr>rm_ptr = Some 4096, rm_sz = 64\<rparr>\<rparr>"

definition sample_daemon :: "(bool, (nat, sim) rctrl) srpc_handler" where
  "sample_daemon = (case rctrl_rpc sample_rnd sim_verbs
     \<lparr>rc_fd = 3, cur_msg_client = None, cur_msg = replicate 4096 0\<rparr> of Inr H \<Rightarrow> H | Inl _ \<Rightarrow> handler_of_channel
     \<lparr>rc_fd = 3, cur_msg_client = None, cur_msg = replicate 4096 0\<rparr>)"

lemma sample_daemon_rpc:
  "rctrl_rpc sample_rnd sim_verbs \<lparr>rc_fd = 3, cur_msg_client = None, cur_msg = replicate 4096 0\<rparr> = Inr sample_daemon"
  by (simp add: sample_daemon_def rctrl_rpc_def rctrl_handlers_def handler_register_def register_handler_def
      handler_of_channel_def rpc_factory_new_def HeartBeat_def FetchMr_def CreateRC_def DeleteRC_def
      FetchQPAttr_def FetchDCAttr_def)

lemma sample_daemon_table:
  "idle sample_daemon" "map_of (hd_fac sample_daemon) FetchMr = Some fetch_mr_handler"
  "map_of (hd_fac sample_daemon) CreateRC = Some (rc_handler sample_rnd sim_verbs)"
  "map_of (hd_fac sample_daemon) HeartBeat = Some heartbeat_handler"
  using rctrl_table [OF sample_daemon_rpc] by (simp_all add: idle_def fd_valid_def has_msg_def rpc_ids)

definition sample_client :: "bool srpc" where
  "sample_client = srpc_of_channel \<lparr>sc_fd = 4, sc_end = True\<rparr>"

lemma sample_client_valid: "fd_valid (sc_fd (sp_chan sample_client))"
  by (simp add: sample_client_def srpc_of_channel_def fd_valid_def)

theorem fetch_remote_mr_end_to_end_witness:
  "\<exists>d e. fetch_remote_mr 9 \<lparr>cm_rpc = sample_client, cm_net = with_answer empty_net [] True e []\<rparr> =
     (Inr (Ok ([], \<lparr>ra_buf = 4096, ra_sz = 64, ra_key = 11, ra_lkey = 12\<rparr>)),
      \<lparr>cm_rpc = next_ck sample_client, cm_net = after_call sample_client empty_net d []\<rparr>)"
  using fetch_remote_mr_end_to_end [OF sample_client_valid _ sample_daemon_table(1,2),
      of empty_net "sample_ctrl\<lparr>registered_mrs := \<lparr>store = [(9, (sample_region, 1))]\<rparr>\<rparr>" 9 sample_region
        "\<lparr>ra_buf = 4096, ra_sz = 64, ra_key = 11, ra_lkey = 12\<rparr>" "[]" False True "[]"]
  by (auto simp: query_def get_reg_attr_def sample_region_def ptr_u64_def)

lemma delete_exchange:
  fixes S :: "'a srpc"
  assumes "fd_valid (sc_fd (sp_chan S))" "length nm \<le> kMaxQPNameLen" "0 \<notin> set nm"
    and "idle H" "map_of (hd_fac H) DeleteRC = Some (delete_rc V)"
    and "map_of (store (registered_qps s)) nm = Some (i, key)"
    and "\<forall>h \<in> set hbs. heartbeat_packet (snd h)"
  shows "\<exists>d e H' s'. one_exchange H s a d e H' s' \<and>
    (\<forall>n es. \<forall>c :: ('a, 'x) cm_scheme. send_fails n = [] \<longrightarrow> cm_rpc c = S \<longrightarrow> cm_net c = with_answer n hbs b e es \<longrightarrow>
       delete_remote_rc nm key c = (Inr (Ok []), c\<lparr>cm_rpc := next_ck S, cm_net := after_call S n d es\<rparr>)) \<and>
    store (registered_qps s') = filter (\<lambda>p. fst p \<noteq> nm) (store (registered_qps s))"
proof -
  let ?req = "\<lparr>dlq_name = name_array nm, dlq_key = key\<rparr>"
  let ?p = "dump 72 enc_del_rc_req ?req" and ?r = "rc_reply_of CB_Ok"
  let ?f = "(registered_qps s)\<lparr>store := filter (\<lambda>p. fst p \<noteq> nm) (store (registered_qps s))\<rparr>"
  have wf: "wf_name (dlq_name ?req)" "c_string (dlq_name ?req) = Inr nm"
    using assms(2,3) by (simp_all add: wf_name_array c_string_name_array)
  obtain s' where rel: "release_qp V i (s\<lparr>registered_qps := ?f\<rparr>) = (Inr (), s')" "registered_qps s' = ?f"
    using release_qp_returns [of V i "s\<lparr>registered_qps := ?f\<rparr>"] by auto
  have fn: "delete_rc V ?p s = (Inr ?r, s')"
    using delete_rc_decoded [OF wf, of V "[]" s] rel(1) assms(6) by (simp add: dereg_def bindA_def retA_def)
  have len: "length ?p \<le> 4054" "length ?r \<le> 4053"
    using del_rc_req_packed.length_dump [of ?req] wf(1) by (simp_all add: rc_reply_of_def rc_reply_packed.length_dump)
  have "DeleteRC \<noteq> HeartBeat"
    by (simp add: DeleteRC_def HeartBeat_def)
  from cm_exchange [OF assms(1) len(1) assms(4,5) fn len(2) this assms(7), of a b]
  obtain d e H' where run: "one_exchange H s a d e H' s'"
    and cm: "\<forall>n es. \<forall>c :: ('a, 'x) cm_scheme. send_fails n = [] \<longrightarrow> cm_rpc c = S \<longrightarrow> cm_net c = with_answer n hbs b e es \<longrightarrow>
       (\<exists>c1. cm_call DeleteRC ?p c = (Inr (Ok []), c1) \<and>
             c1 = c\<lparr>cm_net := (cm_net c)\<lparr>outbox := outbox n @ [(sc_end (sp_chan S), d)]\<rparr>\<rparr> \<and>
             cm_receive False c1 = (Inr (Ok ?r), c\<lparr>cm_rpc := next_ck S, cm_net := after_call S n d es\<rparr>))"
    by blast
  have "delete_reply (Ok ?r) = Inr (Ok [])"
    by (simp add: delete_reply_def rc_reply_of_def rc_reply_packed.dedump_dump)
  then have "delete_remote_rc nm key c = (Inr (Ok []), c\<lparr>cm_rpc := next_ck S, cm_net := after_call S n d es\<rparr>)"
    if "send_fails n = []" "cm_rpc c = S" "cm_net c = with_answer n hbs b e es" for n es and c :: "('a, 'x) cm_scheme"
    using cm [rule_format, OF that] assms(2) by (auto simp: delete_remote_rc_def bindA_def liftA_def)
  with run rel(2) show ?thesis
    by fastforce
qed

lemma heartbeat_exchange:
  fixes S :: "'a srpc"
  assumes "fd_valid (sc_fd (sp_chan S))" "idle H" "map_of (hd_fac H) HeartBeat = Some heartbeat_handler"
  shows "\<exists>d e H'. one_exchange H s a d e H' s \<and>
    (\<forall>n. send_fails n = [] \<longrightarrow>
       srpc_call S HeartBeat [48] n = (Inr (Ok []), n\<lparr>outbox := outbox n @ [(sc_end (sp_chan S), d)]\<rparr>)) \<and>
    (\<forall>n es k. \<forall>c :: ('a, 'x) cm_scheme. send_fails n = [] \<longrightarrow> cm_rpc c = S \<longrightarrow> cm_net c = with_answer n [] b e es \<longrightarrow>
       wait_ready (Suc k) c = (Inr (Ok []), c\<lparr>cm_net := after_call S n d es\<rparr>))"
proof -
  from srpc_call_packet [of "[48]" S HeartBeat] obtain d where
    d: "request_packet d HeartBeat (sp_checksum S) [48] []" and
    dn: "\<And>n. srpc_call S HeartBeat [48] n = sc_send (sp_chan S) d n"
    by auto
  have len: "length d = 43" "d \<noteq> []"
    using request_packet_length [OF d] by auto
  have call: "srpc_call S HeartBeat [48] n = (Inr (Ok []), n\<lparr>outbox := outbox n @ [(sc_end (sp_chan S), d)]\<rparr>)"
    if "send_fails n = []" for n
    using dn sc_send_ok [OF assms(1) that len(2)] by simp
  let ?q = "\<lparr>rq_from = a, rq_id = HeartBeat, rq_ck = sp_checksum S, rq_param = [48], rq_dgram = d\<rparr>"
  have "wf_request (hd_fac H) ?q" "run_handler (hd_fac H) ?q s = (Inr (bstr ''1''), s)" "good_outcome (Inr (bstr ''1''))"
    using d len assms(3)
    by (simp_all add: wf_request_def run_handler_def call_one_def heartbeat_handler_def good_outcome_def bstr_def)
  from loop_one_request [OF assms(2) this] obtain e H' where
    run: "one_exchange H s a d e H' s"
    and ans: "answer_packet e HeartBeat (sp_checksum S) (Inr (bstr ''1''))"
    by (auto simp: one_exchange_def)
  then have rp: "reply_packet e CS_Ok (sp_checksum S) 1 [bstr ''1''] []"
    by (simp add: answer_packet_def answer_status_def answer_payload_def bstr_def)
  then have le: "length e \<le> 4096"
    using reply_packet_length by (fastforce simp: bstr_def)
  have recv: "receive_reply S True n = (Inr (Ok []), S, n\<lparr>inbox := es\<rparr>)" if "inbox n = SelData b e # es" for n es
    using receive_reply_packet [OF assms(1) that rp le] by simp
  have "wait_ready (Suc k) c = (Inr (Ok []), c\<lparr>cm_net := after_call S n d es\<rparr>)"
    if "send_fails n = []" "cm_rpc c = S" "cm_net c = with_answer n [] b e es" for n es k and c :: "('a, 'x) cm_scheme"
    using that call recv
    by (simp add: bindA_def cm_call_def cm_receive_def with_answer_def after_call_def retA_def)
  with run call show ?thesis
    by blast
qed

section \<open>Fetching the attribute of a queue pair\<close>

lemma fetch_qp_exchange:
  fixes S :: "'a srpc"
  assumes "fd_valid (sc_fd (sp_chan S))" "length nm \<le> kMaxQPNameLen" "0 \<notin> set nm"
    and "idle H" "map_of (hd_fac H) FetchQPAttr = Some (fetch_qp_attr_wrapper V)"
    and "query (registered_qps s) nm = Some i" "i < length (qp_heap s)" "any_my_attr V (ho_qp (qp_heap s ! i)) (rt_drv s) = Inr attr"
    and "\<forall>h \<in> set hbs. heartbeat_packet (snd h)"
  shows "\<exists>d e H'. one_exchange H s a d e H' s \<and>
    (\<forall>n es. \<forall>c :: ('a, 'x) cm_scheme. send_fails n = [] \<longrightarrow> cm_rpc c = S \<longrightarrow> cm_net c = with_answer n hbs b e es \<longrightarrow>
       cm_fetch_qp_attr nm c = (Inr (Ok ([], attr)), c\<lparr>cm_rpc := next_ck S, cm_net := after_call S n d es\<rparr>))"
proof -
  let ?req = "\<lparr>qrq_name = name_array nm, qrq_key = 0\<rparr>" and ?reply = "\<lparr>rrp_status = CB_Ok, rrp_attr = attr, rrp_key = 0\<rparr>"
  let ?p = "dump 72 enc_qp_req ?req" and ?r = "dump 69 enc_rc_reply ?reply"
  have wf: "wf_name (qrq_name ?req)" "c_string (qrq_name ?req) = Inr nm"
    using assms(2,3) by (simp_all add: wf_name_array c_string_name_array)
  have fn: "fetch_qp_attr_wrapper V ?p s = (Inr ?r, s)"
    using assms(6-8) wf qp_req_packed.dedump_dump [of ?req] by (simp add: fetch_qp_attr_wrapper_def fetch_qp_attr_def)
  have len: "length ?p \<le> 4054" "length ?r \<le> 4053"
    using qp_req_packed.length_dump [of ?req] wf(1) by (simp_all add: rc_reply_packed.length_dump)
  have "FetchQPAttr \<noteq> HeartBeat"
    by (simp add: FetchQPAttr_def HeartBeat_def)
  from cm_exchange [OF assms(1) len(1) assms(4,5) fn len(2) this assms(9), of a b]
  obtain d e H' where run: "one_exchange H s a d e H' s"
    and cm: "\<forall>n es. \<forall>c :: ('a, 'x) cm_scheme. send_fails n = [] \<longrightarrow> cm_rpc c = S \<longrightarrow> cm_net c = with_answer n hbs b e es \<longrightarrow>
       (\<exists>c1. cm_call FetchQPAttr ?p c = (Inr (Ok []), c1) \<and>
             c1 = c\<lparr>cm_net := (cm_net c)\<lparr>outbox := outbox n @ [(sc_end (sp_chan S), d)]\<rparr>\<rparr> \<and>
             cm_receive False c1 = (Inr (Ok ?r), c\<lparr>cm_rpc := next_ck S, cm_net := after_call S n d es\<rparr>))"
    by blast
  have "dedump 69 dec_rc_reply ?r = Some ?reply"
    by (rule rc_reply_packed.dedump_dump) simp
  then have "cm_fetch_qp_attr nm c = (Inr (Ok ([], attr)), c\<lparr>cm_rpc := next_ck S, cm_net := after_call S n d es\<rparr>)"
    if "send_fails n = []" "cm_rpc c = S" "cm_net c = with_answer n hbs b e es" for n es and c :: "('a, 'x) cm_scheme"
    using cm [rule_format, OF that] assms(2) by (auto simp: cm_fetch_qp_attr_def bindA_def retA_def)
  with run show ?thesis
    by blast
qed

lemma fetch_dc_exchange:
  fixes S :: "'a srpc"
  assumes "fd_valid (sc_fd (sp_chan S))" "length nm \<le> kMaxQPNameLen" "0 \<notin> set nm"
    and "idle H" "map_of (hd_fac H) FetchDCAttr = Some fetch_dc_attr_wrapper"
    and "query (registered_dcs s) nm = Some t" "dt_attr t = Some attr"
    and "\<forall>h \<in> set hbs. heartbeat_packet (snd h)"
  shows "\<exists>d e H'. one_exchange H s a d e H' s \<and>
    (\<forall>n es. \<forall>c :: ('a, 'x) cm_scheme. send_fails n = [] \<longrightarrow> cm_rpc c = S \<longrightarrow> cm_net c = with_answer n hbs b e es \<longrightarrow>
       cm_fetch_dc_attr nm c = (Inr (Ok ([], attr)), c\<lparr>cm_rpc := next_ck S, cm_net := after_call S n d es\<rparr>))"
proof -
  let ?req = "\<lparr>qrq_name = name_array nm, qrq_key = 0\<rparr>" and ?reply = "\<lparr>drp_status = CB_Ok, drp_attr = attr, drp_key = 0\<rparr>"
  let ?p = "dump 72 enc_qp_req ?req" and ?r = "dump 25 enc_dc_reply ?reply"
  have wf: "wf_name (qrq_name ?req)" "c_string (qrq_name ?req) = Inr nm"
    using assms(2,3) by (simp_all add: wf_name_array c_string_name_array)
  have fn: "fetch_dc_attr_wrapper ?p s = (Inr ?r, s)"
    using assms(6,7) wf qp_req_packed.dedump_dump [of ?req] by (simp add: fetch_dc_attr_wrapper_def fetch_dc_attr_def)
  have len: "length ?p \<le> 4054" "length ?r \<le> 4053"
    using qp_req_packed.length_dump [of ?req] wf(1) by (simp_all add: dc_reply_packed.length_dump)
  have "FetchDCAttr \<noteq> HeartBeat"
    by (simp add: FetchDCAttr_def HeartBeat_def)
  from cm_exchange [OF assms(1) len(1) assms(4,5) fn len(2) this assms(8), of a b]
  obtain d e H' where run: "one_exchange H s a d e H' s"
    and cm: "\<forall>n es. \<forall>c :: ('a, 'x) cm_scheme. send_fails n = [] \<longrightarrow> cm_rpc c = S \<longrightarrow> cm_net c = with_answer n hbs b e es \<longrightarrow>
       (\<exists>c1. cm_call FetchDCAttr ?p c = (Inr (Ok []), c1) \<and>
             c1 = c\<lparr>cm_net := (cm_net c)\<lparr>outbox := outbox n @ [(sc_end (sp_chan S), d)]\<rparr>\<rparr> \<and>
             cm_receive False c1 = (Inr (Ok ?r), c\<lparr>cm_rpc := next_ck S, cm_net := after_call S n d es\<rparr>))"
    by blast
  have "dedump 25 dec_dc_reply ?r = Some ?reply"
    by (rule dc_reply_packed.dedump_dump) simp
  then have "cm_fetch_dc_attr nm c = (Inr (Ok ([], attr)), c\<lparr>cm_rpc := next_ck S, cm_net := after_call S n d es\<rparr>)"
    if "send_fails n = []" "cm_rpc c = S" "cm_net c = with_answer n hbs b e es" for n es and c :: "('a, 'x) cm_scheme"
    using cm [rule_format, OF that] assms(2) by (auto simp: cm_fetch_dc_attr_def bindA_def retA_def)
  with run show ?thesis
    by blast
qed

section \<open>Connecting a pair of queue pairs\<close>

text \<open>The queue pair is ready to send, and its peer is the one with this number and address.\<close>

definition connected_to :: "('d \<Rightarrow> qp_view) \<Rightarrow> 'd \<Rightarrow> nat \<Rightarrow> u32 \<Rightarrow> raddress \<Rightarrow> bool" where
  "connected_to qps d h num ad \<longleftrightarrow>
     (\<exists>l a b. qps d h = Some (QPT_RC, QPS_RTS, l @ [a, b]) \<and> qa_state a = QPS_RTR \<and>
        qa_dest_qp_num a = num \<and> ah_subnet_prefix (qa_ah a) = subnet_prefix ad \<and>
        ah_interface_id (qa_ah a) = interface_id ad)"

lemma connected_rcv:
  assumes "qps d h = Some (QPT_RC, QPS_RTS, l @ [rcv_attr config attr port, send_attr config])"
    and "q_qpn attr = ucast num" "q_addr attr = ad"
  shows "connected_to qps d h num ad"
proof -
  have "(ucast (ucast num :: u64) :: u32) = num"
    by (rule bit_word_eqI) (auto simp: bit_simps)
  then show ?thesis
    unfolding connected_to_def using assms
    by (intro exI [of _ l] exI [of _ "rcv_attr config attr port"] exI [of _ "send_attr config"])
      (simp add: rcv_attr_def)
qed

definition client_attr :: "'d verbs \<Rightarrow> 'd \<Rightarrow> rc \<Rightarrow> raddress \<Rightarrow> u64 \<Rightarrow> nat \<Rightarrow> qp_attr" where
  "client_attr V d q ad li h = qp_attr_of V d (d_nic q) ad li (rc_config q) h"

lemma rc_my_attr_client:
  "nic_addr (d_nic q) = Some ad \<Longrightarrow> nic_lid (d_nic q) = Some li \<Longrightarrow> d_qp q = Some h \<Longrightarrow>
     rc_my_attr V q d = Inr (client_attr V d q ad li h)"
  by (simp add: rc_my_attr_def attr_of_def client_attr_def qp_attr_of_def)

text \<open>The exchange of \<open>cc_rc\<close>, whatever else is in the network.\<close>

text \<open>The server's half: the request of \<open>cc_rc\<close> for an unused name is served, its size and that of the reply fit.\<close>

lemma rc_request_served:
  fixes attr :: qp_attr
  defines "p \<equiv> \<lambda>nm nicid config attr. dump 246 enc_rc_req (cc_request (name_array nm) (name_array []) 0 nicid config attr 4096)"
  assumes name: "length nm \<le> kMaxQPNameLen" "0 \<notin> set nm"
    and server: "lawful V2 qps2" "query (opened_nics s) nicid = Some nic" "nic_addr nic = Some ad2" "nic_lid nic = Some li2"
      "rc_create V2 nic config None (rt_drv s) = (Inr (Some q2), e2)"
      "map_of (store (registered_qps s)) nm = None" "generate_key rnd (rt_rng s) = Some (key, r')"
  obtains s' h2 where "rc_handler rnd V2 (p nm nicid config attr) s =
      (Inr (dump 69 enc_rc_reply \<lparr>rrp_status = CB_Ok, rrp_attr = qp_attr_of V2 (rt_drv s') nic ad2 li2 config h2, rrp_key = key\<rparr>), s')"
    and "length (p nm nicid config attr) \<le> 4054"
    and "store (registered_qps s') = (nm, (length (qp_heap s), key)) # store (registered_qps s)"
    and "registered_mrs s' = registered_mrs s"
    and "qps2 (rt_drv s') h2 = Some (QPT_RC, QPS_RTS,
       [init_attr QPT_RC config nic, rcv_attr config attr (ucast (ucast (port_id (nic_id nic)) :: u64)), send_attr config])"
proof -
  let ?req = "cc_request (name_array nm) (name_array []) 0 nicid config attr 4096"
  have wf: "wf_rc_req ?req"
    using name(1) by (simp add: cc_request_def wf_rc_req_def wf_name_array)
  have req: "rrq_config ?req = config" "rrq_attr ?req = attr" "rrq_whether_create ?req = 1"
      "rrq_nic_id ?req = nicid" "c_string (rrq_name ?req) = Inr nm"
    using name by (simp_all add: cc_request_def c_string_name_array)
  show thesis
    using rc_handler_created [OF server(1,3,4) _ req(5) server(6,7) wf req(3), of q2 e2 "[]"] server(2,5) req that
      rc_req_packed.length_dump [OF wf] unfolding p_def by auto
qed

text \<open>The client's half: a good reply connects the local queue pair and gives the key.\<close>

lemma cc_rc_answered:
  assumes "length nm \<le> kMaxQPNameLen" "rc_my_attr V (cm_rc c) (cm_drv c) = Inr attr"
    and "cm_call CreateRC (dump 246 enc_rc_req (cc_request (name_array nm) (name_array []) 0 nicid config attr 4096)) c = (Inr (Ok []), c1)"
    and "cm_receive False c1 = (Inr (Ok (dump 69 enc_rc_reply reply)), c2)" "rrp_status reply = CB_Ok"
    and "rc_connect V (rrp_attr reply) (cm_rc c2) (cm_drv c2) = (Inr (Ok [], q), d)"
  shows "cc_rc V nm nicid config c = (Inr (Ok ([], rrp_key reply)), c2\<lparr>cm_rc := q, cm_drv := d\<rparr>)"
proof -
  have "dedump 69 dec_rc_reply (dump 69 enc_rc_reply reply) = Some reply"
    by (rule rc_reply_packed.dedump_dump) simp
  then have "cc_reply V (Ok (dump 69 enc_rc_reply reply)) c2 = (Inr (Ok ([], rrp_key reply)), c2\<lparr>cm_rc := q, cm_drv := d\<rparr>)"
    using assms(5,6) by (simp add: cc_reply_def catchA_def bindA_def liftA_def local_connect_def retA_def)
  then show ?thesis
    using assms(1-4) by (simp add: cc_rc_def cc_send_def bindA_def)
qed

lemma cc_rc_exchange:
  fixes S :: "'a srpc"
  assumes client: "fd_valid (sc_fd (sp_chan S))" "length nm \<le> kMaxQPNameLen" "0 \<notin> set nm"
    and local_qp: "lawful V1 qps1" "qps1 d0 h1 = Some (QPT_RC, QPS_INIT, l1)" "d_qp q1 = Some h1" "d_cq q1 \<noteq> None"
      "nic_addr (d_nic q1) = Some ad1" "nic_lid (d_nic q1) = Some li1"
    and server: "idle H" "map_of (hd_fac H) CreateRC = Some (rc_handler rnd V2)" "lawful V2 qps2"
      "query (opened_nics s) nicid = Some nic" "nic_addr nic = Some ad2" "nic_lid nic = Some li2"
      "rc_create V2 nic config None (rt_drv s) = (Inr (Some q2), e2)"
      "map_of (store (registered_qps s)) nm = None" "generate_key rnd (rt_rng s) = Some (key, r')"
    and queue: "\<forall>h \<in> set hbs. heartbeat_packet (snd h)"
  shows "\<exists>d e H' s' d1 h2. one_exchange H s a d e H' s' \<and>
    (\<forall>n es. \<forall>c :: ('a, 'd) cm_qp. send_fails n = [] \<longrightarrow> cm_rpc c = S \<longrightarrow> cm_net c = with_answer n hbs b e es \<longrightarrow>
       cm_rc c = q1 \<longrightarrow> cm_drv c = d0 \<longrightarrow>
       cc_rc V1 nm nicid config c = (Inr (Ok ([], key)),
         c\<lparr>cm_rpc := next_ck S, cm_net := after_call S n d es, cm_rc := q1\<lparr>rc_status := Ok ()\<rparr>, cm_drv := d1\<rparr>)) \<and>
    connected_to qps1 d1 h1 (v_qp_num V2 (rt_drv s') (Some h2)) ad2 \<and>
    connected_to qps2 (rt_drv s') h2 (v_qp_num V1 d0 (Some h1)) ad1 \<and>
    store (registered_qps s') = (nm, (length (qp_heap s), key)) # store (registered_qps s) \<and>
    registered_mrs s' = registered_mrs s \<and> (\<exists>attr. d1 = snd (rc_connect V1 attr q1 d0))"
proof -
  let ?attr = "client_attr V1 d0 q1 ad1 li1 h1"
  let ?p = "dump 246 enc_rc_req (cc_request (name_array nm) (name_array []) 0 nicid config ?attr 4096)"
  obtain s' h2 where fn: "rc_handler rnd V2 ?p s =
      (Inr (dump 69 enc_rc_reply \<lparr>rrp_status = CB_Ok, rrp_attr = qp_attr_of V2 (rt_drv s') nic ad2 li2 config h2, rrp_key = key\<rparr>), s')"
    and plen: "length ?p \<le> 4054"
    and reg: "store (registered_qps s') = (nm, (length (qp_heap s), key)) # store (registered_qps s)"
      "registered_mrs s' = registered_mrs s"
    and rts: "qps2 (rt_drv s') h2 = Some (QPT_RC, QPS_RTS,
       [init_attr QPT_RC config nic, rcv_attr config ?attr (ucast (ucast (port_id (nic_id nic)) :: u64)), send_attr config])"
    by (rule rc_request_served [OF client(2,3) server(3-9), of ?attr]) (rule that)
  let ?reply = "\<lparr>rrp_status = CB_Ok, rrp_attr = qp_attr_of V2 (rt_drv s') nic ad2 li2 config h2, rrp_key = key\<rparr>"
  let ?r = "dump 69 enc_rc_reply ?reply"
  have len: "length ?r \<le> 4053" and ne: "CreateRC \<noteq> HeartBeat"
    by (simp_all add: rc_reply_packed.length_dump CreateRC_def HeartBeat_def)
  from cm_exchange [OF client(1) plen server(1,2) fn len ne queue, of a b]
  obtain d e H' where run: "one_exchange H s a d e H' s'"
    and cm: "\<forall>n es. \<forall>c :: ('a, 'd) cm_qp. send_fails n = [] \<longrightarrow> cm_rpc c = S \<longrightarrow> cm_net c = with_answer n hbs b e es \<longrightarrow>
       (\<exists>c1. cm_call CreateRC ?p c = (Inr (Ok []), c1) \<and>
             c1 = c\<lparr>cm_net := (cm_net c)\<lparr>outbox := outbox n @ [(sc_end (sp_chan S), d)]\<rparr>\<rparr> \<and>
             cm_receive False c1 = (Inr (Ok ?r), c\<lparr>cm_rpc := next_ck S, cm_net := after_call S n d es\<rparr>))"
    by blast
  obtain d1 where d1: "rc_connect V1 (rrp_attr ?reply) q1 d0 = (Inr (Ok [], q1\<lparr>rc_status := Ok ()\<rparr>), d1)"
      "qps1 d1 = (qps1 d0)(h1 \<mapsto> (QPT_RC, QPS_RTS, l1 @
        [rcv_attr (rc_config q1) (rrp_attr ?reply) (ucast (ucast (port_id (nic_id (d_nic q1))) :: u64)),
         send_attr (rc_config q1)]))"
    using rc_connect_init [OF local_qp(1,2,3,4,5,6)] .
  have cc: "cc_rc V1 nm nicid config c = (Inr (Ok ([], key)),
      c\<lparr>cm_rpc := next_ck S, cm_net := after_call S n d es, cm_rc := q1\<lparr>rc_status := Ok ()\<rparr>, cm_drv := d1\<rparr>)"
    if c: "send_fails n = []" "cm_rpc c = S" "cm_net c = with_answer n hbs b e es" and q: "cm_rc c = q1" "cm_drv c = d0"
    for n es and c :: "('a, 'd) cm_qp"
  proof -
    obtain c1 where c1: "cm_call CreateRC ?p c = (Inr (Ok []), c1)"
        "cm_receive False c1 = (Inr (Ok ?r), c\<lparr>cm_rpc := next_ck S, cm_net := after_call S n d es\<rparr>)"
      using cm [rule_format, OF c] by blast
    have "rc_my_attr V1 (cm_rc c) (cm_drv c) = Inr ?attr"
      using rc_my_attr_client [OF local_qp(5,6,3)] q by simp
    from cc_rc_answered [OF client(2) this c1] show ?thesis
      using d1(1) q by simp
  qed
  have "connected_to qps1 d1 h1 (v_qp_num V2 (rt_drv s') (Some h2)) ad2"
    by (rule connected_rcv [where l = l1 and attr = "rrp_attr ?reply"]) (simp_all add: d1(2) qp_attr_of_def)
  moreover have "connected_to qps2 (rt_drv s') h2 (v_qp_num V1 d0 (Some h1)) ad1"
    by (rule connected_rcv [where l = "[init_attr QPT_RC config nic]" and attr = ?attr])
      (simp_all add: rts client_attr_def qp_attr_of_def)
  ultimately show ?thesis
    using run reg cc d1(1) by (metis snd_conv)
qed



section \<open>Waiting and failing\<close>

text \<open>Every call that is made without an answer puts one more heartbeat on the wire.\<close>

lemma receive_timeout:
  assumes "fd_valid (sc_fd (sp_chan S))" "inbox n = []"
  shows "receive_reply S hb n = (Inr (Timeout []), S, n)"
  using assms by (subst receive_reply.simps) (simp add: sc_recv_def try_recv_def next_event_def Timeout_def)

lemma wait_ready_silent:
  assumes "fd_valid (sc_fd (sp_chan (cm_rpc c)))" "inbox (cm_net c) = []" "send_fails (cm_net c) = []"
    and "\<forall>n. send_fails n = [] \<longrightarrow> srpc_call (cm_rpc c) HeartBeat [48] n =
           (Inr (Ok []), n\<lparr>outbox := outbox n @ [(sc_end (sp_chan (cm_rpc c)), d)]\<rparr>)"
  shows "wait_ready k c = (Inr (Timeout (bstr ''retry exceeds num'')),
    c\<lparr>cm_net := (cm_net c)\<lparr>outbox := outbox (cm_net c) @ replicate k (sc_end (sp_chan (cm_rpc c)), d)\<rparr>\<rparr>)"
  using assms
proof (induction k arbitrary: c)
  case 0
  show ?case
    by (cases c; cases "cm_net c") (simp add: retA_def)
next
  case (Suc k)
  let ?o = "(sc_end (sp_chan (cm_rpc c)), d)"
  let ?c = "c\<lparr>cm_net := (cm_net c)\<lparr>outbox := outbox (cm_net c) @ [?o]\<rparr>\<rparr>"
  have call: "cm_call HeartBeat [48] c = (Inr (Ok []), ?c)"
    using Suc.prems by (simp add: cm_call_def)
  have recv: "cm_receive True ?c = (Inr (Timeout []), ?c)"
    using Suc.prems by (simp add: cm_receive_def receive_timeout)
  have "wait_ready (Suc k) c = wait_ready k ?c"
    using call recv by (simp add: bindA_def)
  also have "\<dots> = (Inr (Timeout (bstr ''retry exceeds num'')),
      ?c\<lparr>cm_net := (cm_net ?c)\<lparr>outbox := outbox (cm_net ?c) @ replicate k ?o\<rparr>\<rparr>)"
    using Suc.IH [of ?c] Suc.prems by simp
  finally show ?case
    by (simp add: replicate_app_Cons_same)
qed

text \<open>
  Waiting for the server. Against a silent network, \<open>wait_ready\<close> sends exactly one
  heartbeat per retry and reports Timeout; against a server that answers, the first
  heartbeat's answer makes it return Ok, and the checksum is where it was, so that the
  next call is not disturbed.
\<close>
theorem wait_ready_outcome:
  fixes S :: "'a srpc"
  assumes "fd_valid (sc_fd (sp_chan S))" and "send_fails n = []" and "inbox n = []"
    and "idle H" and "map_of (hd_fac H) HeartBeat = Some heartbeat_handler"
  shows "\<exists>d e H'.
    wait_ready k \<lparr>cm_rpc = S, cm_net = n\<rparr> = (Inr (Timeout (bstr ''retry exceeds num'')),
      \<lparr>cm_rpc = S, cm_net = n\<lparr>outbox := outbox n @ replicate k (sc_end (sp_chan S), d)\<rparr>\<rparr>) \<and>
    run_one_event_loop H s (empty_net\<lparr>inbox := [SelData a d]\<rparr>) =
      (Inr 1, H', s, empty_net\<lparr>outbox := [(a, e)]\<rparr>) \<and>
    wait_ready (Suc k) \<lparr>cm_rpc = S, cm_net = with_answer n [] b e es\<rparr> =
      (Inr (Ok []), \<lparr>cm_rpc = S, cm_net = after_call S n d es\<rparr>)"
proof -
  obtain d e H' where d: "one_exchange H s a d e H' s"
    "\<forall>n. send_fails n = [] \<longrightarrow>
       srpc_call S HeartBeat [48] n = (Inr (Ok []), n\<lparr>outbox := outbox n @ [(sc_end (sp_chan S), d)]\<rparr>)"
    "\<forall>n es k. \<forall>c :: 'a cm. send_fails n = [] \<longrightarrow> cm_rpc c = S \<longrightarrow> cm_net c = with_answer n [] b e es \<longrightarrow>
       wait_ready (Suc k) c = (Inr (Ok []), c\<lparr>cm_net := after_call S n d es\<rparr>)"
    using heartbeat_exchange [OF assms(1,4,5), of s a b] by blast
  show ?thesis
    using d(1) wait_ready_silent [of "\<lparr>cm_rpc = S, cm_net = n\<rparr>" d k] d(2) assms(1-3)
      d(3) [rule_format, OF assms(2), of "\<lparr>cm_rpc = S, cm_net = with_answer n [] b e es\<rparr>"]
    by (intro exI [of _ d] exI [of _ e] exI [of _ H']) (simp add: one_exchange_def)
qed

theorem wait_ready_outcome_witness:
  "\<exists>d. wait_ready 3 \<lparr>cm_rpc = sample_client, cm_net = empty_net\<rparr> = (Inr (Timeout (bstr ''retry exceeds num'')),
     \<lparr>cm_rpc = sample_client, cm_net = empty_net\<lparr>outbox := outbox empty_net @ replicate 3 (sc_end (sp_chan sample_client), d)\<rparr>\<rparr>)"
  using wait_ready_outcome [OF sample_client_valid _ _ sample_daemon_table(1,4), of empty_net 3 sample_ctrl False True "[]"]
  by auto

text \<open>
  \<open>delete_remote_rc\<close> has no defined result when the server does not answer: its last
  statement builds the error without returning it.
\<close>
theorem delete_remote_rc_falls_off:
  assumes "fd_valid (sc_fd (sp_chan S))" and "send_fails n = []" and "inbox n = []"
    and "length nm \<le> kMaxQPNameLen"
  shows "fst (delete_remote_rc nm key \<lparr>cm_rpc = S, cm_net = n\<rparr>) = Inl Undefined"
proof -
  let ?p = "dump 72 enc_del_rc_req \<lparr>dlq_name = name_array nm, dlq_key = key\<rparr>"
  have "length ?p \<le> 4054"
    using del_rc_req_packed.length_dump [of "\<lparr>dlq_name = name_array nm, dlq_key = key\<rparr>"] assms(4)
    by (simp add: wf_name_array)
  from srpc_call_packet [OF this, of S DeleteRC] obtain d where
    d: "request_packet d DeleteRC (sp_checksum S) ?p []" "srpc_call S DeleteRC ?p n = sc_send (sp_chan S) d n"
    by blast
  have "d \<noteq> []"
    using request_packet_length [OF d(1)] by auto
  then show ?thesis
    using assms d(2) sc_send_ok [OF assms(1,2)]
    by (simp add: delete_remote_rc_def bindA_def cm_call_def cm_receive_def receive_timeout liftA_def
        delete_reply_def Timeout_def)
qed

theorem delete_remote_rc_falls_off_witness:
  "fst (delete_remote_rc [113] 5 \<lparr>cm_rpc = sample_client, cm_net = empty_net\<rparr>) = Inl Undefined"
  by (rule delete_remote_rc_falls_off [OF sample_client_valid]) simp_all

end
