(* ===== verification/RecvMgrSpec.thy ===== *)
theory RecvMgrSpec
  imports RecvMgr RecvSpec ConnMgrSpec
begin

text \<open>
  What the receive manager promises: a successful request creates a connected queue pair
  with all receives of its channel posted, and a request that names no channel leaves its
  queue pair registered although it fails.
\<close>

section \<open>What an operation leaves alone\<close>

definition keepsA :: "('s \<Rightarrow> 'v) \<Rightarrow> ('s, 'a) act \<Rightarrow> bool" where
  "keepsA f m \<longleftrightarrow> (\<forall>s. f (snd (m s)) = f s)"

lemma keepsA_retA [intro]: "keepsA f (retA x)"
  by (simp add: keepsA_def retA_def)

lemma keepsA_failA [intro]: "keepsA f (failA e)"
  by (simp add: keepsA_def failA_def)

lemma keepsA_pure [intro]: "keepsA f (\<lambda>s. (g s, s))"
  by (simp add: keepsA_def)

lemma keepsA_callA [intro]: "(\<And>s. f (snd (g s)) = f s) \<Longrightarrow> keepsA f (callA g)"
  unfolding keepsA_def callA_def by (auto split: prod.splits) (metis snd_conv)

lemma keepsA_bindA [intro]: "keepsA f m \<Longrightarrow> (\<And>x. keepsA f (g x)) \<Longrightarrow> keepsA f (bindA m g)"
  unfolding keepsA_def bindA_def
  by (intro allI, rename_tac s, case_tac "m s", rename_tac r t, case_tac r) (simp; metis snd_conv)+

lemma keepsA_pair [intro]: "(\<And>a b. keepsA f (g a b)) \<Longrightarrow> keepsA f (case x of (a, b) \<Rightarrow> g a b)"
  by (cases x) simp

lemma keepsA_if [intro]: "(b \<Longrightarrow> keepsA f m) \<Longrightarrow> (\<not> b \<Longrightarrow> keepsA f m') \<Longrightarrow> keepsA f (if b then m else m')"
  by simp

text \<open>The calls that set up a connection do not touch the receive queues.\<close>

definition setup_keeps :: "'d verbs \<Rightarrow> ('d \<Rightarrow> 'v) \<Rightarrow> bool" where
  "setup_keeps V f \<longleftrightarrow> (\<forall>h a m d. f (snd (v_modify_qp V h a m d)) = f d) \<and>
     (\<forall>h d. f (snd (v_query_qp_state V h d)) = f d)"

lemma rc_result_keeps [intro]: "keepsA f (rc_result V rc)"
  by (simp add: keepsA_def rc_result_def)

lemma rc_connect_keeps:
  assumes "setup_keeps V f"
  shows "keepsA f (rc_connect V attr q)"
proof -
  have c: "keepsA f (callA (v_modify_qp V h a m))" "keepsA f (callA (v_query_qp_state V h))" for h a m
    using assms by (auto simp: setup_keeps_def)
  have st: "keepsA f (qp_status V q)"
    unfolding qp_status_def using c by (intro keepsA_if keepsA_bindA keepsA_pair) auto
  have "keepsA f (bring_rc_to_rcv V h config at p)" "keepsA f (bring_rc_to_send V h config)" for h config at p
    unfolding bring_rc_to_rcv_def bring_rc_to_send_def using c by auto
  with st show ?thesis
    unfolding rc_connect_def by (intro keepsA_bindA keepsA_if) auto
qed

section \<open>A queue pair that is ready to receive\<close>

lemma recv_cq_of_known:
  assumes "rrq_whether_recv req = 1" "c_string (rrq_name_recv req) = Inr cn" "query (reg_recv_cqs s) cn = Some rcm"
  shows "recv_cq_of req s = (Inr (rcm_cq rcm), s)"
  using assms by (simp add: recv_cq_of_def channel_of_def act_simps)

lemma recv_cq_of_unknown:
  assumes "c_string (rrq_name_recv req) = Inr cn" "query (reg_recv_cqs s) cn = None"
  shows "recv_cq_of req s = (Inr None, s)"
  using assms by (simp add: recv_cq_of_def channel_of_def act_simps)

text \<open>What \<open>create_and_connect\<close> leaves behind, with the driver's final state.\<close>

lemma connected_object:
  assumes "lawful V qps" "nic_addr nic = Some ad" "nic_lid nic = Some li"
    and "rc_create V nic (rrq_config req) rcq (rt_drv c) = (Inr (Some q), d1)"
    and "c_string (rrq_name req) = Inr nm" "map_of (store (registered_qps c)) nm = None"
    and "generate_key rnd (rt_rng c) = Some (key, r')"
  obtains h d2 where "d_qp q = Some h" "d_nic q = nic" "rc_config q = rrq_config req"
    and "rc_connect V (rrq_attr req) q d1 = (Inr (Ok [], q\<lparr>rc_status := Ok ()\<rparr>), d2)"
    and "qps d2 h = Some (QPT_RC, QPS_RTS,
       [init_attr QPT_RC (rrq_config req) nic,
        rcv_attr (rrq_config req) (rrq_attr req) (ucast (ucast (port_id (nic_id nic)) :: u64)),
        send_attr (rrq_config req)])"
    and "create_and_connect rnd V nic rcq req c = (Inr (Some key),
      c\<lparr>registered_qps := (registered_qps c)\<lparr>store := (nm, (length (qp_heap c), key)) # store (registered_qps c)\<rparr>,
        qp_heap := qp_heap c @ [\<lparr>ho_qp = Q_RC (q\<lparr>rc_status := Ok ()\<rparr>), ho_held = False\<rparr>], rt_rng := r', rt_drv := d2\<rparr>)"
proof -
  obtain h where h: "d_qp q = Some h" "d_cq q \<noteq> None" "d_nic q = nic" "rc_config q = rrq_config req"
      "qps d1 h = Some (QPT_RC, QPS_INIT, [init_attr QPT_RC (rrq_config req) nic])"
    using rc_create_init [OF assms(1,4)] .
  obtain d2 where d2: "rc_connect V (rrq_attr req) q d1 = (Inr (Ok [], q\<lparr>rc_status := Ok ()\<rparr>), d2)"
      "qps d2 = (qps d1)(h \<mapsto> (QPT_RC, QPS_RTS, [init_attr QPT_RC (rrq_config req) nic] @
        [rcv_attr (rrq_config req) (rrq_attr req) (ucast (ucast (port_id (nic_id nic)) :: u64)),
         send_attr (rrq_config req)]))"
    using rc_connect_init [OF assms(1) h(5,1,2), of ad li "rrq_attr req"] h(3,4) assms(2,3) by auto
  show thesis
    by (rule that [OF h(1,3,4) d2(1) _ create_and_connect_ok [OF assms(4-7) d2(1)]]) (simp add: d2(2))
qed

lemma fetch_registered:
  assumes "nic_addr nic = Some ad" "nic_lid nic = Some li" "c_string nm_arr = Inr nm"
    and "query (registered_qps c) nm = Some i" "i < length (qp_heap c)"
    and "ho_qp (qp_heap c ! i) = Q_RC q" "d_qp q = Some h" "d_nic q = nic"
  shows "fetch_qp_attr V nm_arr key c =
    (Inr (dump 69 enc_rc_reply \<lparr>rrp_status = CB_Ok, rrp_attr = qp_attr_of V (rt_drv c) nic ad li (rc_config q) h,
       rrp_key = key\<rparr>), c)"
  using assms by (simp add: fetch_qp_attr_def rc_my_attr_def attr_of_def qp_attr_of_def)

text \<open>Posting all entries of a ring that was just made.\<close>

lemma post_created:
  assumes "recv_post_law V rq" "\<forall>x wrs d. fst (v_post_recv V x wrs d) = 0 \<and> qps (snd (v_post_recv V x wrs d)) = qps d"
    and "recv_entries_create al n sz a = (Inr e, a')" "0 < n" "n < 2 ^ 31" "d_qp q = Some h" "rq d h = []"
  obtains d' where "post_recvs V q e (of_nat n) d = (Inr (Ok 0, e), d')" "rq d' h = map (re_desc e) [0..<n]" "qps d' = qps d"
proof -
  note wf = recv_entries_create_wf [OF assms(3-5)]
  obtain m where m: "n = Suc m"
    using assms(4) by (cases n) auto
  have seg: "ring_seg (length (re_rs e)) (unat (re_header e)) (Suc m) = [0..<n]"
    using wf ring_seg_start [of n] by (simp add: m)
  obtain d' where d': "v_post_recv V (Some h) (map (re_desc e) [0..<n]) d = (0, d')"
    using assms(2) by (metis prod.collapse)
  have "rq d' h = map (re_desc e) [0..<n]"
    using assms(1,7) d' unfolding recv_post_law_def by (metis append_Nil fst_conv snd_conv)
  moreover have "qps d' = qps d"
    using assms(2) d' by (metis snd_conv)
  moreover have "n mod n = 0"
    by simp
  then have "post_recvs V q e (of_nat n) d = (Inr (Ok 0, e), d')"
    using post_recvs_ok [OF wf(1), of m V q d d'] wf(2,3) seg d' assms(6)
    by (simp add: m del: of_nat_Suc upt_Suc)
  ultimately show thesis
    using that by blast
qed

text \<open>The second half of the handler: the entries are made, registered and posted.\<close>

lemma setup_recv_ready:
  fixes c :: "('r, 'd) rctrl"
  assumes laws: "recv_post_law V rq" "\<forall>x wrs d. fst (v_post_recv V x wrs d) = 0 \<and> qps (snd (v_post_recv V x wrs d)) = qps d"
    and req: "c_string (rrq_name req) = Inr nm" "c_string (rrq_name_recv req) = Inr cn"
    and chan: "query (reg_recv_cqs s) cn = Some rcm"
      "recv_entries_create (alloc_one (rcm_alloc rcm)) n (ucast (rrq_max_recv_sz req)) (rm_al s) = (Inr e, al')"
      "0 < n" "n < 2 ^ 31"
    and obj: "i < length (qp_heap c)" "ho_qp (qp_heap c ! i) = Q_RC q" "d_qp q = Some h" "rq (rt_drv c) h = []"
    and free: "map_of (store (reg_recv_entries s)) nm = None" "generate_key rnd (rt_rng c) = Some (key2, r2)"
  obtains d where "setup_recv rnd V alloc_one n req i (s\<lparr>rm_ctrl := c\<rparr>) = (Inr (),
      s\<lparr>rm_ctrl := c\<lparr>rt_rng := r2, rt_drv := d\<rparr>, rm_al := al', rm_entries := rm_entries s @ [e],
        reg_recv_entries := (reg_recv_entries s)\<lparr>store := (nm, (length (rm_entries s), key2)) # store (reg_recv_entries s)\<rparr>\<rparr>)"
    and "rq d h = map (re_desc e) [0..<n]" "qps d = qps (rt_drv c)"
proof -
  obtain d where post: "post_recvs V q e (of_nat n) (rt_drv c) = (Inr (Ok 0, e), d)"
      and d: "rq d h = map (re_desc e) [0..<n]" "qps d = qps (rt_drv c)"
    using post_created [OF laws chan(2-4) obj(3,4)] by metis
  show thesis
    by (rule that [OF _ d])
      (use chan(1,2) req obj(1,2) free post in \<open>simp add: setup_recv_def channel_of_def act_simps allocA_def new_entries_def
        register_entries_def reg_def post_entries_def Ok_def\<close>)
qed

text \<open>
  C12: a connection with receives. When the channel of the request is registered, its allocator
  has memory and the names are free, the handler creates the queue pair on the channel's
  completion queue, connects it, registers it and its entries, and posts all \<open>n\<close> entries
  in order, so that it can receive \<open>n\<close> messages before anyone polls it.
\<close>
theorem msg_rc_handler_ready:
  assumes laws: "lawful V qps" "recv_post_law V rq" "setup_keeps V rq"
      "\<forall>x wrs d. fst (v_post_recv V x wrs d) = 0 \<and> qps (snd (v_post_recv V x wrs d)) = qps d"
    and nic: "query (opened_nics (rm_ctrl s)) (rrq_nic_id req) = Some nic" "nic_addr nic = Some ad" "nic_lid nic = Some li"
    and req: "wf_rc_req req" "rrq_whether_create req = 1" "rrq_whether_recv req = 1"
      "c_string (rrq_name req) = Inr nm" "c_string (rrq_name_recv req) = Inr cn"
    and chan: "query (reg_recv_cqs s) cn = Some rcm"
      "recv_entries_create (alloc_one (rcm_alloc rcm)) n (ucast (rrq_max_recv_sz req)) (rm_al s) = (Inr e, al')"
      "0 < n" "n < 2 ^ 31"
    and created: "rc_create V nic (rrq_config req) (rcm_cq rcm) (rt_drv (rm_ctrl s)) = (Inr (Some q), d1)"
      "d_qp q = Some h" "rq d1 h = []"
    and free: "map_of (store (registered_qps (rm_ctrl s))) nm = None" "map_of (store (reg_recv_entries s)) nm = None"
      "generate_key rnd (rt_rng (rm_ctrl s)) = Some (key, r1)" "generate_key rnd r1 = Some (key2, r2)"
  shows "\<exists>s'. msg_rc_handler rnd V alloc_one n (dump 246 enc_rc_req req @ rest) s =
      (Inr (dump 69 enc_rc_reply \<lparr>rrp_status = CB_Ok,
         rrp_attr = qp_attr_of V (rt_drv (rm_ctrl s')) nic ad li (rrq_config req) h, rrp_key = key\<rparr>), s') \<and>
    qps (rt_drv (rm_ctrl s')) h = Some (QPT_RC, QPS_RTS,
       [init_attr QPT_RC (rrq_config req) nic,
        rcv_attr (rrq_config req) (rrq_attr req) (ucast (ucast (port_id (nic_id nic)) :: u64)),
        send_attr (rrq_config req)]) \<and>
    map_of (store (registered_qps (rm_ctrl s'))) nm = Some (length (qp_heap (rm_ctrl s)), key) \<and>
    map_of (store (reg_recv_entries s')) nm = Some (length (rm_entries s), key2) \<and>
    rm_entries s' = rm_entries s @ [e] \<and>
    rq (rt_drv (rm_ctrl s')) h = map (re_desc e) [0..<n]"
proof -
  obtain h' d2 where o1: "d_qp q = Some h'" "d_nic q = nic" "rc_config q = rrq_config req"
      "rc_connect V (rrq_attr req) q d1 = (Inr (Ok [], q\<lparr>rc_status := Ok ()\<rparr>), d2)"
      "qps d2 h' = Some (QPT_RC, QPS_RTS,
       [init_attr QPT_RC (rrq_config req) nic,
        rcv_attr (rrq_config req) (rrq_attr req) (ucast (ucast (port_id (nic_id nic)) :: u64)),
        send_attr (rrq_config req)])"
      "create_and_connect rnd V nic (rcm_cq rcm) req (rm_ctrl s) = (Inr (Some key),
      (rm_ctrl s)\<lparr>registered_qps := (registered_qps (rm_ctrl s))\<lparr>store :=
            (nm, (length (qp_heap (rm_ctrl s)), key)) # store (registered_qps (rm_ctrl s))\<rparr>,
        qp_heap := qp_heap (rm_ctrl s) @ [\<lparr>ho_qp = Q_RC (q\<lparr>rc_status := Ok ()\<rparr>), ho_held = False\<rparr>],
        rt_rng := r1, rt_drv := d2\<rparr>)"
    using connected_object [OF laws(1) nic(2,3) created(1) req(4) free(1,3)] .
  have hh: "h' = h"
    using o1(1) created(2) by simp
  have "rq d2 = rq d1"
    using rc_connect_keeps [OF laws(3), of "rrq_attr req" q] o1(4) unfolding keepsA_def by (metis snd_conv)
  then have rq2: "rq d2 h = []"
    using created(3) by simp
  let ?c = "(rm_ctrl s)\<lparr>registered_qps := (registered_qps (rm_ctrl s))\<lparr>store :=
            (nm, (length (qp_heap (rm_ctrl s)), key)) # store (registered_qps (rm_ctrl s))\<rparr>,
        qp_heap := qp_heap (rm_ctrl s) @ [\<lparr>ho_qp = Q_RC (q\<lparr>rc_status := Ok ()\<rparr>), ho_held = False\<rparr>],
        rt_rng := r1, rt_drv := d2\<rparr>"
  let ?s' = "\<lambda>d. s\<lparr>rm_ctrl := ?c\<lparr>rt_rng := r2, rt_drv := d\<rparr>, rm_al := al', rm_entries := rm_entries s @ [e],
      reg_recv_entries := (reg_recv_entries s)\<lparr>store := (nm, (length (rm_entries s), key2)) # store (reg_recv_entries s)\<rparr>\<rparr>"
  obtain d3 where posted: "setup_recv rnd V alloc_one n req (length (qp_heap (rm_ctrl s))) (s\<lparr>rm_ctrl := ?c\<rparr>) = (Inr (), ?s' d3)"
      and rq3: "rq d3 h = map (re_desc e) [0..<n]" and qps3: "qps d3 = qps d2"
    by (rule setup_recv_ready [where alloc_one = alloc_one and qps = qps and rcm = rcm and c = ?c and rnd = rnd
          and q = "q\<lparr>rc_status := Ok ()\<rparr>" and i = "length (qp_heap (rm_ctrl s))", OF laws(2,4) req(4,5) chan])
      (use created(2) rq2 free(2,4) in auto)
  let ?c3 = "?c\<lparr>rt_rng := r2, rt_drv := d3\<rparr>"
  have fetch: "fetch_qp_attr V (rrq_name req) key ?c3 =
      (Inr (dump 69 enc_rc_reply \<lparr>rrp_status = CB_Ok, rrp_attr = qp_attr_of V d3 nic ad li (rrq_config req) h,
         rrp_key = key\<rparr>), ?c3)"
    using fetch_registered [OF nic(2,3) req(4), of ?c3 "length (qp_heap (rm_ctrl s))" "q\<lparr>rc_status := Ok ()\<rparr>" h V key]
      created(2) o1(2,3) by (simp add: query_def)
  have cc: "ctrlA (create_and_connect rnd V nic (rcm_cq rcm) req) s = (Inr (Some key), s\<lparr>rm_ctrl := ?c\<rparr>)"
    using o1(6) by (simp add: ctrlA_def)
  have "msg_rc_handler rnd V alloc_one n (dump 246 enc_rc_req req @ rest) s =
      (Inr (dump 69 enc_rc_reply \<lparr>rrp_status = CB_Ok, rrp_attr = qp_attr_of V d3 nic ad li (rrq_config req) h,
         rrp_key = key\<rparr>), ?s' d3)"
    using rc_req_packed.dedump_dump_append [OF req(1), of rest] req(2) nic(1) recv_cq_of_known [OF req(3,5) chan(1)]
      fetch
    by (simp add: msg_rc_handler_def bindA_Inr cc posted) (simp add: ctrlA_def)
  then show ?thesis
    using o1(5) rq3 qps3 hh by (intro exI [of _ "?s' d3"]) simp
qed

text \<open>A request for a channel, and a state in which the channel is registered or not.\<close>

definition sample_msg_req :: rc_req where
  "sample_msg_req = (sample_req 1)\<lparr>rrq_name_recv := name_array [114], rrq_whether_recv := 1\<rparr>"

lemma sample_msg_req_fields:
  "wf_rc_req sample_msg_req" "rrq_whether_create sample_msg_req = 1" "rrq_whether_recv sample_msg_req = 1"
  "c_string (rrq_name sample_msg_req) = Inr [113]" "c_string (rrq_name_recv sample_msg_req) = Inr [114]"
  "rrq_nic_id sample_msg_req = 7" "rrq_config sample_msg_req = default_config sample_flags"
  using wf_sample_req [of 1]
  by (simp_all add: sample_msg_req_def sample_req_def wf_rc_req_def wf_name_array c_string_name_array)

definition sample_mgr :: "(bytes \<times> (recv_common \<times> u64)) list \<Rightarrow> (nat, sim, nat) recv_mgr" where
  "sample_mgr chans = \<lparr>rm_ctrl = sample_ctrl, reg_recv_cqs = \<lparr>store = chans\<rparr>, reg_recv_entries = factory_empty,
     rm_entries = [], rm_al = 4096\<rparr>"

definition sim_rqs :: "sim \<Rightarrow> nat \<Rightarrow> (u64 \<times> sge) list" where
  "sim_rqs d h = map snd (filter (\<lambda>p. fst p = Some h) (sim_rq d))"

lemma sim_setup_keeps: "setup_keeps sim_verbs sim_rqs"
  by (auto simp: setup_keeps_def sim_verbs_def sim_modify_def sim_rqs_def fun_eq_iff split: option.splits)

lemma sim_post_law: "recv_post_law sim_verbs sim_rqs"
  by (simp add: recv_post_law_def sim_verbs_def sim_rqs_def comp_def)

lemma sample_rc_created_cq:
  "\<exists>q d1 h. rc_create sim_verbs sample_nic (default_config sample_flags) rcq sim_start = (Inr (Some q), d1) \<and>
     d_qp q = Some h \<and> sim_rq d1 = []"
  by (simp add: rc_create_def rc_new_def create_cq_def create_qp_def bring_qp_to_init_def bindA_def callA_def
      handle_result_def rc_result_def retA_def dummy_valid_def rc_blank_def sim_verbs_def sim_new_def
      sim_create_qp_def sim_start_def sim_lookup_def Let_def dummy_destroy_def sim_modify_def split: prod.splits)

theorem msg_rc_handler_ready_witness:
  "\<exists>r s'. msg_rc_handler sample_rnd sim_verbs (\<lambda>_. sample_alloc) 4 (dump 246 enc_rc_req sample_msg_req @ [])
       (sample_mgr [([114], (\<lparr>rcm_cq = Some 50, rcm_alloc = 0\<rparr>, 1))]) = (Inr r, s') \<and>
     map_of (store (registered_qps (rm_ctrl s'))) [113] = Some (0, 5)"
proof -
  let ?s = "sample_mgr [([114], (\<lparr>rcm_cq = Some 50, rcm_alloc = 0\<rparr>, 1))]"
  have f: "rm_ctrl ?s = sample_ctrl" "query (reg_recv_cqs ?s) [114] = Some \<lparr>rcm_cq = Some 50, rcm_alloc = 0\<rparr>"
      "map_of (store (reg_recv_entries ?s)) [113] = None"
    by (simp_all add: sample_mgr_def query_def factory_empty_def)
  have c: "query (opened_nics sample_ctrl) 7 = Some sample_nic" "map_of (store (registered_qps sample_ctrl)) [113] = None"
      "qp_heap sample_ctrl = []" "rt_rng sample_ctrl = 5" "rt_drv sample_ctrl = sim_start"
    by (simp_all add: sample_ctrl_def query_def factory_empty_def)
  have nic: "nic_addr sample_nic = Some \<lparr>subnet_prefix = 1, interface_id = 2, local_id = 0\<rparr>" "nic_lid sample_nic = Some 4"
    by (simp_all add: sample_nic_def)
  have key2: "generate_key sample_rnd 6 = Some (6, 7)"
    by (simp add: generate_key.simps sample_rnd_def)
  have post: "\<forall>x wrs d. fst (v_post_recv sim_verbs x wrs d) = 0 \<and>
      map_of (sim_qps (snd (v_post_recv sim_verbs x wrs d))) = map_of (sim_qps d)"
    by (simp add: sim_verbs_def)
  obtain q d1 h where q: "rc_create sim_verbs sample_nic (default_config sample_flags) (Some 50) sim_start = (Inr (Some q), d1)"
      "d_qp q = Some h" "sim_rq d1 = []"
    using sample_rc_created_cq by blast
  then have rq: "sim_rqs d1 h = []"
    by (simp add: sim_rqs_def)
  obtain e al where e: "recv_entries_create sample_alloc 4 (ucast (rrq_max_recv_sz sample_msg_req)) (rm_al ?s) = (Inr e, al)"
    using recv_fill_returns [of sample_alloc] unfolding recv_entries_create_def by (metis fst_conv sample_alloc_def)
  note req = sample_msg_req_fields
  show ?thesis
    using msg_rc_handler_ready [OF sim_lawful sim_post_law sim_setup_keeps post _ nic req(1-5), where s = ?s and n = 4
        and alloc_one = "\<lambda>_. sample_alloc" and e = e and al' = al and q = q and ?d1.0 = d1 and h = h
        and rcm = "\<lparr>rcm_cq = Some 50, rcm_alloc = 0\<rparr>" and rnd = sample_rnd and key = 5 and ?r1.0 = 6 and ?key2.0 = 6
        and ?r2.0 = 7 and rest = "[]"]
      f c q rq e req(6,7) sample_key key2
    by (auto simp del: split_paired_Ex)
qed

text \<open>
  A request for a channel nobody registered. The handler has created, connected and
  registered the queue pair before it looks the channel up for its allocator; the look-up
  throws, and the name stays taken by a queue pair that has no receives.
\<close>
theorem msg_rc_handler_unknown_channel:
  assumes laws: "lawful V qps"
    and nic: "query (opened_nics (rm_ctrl s)) (rrq_nic_id req) = Some nic" "nic_addr nic = Some ad" "nic_lid nic = Some li"
    and req: "wf_rc_req req" "rrq_whether_create req = 1"
      "c_string (rrq_name req) = Inr nm" "c_string (rrq_name_recv req) = Inr cn"
    and chan: "query (reg_recv_cqs s) cn = None"
    and created: "rc_create V nic (rrq_config req) None (rt_drv (rm_ctrl s)) = (Inr (Some q), d1)"
    and free: "map_of (store (registered_qps (rm_ctrl s))) nm = None" "generate_key rnd (rt_rng (rm_ctrl s)) = Some (key, r1)"
  shows "\<exists>s'. msg_rc_handler rnd V alloc_one n (dump 246 enc_rc_req req @ rest) s = (Inl Thrown, s') \<and>
    map_of (store (registered_qps (rm_ctrl s'))) nm = Some (length (qp_heap (rm_ctrl s)), key) \<and>
    reg_recv_entries s' = reg_recv_entries s"
proof -
  obtain h d2 where o1:
      "create_and_connect rnd V nic None req (rm_ctrl s) = (Inr (Some key),
      (rm_ctrl s)\<lparr>registered_qps := (registered_qps (rm_ctrl s))\<lparr>store :=
            (nm, (length (qp_heap (rm_ctrl s)), key)) # store (registered_qps (rm_ctrl s))\<rparr>,
        qp_heap := qp_heap (rm_ctrl s) @ [\<lparr>ho_qp = Q_RC (q\<lparr>rc_status := Ok ()\<rparr>), ho_held = False\<rparr>],
        rt_rng := r1, rt_drv := d2\<rparr>)"
    using connected_object [OF laws nic(2,3) created req(3) free] by metis
  let ?c = "(rm_ctrl s)\<lparr>registered_qps := (registered_qps (rm_ctrl s))\<lparr>store :=
            (nm, (length (qp_heap (rm_ctrl s)), key)) # store (registered_qps (rm_ctrl s))\<rparr>,
        qp_heap := qp_heap (rm_ctrl s) @ [\<lparr>ho_qp = Q_RC (q\<lparr>rc_status := Ok ()\<rparr>), ho_held = False\<rparr>],
        rt_rng := r1, rt_drv := d2\<rparr>"
  have cc: "ctrlA (create_and_connect rnd V nic None req) s = (Inr (Some key), s\<lparr>rm_ctrl := ?c\<rparr>)"
    using o1 by (simp add: ctrlA_def)
  have no: "setup_recv rnd V alloc_one n req (length (qp_heap (rm_ctrl s))) (s\<lparr>rm_ctrl := ?c\<rparr>) = (Inl Thrown, s\<lparr>rm_ctrl := ?c\<rparr>)"
    using chan req(4) by (simp add: setup_recv_def channel_of_def act_simps)
  have "msg_rc_handler rnd V alloc_one n (dump 246 enc_rc_req req @ rest) s = (Inl Thrown, s\<lparr>rm_ctrl := ?c\<rparr>)"
    using rc_req_packed.dedump_dump_append [OF req(1), of rest] req(2) nic(1) recv_cq_of_unknown [OF req(4) chan]
    by (simp add: msg_rc_handler_def bindA_Inr cc bindA_Inl no)
  then show ?thesis
    by (intro exI [of _ "s\<lparr>rm_ctrl := ?c\<rparr>"]) simp
qed

theorem msg_rc_handler_unknown_channel_witness:
  "\<exists>s'. msg_rc_handler sample_rnd sim_verbs (\<lambda>_. sample_alloc) 4 (dump 246 enc_rc_req sample_msg_req @ []) (sample_mgr []) =
      (Inl Thrown, s') \<and> map_of (store (registered_qps (rm_ctrl s'))) [113] = Some (0, 5)"
proof -
  have c: "query (opened_nics (rm_ctrl (sample_mgr []))) (rrq_nic_id sample_msg_req) = Some sample_nic"
      "map_of (store (registered_qps (rm_ctrl (sample_mgr [])))) [113] = None" "query (reg_recv_cqs (sample_mgr [])) [114] = None"
      "qp_heap (rm_ctrl (sample_mgr [])) = []" "generate_key sample_rnd (rt_rng (rm_ctrl (sample_mgr []))) = Some (5, 6)"
      "rt_drv (rm_ctrl (sample_mgr [])) = sim_start"
    using sample_key by (simp_all add: sample_mgr_def sample_ctrl_def query_def factory_empty_def sample_msg_req_fields)
  have nic: "nic_addr sample_nic = Some \<lparr>subnet_prefix = 1, interface_id = 2, local_id = 0\<rparr>" "nic_lid sample_nic = Some 4"
    by (simp_all add: sample_nic_def)
  obtain q d1 where q: "rc_create sim_verbs sample_nic (rrq_config sample_msg_req) None (rt_drv (rm_ctrl (sample_mgr []))) =
      (Inr (Some q), d1)"
    using sample_rc_created c(6) by (auto simp: sample_msg_req_fields)
  show ?thesis
    using msg_rc_handler_unknown_channel [OF sim_lawful c(1) nic sample_msg_req_fields(1,2,4,5) c(3) q c(2,5), of _ 4 "[]"] c(4)
    by (auto simp del: split_paired_Ex)
qed

end
