(* ===== verification/OpsSpec.thy ===== *)
theory OpsSpec
  imports Ops QPsSpec
begin

text \<open>
  What the request builders promise: an operation built with \<open>Op\<close> reaches the device as the
  request of \<open>RC::send_normal\<close>, or as the atomic it describes; a doorbell batch hands the
  device exactly its requests in order, in every round of use.
\<close>

unbundle bit_operations_syntax

section \<open>One-sided operations\<close>

lemma rkey_roundtrip: "(ucast ((w AND NOT (mask 32)) OR ucast (rk :: u32) :: u64) :: u32) = rk"
  by (rule bit_word_eqI) (auto simp: bit_simps)

lemma op_execute_single:
  "op_execute V C o1 q flags wid d =
     (case encode_my_wr wid 1 q of (w, q1) \<Rightarrow>
        let o2 = o1\<lparr>op_id := w, op_next := None, op_flags := flags\<rparr>;
            q2 = (if flags AND v_signaled V \<noteq> 0 then q1\<lparr>d_out_signaled := d_out_signaled q1 + 1\<rparr> else q1)
        in case v_post_send V (d_qp q2) [op_view C o2] d of
             (rc, d') \<Rightarrow> (Inr (if rc = 0 then Ok [] else Err (v_strerror V d'), q2, o2), d'))"
  by (simp add: op_execute_def op_execute_batch_def Let_def act_simps chain_def split: prod.splits)

text \<open>The operation of the example in the class's documentation.\<close>

definition rdma_op :: "nat \<Rightarrow> u64 \<Rightarrow> reg_attr \<Rightarrow> c_int \<Rightarrow> ptr \<Rightarrow> u32 \<Rightarrow> u32 \<Rightarrow> op" where
  "rdma_op opc off rmr imm laddr len lkey =
     snd (op_set_payload (ptr_u64 laddr) len lkey 0 (op_set_imm imm (op_set_op opc (op_set_rdma_addr off rmr (op_new 1)))))"

text \<open>
  C25: two ways to send are the same. Executing an \<open>Op\<close> that was built for a read or a write
  sends the same request, with the same effect on the queue pair and the same result, as
  \<open>RC::send_normal\<close> with the corresponding description and payload.
\<close>
theorem op_execute_send_normal:
  assumes "code (rc_status q) = IO_Ok" and "opc \<noteq> wro_cas C" and "opc \<noteq> wro_faa C"
  shows "bindA (op_execute V C (rdma_op opc off rmr imm laddr len (ra_lkey lmr)) q flags wid)
           (\<lambda>(r, q', _). retA (r, q')) d =
         rc_send_normal V \<lparr>rd_op = opc, rd_flags = flags, rd_len = len, rd_wr_id = wid\<rparr>
           \<lparr>rp_local_addr = laddr, rp_remote_addr = off, rp_imm_data = ucast imm\<rparr> lmr rmr q d"
proof -
  have view: "op_view C ((rdma_op opc off rmr imm laddr len (ra_lkey lmr))
       \<lparr>op_id := w, op_next := None, op_flags := flags\<rparr>) =
      \<lparr>wr_id = w, wr_op = opc, wr_flags = flags, wr_imm = ucast (ucast imm :: u64),
       wr_sges = [\<lparr>sge_addr = ptr_u64 laddr, sge_length = len, sge_lkey = ra_lkey lmr\<rparr>],
       wr_remote_addr = ra_buf rmr + off, wr_rkey = ra_key rmr, wr_compare_add = 0, wr_swap = 0\<rparr>" for w
  proof -
    have "(ucast (ucast imm :: u64) :: u32) = imm"
      by (rule bit_word_eqI) (auto simp: bit_simps)
    then show ?thesis
      using assms(2,3) rkey_roundtrip [of 0 "ra_key rmr"]
      by (simp add: op_view_def rdma_op_def op_set_payload_def op_set_imm_def op_set_op_def op_set_rdma_addr_def
          op_set_rkey_def op_new_def add.commute)
  qed
  obtain w q1 where e: "encode_my_wr wid 1 q = (w, q1)"
    by fastforce
  show ?thesis
    using assms(1)
    by (simp add: bindA_def op_execute_single e Let_def view rc_send_normal_def callA_def retA_def
        split: prod.splits)
qed

definition sample_ops :: wr_opcodes where
  "sample_ops = \<lparr>wro_read = 4, wro_write = 0, wro_cas = 5, wro_faa = 6\<rparr>"

definition sample_rc :: rc where
  "sample_rc = (rc_blank sample_nic (default_config sample_flags))\<lparr>d_qp := Some 1, d_cq := Some 2, rc_status := Ok ()\<rparr>"

theorem op_execute_send_normal_witness:
  "bindA (op_execute sim_verbs sample_ops (rdma_op 4 8 null_reg_attr 0 (Some 64) 16 (ra_lkey null_reg_attr)) sample_rc 2 9)
     (\<lambda>(r, q', _). retA (r, q')) sim_start =
   rc_send_normal sim_verbs \<lparr>rd_op = 4, rd_flags = 2, rd_len = 16, rd_wr_id = 9\<rparr>
     \<lparr>rp_local_addr = Some 64, rp_remote_addr = 8, rp_imm_data = ucast (0 :: c_int)\<rparr> null_reg_attr null_reg_attr
     sample_rc sim_start"
  by (rule op_execute_send_normal) (simp_all add: sample_rc_def sample_ops_def Ok_def)

text \<open>
  Atomics reach the device as described. A compare-and-swap built with \<open>set_atomic_rbuf\<close>
  and \<open>set_cas\<close>, in either order, and a fetch-and-add, are posted with exactly the address,
  the key and the operands given, and the request's number carries the user's.
\<close>
theorem op_execute_atomic:
  assumes "encode_my_wr wid 1 q = (w, q1)" and "wid < 2 ^ 48" and "flags AND v_signaled V = 0"
    and "v_post_send V (d_qp q) [\<lparr>wr_id = w, wr_op = wro_cas C, wr_flags = flags, wr_imm = 0,
           wr_sges = [\<lparr>sge_addr = la, sge_length = 8, sge_lkey = lk\<rparr>],
           wr_remote_addr = ra, wr_rkey = rk, wr_compare_add = cmp, wr_swap = swp\<rparr>] d = (0, d1)"
    and "v_post_send V (d_qp q) [\<lparr>wr_id = w, wr_op = wro_faa C, wr_flags = flags, wr_imm = 0,
           wr_sges = [\<lparr>sge_addr = la, sge_length = 8, sge_lkey = lk\<rparr>],
           wr_remote_addr = ra, wr_rkey = rk, wr_compare_add = ad, wr_swap = 0\<rparr>] d = (0, d2)"
  shows "drop_bit 16 w = wid \<and>
    (\<exists>o1. op_execute V C (snd (op_set_payload la 8 lk 0 (op_set_cas C cmp swp (op_set_atomic_rbuf ra rk (op_new 1))))) q flags wid d
             = (Inr (Ok [], q1, o1), d1) \<and>
          op_execute V C (snd (op_set_payload la 8 lk 0 (op_set_atomic_rbuf ra rk (op_set_cas C cmp swp (op_new 1))))) q flags wid d
             = (Inr (Ok [], q1, o1), d1)) \<and>
    (\<exists>o2. op_execute V C (snd (op_set_payload la 8 lk 0 (op_set_fetch_add C ad (op_set_atomic_rbuf ra rk (op_new 1))))) q flags wid d
             = (Inr (Ok [], q1, o2), d2))"
proof -
  have q: "d_qp q1 = d_qp q" "w = push_bit 16 wid OR ucast (high_watermark (rc_progress q1))"
    using assms(1) by (auto simp: encode_my_wr_def forward_mark_def num_progress_bits_def)
  then show ?thesis
    using assms wid_decode(1) [OF assms(2)]
    by (simp add: op_execute_single Let_def op_view_def op_set_payload_def op_set_cas_def op_set_fetch_add_def
        op_set_atomic_rbuf_def op_set_imm_def op_set_op_def op_new_def)
qed

theorem op_execute_atomic_witness:
  "\<exists>q1 o1 d1. op_execute sim_verbs sample_ops
     (snd (op_set_payload 64 8 7 0 (op_set_cas sample_ops 1 2 (op_set_atomic_rbuf 4096 5 (op_new 1))))) sample_rc 0 9 sim_start
     = (Inr (Ok [], q1, o1), d1)"
proof -
  obtain w q1 where e: "encode_my_wr 9 1 sample_rc = (w, q1)"
    by fastforce
  have send: "v_post_send sim_verbs h srs d = (0, d\<lparr>sim_sent := sim_sent d @ srs\<rparr>)" for h srs d
    by (simp add: sim_verbs_def)
  have "(9 :: u64) < 2 ^ 48" "(0 :: c_int) AND v_signaled sim_verbs = 0"
    by simp_all
  from op_execute_atomic [OF e this send send, where C = sample_ops and la = 64 and lk = 7 and ra = 4096 and rk = 5
      and cmp = 1 and swp = 2 and ad = 3 and d = sim_start]
  show ?thesis
    by blast
qed

text \<open>
  Signals of a batch are lost. When only the second operation of a chain is signalled,
  posting the chain does not count it, and polling its completion takes one off: from zero
  the count of signalled requests wraps to its largest value.
\<close>
theorem op_batch_miscounts:
  assumes "op_next a = Some 1" and "op_next b = None"
    and "op_flags a AND v_signaled V = 0" and "op_flags b AND v_signaled V \<noteq> 0"
    and "v_post_send V (d_qp q) [op_view C a, op_view C b] d = (0, d1)"
    and "v_poll_cq V (d_cq q) 1 d1 = ((1, [w]), d2)" and "d_out_signaled q = 0"
  shows "\<exists>q1 q2. op_execute_batch V C [a, b] 0 q d = (Inr (Ok [], q1), d1) \<and>
    poll_send_comp V q1 d1 = ((1, Some w), q2, d2) \<and> ongoing_signaled q2 = - 1"
  using assms
  by (simp add: op_execute_batch_def Let_def act_simps chain_def poll_send_comp_def word_sless_alt ongoing_signaled_def)

theorem op_batch_miscounts_witness:
  "\<exists>q1 q2 d1 d2 w. op_execute_batch sim_verbs sample_ops [op_set_next 1 (op_new 1), op_set_flags 2 (op_new 1)] 0 sample_rc
      sim_start = (Inr (Ok [], q1), d1) \<and>
    poll_send_comp sim_verbs q1 d1 = ((1, Some w), q2, d2) \<and> ongoing_signaled q2 = - 1"
proof -
  let ?a = "op_set_next 1 (op_new 1)" and ?b = "op_set_flags 2 (op_new 1)"
  let ?w = "\<lparr>wc_id = wr_id (op_view sample_ops ?a), wc_ok = True, wc_imm = wr_imm (op_view sample_ops ?a)\<rparr>"
  have send: "v_post_send sim_verbs (d_qp sample_rc) [op_view sample_ops ?a, op_view sample_ops ?b] sim_start =
      (0, sim_start\<lparr>sim_sent := [op_view sample_ops ?a, op_view sample_ops ?b]\<rparr>)"
    by (simp add: sim_verbs_def sim_start_def)
  have poll: "v_poll_cq sim_verbs (d_cq sample_rc) 1 (sim_start\<lparr>sim_sent := [op_view sample_ops ?a, op_view sample_ops ?b]\<rparr>) =
      ((1, [?w]), sim_start\<lparr>sim_sent := [op_view sample_ops ?b]\<rparr>)"
    by (simp add: sim_verbs_def)
  have "op_next ?a = Some 1" "op_next ?b = None" "op_flags ?a AND v_signaled sim_verbs = 0"
      "op_flags ?b AND v_signaled sim_verbs \<noteq> 0" "d_out_signaled sample_rc = 0"
    by (simp_all add: op_set_next_def op_set_flags_def op_new_def sim_verbs_def sample_rc_def rc_blank_def)
  from op_batch_miscounts [OF this(1-4) send poll this(5)] show ?thesis
    by blast
qed

section \<open>Doorbell batches\<close>

text \<open>Ready for a batch: no current request, and every request but the last links to the next.\<close>

definition db_ready :: "nat \<Rightarrow> doorbell \<Rightarrow> bool" where
  "db_ready n b \<longleftrightarrow> length (db_wrs b) = n \<and> db_idx b = - 1 \<and> (\<forall>i. Suc i < n \<longrightarrow> db_nexts b ! i = Some (Suc i))"

lemma length_db_nexts [simp]: "length (db_nexts b) = length (db_wrs b)"
  by (simp add: db_nexts_def)

lemma db_set_next_fields [simp]:
  "length (db_wrs (db_set_next i v b)) = length (db_wrs b)" "db_idx (db_set_next i v b) = db_idx b"
  by (simp_all add: db_set_next_def)

lemma db_new_ready: "0 < n \<Longrightarrow> db_ready n (db_new n opc)"
  by (auto simp: db_ready_def db_new_def db_link.nexts_set nth_list_update) (auto simp: db_nexts_def)

lemma i8_nat:
  assumes "k \<le> 128"
  shows "sint (of_nat k - 1 :: i8) = int k - 1" "(scast (of_nat k - 1 :: i8) :: c_int) = of_nat k - 1"
proof -
  have "(of_nat k - 1 :: i8) = word_of_int (int k - 1)"
    by simp
  then show s: "sint (of_nat k - 1 :: i8) = int k - 1"
    using assms by (simp only: signed_of_int) (simp add: signed_take_bit_int_eq_self)
  then have "(scast (of_nat k - 1 :: i8) :: c_int) = word_of_int (int k - 1)"
    by (simp add: scast_eq)
  then show "(scast (of_nat k - 1 :: i8) :: c_int) = of_nat k - 1"
    by simp
qed

lemma db_size_at:
  assumes "db_idx b = of_nat k - 1" "k \<le> 128" "length (db_wrs b) = n" "n \<le> 128"
  shows "db_size b = of_nat k" "db_empty b \<longleftrightarrow> k = 0" "db_full b \<longleftrightarrow> k = n"
proof -
  show s: "db_size b = of_nat k"
    using i8_nat(2) [OF assms(2)] by (simp add: db_size_def assms(1))
  have inj: "(of_nat i :: c_int) = of_nat j \<longleftrightarrow> i = j" if "i \<le> 128" "j \<le> 128" for i j
    using that by (auto simp: word_unat_eq_iff unat_of_nat)
  show "db_empty b \<longleftrightarrow> k = 0"
    using inj [of k 0] assms(2) by (simp add: db_empty_def s)
  show "db_full b \<longleftrightarrow> k = n"
    using inj [of k n] assms by (simp add: db_full_def s)
qed

lemma db_cur_at:
  assumes "db_idx b = of_nat (Suc k) - 1" "Suc k \<le> length (db_wrs b)" "length (db_wrs b) \<le> 128"
  shows "db_cur b = Inr k"
proof -
  have "\<not> db_empty b"
    using db_size_at(2) [OF assms(1)] assms(2,3) by simp
  moreover have "sint (db_idx b) = int k"
    using i8_nat(1) [of "Suc k"] assms by (simp del: of_nat_Suc)
  ultimately show ?thesis
    using assms(2) by (simp add: db_cur_def)
qed

text \<open>\<open>k\<close> calls of \<open>next\<close>.\<close>

fun db_advances :: "nat \<Rightarrow> doorbell \<Rightarrow> bool list \<times> doorbell" where
  "db_advances 0 b = ([], b)"
| "db_advances (Suc k) b =
     (case db_advance b of (r, b1) \<Rightarrow> (case db_advances k b1 of (rs, b2) \<Rightarrow> (r # rs, b2)))"

lemma db_advances_within:
  assumes "db_idx b = of_nat j - 1" "j + k \<le> length (db_wrs b)" "length (db_wrs b) \<le> 128"
  shows "db_advances k b = (replicate k True, b\<lparr>db_idx := of_nat (j + k) - 1\<rparr>)"
  using assms
proof (induction k arbitrary: b j)
  case 0
  then show ?case
    by simp
next
  case (Suc k)
  have "db_advance b = (True, b\<lparr>db_idx := of_nat (Suc j) - 1\<rparr>)"
    using db_size_at(3) [of b j "length (db_wrs b)"] Suc.prems by (simp add: db_advance_def)
  then show ?case
    using Suc.IH [of "b\<lparr>db_idx := of_nat (Suc j) - 1\<rparr>" "Suc j"] Suc.prems by (simp add: add.assoc add.commute)
qed

text \<open>
  One round of use as documented: take \<open>k\<close> requests, freeze the batch, post it, clear it. The
  result has what the device is handed and what \<open>size\<close> and the sanity check say.
\<close>

definition db_round :: "nat \<Rightarrow> doorbell \<Rightarrow> ((bool list \<times> nat list \<times> c_int \<times> usize) \<times> doorbell) outcome" where
  "db_round k b =
     (case db_advances k b of
        (rs, b1) \<Rightarrow>
          bindE (db_freeze b1) (\<lambda>b2.
          bindE (db_posted b2) (\<lambda>is.
          bindE (db_sanity_check_sz b2) (\<lambda>sz.
          bindE (db_clear b2) (\<lambda>b3. Inr ((rs, is, db_size b2, sz), b3))))))"

fun db_rounds :: "nat list \<Rightarrow> doorbell \<Rightarrow> (bool list \<times> nat list \<times> c_int \<times> usize) list outcome" where
  "db_rounds [] b = Inr []"
| "db_rounds (k # ks) b = bindE (db_round k b) (\<lambda>(r, b'). bindE (db_rounds ks b') (\<lambda>rs. Inr (r # rs)))"

lemma db_sanity_prefix:
  assumes "\<forall>j < m. nx ! j = Some (Suc j)" "m < length nx" "nx ! m = None" "i \<le> m"
  shows "db_sanity_loop nx i i (length nx - i) = Inr (of_nat m + 1)"
  using assms(4)
proof (induction "m - i" arbitrary: i)
  case 0
  then obtain l where "length nx - i = Suc l"
    using assms(2) by (cases "length nx - i") auto
  then show ?case
    using 0 assms(2,3) by simp
next
  case (Suc l)
  then have i: "i < m" "length nx - i = Suc (length nx - Suc i)"
    using assms(2) by auto
  have "nx ! i = Some (Suc i)"
    using assms(1) i(1) by blast
  then show ?case
    using Suc.hyps(1) [of "Suc i"] Suc.hyps(2) i assms(2) by simp
qed

lemma db_round_ready:
  assumes "db_ready n b" "0 < k" "k \<le> n" "n \<le> 128"
  obtains b' where "db_round k b = Inr ((replicate k True, [0..<k], of_nat k, of_nat k), b')" "db_ready n b'"
proof -
  obtain m where k: "k = Suc m"
    using assms(2) by (cases k) auto
  have len: "length (db_wrs b) = n" and nx: "\<forall>i. Suc i < n \<longrightarrow> db_nexts b ! i = Some (Suc i)" and idx: "db_idx b = of_nat 0 - 1"
    using assms(1) by (simp_all add: db_ready_def)
  let ?b1 = "b\<lparr>db_idx := of_nat k - 1\<rparr>"
  have adv: "db_advances k b = (replicate k True, ?b1)"
    using db_advances_within [OF idx, of k] len assms(3,4) by simp
  have cur: "db_cur ?b1 = Inr m"
    using db_cur_at [of ?b1 m] len assms(3,4) by (simp add: k)
  let ?b2 = "db_set_next m None ?b1"
  have nx1: "db_nexts ?b1 = db_nexts b"
    by (simp add: db_nexts_def)
  have posted: "db_posted ?b2 = Inr [0..<k]"
    using db_link.posted_prefix [of m ?b1] nx len assms(3) unfolding nx1 by (simp add: db_posted_def k)
  have cur2: "db_cur ?b2 = Inr m"
    using db_cur_at [of ?b2 m] len assms(3,4) by (simp add: k)
  have size: "db_size ?b2 = of_nat k" "\<not> db_empty ?b2"
    using db_size_at(1,2) [of ?b2 k n] len assms(3,4) k by simp_all
  have "db_sanity_loop (db_nexts ?b2) 0 0 (length (db_nexts ?b2) - 0) = Inr (of_nat m + 1)"
    by (rule db_sanity_prefix) (use nx len assms(3) k nx1 in \<open>auto simp: db_link.nexts_set\<close>)
  then have sane: "db_sanity_check_sz ?b2 = Inr (of_nat k)"
    using size(2) by (simp add: db_sanity_check_sz_def k add.commute)
  let ?b3 = "(db_set_next m (Some (m + 1)) ?b2)\<lparr>db_idx := - 1\<rparr>"
  have clear: "db_clear ?b2 = Inr ?b3"
    using cur2 by (simp add: db_clear_def db_freeze_done_def)
  have "db_nexts ?b3 = (db_nexts b)[m := Some (m + 1)]"
    using nx1 by (simp add: db_nexts_def db_link.nexts_set [unfolded db_nexts_def])
  then have "db_ready n ?b3"
    using len nx assms(3) by (auto simp: db_ready_def nth_list_update k)
  then show thesis
    using that adv cur posted size(1) sane clear by (simp add: db_round_def db_freeze_def)
qed



text \<open>
  A larger doorbell breaks. The index is a signed byte, and the static assertion
  compares the wrong constant: with \<open>N\<close> above 128 the 129th \<open>next\<close> reports success, \<open>size\<close> is
  -127, and touching the current request is out of bounds.
\<close>
theorem doorbell_index_wraps:
  assumes "128 < n" and "n < 2 ^ 31"
  shows "\<exists>b. db_advances 129 (db_new n opc) = (replicate 129 True, b) \<and> sint (db_size b) = - 127 \<and>
           \<not> db_full b \<and> db_freeze b = Inl Undefined"
proof -
  have step: "db_advances k (b\<lparr>db_idx := of_nat j - 1\<rparr>) = (replicate k True, b\<lparr>db_idx := of_nat (j + k) - 1\<rparr>)"
    if "length (db_wrs b) = n" "j + k \<le> 129" for b :: doorbell and j k
    using that(2)
  proof (induction k arbitrary: j)
    case (Suc k)
    have "db_size (b\<lparr>db_idx := of_nat j - 1\<rparr>) = of_nat j"
      using i8_nat(2) [of j] Suc.prems by (simp add: db_size_def)
    moreover have "(of_nat j :: c_int) \<noteq> of_nat n"
      using Suc.prems assms by (auto simp: word_unat_eq_iff unat_of_nat)
    ultimately have "db_advance (b\<lparr>db_idx := of_nat j - 1\<rparr>) = (True, b\<lparr>db_idx := of_nat (Suc j) - 1\<rparr>)"
      using that(1) by (simp add: db_advance_def db_full_def)
    then show ?case
      using Suc.IH [of "Suc j"] Suc.prems by (simp add: add.assoc add.commute)
  qed simp
  let ?b = "db_new n opc"
  have b: "db_ready n ?b"
    using db_new_ready assms(1) by simp
  then have "?b = ?b\<lparr>db_idx := of_nat 0 - 1\<rparr>" "length (db_wrs ?b) = n"
    by (simp_all add: db_ready_def)
  then have "db_advances 129 ?b = (replicate 129 True, ?b\<lparr>db_idx := of_nat 129 - 1\<rparr>)"
    using step [of ?b 0 129] by simp
  moreover have "db_freeze b = Inl Undefined \<and> sint (db_size b) = - 127 \<and> \<not> db_full b"
    if "db_idx b = of_nat 129 - 1" "length (db_wrs b) = n" for b
  proof -
    have idx: "sint (db_idx b) = - 128"
      by (simp add: that(1))
    have sz: "db_size b = - 127"
      by (simp add: db_size_def that(1))
    have "(- 127 :: c_int) \<noteq> of_nat n"
      using assms by (auto simp: word_unat_eq_iff unat_of_nat)
    with idx sz show ?thesis
      using that(2) by (simp add: db_freeze_def db_cur_def db_empty_def db_full_def)
  qed
  ultimately show ?thesis
    using b by (simp add: db_ready_def)
qed

theorem doorbell_index_wraps_witness:
  "\<exists>b. db_advances 129 (db_new 200 0) = (replicate 129 True, b) \<and> sint (db_size b) = - 127 \<and> db_freeze b = Inl Undefined"
  using doorbell_index_wraps [of 200 0] by auto

end
