(* ===== verification/BenchSpec.thy ===== *)
theory BenchSpec
  imports Bench OpsSpec
begin

text \<open>
  What the loops of the measuring programs promise about the send queue they drive: the
  distance between signals keeps the queue within its size, the window of requests in flight
  is exact and is empty at the end; and where the batched client breaks this.
\<close>

unbundle bit_operations_syntax

section \<open>The send queue of a device\<close>

text \<open>
  The documented behaviour of a send queue. \<open>pend\<close> holds the requests that occupy the queue,
  oldest first, as whether they were signalled; posting fails when there is no room. A
  poll reports the oldest signalled request, which frees its slot and all before it; \<open>lag\<close>
  bounds the number of polls that find nothing while a signalled request is there.
\<close>

definition retire :: "bool list \<Rightarrow> bool list" where
  "retire p = tl (dropWhile Not p)"

definition post_law :: "'d verbs \<Rightarrow> ptr \<Rightarrow> ('d \<Rightarrow> bool list) \<Rightarrow> nat \<Rightarrow> bool" where
  "post_law V h pend cap \<longleftrightarrow> v_signaled V \<noteq> 0 \<and>
     (\<forall>d wrs. if length (pend d) + length wrs \<le> cap
        then fst (v_post_send V h wrs d) = 0 \<and>
             pend (snd (v_post_send V h wrs d)) = pend d @ map (\<lambda>wr. wr_flags wr AND v_signaled V \<noteq> 0) wrs
        else fst (v_post_send V h wrs d) \<noteq> 0)"

definition poll_law :: "'d verbs \<Rightarrow> ptr \<Rightarrow> ('d \<Rightarrow> bool list) \<Rightarrow> ('d \<Rightarrow> nat) \<Rightarrow> bool" where
  "poll_law V c pend lag \<longleftrightarrow>
     (\<forall>d. if True \<in> set (pend d)
        then (fst (v_poll_cq V c 1 d) = (0, []) \<and> pend (snd (v_poll_cq V c 1 d)) = pend d \<and>
                lag (snd (v_poll_cq V c 1 d)) < lag d) \<or>
             (\<exists>w. wc_ok w \<and> fst (v_poll_cq V c 1 d) = (1, [w]) \<and> pend (snd (v_poll_cq V c 1 d)) = retire (pend d))
        else fst (v_poll_cq V c 1 d) = (0, []) \<and> pend (snd (v_poll_cq V c 1 d)) = pend d) \<and>
     (\<forall>d. pend (snd (v_now V d)) = pend d \<and> lag (snd (v_now V d)) \<le> lag d)"

text \<open>The steady clock counts nanoseconds in 64 bits.\<close>

definition clock_range :: "'d verbs \<Rightarrow> bool" where
  "clock_range V \<longleftrightarrow> (\<forall>d. 0 \<le> fst (v_now V d) \<and> fst (v_now V d) < 2 ^ 63)"

lemma retire_first: "retire (replicate l False @ True # p) = p"
  by (induction l) (simp_all add: retire_def)

lemma retire_signalled: "retire (replicate (Suc f) True) = replicate f True"
  by (simp add: retire_def)

section \<open>Waiting\<close>

text \<open>Whatever a wait returns: nothing happened, or the oldest signalled request completed.\<close>

definition waited :: "('d \<Rightarrow> bool list) \<Rightarrow> ('d \<Rightarrow> nat) \<Rightarrow> ('x) qp_dummy_scheme \<Rightarrow> 'd \<Rightarrow> c_int \<times> wc option \<Rightarrow>
    ('x) qp_dummy_scheme \<Rightarrow> 'd \<Rightarrow> bool" where
  "waited pend lag q d r q' d' \<longleftrightarrow>
     (fst r = 0 \<and> q' = q \<and> pend d' = pend d \<and> (True \<in> set (pend d) \<longrightarrow> lag d' < lag d)) \<or>
     (fst r = 1 \<and> True \<in> set (pend d) \<and> (\<exists>c. snd r = Some c \<and> wc_ok c) \<and>
      q' = q\<lparr>d_out_signaled := d_out_signaled q - 1\<rparr> \<and> pend d' = retire (pend d))"

lemma poll_send_comp_law:
  assumes "poll_law V (d_cq q) pend lag" "poll_send_comp V q d = (r, q', d')"
  shows "waited pend lag q d r q' d'"
proof -
  obtain rs d1 where p: "v_poll_cq V (d_cq q) 1 d = (rs, d1)"
    by fastforce
  have "(rs = (0, []) \<and> pend d1 = pend d \<and> (True \<in> set (pend d) \<longrightarrow> lag d1 < lag d)) \<or>
      (True \<in> set (pend d) \<and> (\<exists>w. wc_ok w \<and> rs = (1, [w])) \<and> pend d1 = retire (pend d))"
    using assms(1) p unfolding poll_law_def by (metis fst_conv snd_conv)
  moreover have "0 <s (1 :: c_int)"
    by (simp add: word_sless_alt)
  ultimately show ?thesis
    using assms(2) p by (auto simp: poll_send_comp_def waited_def)
qed

lemma waited_step:
  assumes "poll_law V (d_cq q) pend lag" "poll_send_comp V q d = (res, q1, d1)" "fst res = 0"
    and "v_now V d1 = (now, d2)" "waited pend lag q1 d2 r q' d'"
  shows "waited pend lag q d r q' d'"
proof -
  have "q1 = q" "pend d1 = pend d" "True \<in> set (pend d) \<longrightarrow> lag d1 < lag d"
    using poll_send_comp_law [OF assms(1,2)] assms(3) by (auto simp: waited_def)
  moreover have "pend d2 = pend d1" "lag d2 \<le> lag d1"
    using assms(1,4) unfolding poll_law_def by (metis snd_conv)+
  ultimately show ?thesis
    using assms(5) by (auto simp: waited_def)
qed

text \<open>What every round of polling gives holds of the whole.\<close>

lemma poll_until_rule [consumes 1, case_names polled timeout again]:
  fixes q :: "'x qp_dummy_scheme"
  assumes run: "poll_until V t timeout q d = Some (r, q', d')"
    and polled: "\<And>q d r q1 d1. poll_send_comp V q d = (r, q1, d1) \<Longrightarrow> fst r \<noteq> 0 \<Longrightarrow> P q d r q1 d1"
    and stopped: "\<And>q d r q1 d1 now d2. poll_send_comp V q d = (r, q1, d1) \<Longrightarrow> fst r = 0 \<Longrightarrow> v_now V d1 = (now, d2) \<Longrightarrow> P q d r q1 d2"
    and again: "\<And>q d res q1 d1 now d2 r q' d'. poll_send_comp V q d = (res, q1, d1) \<Longrightarrow> fst res = 0 \<Longrightarrow> v_now V d1 = (now, d2) \<Longrightarrow>
      P q1 d2 r q' d' \<Longrightarrow> P q d r q' d'"
  shows "P q d r q' d'"
proof -
  have "V = V \<longrightarrow> P q d (fst (r, q', d')) (fst (snd (r, q', d'))) (snd (snd (r, q', d')))"
    using run
  proof (rule poll_until.raw_induct [where P = "\<lambda>W t timeout q d y. W = V \<longrightarrow> P q d (fst y) (fst (snd y)) (snd (snd y))", rotated])
    fix pu :: "'a verbs \<Rightarrow> timer \<Rightarrow> int \<Rightarrow> 'x qp_dummy_scheme \<Rightarrow> 'a \<Rightarrow> ((c_int \<times> wc option) \<times> 'x qp_dummy_scheme \<times> 'a) option"
    fix W :: "'a verbs" and t timeout q d y
    assume ih: "\<And>W t timeout q d y. pu W t timeout q d = Some y \<Longrightarrow> W = V \<longrightarrow> P q d (fst y) (fst (snd y)) (snd (snd y))"
      and body: "(case poll_send_comp W q d of (res, q', d') \<Rightarrow>
          if fst res = 0
          then case v_now W d' of (now, d'') \<Rightarrow>
                 if passed_msec now t \<le> timeout then pu W t timeout q' d'' else Some (res, q', d'')
          else Some (res, q', d')) = Some y"
    obtain res q1 d1 now d2 where p: "poll_send_comp W q d = (res, q1, d1)" "v_now W d1 = (now, d2)"
      by (metis prod.exhaust)
    show "W = V \<longrightarrow> P q d (fst y) (fst (snd y)) (snd (snd y))"
      using body p ih [of W t timeout q1 d2 y] polled [of q d res q1 d1] stopped [of q d res q1 d1 now d2] again [of q d res q1 d1 now d2 "fst y" "fst (snd y)" "snd (snd y)"]
      by (cases "fst res = 0") (auto split: if_splits)
  qed
  then show ?thesis
    by simp
qed

lemma poll_until_waited:
  assumes law: "poll_law V c pend lag" and run: "poll_until V t timeout q d = Some (r, q', d')" and cq: "d_cq q = c"
  shows "waited pend lag q d r q' d'"
proof -
  have now: "pend d2 = pend d1 \<and> lag d2 \<le> lag d1" if "v_now V d1 = (n, d2)" for d1 n d2
    using law that unfolding poll_law_def by (metis snd_conv)
  have "d_cq q = c \<longrightarrow> waited pend lag q d r q' d'"
    using run
  proof (induction rule: poll_until_rule)
    case (polled q d r q1 d1)
    then show ?case
      using poll_send_comp_law [of V q pend lag d r q1 d1] law by simp
  next
    case (timeout q d r q1 d1 n d2)
    then show ?case
      using poll_send_comp_law [of V q pend lag d r q1 d1] law now [OF timeout(3)] by (auto simp: waited_def)
  next
    case (again q d res q1 d1 n d2 r q' d')
    show ?case
    proof
      assume q: "d_cq q = c"
      have "q1 = q"
        using poll_send_comp_law [of V q pend lag d res q1 d1] law q again(1,2) by (auto simp: waited_def)
      then show "waited pend lag q d r q' d'"
        using waited_step [OF _ again(1-3)] law q again(4) by simp
    qed
  qed
  then show ?thesis
    using cq by simp
qed

lemma passed_no_timeout:
  assumes "clock_range V" "0 \<le> start_time t"
  shows "passed_msec (fst (v_now V d)) t \<le> no_timeout"
proof -
  have "fst (v_now V d) < 2 ^ 63"
    using assms(1) by (simp add: clock_range_def)
  then have "fst (v_now V d) - start_time t < 2 ^ 63"
    using assms(2) by simp
  then have "passed_msec (fst (v_now V d)) t \<le> 2 ^ 63"
    unfolding passed_msec_def passed_def duration_cast_def by (cases "0 \<le> fst (v_now V d) - start_time t") auto
  then show ?thesis
    by (simp add: no_timeout_def)
qed

lemma poll_until_completes:
  assumes "poll_law V c pend lag" "clock_range V" "0 \<le> start_time t" "d_cq q = c" "True \<in> set (pend d)"
  shows "\<exists>r q' d'. poll_until V t no_timeout q d = Some (r, q', d') \<and> fst r \<noteq> 0"
  using assms(5)
proof (induction "lag d" arbitrary: d rule: less_induct)
  case less
  obtain res q1 d1 where p: "poll_send_comp V q d = (res, q1, d1)"
    by (metis prod.exhaust)
  note w = poll_send_comp_law [of V q pend lag d, OF _ p]
  show ?case
  proof (cases "fst res = 0")
    case True
    obtain now d2 where n: "v_now V d1 = (now, d2)"
      by fastforce
    have q1: "q1 = q" "pend d1 = pend d" "lag d1 < lag d"
      using w True less.prems assms(1,4) by (auto simp: waited_def)
    moreover have "pend d2 = pend d1" "lag d2 \<le> lag d1"
      using assms(1) n unfolding poll_law_def by (metis snd_conv)+
    ultimately have "\<exists>r q' d'. poll_until V t no_timeout q d2 = Some (r, q', d') \<and> fst r \<noteq> 0"
      using less.hyps [of d2] less.prems by simp
    moreover have "passed_msec now t \<le> no_timeout"
      using passed_no_timeout [OF assms(2,3), of d1] n by simp
    ultimately show ?thesis
      using p n True q1(1) by (subst poll_until.simps) simp
  next
    case False
    then show ?thesis
      using p by (subst poll_until.simps) simp
  qed
qed

section \<open>What a worker shows\<close>

text \<open>The queue pair's handles and count, the counter and the occupied slots of the send queue.\<close>

definition wk_obs :: "('d \<Rightarrow> bool list) \<Rightarrow> 'd worker \<Rightarrow> ptr \<times> ptr \<times> usize \<times> u64 \<times> bool list" where
  "wk_obs pend w =
     (d_qp (wk_rc w), d_cq (wk_rc w), d_out_signaled (wk_rc w), st_counter (wk_stat w), pend (wk_drv w))"

lemma wk_aim_obs: "\<exists>w'. wk_aim attr w = (Inr (), w') \<and> wk_obs pend w' = wk_obs pend w"
  by (simp add: wk_aim_def wk_obs_def split: prod.splits)

lemma wk_count_obs:
  assumes "wk_obs pend w = (h, c, s, n, p)"
  shows "\<exists>w'. wk_count k w = (Inr (), w') \<and> wk_obs pend w' = (h, c, s, n + scast k, p)"
  using assms by (simp add: wk_count_def wk_obs_def increment_def)

lemma scast_of_nat: "k < 2 ^ 31 \<Longrightarrow> (scast (of_nat k :: c_int) :: u64) = of_nat k"
  by (simp add: scast_eq signed_of_nat signed_take_bit_int_eq_self)

lemma encode_my_wr_fields:
  "encode_my_wr wid k q = (wr, q1) \<Longrightarrow> d_qp q1 = d_qp q \<and> d_cq q1 = d_cq q \<and> d_out_signaled q1 = d_out_signaled q"
  by (auto simp: encode_my_wr_def forward_mark_def)

lemma wk_execute_obs:
  assumes "post_law V h pend cap" "wk_obs pend w = (h, c, s, n, p)" "length p < cap"
  shows "\<exists>w'. wk_execute V C flags w = (Inr (), w') \<and>
    wk_obs pend w' = (h, c, if flags AND v_signaled V \<noteq> 0 then s + 1 else s, n, p @ [flags AND v_signaled V \<noteq> 0])"
proof -
  obtain wr q1 where e: "encode_my_wr 0 1 (wk_rc w) = (wr, q1)"
    by fastforce
  note q1 = encode_my_wr_fields [OF e]
  let ?o = "(wk_op w)\<lparr>op_id := wr, op_next := None, op_flags := flags\<rparr>"
  obtain rc d' where r: "v_post_send V h [op_view C ?o] (wk_drv w) = (rc, d')"
    by fastforce
  have "wr_flags (op_view C ?o) = flags"
    by (simp add: op_view_def Let_def)
  then have "rc = 0" "pend d' = p @ [flags AND v_signaled V \<noteq> 0]"
    using assms r by (auto simp: post_law_def wk_obs_def dest!: spec [of _ "wk_drv w"] spec [of _ "[op_view C ?o]"])
  then show ?thesis
    using assms(2) e q1 r by (simp add: wk_execute_def op_execute_single Let_def wk_obs_def Ok_def)
qed

lemma wait_completes:
  assumes "poll_law V c pend lag" "clock_range V" "d_cq q = c" "True \<in> set (pend d)"
  shows "\<exists>x d'. wait_one_comp V no_timeout q d = Some (Ok x, q\<lparr>d_out_signaled := d_out_signaled q - 1\<rparr>, d') \<and>
    pend d' = retire (pend d)"
proof -
  obtain start d0 where st: "v_now V d = (start, d0)"
    by fastforce
  have d0: "pend d0 = pend d" "0 \<le> start"
    using assms(1,2) st unfolding poll_law_def clock_range_def by (metis fst_conv snd_conv)+
  then obtain r q' d' where p: "poll_until V (timer_new start) no_timeout q d0 = Some (r, q', d')" "fst r \<noteq> 0"
    using poll_until_completes [OF assms(1,2), of "timer_new start" q d0] assms(3,4) by (auto simp: timer_new_def)
  have "waited pend lag q d0 r q' d'"
    using poll_until_waited [OF assms(1) p(1) assms(3)] .
  then obtain x where x: "r = (1, Some x)" "wc_ok x" "q' = q\<lparr>d_out_signaled := d_out_signaled q - 1\<rparr>"
      "pend d' = retire (pend d)"
    using p(2) d0(1) by (cases r) (auto simp: waited_def)
  have "\<not> (1 :: c_int) <s 0"
    by (simp add: word_sless_alt)
  then show ?thesis
    using st p(1) x by (simp add: wait_one_comp_def)
qed

lemma wk_wait_ok_obs:
  assumes "poll_law V c pend lag" "clock_range V" "wk_obs pend w = (h, c, s, n, p)" "True \<in> set p"
  shows "\<exists>w'. wk_wait_ok V w = (Inr (), w') \<and> wk_obs pend w' = (h, c, s - 1, n, retire p)"
  using wait_completes [OF assms(1,2), of "wk_rc w" "wk_drv w"] assms(3,4)
  by (auto simp: wk_wait_ok_def wk_wait_def bindA_def liftA_def Ok_def wk_obs_def)

section \<open>or_bench\<close>

text \<open>Between two signals: at most \<open>M\<close> old requests, the signalled one, and the requests since.\<close>

lemma or_loop_obs:
  assumes "post_law V h pend cap" "poll_law V c pend lag" "clock_range V" "2 * M \<le> cap"
    and "wk_obs pend w = (h, c, s, n, replicate l False @ True # replicate (x - 1) False)" "l < M" "0 < x" "x \<le> M" "0 < i"
  shows "\<exists>w' l' x'. or_loop V C attr M k i x w = (Inr (), w') \<and> l' < M \<and> 0 < x' \<and> x' \<le> M \<and>
    wk_obs pend w' = (h, c, s, n, replicate l' False @ True # replicate (x' - 1) False)"
  using assms(5-)
proof (induction k arbitrary: w i x l)
  case 0
  then show ?case
    by (auto simp: retA_def)
next
  case (Suc k)
  let ?p = "replicate l False @ True # replicate (x - 1) False"
  have sig: "v_signaled V \<noteq> 0"
    using assms(1) by (simp add: post_law_def)
  obtain w1 where w1: "wk_aim attr w = (Inr (), w1)" "wk_obs pend w1 = (h, c, s, n, ?p)"
    using wk_aim_obs [of attr w pend] Suc.prems(1) by auto
  have room: "length ?p < cap"
    using Suc.prems(2-4) assms(4) by simp
  show ?case
  proof (cases "x = M")
    case True
    obtain w2 where w2: "wk_execute V C (v_signaled V) w1 = (Inr (), w2)" "wk_obs pend w2 = (h, c, s + 1, n, ?p @ [True])"
      using wk_execute_obs [OF assms(1) w1(2) room, of C "v_signaled V"] sig by auto
    obtain w3 where w3: "wk_wait_ok V w2 = (Inr (), w3)" "wk_obs pend w3 = (h, c, s, n, retire (?p @ [True]))"
      using wk_wait_ok_obs [OF assms(2,3) w2(2)] by auto
    have shape: "retire (?p @ [True]) = replicate (x - 1) False @ True # replicate (1 - 1) False"
      using retire_first [of l "replicate (x - 1) False @ [True]"] by simp
    from Suc.IH [of w3 "x - 1" 1 "Suc i"] w3(2) shape True Suc.prems
    show ?thesis
      using w1(1) w2(1) w3(1) by (simp add: bindA_def)
  next
    case False
    obtain w2 where w2: "wk_execute V C 0 w1 = (Inr (), w2)" "wk_obs pend w2 = (h, c, s, n, ?p @ [False])"
      using wk_execute_obs [OF assms(1) w1(2) room, of C 0] by auto
    have shape: "?p @ [False] = replicate l False @ True # replicate (Suc x - 1) False"
      using Suc.prems(3) by (cases x) (simp_all add: replicate_append_same)
    from Suc.IH [of w2 l "Suc x" "Suc i"] w2(2) shape False Suc.prems
    show ?thesis
      using w1(1) w2(1) sig by (simp add: bindA_def retA_def)
  qed
qed

lemma or_round_obs:
  assumes "post_law V h pend cap" "poll_law V c pend lag" "clock_range V" "2 * M \<le> cap"
    and "wk_obs pend w = (h, c, s, n, replicate l False)" "l < M" "0 < factor" "factor < 2 ^ 31"
  shows "\<exists>w' l'. or_round V C attr M factor w = (Inr (), w') \<and> l' < M \<and>
    wk_obs pend w' = (h, c, s, n + of_nat factor, replicate l' False)"
proof -
  obtain k where k: "factor = Suc k"
    using assms(7) by (cases factor) auto
  have sig: "v_signaled V \<noteq> 0"
    using assms(1) by (simp add: post_law_def)
  obtain w1 where w1: "wk_aim attr w = (Inr (), w1)" "wk_obs pend w1 = (h, c, s, n, replicate l False)"
    using wk_aim_obs [of attr w pend] assms(5) by auto
  obtain w2 where w2: "wk_execute V C (v_signaled V) w1 = (Inr (), w2)"
      "wk_obs pend w2 = (h, c, s + 1, n, replicate l False @ True # replicate (1 - 1) False)"
    using wk_execute_obs [OF assms(1) w1(2), of C "v_signaled V"] sig assms(4,6) by auto
  obtain w3 l' x' where w3: "or_loop V C attr M k 1 1 w2 = (Inr (), w3)" "l' < M" "0 < x'" "x' \<le> M"
      "wk_obs pend w3 = (h, c, s + 1, n, replicate l' False @ True # replicate (x' - 1) False)"
    using or_loop_obs [OF assms(1-4) w2(2), of 1 C attr k] assms(6) by auto
  obtain w4 where w4: "wk_wait_ok V w3 = (Inr (), w4)" "wk_obs pend w4 = (h, c, s, n, replicate (x' - 1) False)"
    using wk_wait_ok_obs [OF assms(2,3) w3(5)] by (auto simp: retire_first)
  obtain w5 where w5: "wk_count (of_nat factor) w4 = (Inr (), w5)"
      "wk_obs pend w5 = (h, c, s, n + scast (of_nat factor :: c_int), replicate (x' - 1) False)"
    using wk_count_obs [OF w4(2)] by blast
  have "(scast (of_nat factor :: c_int) :: u64) = of_nat factor"
    using assms(8) by (rule scast_of_nat)
  then show ?thesis
    using w1(1) w2(1) w3(1,3,4) w4(1) w5 unfolding or_round_def k by (intro exI [of _ w5] exI [of _ "x' - 1"]) (simp add: bindA_def retA_def)
qed

lemma or_rounds_obs:
  assumes "post_law V h pend cap" "poll_law V c pend lag" "clock_range V" "2 * M \<le> cap"
    and "wk_obs pend w = (h, c, s, cnt, replicate l False)" "l < M" "0 < factor" "factor < 2 ^ 31"
  shows "\<exists>w' l'. or_rounds V C attr M factor n w = (Inr (), w') \<and> l' < M \<and>
    wk_obs pend w' = (h, c, s, cnt + of_nat (n * factor), replicate l' False)"
  using assms(5,6)
proof (induction n arbitrary: w l cnt)
  case (Suc n)
  obtain w1 l1 where w1: "or_round V C attr M factor w = (Inr (), w1)" "l1 < M"
      "wk_obs pend w1 = (h, c, s, cnt + of_nat factor, replicate l1 False)"
    using or_round_obs [OF assms(1-4) Suc.prems assms(7,8)] by blast
  from Suc.IH [OF w1(3,2)] show ?case
    using w1(1) by (auto simp: bindA_def ac_simps)
qed (auto simp: retA_def)

text \<open>
  C23: The signals of or_bench suffice. The device rejects a request when as many are outstanding
  as the queue pair was created for, and frees slots only on completions. Signalling one
  request in half that many, the client never has a post rejected, never waits for
  a completion that cannot come, and counts exactly its requests; after each round no
  signalled request is outstanding.
\<close>
theorem or_bench_fits:
  assumes "post_law V (d_qp (wk_rc w)) pend (nat (sint (max_send_sz (rc_config (wk_rc w)))))"
    and "poll_law V (d_cq (wk_rc w)) pend lag" and "clock_range V"
    and "2 \<le> sint (max_send_sz (rc_config (wk_rc w)))" and "pend (wk_drv w) = []"
    and "0 < factor" and "factor < 2 ^ 31"
  shows "\<exists>w'. or_run V C attr test_buf lkey factor n w = (Inr (), w') \<and>
    st_counter (wk_stat w') = st_counter (wk_stat w) + of_nat (n * factor) \<and>
    ongoing_signaled (wk_rc w') = ongoing_signaled (wk_rc w) \<and>
    True \<notin> set (pend (wk_drv w')) \<and> length (pend (wk_drv w')) < or_max_of (wk_rc w)"
proof -
  let ?M = "or_max_of (wk_rc w)" and ?w = "w\<lparr>wk_op := or_op C test_buf lkey\<rparr>"
  have cap: "2 * ?M \<le> nat (sint (max_send_sz (rc_config (wk_rc w))))" "0 < ?M"
    using assms(4) by (auto simp: or_max_of_def)
  have "wk_obs pend ?w = (d_qp (wk_rc w), d_cq (wk_rc w), d_out_signaled (wk_rc w), st_counter (wk_stat w), replicate 0 False)"
    using assms(5) by (simp add: wk_obs_def)
  from or_rounds_obs [OF assms(1-3) cap(1) this cap(2) assms(6,7), of C attr n]
  show ?thesis
    by (auto simp: or_run_def wk_obs_def ongoing_signaled_def)
qed

text \<open>A device with a send queue of 128 requests.\<close>

definition queue_signal :: "send_wr \<Rightarrow> bool" where
  "queue_signal wr \<longleftrightarrow> wr_flags wr AND 2 \<noteq> 0"

definition queue_verbs :: "sim verbs" where
  "queue_verbs = sim_verbs\<lparr>
     v_post_send := (\<lambda>_ srs d. if length (sim_sent d) + length srs \<le> 128
        then (0, d\<lparr>sim_sent := sim_sent d @ srs, sim_log := sim_log d @ srs\<rparr>) else (12, d)),
     v_poll_cq := (\<lambda>_ _ d. case dropWhile (\<lambda>wr. \<not> queue_signal wr) (sim_sent d) of [] \<Rightarrow> ((0, []), d)
        | sr # srs \<Rightarrow> ((1, [\<lparr>wc_id = wr_id sr, wc_ok = True, wc_imm = wr_imm sr\<rparr>]), d\<lparr>sim_sent := srs\<rparr>))\<rparr>"

definition steady_verbs :: "sim verbs" where
  "steady_verbs = queue_verbs\<lparr>v_now := (\<lambda>d. (0, d))\<rparr>"

definition queue_pend :: "sim \<Rightarrow> bool list" where
  "queue_pend d = map queue_signal (sim_sent d)"

lemma retire_map: "retire (map f xs) = map f (tl (dropWhile (\<lambda>x. \<not> f x) xs))"
  by (simp add: retire_def dropWhile_map map_tl comp_def)

lemma queue_laws:
  "post_law queue_verbs h queue_pend 128" "post_law steady_verbs h queue_pend 128"
  "poll_law queue_verbs c queue_pend (\<lambda>_. 0)" "poll_law steady_verbs c queue_pend (\<lambda>_. 0)"
  "clocked queue_verbs sim_clock" "clock_range steady_verbs"
proof -
  have some: "dropWhile (\<lambda>wr. \<not> queue_signal wr) xs = y # ys \<Longrightarrow> \<exists>x \<in> set xs. queue_signal x" for xs y ys
    by (metis dropWhile_eq_Nil_conv list.distinct(1))
  show "post_law queue_verbs h queue_pend 128" "post_law steady_verbs h queue_pend 128"
    by (simp_all add: post_law_def queue_verbs_def steady_verbs_def sim_verbs_def queue_pend_def queue_signal_def)
  show "poll_law queue_verbs c queue_pend (\<lambda>_. 0)" "poll_law steady_verbs c queue_pend (\<lambda>_. 0)"
    unfolding poll_law_def
    by (auto simp: queue_verbs_def steady_verbs_def sim_verbs_def queue_pend_def retire_map split: list.splits
        dest: some)
  show "clocked queue_verbs sim_clock"
    by (simp add: clocked_def queue_verbs_def sim_verbs_def split: list.splits)
  show "clock_range steady_verbs"
    by (simp add: clock_range_def steady_verbs_def)
qed

definition sample_worker :: "sim worker" where
  "sample_worker = \<lparr>wk_rc = sample_rc, wk_op = op_new 1, wk_rand = fr_new 3735928495, wk_stat = statics_new,
     wk_drv = sim_start\<rparr>"

lemma sample_worker_fields:
  "max_send_sz (rc_config (wk_rc sample_worker)) = 128" "queue_pend (wk_drv sample_worker) = []"
  "st_counter (wk_stat sample_worker) = 0"
  by (simp_all add: sample_worker_def sample_rc_def rc_blank_def default_config_def max_send_sz_def kRcMaxSendSz_def
      queue_pend_def sim_start_def statics_new_def)

theorem or_bench_fits_witness:
  "\<exists>w'. or_run steady_verbs sample_ops null_reg_attr (Some 64) 7 1000 3 sample_worker = (Inr (), w') \<and>
     st_counter (wk_stat w') = 3000"
proof -
  have "sint (128 :: c_int) = 128"
    by simp
  then show ?thesis
    using or_bench_fits [of steady_verbs sample_worker queue_pend "\<lambda>_. 0" 1000 sample_ops null_reg_attr "Some 64" 7 3]
      queue_laws(2,4,6) by (auto simp: sample_worker_fields)
qed

section \<open>fly_bench\<close>

lemma wk_wait_now_obs:
  assumes "poll_law V c pend lag" "clocked V clock" "wk_obs pend w = (h, c, s, n, replicate f True)"
  shows "\<exists>ok w'. wk_wait V 0 w = (Inr ok, w') \<and>
    (if ok then 0 < f \<and> wk_obs pend w' = (h, c, s - 1, n, replicate (f - 1) True)
     else wk_obs pend w' = wk_obs pend w \<and> (0 < f \<longrightarrow> lag (wk_drv w') < lag (wk_drv w)))"
proof -
  obtain start d0 where st: "v_now V (wk_drv w) = (start, d0)"
    by fastforce
  have d0: "pend d0 = replicate f True" "lag d0 \<le> lag (wk_drv w)" "start \<le> clock d0"
    using assms st unfolding poll_law_def clocked_def wk_obs_def by (metis fst_conv snd_conv less_imp_le)+
  obtain r q' d' where p: "poll_until V (timer_new start) 0 (wk_rc w) d0 = Some (r, q', d')"
    using poll_until_returns [OF assms(2), of "timer_new start" d0 0 "wk_rc w"] d0(3) by (auto simp: timer_new_def)
  have "waited pend lag (wk_rc w) d0 r q' d'"
    using poll_until_waited [OF assms(1) p] assms(3) by (simp add: wk_obs_def)
  then consider
      "fst r = 0" "q' = wk_rc w" "pend d' = replicate f True" "0 < f \<longrightarrow> lag d' < lag (wk_drv w)"
    | x where "r = (1, Some x)" "wc_ok x" "0 < f" "q' = (wk_rc w)\<lparr>d_out_signaled := d_out_signaled (wk_rc w) - 1\<rparr>"
        "pend d' = retire (replicate f True)"
    using d0(1,2) by (cases r) (auto simp: waited_def)
  then show ?thesis
  proof cases
    case 1
    then show ?thesis
      using st p assms(3)
      by (cases r) (auto simp: wk_wait_def wait_one_comp_def Timeout_def wk_obs_def)
  next
    case 2
    have "\<not> (1 :: c_int) <s 0" "retire (replicate f True) = replicate (f - 1) True"
      using 2(3) retire_signalled [of "f - 1"] by (simp_all add: word_sless_alt)
    then show ?thesis
      using st p 2 assms(3) by (auto simp: wk_wait_def wait_one_comp_def Ok_def wk_obs_def)
  qed
qed

lemma fly_post_obs:
  assumes "post_law V h pend cap" "wk_obs pend w = (h, c, s + of_nat f, n, replicate f True)" "f + k \<le> cap"
  shows "\<exists>w'. fly_post V C attr k w = (Inr (), w') \<and>
    wk_obs pend w' = (h, c, s + of_nat (f + k), n + of_nat k, replicate (f + k) True)"
  using assms(2,3)
proof (induction k arbitrary: w f n)
  case (Suc k)
  have sig: "v_signaled V \<noteq> 0"
    using assms(1) by (simp add: post_law_def)
  obtain w1 where w1: "wk_aim attr w = (Inr (), w1)" "wk_obs pend w1 = (h, c, s + of_nat f, n, replicate f True)"
    using wk_aim_obs [of attr w pend] Suc.prems(1) by auto
  obtain w2 where w2: "wk_execute V C (v_signaled V) w1 = (Inr (), w2)"
      "wk_obs pend w2 = (h, c, s + of_nat (Suc f), n, replicate (Suc f) True)"
    using wk_execute_obs [OF assms(1) w1(2), of C "v_signaled V"] sig Suc.prems(2)
    by (auto simp: ac_simps replicate_append_same)
  obtain w3 where w3: "wk_count 1 w2 = (Inr (), w3)"
      "wk_obs pend w3 = (h, c, s + of_nat (Suc f), n + 1, replicate (Suc f) True)"
    using wk_count_obs [OF w2(2), of 1] by (auto simp: scast_eq)
  from Suc.IH [OF w3(2)] Suc.prems(2) show ?case
    using w1(1) w2(1) w3(1) by (auto simp: bindA_def ac_simps)
qed (simp add: retA_def)

lemma fly_try_obs:
  assumes "poll_law V c pend lag" "clocked V clock" "wk_obs pend w = (h, c, s + of_nat f, n, replicate f True)"
  shows "\<exists>f' w'. fly_try V k (of_nat r) w = (Inr (of_nat (r + (f - f'))), w') \<and> f' \<le> f \<and>
    wk_obs pend w' = (h, c, s + of_nat f', n, replicate f' True)"
  using assms(3)
proof (induction k arbitrary: w f r)
  case 0
  then show ?case
    by (auto simp: retA_def intro: exI [of _ f])
next
  case (Suc k)
  obtain ok w1 where w1: "wk_wait V 0 w = (Inr ok, w1)"
      "if ok then 0 < f \<and> wk_obs pend w1 = (h, c, s + of_nat f - 1, n, replicate (f - 1) True)
       else wk_obs pend w1 = wk_obs pend w \<and> (0 < f \<longrightarrow> lag (wk_drv w1) < lag (wk_drv w))"
    using wk_wait_now_obs [OF assms(1,2) Suc.prems] by blast
  show ?case
  proof (cases ok)
    case True
    then obtain g where f: "f = Suc g" "wk_obs pend w1 = (h, c, s + of_nat g, n, replicate g True)"
      using w1(2) by (cases f) auto
    obtain f' w' where w': "fly_try V k (of_nat (Suc r)) w1 = (Inr (of_nat (Suc r + (g - f'))), w')" "f' \<le> g"
        "wk_obs pend w' = (h, c, s + of_nat f', n, replicate f' True)"
      using Suc.IH [OF f(2), of "Suc r"] by blast
    have "Suc r + (g - f') = r + (f - f')"
      using w'(2) f(1) by simp
    then show ?thesis
      using w' w1(1) True f(1) by (intro exI [of _ f'] exI [of _ w']) (simp add: bindA_def add.commute del: of_nat_add)
  next
    case False
    then show ?thesis
      using Suc.IH [of w1 f r] w1 Suc.prems by (auto simp: bindA_def)
  qed
qed

text \<open>The window: what was counted is what was received and what is in flight, at most \<open>para\<close>.\<close>

lemma fly_round_obs:
  assumes "post_law V h pend cap" "poll_law V c pend lag" "clocked V clock" "unat para \<le> cap"
    and "wk_obs pend w = (h, c, s + of_nat f, of_nat (r + f), replicate f True)" "f \<le> unat para"
  obtains w' u g where "fly_round V C attr para (of_nat r) (of_nat f) w = (Inr (of_nat u, of_nat g), w')"
    "g \<le> unat para" "u + g = r + unat para" "wk_obs pend w' = (h, c, s + of_nat g, of_nat (u + g), replicate g True)"
proof -
  let ?P = "unat para"
  have "unat para < 2 ^ 64"
    using unsigned_less [of para] by simp
  then have "unat (of_nat f :: u64) = f"
    using assms(6) by (simp add: unat_of_nat)
  then have posts: "unat (para - of_nat f) = ?P - f"
    using assms(6) by (simp add: unat_sub word_le_nat_alt)
  obtain w1 where w1: "fly_post V C attr (?P - f) w = (Inr (), w1)"
      "wk_obs pend w1 = (h, c, s + of_nat ?P, of_nat (r + f) + of_nat (?P - f), replicate ?P True)"
    using fly_post_obs [OF assms(1,5), of "?P - f" C attr] assms(4,6) by (auto simp del: of_nat_add of_nat_diff)
  have cnt: "(of_nat (r + f) + of_nat (?P - f) :: u64) = of_nat (r + ?P)"
    unfolding of_nat_add [symmetric] using assms(6) by (intro arg_cong [of _ _ of_nat]) simp
  obtain g u w2 where w2: "fly_try V 5 (of_nat r) w1 = (Inr (of_nat u), w2)" "g \<le> ?P" "u + g = r + ?P"
      "wk_obs pend w2 = (h, c, s + of_nat g, of_nat (r + f) + of_nat (?P - f), replicate g True)"
    using fly_try_obs [OF assms(2,3) w1(2), of 5 r] by (auto simp del: of_nat_add of_nat_diff)
  have obs: "wk_obs pend w2 = (h, c, s + of_nat g, of_nat (u + g), replicate g True)"
    using w2(3,4) cnt by (simp only:)
  then have "st_counter (wk_stat w2) - of_nat u = of_nat g"
    by (simp add: wk_obs_def)
  then have "fly_round V C attr para (of_nat r) (of_nat f) w = (Inr (of_nat u, of_nat g), w2)"
    by (simp only: fly_round_def posts bindA_Inr w1(1) w2(1))
  then show thesis
    using that w2(2,3) obs by blast
qed

lemma fly_rounds_obs:
  assumes "post_law V h pend cap" "poll_law V c pend lag" "clocked V clock" "unat para \<le> cap"
    and "wk_obs pend w = (h, c, s + of_nat f, of_nat (r + f), replicate f True)" "f \<le> unat para"
  shows "\<exists>r' f' w'. fly_rounds V C attr para n (of_nat r) (of_nat f) w = (Inr (of_nat r'), w') \<and> f' \<le> unat para \<and>
    wk_obs pend w' = (h, c, s + of_nat f', of_nat (r' + f'), replicate f' True) \<and>
    r' + f' \<le> r + f + n * unat para \<and> r + f \<le> r' + f' \<and> (0 < n \<longrightarrow> unat para \<le> r' + f')"
  using assms(5,6)
proof (induction n arbitrary: w r f)
  case 0
  then show ?case
    by (auto simp: retA_def)
next
  case (Suc n)
  obtain w1 u g where w1: "fly_round V C attr para (of_nat r) (of_nat f) w = (Inr (of_nat u, of_nat g), w1)"
      "g \<le> unat para" "u + g = r + unat para" "wk_obs pend w1 = (h, c, s + of_nat g, of_nat (u + g), replicate g True)"
    using fly_round_obs [OF assms(1-4) Suc.prems] by blast
  obtain r' f' w' where w': "fly_rounds V C attr para n (of_nat u) (of_nat g) w1 = (Inr (of_nat r'), w')"
      "f' \<le> unat para" "wk_obs pend w' = (h, c, s + of_nat f', of_nat (r' + f'), replicate f' True)"
      "r' + f' \<le> u + g + n * unat para" "u + g \<le> r' + f'"
    using Suc.IH [OF w1(4,2)] by blast
  then have "fly_rounds V C attr para (Suc n) (of_nat r) (of_nat f) w = (Inr (of_nat r'), w')"
    using w1(1) by (simp add: bindA_Inr)
  then show ?case
    using w' w1(3) Suc.prems(2) by (intro exI [of _ r'] exI [of _ f'] exI [of _ w']) simp
qed

lemma fly_drain_obs:
  assumes "poll_law V c pend lag" "clocked V clock" "r + f < 2 ^ 64"
    and "wk_obs pend w = (h, c, s + of_nat f, of_nat (r + f), replicate f True)"
  shows "\<exists>w'. fly_drain V (of_nat r) w = Some (Inr (of_nat (r + f)), w') \<and> wk_obs pend w' = (h, c, s, of_nat (r + f), [])"
  using assms(3,4)
proof (induction f arbitrary: r w)
  case 0
  then show ?case
    by (subst fly_drain.simps) (simp add: wk_obs_def)
next
  case (Suc g)
  have cmp: "(of_nat r :: u64) < of_nat (r + Suc g)"
    using Suc.prems(1) by (simp add: word_less_nat_alt unat_of_nat del: of_nat_add of_nat_Suc)
  from Suc.prems(2) show ?case
  proof (induction "lag (wk_drv w)" arbitrary: w rule: less_induct)
    case less
    obtain ok w1 where w1: "wk_wait V 0 w = (Inr ok, w1)"
        "if ok then wk_obs pend w1 = (h, c, s + of_nat (Suc g) - 1, of_nat (r + Suc g), replicate g True)
         else wk_obs pend w1 = wk_obs pend w \<and> lag (wk_drv w1) < lag (wk_drv w)"
      using wk_wait_now_obs [OF assms(1,2) less.prems] by (metis diff_Suc_1 zero_less_Suc)
    have "st_counter (wk_stat w) = of_nat (r + Suc g)"
      using less.prems by (simp add: wk_obs_def)
    then have step: "fly_drain V (of_nat r) w = fly_drain V (if ok then of_nat r + 1 else of_nat r) w1"
      using w1(1) cmp by (subst fly_drain.simps) (simp del: of_nat_add of_nat_Suc)
    show ?case
    proof (cases ok)
      case True
      then have "wk_obs pend w1 = (h, c, s + of_nat g, of_nat (Suc r + g), replicate g True)"
        using w1(2) by simp
      with Suc.IH [of "Suc r" w1] Suc.prems(1) show ?thesis
        using step True by (simp add: add.commute)
    next
      case False
      then show ?thesis
        using less.hyps [of w1] w1(2) less.prems step by simp
    qed
  qed
qed

text \<open>
  C24: fly_bench keeps its window and ends. With a window that fits the send queue, no post is
  rejected although the client never checks; when the main thread stops it after any number
  of rounds, the last loop ends with every counted request received, the send queue is empty,
  and the count of signalled requests is back where it started.
\<close>
theorem fly_bench_drains:
  assumes "post_law V (d_qp (wk_rc w)) pend cap" and "poll_law V (d_cq (wk_rc w)) pend lag" and "clocked V clock"
    and "unat para \<le> cap" and "n * unat para < 2 ^ 64"
    and "pend (wk_drv w) = []" and "st_counter (wk_stat w) = 0"
  shows "\<exists>total_reqs w'. fly_worker V C attr para n w = Some (Inr (of_nat total_reqs), w') \<and>
    st_counter (wk_stat w') = of_nat total_reqs \<and> total_reqs \<le> n * unat para \<and> (0 < n \<longrightarrow> unat para \<le> total_reqs) \<and>
    pend (wk_drv w') = [] \<and> ongoing_signaled (wk_rc w') = ongoing_signaled (wk_rc w)"
proof -
  let ?s = "d_out_signaled (wk_rc w)"
  have "wk_obs pend w = (d_qp (wk_rc w), d_cq (wk_rc w), ?s + of_nat 0, of_nat (0 + 0), replicate 0 True)"
    using assms(6,7) by (simp add: wk_obs_def)
  from fly_rounds_obs [OF assms(1-4) this, of C attr n]
  obtain r f w1 where w1: "fly_rounds V C attr para n 0 0 w = (Inr (of_nat r), w1)"
      "wk_obs pend w1 = (d_qp (wk_rc w), d_cq (wk_rc w), ?s + of_nat f, of_nat (r + f), replicate f True)"
      "r + f \<le> n * unat para" "0 < n \<longrightarrow> unat para \<le> r + f"
    by auto
  from fly_drain_obs [OF assms(2,3) _ w1(2)] w1(3) assms(5)
  obtain w' where "fly_drain V (of_nat r) w1 = Some (Inr (of_nat (r + f)), w')"
      "wk_obs pend w' = (d_qp (wk_rc w), d_cq (wk_rc w), ?s, of_nat (r + f), [])"
    by auto
  then show ?thesis
    using w1 by (intro exI [of _ "r + f"] exI [of _ w']) (simp add: fly_worker_def wk_obs_def ongoing_signaled_def)
qed

theorem fly_bench_drains_witness:
  "\<exists>total_reqs w'. fly_worker queue_verbs sample_ops null_reg_attr 20 100 sample_worker = Some (Inr (of_nat total_reqs), w') \<and>
     st_counter (wk_stat w') = of_nat total_reqs \<and> 20 \<le> total_reqs \<and> queue_pend (wk_drv w') = []"
  using fly_bench_drains [of queue_verbs sample_worker queue_pend 128 "\<lambda>_. 0" sim_clock 20 100 sample_ops null_reg_attr]
    queue_laws(1,3,5) sample_worker_fields(2,3) by auto

section \<open>db_bench\<close>

text \<open>The batch: ten linked operations, of which only the last may be signalled.\<close>

definition batch_ready :: "bench_op list \<Rightarrow> bool" where
  "batch_ready bs \<longleftrightarrow> length bs = batch_factor \<and>
     (\<forall>i < batch_factor. op_next (bo_op (bs ! i)) = (if i + 1 < batch_factor then Some (i + 1) else None)) \<and>
     (\<forall>i < batch_factor - 1. op_flags (bo_op (bs ! i)) = 0) \<and>
     (\<forall>b \<in> set bs. bo_rbuf_random b \<noteq> 0 \<and> bo_lbuf_random b \<noteq> 0)"

definition bk_obs :: "('d \<Rightarrow> bool list) \<Rightarrow> 'd bench_worker \<Rightarrow> ptr \<times> ptr \<times> usize \<times> u64 \<times> bool list" where
  "bk_obs pend w =
     (d_qp (bk_rc w), d_cq (bk_rc w), d_out_signaled (bk_rc w), st_counter (bk_stat w), pend (bk_drv w))"

lemmas set_op_defs = op_set_read_def op_set_write_def op_set_op_def op_set_cas_def op_set_fetch_add_def op_set_imm_def
  op_set_rdma_rbuf_def op_set_rkey_def op_set_atomic_rbuf_def op_set_payload_def op_set_sge_addr_def op_set_wrid_def
  op_set_next_def op_set_flags_def

lemma bo_refresh_keeps:
  assumes "bo_rbuf_random b \<noteq> 0" "bo_lbuf_random b \<noteq> 0"
  shows "\<exists>b'. bo_refresh C b = Inr b' \<and> op_next (bo_op b') = op_next (bo_op b) \<and> op_flags (bo_op b') = op_flags (bo_op b) \<and>
    bo_rbuf_random b' = bo_rbuf_random b \<and> bo_lbuf_random b' = bo_lbuf_random b"
  using assms by (auto simp: bo_refresh_def bo_draw_def on_op_def set_op_defs Let_def split: prod.splits)

definition same_links :: "bench_op \<Rightarrow> bench_op \<Rightarrow> bool" where
  "same_links b b' \<longleftrightarrow> op_next (bo_op b') = op_next (bo_op b) \<and> op_flags (bo_op b') = op_flags (bo_op b) \<and>
     bo_rbuf_random b' = bo_rbuf_random b \<and> bo_lbuf_random b' = bo_lbuf_random b"

lemma refresh_all_keeps:
  assumes "\<forall>b \<in> set bs. bo_rbuf_random b \<noteq> 0 \<and> bo_lbuf_random b \<noteq> 0"
  shows "\<exists>bs'. refresh_all C bs = Inr bs' \<and> list_all2 same_links bs bs'"
  using assms
proof (induction bs)
  case (Cons b bs)
  obtain b' where "bo_refresh C b = Inr b'" "same_links b b'"
    using bo_refresh_keeps [of b C] Cons.prems by (auto simp: same_links_def)
  moreover obtain bs' where "refresh_all C bs = Inr bs'" "list_all2 same_links bs bs'"
    using Cons by auto
  ultimately show ?case
    by simp
qed simp

lemma batch_ready_links: "batch_ready bs \<Longrightarrow> list_all2 same_links bs bs' \<Longrightarrow> batch_ready bs'"
  by (auto simp: batch_ready_def same_links_def list_all2_conv_all_nth all_set_conv_all_nth)

lemma batch_ready_flags:
  assumes "batch_ready bs"
  shows "batch_ready (bs[batch_factor - 1 := on_op (op_set_flags fl) (bs ! (batch_factor - 1))])"
  using assms by (auto simp: batch_ready_def on_op_def op_set_flags_def batch_factor_def nth_list_update all_set_conv_all_nth)

lemma path_line:
  assumes "\<forall>i < n. nx ! i = (if i + 1 < n then Some (i + 1) else None)" "length nx = n" "i < n"
  shows "path nx (Some i) [i..<n] None"
  using assms(3)
proof (induction "n - i" arbitrary: i)
  case (Suc k)
  have "path nx (nx ! i) [Suc i..<n] None"
    using Suc.hyps(1) [of "Suc i"] Suc.hyps(2) Suc.prems assms(1) by (cases "Suc i < n") auto
  then show ?case
    using Suc.prems assms(2) by (simp add: upt_conv_Cons)
qed simp

lemma db_chain:
  assumes "batch_ready bs"
  shows "chain (map op_next (map bo_op bs)) (Some 0) = Inr [0..<10]"
  unfolding chain_path using assms by (intro path_line) (auto simp: batch_ready_def batch_factor_def)

text \<open>One batch, posted with the last operation's flags; only the first one's are counted.\<close>

lemma refreshed_batch:
  assumes "batch_ready (bk_ops w)"
  obtains bs where "bk_refresh C w = (Inr (), w\<lparr>bk_ops := bs\<rparr>)" "length bs = 10"
    "batch_ready (bs[9 := on_op (op_set_flags flags) (bs ! 9)])"
    "batch_set_flags flags (w\<lparr>bk_ops := bs\<rparr>) = (Inr (), w\<lparr>bk_ops := bs[9 := on_op (op_set_flags flags) (bs ! 9)]\<rparr>)"
proof -
  obtain bs where bs: "refresh_all C (bk_ops w) = Inr bs" "list_all2 same_links (bk_ops w) bs"
    using refresh_all_keeps [of "bk_ops w" C] assms by (auto simp: batch_ready_def)
  note rdy = batch_ready_links [OF assms bs(2)]
  show thesis
    using that [of bs] bs(1) rdy batch_ready_flags [OF rdy, of flags]
    by (simp add: bk_refresh_def batch_set_flags_def batch_factor_def batch_ready_def)
qed

text \<open>The signals of the posted batch: only the last operation may ask for one.\<close>

lemma batch_signals:
  assumes "batch_ready bs" "bs = (bs' :: bench_op list)[9 := on_op (op_set_flags flags) (bs' ! 9)]" "length bs' = 10"
  shows "map (\<lambda>j. wr_flags (op_view C (map bo_op bs ! j)) AND sg \<noteq> 0) [0..<10] = replicate 9 False @ [flags AND sg \<noteq> 0]"
proof (rule nth_equalityI)
  fix i
  assume "i < length (map (\<lambda>j. wr_flags (op_view C (map bo_op bs ! j)) AND sg \<noteq> 0) [0..<10])"
  then have i: "i < 10"
    by simp
  have "op_flags (bo_op (bs ! i)) = (if i < 9 then 0 else flags)"
  proof (cases "i < 9")
    case True
    then show ?thesis
      using assms(1) unfolding batch_ready_def batch_factor_def by simp
  next
    case False
    then have "i = 9"
      using i by simp
    then show ?thesis
      using assms(2,3) by (simp add: on_op_def op_set_flags_def)
  qed
  then show "map (\<lambda>j. wr_flags (op_view C (map bo_op bs ! j)) AND sg \<noteq> 0) [0..<10] ! i = (replicate 9 False @ [flags AND sg \<noteq> 0]) ! i"
    using i assms(2,3) by (simp add: op_view_def Let_def nth_append)
qed simp

lemma db_batch_obs:
  assumes "post_law V h pend cap" "bk_obs pend w = (h, c, s, n, p)" "batch_ready (bk_ops w)"
  obtains w1 w2 where "bk_refresh C w = (Inr (), w1)" "batch_set_flags flags w1 = (Inr (), w2)"
    "length p + 10 \<le> cap \<Longrightarrow> \<exists>w3. batch_execute V C w2 = (Inr (), w3) \<and> batch_ready (bk_ops w3) \<and>
       bk_obs pend w3 = (h, c, s, n, p @ replicate 9 False @ [flags AND v_signaled V \<noteq> 0])"
    "cap < length p + 10 \<Longrightarrow> \<exists>w3. batch_execute V C w2 = (Inl Aborted, w3)"
proof -
  obtain bs1 where bs1: "bk_refresh C w = (Inr (), w\<lparr>bk_ops := bs1\<rparr>)" "length bs1 = 10"
      "batch_ready (bs1[9 := on_op (op_set_flags flags) (bs1 ! 9)])"
      "batch_set_flags flags (w\<lparr>bk_ops := bs1\<rparr>) = (Inr (), w\<lparr>bk_ops := bs1[9 := on_op (op_set_flags flags) (bs1 ! 9)]\<rparr>)"
    by (rule refreshed_batch [OF assms(3), of C flags]) (rule that)
  let ?bs = "bs1[9 := on_op (op_set_flags flags) (bs1 ! 9)]"
  let ?w2 = "w\<lparr>bk_ops := ?bs\<rparr>" and ?wrs = "map (\<lambda>j. op_view C (map bo_op ?bs ! j)) [0..<10]"
  have sigs: "map (\<lambda>wr. wr_flags wr AND v_signaled V \<noteq> 0) ?wrs = replicate 9 False @ [flags AND v_signaled V \<noteq> 0]"
    using batch_signals [OF bs1(3) refl bs1(2), of C "v_signaled V"] by (simp add: comp_def)
  have first: "op_flags (map bo_op ?bs ! 0) = 0" "0 < length (map bo_op ?bs)"
    using bs1(2,3) unfolding batch_ready_def batch_factor_def by auto
  have run: "batch_execute V C ?w2 =
      (let (rc, d) = v_post_send V h ?wrs (bk_drv w) in (assertE (rc = 0), ?w2\<lparr>bk_drv := d\<rparr>))"
    using assms(2) first db_chain [OF bs1(3)]
    by (auto simp: batch_execute_def op_execute_batch_def Let_def act_simps bk_obs_def Ok_def Err_def split: prod.splits)
  have p: "pend (bk_drv w) = p" "length ?wrs = 10"
    using assms(2) by (simp_all add: bk_obs_def)
  show ?thesis
  proof (rule that [OF bs1(1,4)])
    assume "length p + 10 \<le> cap"
    then have "fst (v_post_send V h ?wrs (bk_drv w)) = 0" "pend (snd (v_post_send V h ?wrs (bk_drv w))) =
        p @ map (\<lambda>wr. wr_flags wr AND v_signaled V \<noteq> 0) ?wrs"
      using assms(1) p unfolding post_law_def by (metis (no_types, lifting))+
    then show "\<exists>w3. batch_execute V C ?w2 = (Inr (), w3) \<and> batch_ready (bk_ops w3) \<and>
       bk_obs pend w3 = (h, c, s, n, p @ replicate 9 False @ [flags AND v_signaled V \<noteq> 0])"
      unfolding run sigs using bs1(3) assms(2) by (auto simp: bk_obs_def split: prod.splits)
  next
    assume "cap < length p + 10"
    then have "fst (v_post_send V h ?wrs (bk_drv w)) \<noteq> 0"
      using assms(1) p unfolding post_law_def by (metis (no_types, lifting) leD)
    then show "\<exists>w3. batch_execute V C ?w2 = (Inl Aborted, w3)"
      unfolding run by (auto split: prod.splits)
  qed
qed

lemma bk_wait_ok_obs:
  assumes "poll_law V c pend lag" "clock_range V" "bk_obs pend w = (h, c, s, n, p)" "True \<in> set p"
  shows "\<exists>w'. bk_wait_ok V w = (Inr (), w') \<and> bk_obs pend w' = (h, c, s - 1, n, retire p) \<and> bk_ops w' = bk_ops w"
  using wait_completes [OF assms(1,2), of "bk_rc w" "bk_drv w"] assms(3,4)
  by (auto simp: bk_wait_ok_def Ok_def bk_obs_def)

text \<open>Batches without a signal.\<close>

lemma db_quiet:
  assumes "post_law V h pend cap" "bk_obs pend w = (h, c, s, n, p)" "batch_ready (bk_ops w)"
    "0 < x" "x + 10 * j < M + 10" "length p + 10 * j \<le> cap"
  shows "\<exists>w'. batch_loop V C M (j + k) i x w = batch_loop V C M k (i + 10 * j) (x + 10 * j) w' \<and> batch_ready (bk_ops w') \<and>
    bk_obs pend w' = (h, c, s, n, p @ replicate (10 * j) False)"
  using assms(2-)
proof (induction j arbitrary: w i x p)
  case 0
  then show ?case
    by auto
next
  case (Suc j)
  have sig: "v_signaled V \<noteq> 0"
    using assms(1) by (simp add: post_law_def)
  obtain w1 w2 w3 where w: "bk_refresh C w = (Inr (), w1)" "batch_set_flags 0 w1 = (Inr (), w2)"
      "batch_execute V C w2 = (Inr (), w3)" "batch_ready (bk_ops w3)"
      "bk_obs pend w3 = (h, c, s, n, p @ replicate 10 False)"
  proof (rule db_batch_obs [OF assms(1) Suc.prems(1,2), of C 0])
    fix w1 w2
    assume st: "bk_refresh C w = (Inr (), w1)" "batch_set_flags 0 w1 = (Inr (), w2)"
      and ex: "length p + 10 \<le> cap \<Longrightarrow> \<exists>w3. batch_execute V C w2 = (Inr (), w3) \<and> batch_ready (bk_ops w3) \<and>
        bk_obs pend w3 = (h, c, s, n, p @ replicate 9 False @ [0 AND v_signaled V \<noteq> 0])"
    have "replicate 9 False @ [False] = replicate 10 False"
      by (simp add: numeral_eq_Suc)
    then show thesis
      using st ex Suc.prems(5) that by auto
  qed
  have "batch_loop V C M (Suc j + k) i x w = batch_loop V C M (j + k) (i + 10) (x + 10) w3"
    using w(1-3) Suc.prems(3,4) sig by (simp add: bindA_def retA_def batch_factor_def)
  moreover obtain w' where "batch_loop V C M (j + k) (i + 10) (x + 10) w3 =
      batch_loop V C M k (i + 10 + 10 * j) (x + 10 + 10 * j) w'" "batch_ready (bk_ops w')"
      "bk_obs pend w' = (h, c, s, n, (p @ replicate 10 False) @ replicate (10 * j) False)"
    using Suc.IH [OF w(5,4), of "x + 10" "i + 10"] Suc.prems(4,5) by auto
  ultimately show ?case
    by (intro exI [of _ w']) (simp add: replicate_add [symmetric] add.assoc del: batch_loop.simps)
qed

text \<open>The first batch of a round, and a signalled one after it.\<close>

lemma db_first:
  assumes "post_law V h pend cap" "bk_obs pend w = (h, c, s, n, p)" "batch_ready (bk_ops w)" "length p + 10 \<le> cap"
  shows "\<exists>w'. batch_loop V C M (Suc k) 0 0 w = batch_loop V C M k 10 10 w' \<and> batch_ready (bk_ops w') \<and>
    bk_obs pend w' = (h, c, s, n, p @ replicate 9 False @ [True])"
proof (rule db_batch_obs [OF assms(1-3), of C "v_signaled V"])
  fix w1 w2
  assume st: "bk_refresh C w = (Inr (), w1)" "batch_set_flags (v_signaled V) w1 = (Inr (), w2)"
    and ex: "length p + 10 \<le> cap \<Longrightarrow> \<exists>w3. batch_execute V C w2 = (Inr (), w3) \<and> batch_ready (bk_ops w3) \<and>
      bk_obs pend w3 = (h, c, s, n, p @ replicate 9 False @ [v_signaled V AND v_signaled V \<noteq> 0])"
  have "v_signaled V \<noteq> 0"
    using assms(1) by (simp add: post_law_def)
  then obtain w3 where "batch_execute V C w2 = (Inr (), w3)" "batch_ready (bk_ops w3)"
      "bk_obs pend w3 = (h, c, s, n, p @ replicate 9 False @ [True])"
    using ex [OF assms(4)] by auto
  then show ?thesis
    using st by (intro exI [of _ w3]) (simp add: bindA_def retA_def batch_factor_def)
qed

lemma db_signalled:
  assumes "post_law V h pend cap" "poll_law V c pend lag" "clock_range V"
    and "bk_obs pend w = (h, c, s, n, replicate l False @ True # p)" "batch_ready (bk_ops w)" "length p + l + 11 \<le> cap"
    and "M \<le> x" "0 < i"
  shows "\<exists>w'. batch_loop V C M (Suc k) i x w = batch_loop V C M k (i + 10) 10 w' \<and> batch_ready (bk_ops w') \<and>
    bk_obs pend w' = (h, c, s - 1, n, p @ replicate 9 False @ [True])"
proof (rule db_batch_obs [OF assms(1,4,5), of C "v_signaled V"])
  fix w1 w2
  assume st: "bk_refresh C w = (Inr (), w1)" "batch_set_flags (v_signaled V) w1 = (Inr (), w2)"
    and ex: "length (replicate l False @ True # p) + 10 \<le> cap \<Longrightarrow> \<exists>w3. batch_execute V C w2 = (Inr (), w3) \<and> batch_ready (bk_ops w3) \<and>
      bk_obs pend w3 = (h, c, s, n, (replicate l False @ True # p) @ replicate 9 False @ [v_signaled V AND v_signaled V \<noteq> 0])"
  have "v_signaled V \<noteq> 0"
    using assms(1) by (simp add: post_law_def)
  then obtain w3 where w3: "batch_execute V C w2 = (Inr (), w3)" "batch_ready (bk_ops w3)"
      "bk_obs pend w3 = (h, c, s, n, replicate l False @ True # p @ replicate 9 False @ [True])"
    using ex assms(6) by auto
  obtain w4 where "bk_wait_ok V w3 = (Inr (), w4)" "batch_ready (bk_ops w4)"
      "bk_obs pend w4 = (h, c, s - 1, n, p @ replicate 9 False @ [True])"
    using bk_wait_ok_obs [OF assms(2,3) w3(3)] w3(2) by (auto simp: retire_first)
  then show ?thesis
    using st w3(1) assms(7,8) by (intro exI [of _ w4]) (simp add: bindA_def batch_factor_def)
qed

lemma db_full_queue:
  assumes "post_law V h pend cap" "bk_obs pend w = (h, c, s, n, p)" "batch_ready (bk_ops w)" "cap < length p + 10"
  shows "\<exists>w'. batch_loop V C M (Suc k) i x w = (Inl Aborted, w')"
proof (rule db_batch_obs [OF assms(1-3), of C "if x = 0 \<or> M \<le> x then v_signaled V else 0"])
  fix w1 w2
  assume st: "bk_refresh C w = (Inr (), w1)" "batch_set_flags (if x = 0 \<or> M \<le> x then v_signaled V else 0) w1 = (Inr (), w2)"
    and ex: "cap < length p + 10 \<Longrightarrow> \<exists>w3. batch_execute V C w2 = (Inl Aborted, w3)"
  obtain w3 where w3: "batch_execute V C w2 = (Inl Aborted, w3)"
    using ex assms(4) by blast
  show ?thesis
    unfolding batch_loop.simps Let_def by (simp only: bindA_Inr bindA_Inl st w3) blast
qed

lemma batch_ready_ops: "batch_ready (batch_ops C ty test_buf lkey attr)"
proof -
  have fields: "op_next (bo_op (batch_op C ty test_buf lkey attr i)) = (if i + 1 < batch_factor then Some (i + 1) else None) \<and>
      op_flags (bo_op (batch_op C ty test_buf lkey attr i)) = 0 \<and>
      bo_rbuf_random (batch_op C ty test_buf lkey attr i) = 10000 \<and> bo_lbuf_random (batch_op C ty test_buf lkey attr i) = 1000" for i
    by (simp add: batch_op_def bo_init_rbuf_def bo_init_lbuf_def bo_new_def bo_set_type_def on_op_def set_op_defs op_new_def Let_def)
  then show ?thesis
    unfolding batch_ready_def batch_ops_def by (auto simp: batch_factor_def)
qed

lemma db_start:
  assumes "pend (bk_drv w) = []"
  shows "bk_obs pend (w\<lparr>bk_ops := batch_ops C ty test_buf lkey attr\<rparr>) =
      (d_qp (bk_rc w), d_cq (bk_rc w), d_out_signaled (bk_rc w), st_counter (bk_stat w), [])"
    "batch_ready (bk_ops (w\<lparr>bk_ops := batch_ops C ty test_buf lkey attr\<rparr>))"
  using assms batch_ready_ops by (simp_all add: bk_obs_def)

lemma or_max_128: "max_send_sz (rc_config q) = 128 \<Longrightarrow> or_max_of q = 64"
  by (simp add: or_max_of_def)

text \<open>
  C31: db_bench overflows its send queue. It spaces its signals as or_bench does, but counts whole
  batches: two signals may lie 70 requests apart. With the default queue of 128 requests and
  140 or more requests to a round, the fourteenth batch of the first round is rejected
  and the assertion aborts the program.
\<close>
theorem db_bench_overflows:
  assumes "post_law V (d_qp (bk_rc w)) pend 128" and "poll_law V (d_cq (bk_rc w)) pend lag" and "clock_range V"
    and "max_send_sz (rc_config (bk_rc w)) = 128" and "pend (bk_drv w) = []"
    and "140 \<le> factor" and "factor mod 10 = 0"
  shows "\<exists>w'. batch_run V C attr ty test_buf lkey factor (Suc n) w = (Inl Aborted, w')"
proof -
  let ?w = "w\<lparr>bk_ops := batch_ops C ty test_buf lkey attr\<rparr>"
  obtain r where r: "factor div batch_factor = Suc (6 + Suc (5 + Suc r))"
  proof
    show "factor div batch_factor = Suc (6 + Suc (5 + Suc (factor div 10 - 14)))"
      using assms(6) div_le_mono [of 140 factor 10] by (simp add: batch_factor_def)
  qed
  obtain w1 where w1: "batch_loop V C 64 (Suc (6 + Suc (5 + Suc r))) 0 0 ?w = batch_loop V C 64 (6 + Suc (5 + Suc r)) 10 10 w1"
      "batch_ready (bk_ops w1)"
      "bk_obs pend w1 = (d_qp (bk_rc w), d_cq (bk_rc w), d_out_signaled (bk_rc w), st_counter (bk_stat w), replicate 9 False @ [True])"
    using db_first [OF assms(1) db_start [of pend w C ty test_buf lkey attr, OF assms(5)], of C 64 "6 + Suc (5 + Suc r)"]
    unfolding append_Nil by auto
  obtain w2 where w2: "batch_loop V C 64 (6 + Suc (5 + Suc r)) 10 10 w1 = batch_loop V C 64 (Suc (5 + Suc r)) 70 70 w2"
      "batch_ready (bk_ops w2)"
      "bk_obs pend w2 = (d_qp (bk_rc w), d_cq (bk_rc w), d_out_signaled (bk_rc w), st_counter (bk_stat w),
         replicate 9 False @ True # replicate 60 False)"
    using db_quiet [OF assms(1) w1(3,2), of 10 6 64 C "Suc (5 + Suc r)" 10] by auto
  obtain w3 where w3: "batch_loop V C 64 (Suc (5 + Suc r)) 70 70 w2 = batch_loop V C 64 (5 + Suc r) 80 10 w3"
      "batch_ready (bk_ops w3)"
      "bk_obs pend w3 = (d_qp (bk_rc w), d_cq (bk_rc w), d_out_signaled (bk_rc w) - 1, st_counter (bk_stat w),
         replicate 60 False @ replicate 9 False @ [True])"
    using db_signalled [OF assms(1-3) w2(3,2), of 64 70 70 C "5 + Suc r"] by auto
  obtain w4 where w4: "batch_loop V C 64 (5 + Suc r) 80 10 w3 = batch_loop V C 64 (Suc r) 130 60 w4"
      "batch_ready (bk_ops w4)"
      "bk_obs pend w4 = (d_qp (bk_rc w), d_cq (bk_rc w), d_out_signaled (bk_rc w) - 1, st_counter (bk_stat w),
         (replicate 60 False @ replicate 9 False @ [True]) @ replicate 50 False)"
    using db_quiet [OF assms(1) w3(3,2), of 10 5 64 C "Suc r" 80] by auto
  obtain w5 where w5: "batch_loop V C 64 (Suc r) 130 60 w4 = (Inl Aborted, w5)"
    using db_full_queue [OF assms(1) w4(3,2), of C 64 r 130 60] by auto
  have "batch_loop V C (or_max_of (bk_rc w)) (factor div batch_factor) 0 0 ?w = (Inl Aborted, w5)"
    unfolding or_max_128 [OF assms(4)] r w1(1) w2(1) w3(1) w4(1) w5 ..
  then have "batch_round V C (or_max_of (bk_rc w)) factor ?w = (Inl Aborted, w5)"
    by (simp add: batch_round_def bindA_Inl)
  moreover have "batch_factor < factor" "factor mod batch_factor = 0"
    using assms(6,7) by (simp_all add: batch_factor_def)
  ultimately show ?thesis
    by (simp add: batch_run_def act_simps)
qed

definition sample_bench_worker :: "sim bench_worker" where
  "sample_bench_worker = \<lparr>bk_rc = sample_rc, bk_ops = [], bk_stat = statics_new, bk_drv = sim_start\<rparr>"

lemma sample_bench_worker_fields:
  "max_send_sz (rc_config (bk_rc sample_bench_worker)) = 128" "queue_pend (bk_drv sample_bench_worker) = []"
  "d_out_signaled (bk_rc sample_bench_worker) = 0" "st_counter (bk_stat sample_bench_worker) = 0"
  by (simp_all add: sample_bench_worker_def sample_rc_def rc_blank_def default_config_def max_send_sz_def
      kRcMaxSendSz_def queue_pend_def sim_start_def statics_new_def)

theorem db_bench_overflows_witness:
  "\<exists>w'. batch_run steady_verbs sample_ops null_reg_attr RDMA_READ (Some 64) 7 150 (Suc 0) sample_bench_worker = (Inl Aborted, w')"
  using db_bench_overflows [of steady_verbs sample_bench_worker queue_pend "\<lambda>_. 0" 150] queue_laws(2,4,6)
    sample_bench_worker_fields(1,2) by simp

text \<open>A round that fits: every wait takes one off the count of signalled requests that no post has put on.\<close>

lemma bk_count_obs:
  "bk_obs pend w = (h, c, s, n, p) \<Longrightarrow> k < 2 ^ 31 \<Longrightarrow>
     \<exists>w'. bk_count (of_nat k) w = (Inr (), w') \<and> bk_ops w' = bk_ops w \<and> bk_obs pend w' = (h, c, s, n + of_nat k, p)"
  using scast_of_nat [of k] by (simp add: bk_count_def bk_obs_def increment_def)

lemma db_round_obs:
  assumes laws: "post_law V h pend 128" "poll_law V c pend lag" "clock_range V"
    and "10 < factor" "factor \<le> 60" "factor mod 10 = 0"
    and obs: "bk_obs pend u = (h, c, s, m, replicate l False)" and rdy: "batch_ready (bk_ops u)" and l: "l \<le> 50"
  obtains w' l' where "batch_round V C 64 factor u = (Inr (), w')" "batch_ready (bk_ops w')" "l' \<le> 50"
    "bk_obs pend w' = (h, c, s - 1, m + of_nat factor, replicate l' False)"
proof -
  obtain j where j: "factor div batch_factor = Suc (j + 0)" "factor = 10 * j + 10" "j \<le> 5"
    using assms(4-6) by (cases "factor div 10") (auto simp: batch_factor_def)
  obtain w1 where w1: "batch_loop V C 64 (Suc (j + 0)) 0 0 u = batch_loop V C 64 (j + 0) 10 10 w1" "batch_ready (bk_ops w1)"
      "bk_obs pend w1 = (h, c, s, m, replicate l False @ replicate 9 False @ [True])"
    using db_first [OF laws(1) obs rdy, of C 64 "j + 0"] l by auto
  obtain w2 where w2: "batch_loop V C 64 (j + 0) 10 10 w1 = batch_loop V C 64 0 (10 + 10 * j) (10 + 10 * j) w2" "batch_ready (bk_ops w2)"
      "bk_obs pend w2 = (h, c, s, m, (replicate l False @ replicate 9 False @ [True]) @ replicate (10 * j) False)"
    using db_quiet [OF laws(1) w1(3,2), of 10 j 64 C 0 10] l j(3) by auto
  have shape: "(replicate l False @ replicate 9 False @ [True]) @ replicate (10 * j) False =
      replicate (l + 9) False @ True # replicate (10 * j) False"
    by (simp add: replicate_add)
  obtain w3 where w3: "bk_wait_ok V w2 = (Inr (), w3)" "batch_ready (bk_ops w3)"
      "bk_obs pend w3 = (h, c, s - 1, m, replicate (10 * j) False)"
    using bk_wait_ok_obs [OF laws(2,3) w2(3) [unfolded shape]] w2(2) retire_first [of "l + 9"] by auto
  obtain w4 where w4: "bk_count (of_nat factor) w3 = (Inr (), w4)" "batch_ready (bk_ops w4)"
      "bk_obs pend w4 = (h, c, s - 1, m + of_nat factor, replicate (10 * j) False)"
    using bk_count_obs [OF w3(3), of factor] w3(2) assms(5) by auto
  have "batch_loop V C 64 (factor div batch_factor) 0 0 u = (Inr (), w2)"
    unfolding j(1) w1(1) w2(1) by (simp add: retA_def)
  then have "batch_round V C 64 factor u = (Inr (), w4)"
    using w3(1) w4(1) by (simp add: batch_round_def bindA_Inr)
  then show thesis
    using w4(2,3) j(3) that [of w4 "10 * j"] by simp
qed

lemma db_rounds_obs:
  assumes laws: "post_law V h pend 128" "poll_law V c pend lag" "clock_range V" "10 < factor" "factor \<le> 60" "factor mod 10 = 0"
    and "bk_obs pend u = (h, c, s, m, replicate l False)" "batch_ready (bk_ops u)" "l \<le> 50"
  shows "\<exists>w' l'. batch_rounds V C 64 factor n u = (Inr (), w') \<and>
    bk_obs pend w' = (h, c, s - of_nat n, m + of_nat (n * factor), replicate l' False)"
  using assms(7-9)
proof (induction n arbitrary: u s m l)
  case (Suc n)
  obtain w1 l1 where "batch_round V C 64 factor u = (Inr (), w1)" "batch_ready (bk_ops w1)" "l1 \<le> 50"
      "bk_obs pend w1 = (h, c, s - 1, m + of_nat factor, replicate l1 False)"
    by (rule db_round_obs [OF laws Suc.prems, of C]) (rule that)
  with Suc.IH [of w1 "s - 1" "m + of_nat factor" l1] show ?case
    by (auto simp: bindA_Inr algebra_simps)
qed (auto simp: retA_def)

text \<open>
  Where db_bench does not overflow, as with the default of 50 requests to a round, it loses
  count: every wait takes one off the count of signalled requests that no post has
  put on, so that from zero it wraps.
\<close>
theorem db_bench_loses_signals:
  assumes "post_law V (d_qp (bk_rc w)) pend 128" and "poll_law V (d_cq (bk_rc w)) pend lag" and "clock_range V"
    and "max_send_sz (rc_config (bk_rc w)) = 128" and "pend (bk_drv w) = []"
    and "10 < factor" and "factor \<le> 60" and "factor mod 10 = 0"
  shows "\<exists>w'. batch_run V C attr ty test_buf lkey factor n w = (Inr (), w') \<and>
    st_counter (bk_stat w') = st_counter (bk_stat w) + of_nat (n * factor) \<and>
    ongoing_signaled (bk_rc w') = ongoing_signaled (bk_rc w) - of_nat n"
proof -
  let ?w = "w\<lparr>bk_ops := batch_ops C ty test_buf lkey attr\<rparr>"
  obtain w' l' where "batch_rounds V C 64 factor n ?w = (Inr (), w')"
      "bk_obs pend w' = (d_qp (bk_rc w), d_cq (bk_rc w), d_out_signaled (bk_rc w) - of_nat n,
         st_counter (bk_stat w) + of_nat (n * factor), replicate l' False)"
    using db_rounds_obs [OF assms(1-3,6-8), of ?w _ _ 0 C n] db_start [of pend w C ty test_buf lkey attr, OF assms(5)]
    by (auto simp del: of_nat_mult)
  moreover have "batch_factor < factor" "factor mod batch_factor = 0"
    using assms(6,8) by (simp_all add: batch_factor_def)
  ultimately show ?thesis
    using or_max_128 [OF assms(4)] by (auto simp: batch_run_def act_simps ongoing_signaled_def bk_obs_def)
qed

theorem db_bench_loses_signals_witness:
  "\<exists>w'. batch_run steady_verbs sample_ops null_reg_attr RDMA_READ (Some 64) 7 50 1 sample_bench_worker = (Inr (), w') \<and>
     ongoing_signaled (bk_rc w') = - 1"
  using db_bench_loses_signals [of steady_verbs sample_bench_worker queue_pend "\<lambda>_. 0" 50 sample_ops null_reg_attr
      RDMA_READ "Some 64" 7 1] queue_laws(2,4,6) sample_bench_worker_fields
  by (auto simp: ongoing_signaled_def)

section \<open>bench_client\<close>

text \<open>One request at a time: the worker's operation can be refreshed, and nothing is pending between rounds.\<close>

definition bench_ready :: "bench_op list \<Rightarrow> bool" where
  "bench_ready bs \<longleftrightarrow> (\<exists>b. bs = [b] \<and> bo_rbuf_random b \<noteq> 0 \<and> bo_lbuf_random b \<noteq> 0)"

lemma bk_execute_obs:
  assumes "post_law V h pend cap" "bk_obs pend w = (h, c, s, n, p)" "bench_ready (bk_ops w)" "length p < cap"
  shows "\<exists>w'. bk_execute V C w = (Inr (), w') \<and> bench_ready (bk_ops w') \<and> bk_obs pend w' = (h, c, s + 1, n, p @ [True])"
proof -
  obtain b where b: "bk_ops w = [b]" "bo_rbuf_random b \<noteq> 0" "bo_lbuf_random b \<noteq> 0"
    using assms(3) by (auto simp: bench_ready_def)
  obtain wr q1 where e: "encode_my_wr 0 1 (bk_rc w) = (wr, q1)"
    by fastforce
  note q1 = encode_my_wr_fields [OF e]
  let ?o = "(bo_op b)\<lparr>op_id := wr, op_next := None, op_flags := v_signaled V\<rparr>"
  obtain rc d where r: "v_post_send V h [op_view C ?o] (bk_drv w) = (rc, d)"
    by fastforce
  have "wr_flags (op_view C ?o) = v_signaled V"
    by (simp add: op_view_def Let_def)
  then have "rc = 0" "pend d = p @ [True]" "v_signaled V \<noteq> 0"
    using assms(1,2,4) r by (auto simp: post_law_def bk_obs_def dest!: spec [of _ "bk_drv w"] spec [of _ "[op_view C ?o]"])
  then show ?thesis
    using assms(2) b e q1 r by (simp add: bk_execute_def op_execute_single Let_def bk_obs_def Ok_def bench_ready_def)
qed

lemma bench_round_obs:
  assumes "post_law V h pend cap" "0 < cap" "poll_law V c pend lag" "clock_range V"
    and "bk_obs pend w = (h, c, s, n, [])" "bench_ready (bk_ops w)"
  obtains w' where "bench_round V C w = (Inr (), w')" "bench_ready (bk_ops w')" "bk_obs pend w' = (h, c, s, n + 1, [])"
proof -
  obtain w1 where w1: "bk_refresh C w = (Inr (), w1)" "bench_ready (bk_ops w1)" "bk_obs pend w1 = (h, c, s, n, [])"
  proof -
    obtain b where b: "bk_ops w = [b]" "bo_rbuf_random b \<noteq> 0" "bo_lbuf_random b \<noteq> 0"
      using assms(6) by (auto simp: bench_ready_def)
    then obtain b' where "bo_refresh C b = Inr b'" "bo_rbuf_random b' \<noteq> 0" "bo_lbuf_random b' \<noteq> 0"
      using bo_refresh_keeps [of b C] by auto
    then show thesis
      using that [of "w\<lparr>bk_ops := [b']\<rparr>"] b(1) assms(5) by (simp add: bk_refresh_def bench_ready_def bk_obs_def)
  qed
  obtain w2 where w2: "bk_execute V C w1 = (Inr (), w2)" "bench_ready (bk_ops w2)" "bk_obs pend w2 = (h, c, s + 1, n, [True])"
    using bk_execute_obs [OF assms(1) w1(3,2)] assms(2) by auto
  obtain w3 where w3: "bk_wait_ok V w2 = (Inr (), w3)" "bk_ops w3 = bk_ops w2" "bk_obs pend w3 = (h, c, s, n, [])"
    using bk_wait_ok_obs [OF assms(3,4) w2(3)] by (auto simp: retire_def)
  obtain w4 where "bk_count 1 w3 = (Inr (), w4)" "bk_ops w4 = bk_ops w3" "bk_obs pend w4 = (h, c, s, n + 1, [])"
    using bk_count_obs [OF w3(3), of 1] by auto
  then show thesis
    using that [of w4] w1(1) w2(1,2) w3(1,2) by (simp add: bench_round_def bindA_Inr)
qed

lemma bench_rounds_obs:
  assumes "post_law V h pend cap" "0 < cap" "poll_law V c pend lag" "clock_range V"
    and "bk_obs pend w = (h, c, s, m, [])" "bench_ready (bk_ops w)"
  shows "\<exists>w'. bench_rounds V C n w = (Inr (), w') \<and> bk_obs pend w' = (h, c, s, m + of_nat n, [])"
  using assms(5,6)
proof (induction n arbitrary: w m)
  case (Suc n)
  obtain w1 where "bench_round V C w = (Inr (), w1)" "bench_ready (bk_ops w1)" "bk_obs pend w1 = (h, c, s, m + 1, [])"
    by (rule bench_round_obs [OF assms(1-4) Suc.prems, of C]) (rule that)
  then show ?case
    using Suc.IH [of w1 "m + 1"] by (auto simp: bindA_Inr add.assoc)
qed (simp add: retA_def)

text \<open>
  bench_client counts its requests exactly, whatever the type of its operation: no post is rejected,
  nothing is left in the send queue and the count of signalled requests is unchanged.
\<close>
theorem bench_client_counts:
  assumes "post_law V (d_qp (bk_rc w)) pend cap" and "0 < cap" and "poll_law V (d_cq (bk_rc w)) pend lag" and "clock_range V"
    and "pend (bk_drv w) = []" and "test_buf \<noteq> None" and "ra_buf attr \<noteq> 0"
  shows "\<exists>w'. bench_run V C attr ty test_buf payload lkey n w = (Inr (), w') \<and>
    st_counter (bk_stat w') = st_counter (bk_stat w) + of_nat n \<and> pend (bk_drv w') = [] \<and>
    ongoing_signaled (bk_rc w') = ongoing_signaled (bk_rc w)"
proof -
  let ?b = "bench_client_op C ty test_buf payload lkey attr"
  have b: "bo_valid ?b" "bench_ready [?b]"
    using assms(6,7) by (simp_all add: bench_client_op_def bo_init_rbuf_def bo_init_lbuf_def bo_new_def bo_set_type_def on_op_def
        bo_valid_def bench_ready_def u64_ptr_def Let_def)
  obtain w' where "bench_rounds V C n (w\<lparr>bk_ops := [?b]\<rparr>) = (Inr (), w')"
      "bk_obs pend w' = (d_qp (bk_rc w), d_cq (bk_rc w), d_out_signaled (bk_rc w), st_counter (bk_stat w) + of_nat n, [])"
    using bench_rounds_obs [OF assms(1-4), of "w\<lparr>bk_ops := [?b]\<rparr>" _ _ C n] b(2) assms(5) by (auto simp: bk_obs_def)
  then show ?thesis
    using b(1) by (auto simp: bench_run_def Let_def act_simps ongoing_signaled_def bk_obs_def)
qed

theorem bench_client_counts_witness:
  "\<exists>w'. bench_run steady_verbs sample_ops (null_reg_attr\<lparr>ra_buf := 4096\<rparr>) ATOMIC_FAA (Some 64) 8 7 5 sample_bench_worker = (Inr (), w') \<and>
     st_counter (bk_stat w') = 5 \<and> queue_pend (bk_drv w') = [] \<and> ongoing_signaled (bk_rc w') = 0"
  using bench_client_counts [OF queue_laws(2) _ queue_laws(4,6), of sample_bench_worker "Some 64" "null_reg_attr\<lparr>ra_buf := 4096\<rparr>"
      sample_ops ATOMIC_FAA 8 7 5] sample_bench_worker_fields by (simp add: ongoing_signaled_def)

section \<open>The report\<close>

lemma epoch_sum_diff:
  "length snap = length olds \<Longrightarrow> epoch_sum snap olds acc = acc + (sum_list snap - sum_list olds)"
  by (induction snap olds acc rule: epoch_sum.induct) simp_all

lemma report_sums_total:
  "snaps \<noteq> [] \<Longrightarrow> \<forall>s \<in> set snaps. length s = length olds \<Longrightarrow>
     sum_list (report_sums olds snaps) = sum_list (last snaps) - sum_list olds"
proof (induction olds snaps rule: report_sums.induct)
  case (2 olds snap snaps)
  then show ?case
    by (cases snaps) (simp_all add: epoch_sum_diff)
qed simp

text \<open>
  No request is reported twice or lost. However the workers move their counters between the
  readings, the numbers of the epochs add up to the counters read last, also when 64 bits
  wrap.
\<close>
theorem report_thpt_total:
  assumes "snaps \<noteq> []" and "\<forall>s \<in> set snaps. length s = workers"
  shows "sum_list (report_thpt workers snaps) = sum_list (last snaps)"
  using report_sums_total [of snaps "replicate workers 0"] assms by (simp add: report_thpt_def sum_list_replicate)

theorem report_thpt_total_witness:
  "sum_list (report_thpt 2 [[5, 7], [9, 7], [20, 30]]) = 50"
  using report_thpt_total [of "[[5, 7], [9, 7], [20, 30]]" 2] by simp

end
