(* ===== verification/ClientsSpec.thy ===== *)
theory ClientsSpec
  imports Clients RecvMgrSpec BenchSpec
begin

text \<open>
  The client programs against the daemon: a session from the first heartbeat to the deletion
  of the remote queue pair, with what the device sees of it.
\<close>

section \<open>Sessions\<close>

text \<open>Registering memory succeeds and leaves the queue pairs alone.\<close>

definition region_law :: "'d verbs \<Rightarrow> ('d \<Rightarrow> 'v) \<Rightarrow> bool" where
  "region_law V obs \<longleftrightarrow> (\<forall>pd p sz f d. fst (v_reg_mr V pd p sz f d) \<noteq> None \<and>
     obs (snd (v_reg_mr V pd p sz f d)) = obs d \<and> (\<forall>k. obs (snd (v_dereg_mr V k d)) = obs d))"

lemma with_answer_rest: "with_answer n [] b e es = n\<lparr>inbox := SelData b e # es\<rparr>"
  by (simp add: with_answer_def)

lemma after_call_answer:
  "after_call S n d (SelData b e # es) = with_answer (n\<lparr>outbox := outbox n @ [(sc_end (sp_chan S), d)]\<rparr>) [] b e es"
  by (simp add: after_call_def with_answer_def)

lemma next_ck_chan [simp]: "sp_chan (next_ck S) = sp_chan S"
  by (simp add: next_ck_def)

lemma local_region_ok:
  assumes "region_law V obs" "nic_valid nic" "region_law V f"
  shows "\<exists>h a d. local_region V af nic sz c = (Inr h, c\<lparr>cm_drv := d\<rparr>) \<and> get_reg_attr h = Some a \<and>
    ra_buf a = ptr_u64 (af sz) \<and> ra_sz a = sz \<and> rm_ptr (rh_mem h) = af sz \<and> obs d = obs (cm_drv c) \<and> f d = f (cm_drv c)"
proof -
  obtain k d where k: "v_reg_mr V (nic_pd nic) (af sz) sz (get_value (default_flags (v_access V))) (cm_drv c) = (Some k, d)"
    using assms(1) unfolding region_law_def by (metis not_None_eq prod.collapse)
  moreover have "obs d = obs (cm_drv c)" "f d = f (cm_drv c)"
    using assms(1,3) k unfolding region_law_def by (metis snd_conv)+
  ultimately show ?thesis
    using assms(2)
    by (cases k) (auto simp: local_region_def cmD_def reg_handler_create_def reg_handler_new_def rmem_new_def bindA_def
        callA_def retA_def rh_valid_def liftA_def get_reg_attr_def intro!: exI [of _ d])
qed

text \<open>A session as a list of exchanges with the server, in order.\<close>

fun exchanges ::
  "('a, 's) srpc_handler \<Rightarrow> 's \<Rightarrow> 'a \<Rightarrow> (bytes \<times> bytes) list \<Rightarrow> ('a, 's) srpc_handler \<Rightarrow> 's \<Rightarrow> bool"
where
  "exchanges H s a [] H' s' \<longleftrightarrow> H' = H \<and> s' = s"
| "exchanges H s a ((d, e) # ps) H' s' \<longleftrightarrow> (\<exists>H1 s1. one_exchange H s a d e H1 s1 \<and> exchanges H1 s1 a ps H' s')"

lemma exchanges_idle: "exchanges H s a ps H' s' \<Longrightarrow> idle H \<Longrightarrow> idle H' \<and> hd_fac H' = hd_fac H"
  by (induction H s a ps H' s' rule: exchanges.induct) (auto simp: one_exchange_def)

lemma exchanges_snoc:
  "exchanges H s a ps H1 s1 \<Longrightarrow> one_exchange H1 s1 a d e H' s' \<Longrightarrow> exchanges H s a (ps @ [(d, e)]) H' s'"
  by (induction H s a ps H1 s1 rule: exchanges.induct) auto

text \<open>The network that holds the replies, and the one that is left when all are read.\<close>

definition with_replies :: "'a net \<Rightarrow> 'a \<Rightarrow> (bytes \<times> bytes) list \<Rightarrow> 'a sel_ev list \<Rightarrow> 'a net" where
  "with_replies n b ps es = n\<lparr>inbox := map (SelData b \<circ> snd) ps @ es\<rparr>"

definition after_calls :: "'a net \<Rightarrow> 'a \<Rightarrow> (bytes \<times> bytes) list \<Rightarrow> 'a sel_ev list \<Rightarrow> 'a net" where
  "after_calls n t ps es = n\<lparr>inbox := es, outbox := outbox n @ map (Pair t \<circ> fst) ps\<rparr>"

lemma with_replies_cons:
  "with_replies n b ((d, e) # ps) es = with_answer n [] b e (map (SelData b \<circ> snd) ps @ es)"
  by (simp add: with_replies_def with_answer_def)

lemma after_calls_snoc: "send_fails (after_calls n t ps es) = send_fails n"
    "after_call S (after_calls n t ps es') d es =
       (if sc_end (sp_chan S) = t then after_calls n t (ps @ [(d, e)]) es else after_call S (after_calls n t ps es') d es)"
  by (simp_all add: after_calls_def after_call_def)


text \<open>What a server offers to a client: a daemon, an open device, a free name and a registered region.\<close>

definition server_ready ::
  "('r \<Rightarrow> u64 \<times> 'r) \<Rightarrow> 'd verbs \<Rightarrow> ('a, ('r, 'd) rctrl) srpc_handler \<Rightarrow> ('r, 'd) rctrl \<Rightarrow>
     bytes \<Rightarrow> u64 \<Rightarrow> qp_config \<Rightarrow> raddress \<Rightarrow> u64 \<Rightarrow> u64 \<Rightarrow> reg_attr \<Rightarrow> bool"
where
  "server_ready rnd V H s nm nicid config ad key mid attr \<longleftrightarrow>
     idle H \<and> map_of (hd_fac H) HeartBeat = Some heartbeat_handler \<and>
     map_of (hd_fac H) CreateRC = Some (rc_handler rnd V) \<and> map_of (hd_fac H) FetchMr = Some fetch_mr_handler \<and>
     map_of (hd_fac H) DeleteRC = Some (delete_rc V) \<and>
     (\<exists>nic. query (opened_nics s) nicid = Some nic \<and> nic_addr nic = Some ad \<and> nic_lid nic \<noteq> None \<and>
        (\<exists>q d. rc_create V nic config None (rt_drv s) = (Inr (Some q), d))) \<and>
     map_of (store (registered_qps s)) nm = None \<and> (\<exists>r'. generate_key rnd (rt_rng s) = Some (key, r')) \<and>
     (\<exists>mr. query (registered_mrs s) mid = Some mr \<and> get_reg_attr mr = Some attr)"

lemma bind_regions_ok:
  "get_reg_attr h = Some a \<Longrightarrow> bind_regions remote h c =
     (Inr a, c\<lparr>cm_rc := (cm_rc c)\<lparr>rc_remote_mr := Some remote, rc_local_mr := Some a\<rparr>\<rparr>)"
  by (simp add: bind_regions_def bindA_def on_rc_def liftA_def retA_def bind_remote_mr_def bind_local_mr_def)

text \<open>The region is the same whatever the rest of the client's state.\<close>

lemma local_region_any:
  assumes "region_law V obs" "nic_valid nic" "region_law V f"
  obtains h lmr d' where "\<And>c :: ('a, 'd) cm_qp. cm_drv c = d \<Longrightarrow> local_region V af nic sz c = (Inr h, c\<lparr>cm_drv := d'\<rparr>)"
    "get_reg_attr h = Some lmr" "ra_buf lmr = ptr_u64 (af sz)" "rm_ptr (rh_mem h) = af sz" "obs d' = obs d" "f d' = f d"
proof -
  let ?c = "undefined\<lparr>cm_drv := d\<rparr> :: ('a, 'd) cm_qp"
  obtain h lmr d' where r: "local_region V af nic sz ?c = (Inr h, ?c\<lparr>cm_drv := d'\<rparr>)" "get_reg_attr h = Some lmr"
      "ra_buf lmr = ptr_u64 (af sz)" "rm_ptr (rh_mem h) = af sz" "obs d' = obs d" "f d' = f d"
    using local_region_ok [OF assms, of af sz ?c] by auto
  have "local_region V af nic sz c = (Inr h, c\<lparr>cm_drv := d'\<rparr>)" if "cm_drv c = d" for c :: "('a, 'd) cm_qp"
    using r(1) that
    by (auto simp: local_region_def cmD_def bindA_def liftA_def split: prod.splits sum.splits dest: arg_cong [of _ _ cm_drv])
  with r(2-6) that show thesis
    by blast
qed

text \<open>What the client does with the three answers that are waiting in its socket.\<close>

lemma session_run:
  fixes S :: "'a srpc" and V :: "'d verbs"
  assumes "send_fails n = []"
    and ready: "\<forall>n es k. \<forall>c :: ('a, 'd) cm_qp. send_fails n = [] \<longrightarrow> cm_rpc c = S \<longrightarrow> cm_net c = with_answer n [] b y1 es \<longrightarrow>
       wait_ready (Suc k) c = (Inr (Ok []), c\<lparr>cm_net := after_call S n x1 es\<rparr>)"
    and connect: "\<forall>n es. \<forall>c :: ('a, 'd) cm_qp. send_fails n = [] \<longrightarrow> cm_rpc c = S \<longrightarrow> cm_net c = with_answer n [] b y2 es \<longrightarrow>
       cm_rc c = q1 \<longrightarrow> cm_drv c = d0 \<longrightarrow> cc_rc V nm nicid (default_config (v_access V)) c = (Inr (Ok ([], key)),
         c\<lparr>cm_rpc := next_ck S, cm_net := after_call S n x2 es, cm_rc := q1\<lparr>rc_status := Ok ()\<rparr>, cm_drv := d1\<rparr>)"
    and region: "\<And>c :: ('a, 'd) cm_qp. cm_drv c = d1 \<Longrightarrow> local_region V af lnic sz c = (Inr h, c\<lparr>cm_drv := d'\<rparr>)"
      "get_reg_attr h = Some lmr"
    and remote: "\<forall>n es. \<forall>c :: ('a, 'd) cm_qp. send_fails n = [] \<longrightarrow> cm_rpc c = next_ck S \<longrightarrow> cm_net c = with_answer n [] b y3 es \<longrightarrow>
       fetch_remote_mr mid c = (Inr (Ok ([], attr)), c\<lparr>cm_rpc := next_ck (next_ck S), cm_net := after_call (next_ck S) n x3 es\<rparr>)"
  defines "ps \<equiv> [(x1, y1), (x2, y2), (x3, y3)]" and "t \<equiv> sc_end (sp_chan S)"
  shows "client_session V af lnic nm nicid mid sz \<lparr>cm_rpc = S, cm_net = with_replies n b ps es, cm_rc = q1, cm_drv = d0\<rparr> =
    (Inr \<lparr>se_key = key, se_mr = h, se_local = lmr, se_remote = attr\<rparr>,
     \<lparr>cm_rpc = next_ck (next_ck S), cm_net = after_calls n t ps es,
      cm_rc = q1\<lparr>rc_status := Ok (), rc_remote_mr := Some attr, rc_local_mr := Some lmr\<rparr>, cm_drv = d'\<rparr>)"
proof -
  let ?c0 = "\<lparr>cm_rpc = S, cm_net = with_replies n b ps es, cm_rc = q1, cm_drv = d0\<rparr>"
  let ?e2 = "SelData b y2 # SelData b y3 # es" and ?e3 = "SelData b y3 # es"
  let ?n1 = "n\<lparr>outbox := outbox n @ [(t, x1)]\<rparr>" and ?n2 = "n\<lparr>outbox := outbox n @ [(t, x1), (t, x2)]\<rparr>"
  let ?c1 = "?c0\<lparr>cm_net := with_answer ?n1 [] b y2 ?e3\<rparr>"
  let ?c2 = "?c0\<lparr>cm_rpc := next_ck S, cm_net := with_answer ?n2 [] b y3 es, cm_rc := q1\<lparr>rc_status := Ok ()\<rparr>, cm_drv := d1\<rparr>"
  have 1: "wait_ready 2 ?c0 = (Inr (Ok []), ?c1)"
    using ready [rule_format, OF assms(1), of ?c0 ?e2 1]
    by (simp add: ps_def t_def with_replies_def with_answer_def after_call_def numeral_2_eq_2)
  have 2: "cc_rc V nm nicid (default_config (v_access V)) ?c1 = (Inr (Ok ([], key)), ?c2)"
    using connect [rule_format, of ?n1 ?c1 ?e3] assms(1) by (simp add: with_answer_def after_call_def t_def)
  have 3: "local_region V af lnic sz ?c2 = (Inr h, ?c2\<lparr>cm_drv := d'\<rparr>)"
    by (rule region(1)) simp
  have 4: "fetch_remote_mr mid (?c2\<lparr>cm_drv := d'\<rparr>) = (Inr (Ok ([], attr)),
      ?c2\<lparr>cm_rpc := next_ck (next_ck S), cm_net := after_calls n t ps es, cm_drv := d'\<rparr>)"
    using remote [rule_format, of ?n2 "?c2\<lparr>cm_drv := d'\<rparr>" es] assms(1)
    by (simp add: after_call_def after_calls_def ps_def t_def)
  show ?thesis
    unfolding client_session_def wait_server_def connect_rc_def remote_region_def expect_ok_def
    using 1 2 3 4 region(2) by (simp add: bindA_def liftA_def retA_def bind_regions_ok)
qed

lemma session_exchanges:
  fixes S :: "'a srpc" and V1 :: "'d verbs"
  assumes client: "fd_valid (sc_fd (sp_chan S))" "send_fails n = []" "length nm \<le> kMaxQPNameLen" "0 \<notin> set nm"
    and local_qp: "lawful V1 qps1" "qps1 d0 h1 = Some (QPT_RC, QPS_INIT, l1)" "d_qp q1 = Some h1" "d_cq q1 \<noteq> None"
      "nic_addr (d_nic q1) = Some ad1" "nic_lid (d_nic q1) = Some li1"
    and region: "region_law V1 qps1" "nic_valid lnic" "region_law V1 f" "setup_keeps V1 f"
    and server: "lawful V2 qps2" "server_ready rnd V2 H s nm nicid (default_config (v_access V1)) ad2 key mid attr"
  shows "\<exists>ps H' s' h2 se d'. exchanges H s a ps H' s' \<and> length ps = 3 \<and>
    (\<forall>es. client_session V1 af lnic nm nicid mid sz
        \<lparr>cm_rpc = S, cm_net = with_replies n b ps es, cm_rc = q1, cm_drv = d0\<rparr> =
      (Inr se, \<lparr>cm_rpc = next_ck (next_ck S), cm_net = after_calls n (sc_end (sp_chan S)) ps es,
         cm_rc = q1\<lparr>rc_status := Ok (), rc_remote_mr := Some attr, rc_local_mr := Some (se_local se)\<rparr>, cm_drv = d'\<rparr>)) \<and>
    se_key se = key \<and> se_remote se = attr \<and> get_reg_attr (se_mr se) = Some (se_local se) \<and>
    ra_buf (se_local se) = ptr_u64 (af sz) \<and> rm_ptr (rh_mem (se_mr se)) = af sz \<and>
    connected_to qps1 d' h1 (v_qp_num V2 (rt_drv s') (Some h2)) ad2 \<and>
    connected_to qps2 (rt_drv s') h2 (v_qp_num V1 d0 (Some h1)) ad1 \<and>
    store (registered_qps s') = (nm, (length (qp_heap s), key)) # store (registered_qps s) \<and> f d' = f d0"
proof -
  let ?cfg = "default_config (v_access V1)" and ?t = "sc_end (sp_chan S)"
  obtain nic q2 e2 li2 r' mr where srv: "idle H" "map_of (hd_fac H) HeartBeat = Some heartbeat_handler"
      "map_of (hd_fac H) CreateRC = Some (rc_handler rnd V2)" "map_of (hd_fac H) FetchMr = Some fetch_mr_handler"
      "query (opened_nics s) nicid = Some nic" "nic_addr nic = Some ad2" "nic_lid nic = Some li2"
      "rc_create V2 nic ?cfg None (rt_drv s) = (Inr (Some q2), e2)" "map_of (store (registered_qps s)) nm = None"
      "generate_key rnd (rt_rng s) = Some (key, r')" "query (registered_mrs s) mid = Some mr" "get_reg_attr mr = Some attr"
    using server(2) unfolding server_ready_def by blast
  have hb: "\<forall>h \<in> set []. heartbeat_packet (snd (h :: 'a \<times> bytes))"
    by simp
  obtain x1 y1 H1 where x1: "one_exchange H s a x1 y1 H1 s"
      "\<forall>n es k. \<forall>c :: ('a, 'd) cm_qp. send_fails n = [] \<longrightarrow> cm_rpc c = S \<longrightarrow> cm_net c = with_answer n [] b y1 es \<longrightarrow>
         wait_ready (Suc k) c = (Inr (Ok []), c\<lparr>cm_net := after_call S n x1 es\<rparr>)"
    using heartbeat_exchange [OF client(1) srv(1,2), of s a b] by blast
  then have H1: "idle H1" "hd_fac H1 = hd_fac H"
    by (simp_all add: one_exchange_def)
  have table: "map_of (hd_fac H1) CreateRC = Some (rc_handler rnd V2)"
    using srv(3) H1(2) by simp
  obtain x2 y2 H2 s' d1 h2 where x2: "one_exchange H1 s a x2 y2 H2 s'"
      "\<forall>n es. \<forall>c :: ('a, 'd) cm_qp. send_fails n = [] \<longrightarrow> cm_rpc c = S \<longrightarrow> cm_net c = with_answer n [] b y2 es \<longrightarrow>
         cm_rc c = q1 \<longrightarrow> cm_drv c = d0 \<longrightarrow> cc_rc V1 nm nicid ?cfg c = (Inr (Ok ([], key)),
           c\<lparr>cm_rpc := next_ck S, cm_net := after_call S n x2 es, cm_rc := q1\<lparr>rc_status := Ok ()\<rparr>, cm_drv := d1\<rparr>)"
    and st: "connected_to qps1 d1 h1 (v_qp_num V2 (rt_drv s') (Some h2)) ad2"
      "connected_to qps2 (rt_drv s') h2 (v_qp_num V1 d0 (Some h1)) ad1"
      "store (registered_qps s') = (nm, (length (qp_heap s), key)) # store (registered_qps s)"
      "registered_mrs s' = registered_mrs s" "\<exists>attr. d1 = snd (rc_connect V1 attr q1 d0)"
    using cc_rc_exchange [OF client(1,3,4) local_qp H1(1) table server(1) srv(5-10) hb, of a b] by blast
  have H2: "idle H2" "hd_fac H2 = hd_fac H"
    using x2(1) H1 by (simp_all add: one_exchange_def)
  have valid: "fd_valid (sc_fd (sp_chan (next_ck S)))"
    using client(1) by simp
  obtain x3 y3 H3 where x3: "one_exchange H2 s' a x3 y3 H3 s'"
      "\<forall>n es. \<forall>c :: ('a, 'd) cm_qp. send_fails n = [] \<longrightarrow> cm_rpc c = next_ck S \<longrightarrow> cm_net c = with_answer n [] b y3 es \<longrightarrow>
         fetch_remote_mr mid c = (Inr (Ok ([], attr)), c\<lparr>cm_rpc := next_ck (next_ck S), cm_net := after_call (next_ck S) n x3 es\<rparr>)"
    using fetch_mr_exchange [OF valid H2(1) _ _ srv(12) hb, of s' mid a b] srv(4,11) H2(2) st(4) by auto
  let ?ps = "[(x1, y1), (x2, y2), (x3, y3)]"
  have ex: "exchanges H s a ?ps H3 s'"
    using x1(1) x2(1) x3(1) by auto
  obtain h lmr d' where h: "\<And>c :: ('a, 'd) cm_qp. cm_drv c = d1 \<Longrightarrow> local_region V1 af lnic sz c = (Inr h, c\<lparr>cm_drv := d'\<rparr>)"
      "get_reg_attr h = Some lmr" "ra_buf lmr = ptr_u64 (af sz)" "rm_ptr (rh_mem h) = af sz" "qps1 d' = qps1 d1" "f d' = f d1"
    by (rule local_region_any [OF region(1-3), of d1 af sz]) (rule that)
  let ?se = "\<lparr>se_key = key, se_mr = h, se_local = lmr, se_remote = attr\<rparr>"
  note run = session_run [OF client(2) x1(2) x2(2) h(1,2) x3(2)]
  have "f d1 = f d0"
    using st(5) rc_connect_keeps [OF region(4)] by (auto simp: keepsA_def)
  then show ?thesis
    using ex run st(2,3) h(2-4) st(1) h(5,6)
    by (intro exI [of _ ?ps] exI [of _ H3] exI [of _ s'] exI [of _ h2] exI [of _ ?se] exI [of _ d'])
      (simp add: connected_to_def)
qed

section \<open>What the device sees\<close>

text \<open>
  Only \<open>ibv_post_send\<close> adds to the requests that the device has accepted, \<open>sent\<close>, which is
  what an observer of the device sees.
\<close>

definition log_law :: "'d verbs \<Rightarrow> ('d \<Rightarrow> send_wr list) \<Rightarrow> bool" where
  "log_law V sent \<longleftrightarrow>
     (\<forall>h wrs d. sent (snd (v_post_send V h wrs d)) = sent d @ (if fst (v_post_send V h wrs d) = 0 then wrs else [])) \<and>
     (\<forall>c n d. sent (snd (v_poll_cq V c n d)) = sent d) \<and> (\<forall>d. sent (snd (v_now V d)) = sent d) \<and>
     (\<forall>h d. sent (snd (v_destroy_qp V h d)) = sent d) \<and> (\<forall>h d. sent (snd (v_destroy_cq V h d)) = sent d) \<and>
     (\<forall>h d. sent (snd (v_dealloc_pd V h d)) = sent d) \<and> (\<forall>h d. sent (snd (v_close_device V h d)) = sent d)"

lemma log_law_post: "log_law V sent \<Longrightarrow> v_post_send V h wrs d = (0, d') \<Longrightarrow> sent d' = sent d @ wrs"
  unfolding log_law_def by (elim conjE allE [of _ h] allE [of _ wrs] allE [of _ d]) simp

lemma poll_until_keeps:
  fixes q :: "'x qp_dummy_scheme"
  assumes keep: "\<And>n d. f (snd (v_poll_cq V (d_cq q) n d)) = f d" "\<And>d. f (snd (v_now V d)) = f d"
    and run: "poll_until V t timeout q d = Some (r, q', d')"
  shows "f d' = f d"
proof -
  define c where "c = d_cq q"
  have one: "f d1 = f d \<and> d_cq q1 = c" if "poll_send_comp V p d = (res, q1, d1)" "d_cq p = c" for p :: "'x qp_dummy_scheme" and d res q1 d1
    using that keep(1) [of 1 d] by (auto simp: poll_send_comp_def c_def split: prod.splits if_splits)
  have now: "f d2 = f d1" if "v_now V d1 = (n, d2)" for d1 n d2
    using keep(2) [of d1] that by simp
  have "d_cq q = c \<longrightarrow> f d' = f d"
    using run
  proof (induction rule: poll_until_rule)
    case (polled q d r q1 d1)
    then show ?case
      using one by blast
  next
    case (timeout q d r q1 d1 n d2)
    then show ?case
      using one now by metis
  next
    case (again q d res q1 d1 n d2 r q' d')
    then show ?case
      using one now by metis
  qed
  then show ?thesis
    by (simp add: c_def)
qed

lemma wait_keeps:
  assumes "\<And>n d. f (snd (v_poll_cq V (d_cq q) n d)) = f d" "\<And>d. f (snd (v_now V d)) = f d"
    and "wait_one_comp V timeout q d = Some (r, q', d')"
  shows "f d' = f d"
proof -
  obtain start d0 where st: "v_now V d = (start, d0)"
    by fastforce
  then have "f d0 = f d"
    using assms(2) [of d] by simp
  then show ?thesis
    using assms(3) st poll_until_keeps [of f V q, OF assms(1,2)] by (fastforce simp: wait_one_comp_def)
qed

text \<open>The fields of a request that say what is accessed.\<close>

definition wr_access :: "send_wr \<Rightarrow> nat \<times> u64 \<times> u32 \<times> sge list" where
  "wr_access wr = (wr_op wr, wr_remote_addr wr, wr_rkey wr, wr_sges wr)"

definition access_of :: "req_desc \<Rightarrow> req_payload \<Rightarrow> reg_attr \<Rightarrow> reg_attr \<Rightarrow> nat \<times> u64 \<times> u32 \<times> sge list" where
  "access_of rdesc payload lmr rmr = (rd_op rdesc, ra_buf rmr + rp_remote_addr payload, ra_key rmr,
     [\<lparr>sge_addr = ptr_u64 (rp_local_addr payload), sge_length = rd_len rdesc, sge_lkey = ra_lkey lmr\<rparr>])"

text \<open>A connected queue pair with bound regions and nothing outstanding.\<close>

definition ready_to_send :: "('d \<Rightarrow> bool list) \<Rightarrow> ptr \<Rightarrow> ptr \<Rightarrow> reg_attr \<Rightarrow> reg_attr \<Rightarrow> ('a, 'd) cm_qp \<Rightarrow> bool" where
  "ready_to_send pend h c lmr rmr s \<longleftrightarrow> d_qp (cm_rc s) = h \<and> d_cq (cm_rc s) = c \<and> code (rc_status (cm_rc s)) = IO_Ok \<and>
     rc_local_mr (cm_rc s) = Some lmr \<and> rc_remote_mr (cm_rc s) = Some rmr \<and> pend (cm_drv s) = []"

lemma send_and_wait_ok:
  assumes laws: "post_law V h pend cap" "0 < cap" "poll_law V c pend lag" "clock_range V" "log_law V sent"
    and s: "ready_to_send pend h c lmr rmr s" "rd_flags rdesc = v_signaled V"
  shows "\<exists>q d. send_and_wait V rdesc payload s = (Inr (), s\<lparr>cm_rc := q, cm_drv := d\<rparr>) \<and>
    ready_to_send pend h c lmr rmr (s\<lparr>cm_rc := q, cm_drv := d\<rparr>) \<and>
    map wr_access (sent d) = map wr_access (sent (cm_drv s)) @ [access_of rdesc payload lmr rmr]"
proof -
  obtain wid q1 where e: "encode_my_wr (rd_wr_id rdesc) 1 (cm_rc s) = (wid, q1)"
    by fastforce
  have q1: "d_qp q1 = h" "d_cq q1 = c" "code (rc_status q1) = IO_Ok" "rc_local_mr q1 = Some lmr" "rc_remote_mr q1 = Some rmr"
    using s(1) e by (auto simp: encode_my_wr_def forward_mark_def ready_to_send_def)
  have sig: "v_signaled V \<noteq> 0"
    using laws(1) by (simp add: post_law_def)
  define wr where "wr = \<lparr>wr_id = wid, wr_op = rd_op rdesc, wr_flags = rd_flags rdesc,
      wr_imm = ucast (rp_imm_data payload),
      wr_sges = [\<lparr>sge_addr = ptr_u64 (rp_local_addr payload), sge_length = rd_len rdesc, sge_lkey = ra_lkey lmr\<rparr>],
      wr_remote_addr = ra_buf rmr + rp_remote_addr payload, wr_rkey = ra_key rmr, wr_compare_add = 0, wr_swap = 0\<rparr>"
  obtain rc d1 where post: "v_post_send V h [wr] (cm_drv s) = (rc, d1)"
    by fastforce
  have "fst (v_post_send V h [wr] (cm_drv s)) = 0"
      "pend (snd (v_post_send V h [wr] (cm_drv s))) = pend (cm_drv s) @ map (\<lambda>wr. wr_flags wr AND v_signaled V \<noteq> 0) [wr]"
    using laws(1) [unfolded post_law_def] laws(2) s(1)
    by (auto simp: ready_to_send_def dest!: spec [of _ "cm_drv s"] spec [of _ "[wr]"])
  then have rc: "rc = 0" "pend d1 = [True]"
    using post s sig by (simp_all add: ready_to_send_def wr_def)
  have log: "sent d1 = sent (cm_drv s) @ [wr]"
    using log_law_post [OF laws(5)] post rc(1) by simp
  let ?q2 = "q1\<lparr>d_out_signaled := d_out_signaled q1 + 1\<rparr>"
  have send: "rc_send_default V rdesc payload (cm_rc s) (cm_drv s) = (Inr (Ok [], ?q2), d1)"
    using s post sig rc(1) e q1
    by (simp add: rc_send_default_def rc_send_normal_def bindA_def liftA_def callA_def Let_def wr_def ready_to_send_def)
  obtain x d2 where w: "wait_one_comp V no_timeout ?q2 d1 = Some (Ok x, ?q2\<lparr>d_out_signaled := d_out_signaled ?q2 - 1\<rparr>, d2)"
      "pend d2 = retire (pend d1)"
    using wait_completes [OF laws(3,4), of ?q2 d1] q1(2) rc(2) by auto
  have "sent d2 = sent d1"
    by (rule wait_keeps [OF _ _ w(1)]) (use laws(5) in \<open>simp_all add: log_law_def\<close>)
  then show ?thesis
    using send w rc(2) q1 log
    by (intro exI [of _ "?q2\<lparr>d_out_signaled := d_out_signaled ?q2 - 1\<rparr>"] exI [of _ d2])
      (simp add: send_and_wait_def ready_to_send_def retire_def wr_access_def access_of_def wr_def)
qed

lemma each_sends:
  assumes laws: "post_law V h pend cap" "0 < cap" "poll_law V c pend lag" "clock_range V" "log_law V sent"
    and s: "ready_to_send pend h c lmr rmr s" "\<And>x. x \<in> set xs \<Longrightarrow> rd_flags (dx x) = v_signaled V"
  shows "\<exists>q d. each (\<lambda>x. send_and_wait V (dx x) (pl x)) xs s = (Inr (), s\<lparr>cm_rc := q, cm_drv := d\<rparr>) \<and>
    ready_to_send pend h c lmr rmr (s\<lparr>cm_rc := q, cm_drv := d\<rparr>) \<and>
    map wr_access (sent d) = map wr_access (sent (cm_drv s)) @ map (\<lambda>x. access_of (dx x) (pl x) lmr rmr) xs"
  using s
proof (induction xs arbitrary: s)
  case Nil
  then show ?case
    by (intro exI [of _ "cm_rc s"] exI [of _ "cm_drv s"]) (simp add: retA_def)
next
  case (Cons x xs)
  obtain q1 d1 where s1: "send_and_wait V (dx x) (pl x) s = (Inr (), s\<lparr>cm_rc := q1, cm_drv := d1\<rparr>)"
      "ready_to_send pend h c lmr rmr (s\<lparr>cm_rc := q1, cm_drv := d1\<rparr>)"
      "map wr_access (sent d1) = map wr_access (sent (cm_drv s)) @ [access_of (dx x) (pl x) lmr rmr]"
    using send_and_wait_ok [OF laws Cons.prems(1), of "dx x" "pl x"] Cons.prems(2) by auto
  from Cons.IH [OF s1(2)] Cons.prems(2) obtain q d where
    "each (\<lambda>x. send_and_wait V (dx x) (pl x)) xs (s\<lparr>cm_rc := q1, cm_drv := d1\<rparr>) = (Inr (), s\<lparr>cm_rc := q, cm_drv := d\<rparr>)"
    "ready_to_send pend h c lmr rmr (s\<lparr>cm_rc := q, cm_drv := d\<rparr>)"
    "map wr_access (sent d) = map wr_access (sent d1) @ map (\<lambda>x. access_of (dx x) (pl x) lmr rmr) xs"
    by auto
  with s1 show ?case
    by (intro exI [of _ q] exI [of _ d]) (simp add: bindA_def)
qed

section \<open>The examples from start to end\<close>

lemma region_law_part: "region_law V obs \<Longrightarrow> region_law V (\<lambda>d. g (obs d))"
  unfolding region_law_def by metis

lemma srpc_new_valid: "srpc_new L now addr c = (Inr S, c') \<Longrightarrow> fd_valid (sc_fd (sp_chan S))"
  by (auto simp: srpc_new_def send_channel_create_def srpc_of_channel_def Let_def opt_value_def
      split: option.splits prod.splits if_splits)

lemma open_nic_valid: "open_nic V idx d = (Inr nic, d') \<Longrightarrow> nic_valid nic"
  by (auto simp: open_nic_def rnic_create_def bindA_def retA_def failA_def liftA_def opt_value_def
      split: prod.splits sum.splits if_splits option.splits)

lemma example_name_ok: "length example_name \<le> kMaxQPNameLen" "0 \<notin> set example_name"
  by (simp_all add: example_name_def bstr_def kMaxQPNameLen_def)

text \<open>
  The body of an example that posts signalled requests one at a time: four exchanges, after
  which the server's registry is as before, and exactly these accesses at the device.
\<close>

text \<open>Deleting the queue pair of the session restores the server's registry.\<close>

lemma session_deleted:
  fixes S :: "'a srpc"
  assumes "fd_valid (sc_fd (sp_chan S))" "length nm \<le> kMaxQPNameLen" "0 \<notin> set nm"
    and "idle H" "map_of (hd_fac H) DeleteRC = Some (delete_rc V2)"
    and "store (registered_qps s1) = (nm, (i, key)) # store (registered_qps s)" "map_of (store (registered_qps s)) nm = None"
  obtains x y H' s' where "one_exchange H s1 a x y H' s'"
    "\<forall>n es. \<forall>c :: ('a, 'd) cm_qp. send_fails n = [] \<longrightarrow> cm_rpc c = S \<longrightarrow> cm_net c = with_answer n [] b y es \<longrightarrow>
       delete_remote_rc nm key c = (Inr (Ok []), c\<lparr>cm_rpc := next_ck S, cm_net := after_call S n x es\<rparr>)"
    "store (registered_qps s') = store (registered_qps s)"
proof -
  have entry: "map_of (store (registered_qps s1)) nm = Some (i, key)"
    using assms(6) by simp
  have hb: "\<forall>h \<in> set []. heartbeat_packet (snd (h :: 'a \<times> bytes))"
    by simp
  obtain x y H' s' where del: "one_exchange H s1 a x y H' s'"
      "\<forall>n es. \<forall>c :: ('a, 'd) cm_qp. send_fails n = [] \<longrightarrow> cm_rpc c = S \<longrightarrow> cm_net c = with_answer n [] b y es \<longrightarrow>
         delete_remote_rc nm key c = (Inr (Ok []), c\<lparr>cm_rpc := next_ck S, cm_net := after_call S n x es\<rparr>)"
      "store (registered_qps s') = filter (\<lambda>p. fst p \<noteq> nm) (store (registered_qps s1))"
    using delete_exchange [OF assms(1-5) entry hb, of a b] by blast
  have "store (registered_qps s') = store (registered_qps s)"
    using del(3) assms(6,7) by (force simp: map_of_eq_None_iff filter_id_conv)
  with del(1,2) that show thesis
    by blast
qed

text \<open>The end of the program: the region is deregistered, which posts nothing.\<close>

lemma end_session_keeps:
  assumes "get_reg_attr (se_mr se) = Some a" "region_law V sent"
  obtains d where "end_session V se c = (Inr (), c\<lparr>cm_drv := d\<rparr>)" "sent d = sent (cm_drv c)"
proof -
  obtain k where k: "rh_mr (se_mr se) = Some k"
    using assms(1) by (auto simp: get_reg_attr_def split: option.splits)
  have "sent (snd (v_dereg_mr V k (cm_drv c))) = sent (cm_drv c)"
    using assms(2) by (cases k) (simp add: region_law_def)
  moreover have "end_session V se c = (Inr (), c\<lparr>cm_drv := snd (v_dereg_mr V k (cm_drv c))\<rparr>)"
    by (simp add: end_session_def cmD_def reg_handler_destroy_def k bindA_def callA_def retA_def split: prod.splits)
  ultimately show thesis
    using that by blast
qed

text \<open>What the client does between the first line of the example and the last, given what its calls do.\<close>

lemma example_run:
  fixes S :: "sockaddr_in srpc" and V :: "'d verbs" and n :: "sockaddr_in net"
  defines "t \<equiv> sc_end (sp_chan S)"
  defines "c1 \<equiv> \<lambda>ps b y es q d. \<lparr>cm_rpc = next_ck (next_ck S), cm_net = after_calls n t ps (SelData b y # es), cm_rc = q, cm_drv = d\<rparr>"
  assumes "send_fails n = []" "af 1024 \<noteq> None"
    and session: "\<forall>es. client_session V af lnic example_name nicid mid 1024
        \<lparr>cm_rpc = S, cm_net = with_replies n b ps es, cm_rc = q1, cm_drv = d0\<rparr> =
      (Inr se, \<lparr>cm_rpc = next_ck (next_ck S), cm_net = after_calls n t ps es, cm_rc = q2, cm_drv = d1\<rparr>)"
      "get_reg_attr (se_mr se) = Some (se_local se)" "rm_ptr (rh_mem (se_mr se)) = af 1024"
    and work: "work se (c1 ps b y es q2 d1) = (Inr (), c1 ps b y es q3 d2)"
    and delete: "\<forall>n es. \<forall>c :: (sockaddr_in, 'd) cm_qp. send_fails n = [] \<longrightarrow> cm_rpc c = next_ck (next_ck S) \<longrightarrow>
         cm_net c = with_answer n [] b y es \<longrightarrow> delete_remote_rc example_name (se_key se) c =
           (Inr (Ok []), c\<lparr>cm_rpc := next_ck (next_ck (next_ck S)), cm_net := after_call (next_ck (next_ck S)) n x es\<rparr>)"
    and "region_law V sent"
  obtains c' where "example_body V af nicid mid work lnic
      \<lparr>cm_rpc = S, cm_net = with_replies n b (ps @ [(x, y)]) es, cm_rc = q1, cm_drv = d0\<rparr> = (Inr (), c')"
    "cm_net c' = after_calls n t (ps @ [(x, y)]) es" "sent (cm_drv c') = sent d2"
proof -
  have 1: "client_session V af lnic example_name nicid mid 1024
      \<lparr>cm_rpc = S, cm_net = with_replies n b (ps @ [(x, y)]) es, cm_rc = q1, cm_drv = d0\<rparr> = (Inr se, c1 ps b y es q2 d1)"
    using session(1) by (simp add: with_replies_def c1_def)
  let ?c3 = "(c1 ps b y es q3 d2)\<lparr>cm_rpc := next_ck (next_ck (next_ck S)), cm_net := after_calls n t (ps @ [(x, y)]) es\<rparr>"
  have 3: "delete_remote_rc example_name (se_key se) (c1 ps b y es q3 d2) = (Inr (Ok []), ?c3)"
    using delete [rule_format, of "n\<lparr>outbox := outbox n @ map (Pair t \<circ> fst) ps\<rparr>" "c1 ps b y es q3 d2" es]
      assms(3) by (simp add: with_answer_def after_call_def after_calls_def c1_def t_def)
  obtain d3 where 4: "end_session V se ?c3 = (Inr (), ?c3\<lparr>cm_drv := d3\<rparr>)" "sent d3 = sent d2"
    using end_session_keeps [OF session(2) assms(10), of ?c3] by (auto simp: c1_def)
  have touch: "touch (af 1024) c = (Inr (), c)" for c :: "(sockaddr_in, 'd) cm_qp"
    using assms(4) by (cases "af 1024") (simp_all add: touch_def retA_def)
  have "example_body V af nicid mid work lnic
      \<lparr>cm_rpc = S, cm_net = with_replies n b (ps @ [(x, y)]) es, cm_rc = q1, cm_drv = d0\<rparr> = (Inr (), ?c3\<lparr>cm_drv := d3\<rparr>)"
    using 1 work 3 4(1) touch session(3) by (simp add: example_body_def bindA_def retA_def expect_ok_def liftA_def)
  then show thesis
    by (rule that) (simp_all add: 4(2))
qed

lemma example_exchanges:
  fixes S :: "sockaddr_in srpc" and V1 :: "'d verbs"
  assumes client: "fd_valid (sc_fd (sp_chan S))" "send_fails n = []" "af 1024 \<noteq> None" "nic_valid lnic"
    and local_qp: "lawful V1 qps1" "qps1 d0 h1 = Some (QPT_RC, QPS_INIT, l1)" "d_qp q1 = Some h1" "d_cq q1 \<noteq> None"
      "nic_addr (d_nic q1) = Some ad1" "nic_lid (d_nic q1) = Some li1" "pend d0 = []"
    and laws: "post_law V1 (d_qp q1) pend cap" "0 < cap" "poll_law V1 (d_cq q1) pend lag" "clock_range V1" "log_law V1 sent"
      "region_law V1 (\<lambda>d. (qps1 d, pend d, sent d))" "setup_keeps V1 (\<lambda>d. (pend d, sent d))"
    and server: "lawful V2 qps2"
      "server_ready rnd V2 H s example_name nicid (default_config (v_access V1)) ad2 key mid attr"
    and work: "\<And>se. work se = each (\<lambda>x. send_and_wait V1 (dx x) (pl se x)) xs"
      "\<And>x. x \<in> set xs \<Longrightarrow> rd_flags (dx x) = v_signaled V1"
  shows "\<exists>ps H' s' se c'. exchanges H s a ps H' s' \<and> length ps = 4 \<and>
    example_body V1 af nicid mid work lnic \<lparr>cm_rpc = S, cm_net = with_replies n b ps es, cm_rc = q1, cm_drv = d0\<rparr> = (Inr (), c') \<and>
    cm_net c' = after_calls n (sc_end (sp_chan S)) ps es \<and> se_remote se = attr \<and> rm_ptr (rh_mem (se_mr se)) = af 1024 \<and>
    map wr_access (sent (cm_drv c')) =
      map wr_access (sent d0) @ map (\<lambda>x. access_of (dx x) (pl se x) (se_local se) attr) xs \<and>
    store (registered_qps s') = store (registered_qps s)"
proof -
  let ?t = "sc_end (sp_chan S)" and ?f = "\<lambda>d. (pend d, sent d)"
  have rl: "region_law V1 qps1" "region_law V1 ?f" "region_law V1 sent"
    using region_law_part [OF laws(6), of fst] region_law_part [OF laws(6), of snd]
      region_law_part [OF laws(6), of "\<lambda>x. snd (snd x)"] by simp_all
  obtain ps H1 s1 h2 se d1 where ses: "exchanges H s a ps H1 s1"
    "\<forall>es. client_session V1 af lnic example_name nicid mid 1024
        \<lparr>cm_rpc = S, cm_net = with_replies n b ps es, cm_rc = q1, cm_drv = d0\<rparr> =
      (Inr se, \<lparr>cm_rpc = next_ck (next_ck S), cm_net = after_calls n ?t ps es,
         cm_rc = q1\<lparr>rc_status := Ok (), rc_remote_mr := Some attr, rc_local_mr := Some (se_local se)\<rparr>, cm_drv = d1\<rparr>)"
    "se_key se = key" "se_remote se = attr" "get_reg_attr (se_mr se) = Some (se_local se)"
    "rm_ptr (rh_mem (se_mr se)) = af 1024"
    "store (registered_qps s1) = (example_name, (length (qp_heap s), key)) # store (registered_qps s)"
    "?f d1 = ?f d0" and len: "length ps = 3"
    using session_exchanges [OF client(1,2) example_name_ok local_qp(1-6) rl(1) client(4) rl(2) laws(7) server, of a af 1024 b]
    by blast
  have H1: "idle H1" "map_of (hd_fac H1) DeleteRC = Some (delete_rc V2)"
    using exchanges_idle [OF ses(1)] server(2) by (simp_all add: server_ready_def)
  have valid: "fd_valid (sc_fd (sp_chan (next_ck (next_ck S))))" and unused: "map_of (store (registered_qps s)) example_name = None"
    using client(1) server(2) by (simp_all add: server_ready_def)
  obtain x y H' s' where del: "one_exchange H1 s1 a x y H' s'"
      "\<forall>n es. \<forall>c :: (sockaddr_in, 'd) cm_qp. send_fails n = [] \<longrightarrow> cm_rpc c = next_ck (next_ck S) \<longrightarrow>
         cm_net c = with_answer n [] b y es \<longrightarrow> delete_remote_rc example_name key c =
           (Inr (Ok []), c\<lparr>cm_rpc := next_ck (next_ck (next_ck S)), cm_net := after_call (next_ck (next_ck S)) n x es\<rparr>)"
      "store (registered_qps s') = store (registered_qps s)"
    by (rule session_deleted [OF valid example_name_ok H1 ses(7) unused]) (rule that)
  let ?ps = "ps @ [(x, y)]" and ?q2 = "q1\<lparr>rc_status := Ok (), rc_remote_mr := Some attr, rc_local_mr := Some (se_local se)\<rparr>"
  let ?c1 = "\<lparr>cm_rpc = next_ck (next_ck S), cm_net = after_calls n ?t ps (SelData b y # es), cm_rc = ?q2, cm_drv = d1\<rparr>"
  have "ready_to_send pend (d_qp q1) (d_cq q1) (se_local se) attr ?c1"
    using local_qp(7) ses(8) by (simp add: ready_to_send_def Ok_def)
  from each_sends [OF laws(1-5) this, of xs dx "pl se"] work(2) obtain q d2 where
    2: "work se ?c1 = (Inr (), ?c1\<lparr>cm_rc := q, cm_drv := d2\<rparr>)"
      "map wr_access (sent d2) = map wr_access (sent d0) @ map (\<lambda>x. access_of (dx x) (pl se x) (se_local se) attr) xs"
    using ses(8) by (auto simp: work(1))
  obtain c' where "example_body V1 af nicid mid work lnic
      \<lparr>cm_rpc = S, cm_net = with_replies n b ?ps es, cm_rc = q1, cm_drv = d0\<rparr> = (Inr (), c')"
      "cm_net c' = after_calls n ?t ?ps es" "sent (cm_drv c') = sent d2"
    by (rule example_run [OF client(2,3) ses(2,5,6) _ del(2) [folded ses(3)] rl(3), of work es q d2]) (use 2(1) in auto)
  then show ?thesis
    using exchanges_snoc [OF ses(1) del(1)] len del(3) 2(2) ses(4,6)
    by (intro exI [of _ ?ps] exI [of _ H'] exI [of _ s'] exI [of _ se] exI [of _ c']) simp
qed

lemma dummy_destroy_returns: "\<exists>q'. fst (dummy_destroy V q d) = Inr q'"
  by (simp add: dummy_destroy_def bindA_def callA_def retA_def split: prod.splits)

lemma rnic_destroy_returns: "fst (rnic_destroy V n d) = Inr ()"
  by (simp add: rnic_destroy_def bindA_def callA_def retA_def split: prod.splits)

lemma destroy_keeps:
  assumes "log_law V sent"
  shows "keepsA sent (dummy_destroy V q)" "keepsA sent (rnic_destroy V n)"
proof -
  have "keepsA sent (callA (v_destroy_qp V p))" "keepsA sent (callA (v_destroy_cq V p))"
      "keepsA sent (callA (v_dealloc_pd V p))" "keepsA sent (callA (v_close_device V p))" for p
    using assms by (auto simp: log_law_def)
  then show "keepsA sent (dummy_destroy V q)" "keepsA sent (rnic_destroy V n)"
    unfolding dummy_destroy_def rnic_destroy_def
    by (intro keepsA_bindA keepsA_if keepsA_retA; simp)+
qed

lemma client_program_run:
  assumes "open_nic V idx (h_drv h) = (Inr nic, d1)" "open_qp V nic d1 = (Inr q, d0)"
    and "srpc_new L now addr (h_cache h) = (Inr S, cache)"
    and "body nic \<lparr>cm_rpc = S, cm_net = h_net h, cm_rc = q, cm_drv = d0\<rparr> = (Inr y, c)"
    and "log_law V sent"
  shows "\<exists>h'. client_program V L now addr idx body h = (Inr y, h') \<and> h_net h' = cm_net c \<and> sent (h_drv h') = sent (cm_drv c)"
proof -
  obtain q' d2 where q': "dummy_destroy V (cm_rc c) (cm_drv c) = (Inr q', d2)" "sent d2 = sent (cm_drv c)"
    using dummy_destroy_returns destroy_keeps(1) [OF assms(5)] unfolding keepsA_def by (metis prod.collapse)
  obtain d3 where d3: "rnic_destroy V nic d2 = (Inr (), d3)" "sent d3 = sent d2"
    using rnic_destroy_returns destroy_keeps(2) [OF assms(5)] unfolding keepsA_def by (metis prod.collapse)
  show ?thesis
    using assms(1-4) q' d3 by (simp add: client_program_def bindA_def hostD_def with_manager_def retA_def)
qed

lemma open_qp_init:
  assumes "lawful V qps" "open_qp V nic d1 = (Inr q, d0)"
  obtains h where "d_qp q = Some h" "d_cq q \<noteq> None" "d_nic q = nic"
    "qps d0 h = Some (QPT_RC, QPS_INIT, [init_attr QPT_RC (default_config (v_access V)) nic])"
proof -
  have "rc_create V nic (default_config (v_access V)) None d1 = (Inr (Some q), d0)"
    using assms(2) by (auto simp: open_qp_def bindA_def liftA_def opt_value_def split: prod.splits sum.splits option.splits)
  from rc_create_init [OF assms(1) this] show thesis
    using that by metis
qed

text \<open>
  The example rc_pingpong from its first line to its last, against any server with an open
  device and a registered region.
\<close>

lemma rc_pingpong_run:
  fixes V1 :: "'d verbs"
  assumes device: "lawful V1 qps1" "post_law V1 (d_qp q) pend cap" "0 < cap" "poll_law V1 (d_cq q) pend lag"
      "clock_range V1" "log_law V1 sent" "region_law V1 (\<lambda>d. (qps1 d, pend d, sent d))"
      "setup_keeps V1 (\<lambda>d. (pend d, sent d))"
    and client: "open_nic V1 idx (h_drv h) = (Inr lnic, d1)" "open_qp V1 lnic d1 = (Inr q, d0)"
      "nic_addr lnic = Some ad1" "nic_lid lnic = Some li1" "pend d0 = []" "sent d0 = []"
      "srpc_new L now addr (h_cache h) = (Inr S, cache)" "send_fails (h_net h) = []" "af 1024 \<noteq> None"
    and server: "lawful V2 qps2"
      "server_ready rnd V2 H s example_name nicid (default_config (v_access V1)) ad2 key mid attr"
  shows "\<exists>ps H' s' h' lkey. exchanges H s a ps H' s' \<and> length ps = 4 \<and>
    rc_pingpong_main V1 C L af now addr idx nicid mid (h\<lparr>h_net := with_replies (h_net h) b ps []\<rparr>) = (Inr (), h') \<and>
    h_net h' = after_calls (h_net h) (sc_end (sp_chan S)) ps [] \<and>
    map wr_access (sent (h_drv h')) =
      map (\<lambda>i. (wro_read C, ra_buf attr + of_nat i * 8, ra_key attr,
                [\<lparr>sge_addr = ptr_u64 (af 1024), sge_length = 8, sge_lkey = lkey\<rparr>])) [0..<12] \<and>
    store (registered_qps s') = store (registered_qps s)"
proof -
  obtain h1 where q: "d_qp q = Some h1" "d_cq q \<noteq> None" "d_nic q = lnic"
      "qps1 d0 h1 = Some (QPT_RC, QPS_INIT, [init_attr QPT_RC (default_config (v_access V1)) lnic])"
    using open_qp_init [OF device(1) client(2)] .
  let ?dx = "\<lambda>i :: nat. \<lparr>rd_op = wro_read C, rd_flags = v_signaled V1, rd_len = 8, rd_wr_id = 0\<rparr>"
  let ?pl = "\<lambda>(se :: session) i. \<lparr>rp_local_addr = rm_ptr (rh_mem (se_mr se)), rp_remote_addr = of_nat i * 8, rp_imm_data = 0\<rparr>"
  have work: "read_words V1 C se = each (\<lambda>i. send_and_wait V1 (?dx i) (?pl se i)) [0..<12]" for se
    by (simp add: read_words_def read_word_def [abs_def])
  have flags: "rd_flags (?dx i) = v_signaled V1" for i
    by simp
  have "nic_addr (d_nic q) = Some ad1" "nic_lid (d_nic q) = Some li1"
    using client(3,4) q(3) by simp_all
  note T = example_exchanges [where af = af and ?qps1.0 = qps1 and ?d0.0 = d0 and ?h1.0 = h1 and pend = pend and sent = sent
      and n = "h_net h" and work = "read_words V1 C" and dx = ?dx and pl = ?pl and xs = "[0..<12]" and a = a and b = b and es = "[]",
      OF srpc_new_valid [OF client(7)] client(8,9) open_nic_valid [OF client(1)] device(1) q(4,1,2)
      this client(5) device(2-8) server work flags]
  obtain ps H' s' se c' where t: "exchanges H s a ps H' s'" "length ps = 4"
    "example_body V1 af nicid mid (read_words V1 C) lnic
       \<lparr>cm_rpc = S, cm_net = with_replies (h_net h) b ps [], cm_rc = q, cm_drv = d0\<rparr> = (Inr (), c')"
    "cm_net c' = after_calls (h_net h) (sc_end (sp_chan S)) ps []" "rm_ptr (rh_mem (se_mr (se :: session))) = af 1024"
    "map wr_access (sent (cm_drv c')) = map wr_access (sent d0) @ map (\<lambda>x. access_of (?dx x) (?pl se x) (se_local se) attr) [0..<12]"
    "store (registered_qps s') = store (registered_qps s)"
    using T by blast
  let ?h = "h\<lparr>h_net := with_replies (h_net h) b ps []\<rparr>"
  obtain h' where "client_program V1 L now addr idx (example_body V1 af nicid mid (read_words V1 C)) ?h = (Inr (), h')"
      "h_net h' = cm_net c'" "sent (h_drv h') = sent (cm_drv c')"
    using client_program_run [of V1 idx ?h lnic d1 q d0 L now addr S cache "example_body V1 af nicid mid (read_words V1 C)",
        OF _ client(2) _ _ device(6)] client(1,7) t(3) by auto
  then show ?thesis
    using t client(6)
    by (intro exI [of _ ps] exI [of _ H'] exI [of _ s'] exI [of _ h'] exI [of _ "ra_lkey (se_local se)"])
      (simp add: rc_pingpong_main_def access_of_def)
qed

text \<open>A machine for the witnesses: one resolver entry, sockets that open, the device of the simulation.\<close>

definition sample_lib :: "nat netlib" where
  "sample_lib = \<lparr>getaddrinfo = (\<lambda>_. Some [1]), getnameinfo = (\<lambda>_. Some (bstr ''1.2.3.4'')), strerror_errno = [],
     getaddrinfo_port = (\<lambda>_ _. Some [1]), socket_fd = (\<lambda>_. 3), socket_inet = 3, bind_ok = (\<lambda>_ _. True),
     bind_inet_ok = (\<lambda>_ _. True), inet_addr = (\<lambda>_. 16909060)\<rparr>"

definition sample_host :: "sim host" where
  "sample_host = \<lparr>h_net = empty_net, h_cache = [], h_drv = sim_start\<rparr>"

lemma case_returns: "(case m of (Inr x, s) \<Rightarrow> P x s | _ \<Rightarrow> False) \<Longrightarrow> \<exists>x s. m = (Inr x, s) \<and> P x s"
  by (auto split: prod.splits sum.splits)

lemma sample_srpc: "\<exists>S c. srpc_new sample_lib 0 (bstr ''h:8888'') (h_cache sample_host) = (Inr S, c)"
proof -
  have "case srpc_new sample_lib 0 (bstr ''h:8888'') [] of (Inr S, c) \<Rightarrow> True | _ \<Rightarrow> False"
    by code_simp
  then show ?thesis
    by (auto simp: sample_host_def split: prod.splits sum.splits)
qed

lemma sample_open:
  "\<exists>n d1 q d0. open_nic steady_verbs 0 (h_drv sample_host) = (Inr n, d1) \<and> open_qp steady_verbs n d1 = (Inr q, d0) \<and>
     nic_addr n \<noteq> None \<and> nic_lid n \<noteq> None \<and> sim_sent d0 = [] \<and> sim_log d0 = []"
proof -
  have "case open_nic steady_verbs 0 sim_start of
      (Inr n, d1) \<Rightarrow> (case open_qp steady_verbs n d1 of
         (Inr q, d0) \<Rightarrow> nic_addr n \<noteq> None \<and> nic_lid n \<noteq> None \<and> sim_sent d0 = [] \<and> sim_log d0 = [] | _ \<Rightarrow> False)
    | _ \<Rightarrow> False"
    by code_simp
  then show ?thesis
    unfolding sample_host_def host.simps by (fastforce dest!: case_returns)
qed

lemma steady_device:
  "lawful steady_verbs (\<lambda>d. map_of (sim_qps d))" "log_law steady_verbs sim_log"
  "region_law steady_verbs (\<lambda>d. (map_of (sim_qps d), queue_pend d, sim_log d))"
  "setup_keeps steady_verbs (\<lambda>d. (queue_pend d, sim_log d))"
proof -
  show "lawful steady_verbs (\<lambda>d. map_of (sim_qps d))"
    using sim_lawful
    by (simp add: lawful_def cq_law_def qp_law_def modify_law_def query_law_def steady_verbs_def queue_verbs_def)
  show "log_law steady_verbs sim_log"
    by (auto simp: log_law_def steady_verbs_def queue_verbs_def sim_verbs_def sim_free_def split: list.splits)
  show "region_law steady_verbs (\<lambda>d. (map_of (sim_qps d), queue_pend d, sim_log d))"
    by (simp add: region_law_def steady_verbs_def queue_verbs_def sim_verbs_def)
  show "setup_keeps steady_verbs (\<lambda>d. (queue_pend d, sim_log d))"
    by (auto simp: setup_keeps_def steady_verbs_def queue_verbs_def sim_verbs_def sim_modify_def queue_pend_def
        split: option.splits)
qed

end
