(* ===== verification/ServersSpec.thy ===== *)
theory ServersSpec
  imports Servers ClientsSpec
begin

text \<open>
  The server programs and the clients together: what a server's set-up offers to its clients,
  what the clients read there, and the names under which bench_server offers it.
\<close>

unbundle bit_operations_syntax

section \<open>Memory\<close>

lemma mem_read_write_same: "length bs \<le> 2 ^ 63 \<Longrightarrow> mem_read a (length bs) (mem_write a bs m) = bs"
  by (rule nth_equalityI) (auto simp: mem_read_def mem_write_def unat_of_nat)

lemma mem_read_write_other:
  "(\<And>j. j < n \<Longrightarrow> length bs \<le> unat (a + of_nat j - b)) \<Longrightarrow> mem_read a n (mem_write b bs m) = mem_read a n m"
  by (simp add: mem_read_def mem_write_def leD)

lemma word_gap:
  assumes "i < k" "k < 2 ^ 32" "j < 8"
  shows "8 \<le> unat (buf + 8 * of_nat i + of_nat j - (buf + 8 * of_nat k) :: u64)"
proof -
  define y where "y = 8 * (k - i) - j"
  have y: "0 < y" "y < 2 ^ 63"
    using assms by (auto simp: y_def)
  have "of_nat y = (8 * (of_nat k - of_nat i) - of_nat j :: u64)"
    using assms by (simp add: y_def of_nat_diff)
  then have "buf + 8 * of_nat i + of_nat j - (buf + 8 * of_nat k) = - (of_nat y :: u64)"
    by (simp add: algebra_simps)
  moreover have "uint (- (of_nat y :: u64)) = 2 ^ 64 - int y"
    using y by (simp add: uint_word_ariths unsigned_of_nat zmod_zminus1_eq_if take_bit_eq_mod)
  ultimately show ?thesis
    using y by (simp add: unat_eq_nat_uint)
qed

lemma each_snoc: "each f (xs @ [x]) s = bindA (each f xs) (\<lambda>_. f x) s"
proof (induction xs arbitrary: s)
  case Nil
  then show ?case
    by (simp add: bindA_def retA_def split: prod.splits sum.splits)
next
  case (Cons y ys)
  then show ?case
    by (simp add: bindA_def split: prod.splits sum.splits)
qed

lemma store_words_run:
  assumes "buf \<noteq> 0" "n < 2 ^ 32"
  shows "\<exists>m. store_words buf magic n s = (Inr (), s\<lparr>sv_mem := m\<rparr>) \<and>
    (\<forall>i < n. mem_read (buf + 8 * of_nat i) 8 m = enc_word (magic + of_nat i))"
  using assms(2)
proof (induction n)
  case 0
  then show ?case
    by (intro exI [of _ "sv_mem s"]) (simp add: store_words_def retA_def)
next
  case (Suc n)
  then obtain m where m: "store_words buf magic n s = (Inr (), s\<lparr>sv_mem := m\<rparr>)"
      "\<forall>i < n. mem_read (buf + 8 * of_nat i) 8 m = enc_word (magic + of_nat i)"
    by auto
  let ?b = "enc_word (magic + of_nat n) :: bytes"
  let ?m = "mem_write (buf + 8 * of_nat n) ?b m"
  have "store_words buf magic (Suc n) s = (Inr (), s\<lparr>sv_mem := ?m\<rparr>)"
    using m(1) assms(1) by (simp add: store_words_def each_snoc bindA_def store_bytes_def)
  moreover have "mem_read (buf + 8 * of_nat i) 8 ?m = enc_word (magic + of_nat i)" if "i < Suc n" for i
  proof (cases "i = n")
    case True
    then show ?thesis
      using mem_read_write_same [of ?b "buf + 8 * of_nat n" m] by simp
  next
    case False
    then have "mem_read (buf + 8 * of_nat i) 8 ?m = mem_read (buf + 8 * of_nat i) 8 m"
      using that Suc.prems word_gap [of i n _ buf] by (intro mem_read_write_other) simp
    then show ?thesis
      using False that m(2) by simp
  qed
  ultimately show ?case
    by blast
qed

section \<open>The set-up of the examples' servers\<close>

text \<open>Completion queues and queue pairs can be created, and the generator of keys gives one.\<close>

definition creates_law :: "'d verbs \<Rightarrow> bool" where
  "creates_law V \<longleftrightarrow> (\<forall>c n d. fst (v_create_cq V c n d) \<noteq> None) \<and> (\<forall>p a d. fst (v_create_qp V p a d) \<noteq> None)"

definition keys_law :: "('r \<Rightarrow> u64 \<times> 'r) \<Rightarrow> bool" where
  "keys_law rnd \<longleftrightarrow> (\<forall>r. generate_key rnd r \<noteq> None)"

lemma rc_create_succeeds:
  assumes "lawful V qps" "creates_law V"
  shows "\<exists>q d'. rc_create V nic config None d = (Inr (Some q), d')"
proof -
  obtain c d1 where c: "v_create_cq V (nic_ctx nic) (max_send_sz config) d = (Some c, d1)"
    using assms(2) unfolding creates_law_def by (metis not_None_eq prod.collapse)
  obtain p d2 where p: "v_create_qp V (nic_pd nic) (qp_request QPT_RC config (Some c) None) d1 = (Some p, d2)"
    using assms(2) unfolding creates_law_def by (metis not_None_eq prod.collapse)
  have "qps d2 p = Some (QPT_RC, QPS_RESET, [])"
    using lawful_qp [OF assms(1), of "nic_pd nic" "qp_request QPT_RC config (Some c) None" d1 p] p
    by (simp add: qp_request_def)
  then obtain d3 where "bring_qp_to_init V (Some p) config nic d2 = (Inr (Ok []), d3)"
    using lawful_init [OF assms(1)] by blast
  then show ?thesis
    by (simp add: rc_create_def bindA_def rc_new_apply [OF c p] dummy_valid_def rc_blank_def retA_def)
qed

lemma rctrl_new_idle:
  assumes "rctrl_new rnd V L port = Inr H"
  shows "idle H" "map_of (hd_fac H) HeartBeat = Some heartbeat_handler"
    "map_of (hd_fac H) CreateRC = Some (rc_handler rnd V)" "map_of (hd_fac H) FetchMr = Some fetch_mr_handler"
    "map_of (hd_fac H) DeleteRC = Some (delete_rc V)"
proof -
  obtain c bnd where c: "recv_channel_create L port (bstr ''localhost'') = Inr (Some (c, bnd))" "rctrl_rpc rnd V c = Inr H"
    using assms by (auto simp: rctrl_new_def srpc_handler_new_def rctrl_rpc_def bindE_Inr_iff opt_value_def split: option.splits)
  then have "fd_valid (rc_fd c)" "\<not> has_msg c" "length (cur_msg c) = 4096"
    by (auto simp: recv_channel_create_def recv_channel_new_def bindE_Inr_iff has_msg_def
        split: option.splits prod.splits if_splits)
  with rctrl_table [OF c(2)] show "idle H" "map_of (hd_fac H) HeartBeat = Some heartbeat_handler"
    "map_of (hd_fac H) CreateRC = Some (rc_handler rnd V)" "map_of (hd_fac H) FetchMr = Some fetch_mr_handler"
    "map_of (hd_fac H) DeleteRC = Some (delete_rc V)"
    by (simp_all add: idle_def rpc_ids)
qed

lemma rctrl_new_table:
  assumes "rctrl_new rnd V L port = Inr H"
  shows "map_of (hd_fac H) FetchQPAttr = Some (fetch_qp_attr_wrapper V)" "map_of (hd_fac H) FetchDCAttr = Some fetch_dc_attr_wrapper"
proof -
  obtain c where "rctrl_rpc rnd V c = Inr H"
    using assms by (auto simp: rctrl_new_def srpc_handler_new_def rctrl_rpc_def bindE_Inr_iff)
  from rctrl_table(2) [OF this] show "map_of (hd_fac H) FetchQPAttr = Some (fetch_qp_attr_wrapper V)"
      "map_of (hd_fac H) FetchDCAttr = Some fetch_dc_attr_wrapper"
    by (simp_all add: rpc_ids)
qed

text \<open>The set-up from an empty daemon: a device, a region, and what was stored in it.\<close>

lemma example_server_run:
  assumes "open_nic V idx d = (Inr nic, d1)" "region_law V obs" "af 1024 = Some p" "(of_nat p :: u64) \<noteq> 0"
    and "keys_law rnd" "sv_ctrl s = rctrl_blank r d"
    and "\<And>s. \<exists>m. fill (of_nat p) s = (Inr (), s\<lparr>sv_mem := m\<rparr>) \<and> P m"
  shows "\<exists>s' r' d' k1 k2 mr attr. example_server rnd V af idx nic_name mem_name fill ok s = (Inr (), s') \<and>
    sv_ctrl s' = \<lparr>registered_mrs = \<lparr>store = [(mem_name, (mr, k2))]\<rparr>, registered_qps = factory_empty,
      registered_dcs = factory_empty, opened_nics = \<lparr>store = [(nic_name, (nic, k1))]\<rparr>, qp_heap = [], rt_rng = r', rt_drv = d'\<rparr> \<and>
    get_reg_attr mr = Some attr \<and> ra_buf attr = of_nat p \<and> P (sv_mem s')"
proof -
  have valid: "nic_valid nic"
    using assms(1) by (rule open_nic_valid)
  obtain k1 r1 where k1: "generate_key rnd r = Some (k1, r1)"
    using assms(5) unfolding keys_law_def by fastforce
  obtain k2 r2 where k2: "generate_key rnd r1 = Some (k2, r2)"
    using assms(5) unfolding keys_law_def by fastforce
  obtain keys d2 where reg: "v_reg_mr V (nic_pd nic) (Some p) 1024 (get_value (default_flags (v_access V))) d1 = (Some keys, d2)"
    using assms(2) unfolding region_law_def by (metis not_None_eq prod.collapse)
  let ?mr = "\<lparr>rh_mr = Some keys, rh_nic = nic, rh_mem = rmem_new af 1024\<rparr>"
  let ?c1 = "(rctrl_blank r d)\<lparr>rt_drv := d1, opened_nics := \<lparr>store = [(nic_name, (nic, k1))]\<rparr>, rt_rng := r1\<rparr>"
  let ?c2 = "?c1\<lparr>rt_drv := d2, registered_mrs := \<lparr>store = [(mem_name, (?mr, k2))]\<rparr>, rt_rng := r2\<rparr>"
  have 1: "drvA (open_nic V idx) (rctrl_blank r d) = (Inr nic, (rctrl_blank r d)\<lparr>rt_drv := d1\<rparr>)"
    using assms(1) by (simp add: drvA_def rctrl_blank_def)
  have 2: "register_nic rnd nic_name nic ((rctrl_blank r d)\<lparr>rt_drv := d1\<rparr>) = (Inr (), ?c1)"
    by (simp add: register_nic_def reg_def rctrl_blank_def factory_empty_def k1)
  have 3: "register_region rnd V af mem_name 1024 nic ?c1 = (Inr (), ?c2)"
    using valid reg assms(3)
    by (simp add: register_region_def drvA_def reg_handler_create_def reg_handler_new_def rmem_new_def bindA_def callA_def
        retA_def rh_valid_def create_then_reg_def reg_def rctrl_blank_def factory_empty_def k2)
  obtain attr where attr: "get_reg_attr ?mr = Some attr" "ra_buf attr = of_nat p"
    using assms(3) by (cases keys) (simp add: get_reg_attr_def rmem_new_def ptr_u64_def)
  have 4: "opened_nic nic_name ?c1 = (Inr nic, ?c1)" "region_buf mem_name ?c2 = (Inr (of_nat p), ?c2)"
    using attr by (simp_all add: opened_nic_def region_buf_def query_def)
  let ?s = "s\<lparr>sv_ctrl := ?c2\<rparr>"
  obtain m where m: "fill (of_nat p) ?s = (Inr (), ?s\<lparr>sv_mem := m\<rparr>)" "P m"
    using assms(7) by blast
  have "example_server rnd V af idx nic_name mem_name fill ok s =
      (Inr (), ?s\<lparr>sv_mem := m, sv_daemon := snd (start_daemon ok (sv_daemon s))\<rparr>)"
    using 1 2 3 4 m(1) assms(6) by (simp add: example_server_def bindA_def on_ctrl_def launch_def)
  with m(2) attr show ?thesis
    by (intro exI [of _ "?s\<lparr>sv_mem := m, sv_daemon := snd (start_daemon ok (sv_daemon s))\<rparr>"] exI [of _ r2] exI [of _ d2]
        exI [of _ k1] exI [of _ k2] exI [of _ ?mr] exI [of _ attr]) (simp add: rctrl_blank_def)
qed


lemma sample_keys: "keys_law sample_rnd"
proof -
  have "generate_key sample_rnd n \<noteq> None" for n
  proof (cases "(of_nat n :: u64) = 0")
    case True
    then show ?thesis
      by (simp add: generate_key.simps [of _ n] generate_key.simps [of _ "Suc n"] sample_rnd_def)
  next
    case False
    then show ?thesis
      by (simp add: generate_key.simps [of _ n] sample_rnd_def)
  qed
  then show ?thesis
    by (simp add: keys_law_def)
qed

lemma sim_creates: "creates_law sim_verbs" "region_law sim_verbs (\<lambda>_. ())"
  by (simp_all add: creates_law_def region_law_def sim_verbs_def sim_new_def sim_create_qp_def)

definition sample_memory :: "(nat, sim) server" where
  "sample_memory = \<lparr>sv_ctrl = rctrl_blank 1 sim_start, sv_mem = (\<lambda>_. 0), sv_daemon = \<lparr>running = False, thread_alive = False\<rparr>\<rparr>"

lemma sample_serving:
  "\<exists>n d1. open_nic sim_verbs 0 sim_start = (Inr n, d1) \<and> nic_addr n \<noteq> None \<and> nic_lid n \<noteq> None"
  "\<exists>H :: (bool, (nat, sim) rctrl) srpc_handler. rctrl_new sample_rnd sim_verbs sample_lib 8888 = Inr H"
proof -
  have "case open_nic sim_verbs 0 sim_start of (Inr n, d1) \<Rightarrow> nic_addr n \<noteq> None \<and> nic_lid n \<noteq> None | _ \<Rightarrow> False"
    by code_simp
  then show "\<exists>n d1. open_nic sim_verbs 0 sim_start = (Inr n, d1) \<and> nic_addr n \<noteq> None \<and> nic_lid n \<noteq> None"
    by (rule case_returns)
  show "\<exists>H :: (bool, (nat, sim) rctrl) srpc_handler. rctrl_new sample_rnd sim_verbs sample_lib 8888 = Inr H"
    by (simp add: rctrl_new_def srpc_handler_new_def recv_channel_create_def recv_channel_new_def sample_lib_def fd_valid_def
        rctrl_handlers_def handler_register_def register_handler_def handler_of_channel_def rpc_factory_new_def rpc_ids)
qed


section \<open>The names of bench_server\<close>

text \<open>A server without a device under the name asked for: the request is refused.\<close>

definition err_wrong_arg :: bytes where
  "err_wrong_arg = bstr ''Wrong arguments, possible the QP has exsists''"

lemma cc_rc_refused:
  fixes S :: "'a srpc" and V1 :: "'d verbs"
  assumes client: "fd_valid (sc_fd (sp_chan S))" "length nm \<le> kMaxQPNameLen" "0 \<notin> set nm"
      "nic_addr (d_nic q1) = Some ad1" "nic_lid (d_nic q1) = Some li1" "d_qp q1 = Some h1"
    and server: "idle H" "map_of (hd_fac H) CreateRC = Some (rc_handler rnd V2)" "query (opened_nics s) nicid = None"
  shows "\<exists>d e H'. one_exchange H s a d e H' s \<and>
    (\<forall>n es. \<forall>c :: ('a, 'd) cm_qp. send_fails n = [] \<longrightarrow> cm_rpc c = S \<longrightarrow> cm_net c = with_answer n [] b e es \<longrightarrow>
       cm_rc c = q1 \<longrightarrow> cm_drv c = d0 \<longrightarrow> cc_rc V1 nm nicid config c = (Inr (Err (err_wrong_arg, 0)),
         c\<lparr>cm_rpc := next_ck S, cm_net := after_call S n d es\<rparr>))"
proof -
  let ?attr = "client_attr V1 d0 q1 ad1 li1 h1"
  let ?req = "cc_request (name_array nm) (name_array []) 0 nicid config ?attr 4096"
  let ?p = "dump 246 enc_rc_req ?req" and ?r = "rc_reply_of CB_WrongArg"
  have wf: "wf_rc_req ?req"
    using client(2) by (simp add: cc_request_def wf_rc_req_def wf_name_array)
  have fn: "rc_handler rnd V2 ?p s = (Inr ?r, s)"
    using rc_req_packed.dedump_dump [OF wf] server(3)
    by (simp add: rc_handler_def cc_request_def)
  have len: "length ?p \<le> 4054" "length ?r \<le> 4053"
    using rc_req_packed.length_dump [OF wf] by (simp_all add: rc_reply_of_def rc_reply_packed.length_dump)
  have ne: "CreateRC \<noteq> HeartBeat" and hb: "\<forall>h \<in> set []. heartbeat_packet (snd (h :: 'a \<times> bytes))"
    by (simp_all add: CreateRC_def HeartBeat_def)
  from cm_exchange [OF client(1) len(1) server(1,2) fn len(2) ne hb, of a b]
  obtain d e H' where run: "one_exchange H s a d e H' s"
    and cm: "\<forall>n es. \<forall>c :: ('a, 'd) cm_qp. send_fails n = [] \<longrightarrow> cm_rpc c = S \<longrightarrow> cm_net c = with_answer n [] b e es \<longrightarrow>
       (\<exists>c1. cm_call CreateRC ?p c = (Inr (Ok []), c1) \<and>
             c1 = c\<lparr>cm_net := (cm_net c)\<lparr>outbox := outbox n @ [(sc_end (sp_chan S), d)]\<rparr>\<rparr> \<and>
             cm_receive False c1 = (Inr (Ok ?r), c\<lparr>cm_rpc := next_ck S, cm_net := after_call S n d es\<rparr>))"
    by blast
  have rep: "dedump 69 dec_rc_reply ?r = Some \<lparr>rrp_status = CB_WrongArg, rrp_attr = null_qp_attr, rrp_key = 0\<rparr>"
    by (simp add: rc_reply_of_def rc_reply_packed.dedump_dump)
  have codes: "CB_WrongArg \<noteq> CB_Ok" "CB_WrongArg \<noteq> CB_ConnectErr"
    by (simp_all add: cb_codes)
  have "cc_rc V1 nm nicid config c = (Inr (Err (err_wrong_arg, 0)), c\<lparr>cm_rpc := next_ck S, cm_net := after_call S n d es\<rparr>)"
    if c: "send_fails n = []" "cm_rpc c = S" "cm_net c = with_answer n [] b e es" and q: "cm_rc c = q1" "cm_drv c = d0"
    for n es and c :: "('a, 'd) cm_qp"
  proof -
    obtain c1 where c1: "cm_call CreateRC ?p c = (Inr (Ok []), c1)"
        "cm_receive False c1 = (Inr (Ok ?r), c\<lparr>cm_rpc := next_ck S, cm_net := after_call S n d es\<rparr>)"
      using cm [rule_format, OF c] by blast
    have my: "rc_my_attr V1 (cm_rc c) (cm_drv c) = Inr ?attr"
      using rc_my_attr_client [OF client(4-6)] q by simp
    have "cc_reply V1 (Ok ?r) c' = (Inr (Err (err_wrong_arg, 0)), c')" for c' :: "('a, 'd) cm_qp"
      using codes by (simp add: cc_reply_def rep catchA_def bindA_def liftA_def retA_def err_wrong_arg_def)
    then show ?thesis
      using client(2) my c1 by (simp add: cc_rc_def cc_send_def bindA_def)
  qed
  with run show ?thesis
    by blast
qed

lemma session_refused:
  fixes S :: "'a srpc" and V1 :: "'d verbs"
  assumes client: "fd_valid (sc_fd (sp_chan S))" "length nm \<le> kMaxQPNameLen" "0 \<notin> set nm"
      "nic_addr (d_nic q1) = Some ad1" "nic_lid (d_nic q1) = Some li1" "d_qp q1 = Some h1" "send_fails n = []"
    and server: "idle H" "map_of (hd_fac H) HeartBeat = Some heartbeat_handler"
      "map_of (hd_fac H) CreateRC = Some (rc_handler rnd V2)" "query (opened_nics s) nicid = None"
  shows "\<exists>ps H'. exchanges H s a ps H' s \<and> length ps = 2 \<and>
    fst (client_session V1 af lnic nm nicid mid sz \<lparr>cm_rpc = S, cm_net = with_replies n b ps [], cm_rc = q1, cm_drv = d0\<rparr>) =
      Inl Aborted"
proof -
  let ?t = "sc_end (sp_chan S)" and ?cfg = "default_config (v_access V1)"
  obtain x1 y1 H1 where x1: "one_exchange H s a x1 y1 H1 s"
      "\<forall>n es k. \<forall>c :: ('a, 'd) cm_qp. send_fails n = [] \<longrightarrow> cm_rpc c = S \<longrightarrow> cm_net c = with_answer n [] b y1 es \<longrightarrow>
         wait_ready (Suc k) c = (Inr (Ok []), c\<lparr>cm_net := after_call S n x1 es\<rparr>)"
    using heartbeat_exchange [OF client(1) server(1,2), of s a b] by blast
  then have H1: "idle H1" "map_of (hd_fac H1) CreateRC = Some (rc_handler rnd V2)"
    using server(3) by (simp_all add: one_exchange_def)
  obtain x2 y2 H2 where x2: "one_exchange H1 s a x2 y2 H2 s"
      "\<forall>n es. \<forall>c :: ('a, 'd) cm_qp. send_fails n = [] \<longrightarrow> cm_rpc c = S \<longrightarrow> cm_net c = with_answer n [] b y2 es \<longrightarrow>
         cm_rc c = q1 \<longrightarrow> cm_drv c = d0 \<longrightarrow> cc_rc V1 nm nicid ?cfg c = (Inr (Err (err_wrong_arg, 0)),
           c\<lparr>cm_rpc := next_ck S, cm_net := after_call S n x2 es\<rparr>)"
    using cc_rc_refused [where a = a and b = b and ?V1.0 = V1 and ?d0.0 = d0 and config = ?cfg, OF client(1-6) H1 server(4)]
    by blast
  let ?ps = "[(x1, y1), (x2, y2)]"
  let ?c0 = "\<lparr>cm_rpc = S, cm_net = with_replies n b ?ps [], cm_rc = q1, cm_drv = d0\<rparr>"
  let ?n1 = "n\<lparr>outbox := outbox n @ [(?t, x1)]\<rparr>"
  have 1: "wait_ready 2 ?c0 = (Inr (Ok []), ?c0\<lparr>cm_net := with_answer ?n1 [] b y2 []\<rparr>)"
    using x1(2) [rule_format, OF client(7), of ?c0 "[SelData b y2]" 1]
    by (simp add: with_replies_def with_answer_def after_call_def numeral_2_eq_2)
  have 2: "cc_rc V1 nm nicid ?cfg (?c0\<lparr>cm_net := with_answer ?n1 [] b y2 []\<rparr>) = (Inr (Err (err_wrong_arg, 0)),
      ?c0\<lparr>cm_rpc := next_ck S, cm_net := after_call S ?n1 x2 []\<rparr>)"
    using x2(2) [rule_format, of ?n1 "?c0\<lparr>cm_net := with_answer ?n1 [] b y2 []\<rparr>" "[]"] client(7) by simp
  have "fst (client_session V1 af lnic nm nicid mid sz ?c0) = Inl Aborted"
    unfolding client_session_def wait_server_def connect_rc_def expect_ok_def
    using 1 2 by (simp add: bindA_def liftA_def)
  moreover have "exchanges H s a ?ps H2 s"
    using x1(1) x2(1) by auto
  ultimately show ?thesis
    by (intro exI [of _ ?ps] exI [of _ H2]) simp
qed

lemma client_program_fails:
  assumes "open_nic V idx (h_drv h) = (Inr nic, d1)" "open_qp V nic d1 = (Inr q, d0)"
    and "srpc_new L now addr (h_cache h) = (Inr S, cache)"
    and "fst (body nic \<lparr>cm_rpc = S, cm_net = h_net h, cm_rc = q, cm_drv = d0\<rparr>) = Inl e"
  shows "fst (client_program V L now addr idx body h) = Inl e"
  using assms
  by (cases "body nic \<lparr>cm_rpc = S, cm_net = h_net h, cm_rc = q, cm_drv = d0\<rparr>")
    (simp add: client_program_def bindA_def hostD_def with_manager_def)

lemma bindA_fails: "fst (m s) = Inl e \<Longrightarrow> fst (bindA m f s) = Inl e"
  by (cases "m s") (simp add: bindA_def)

text \<open>The devices of a machine that does not change, and the names under which they are registered.\<close>

definition device_count :: "'d verbs \<Rightarrow> nat \<Rightarrow> bool" where
  "device_count V n \<longleftrightarrow> (\<forall>d. \<exists>devs d'. query_dev_names V d = (Inr devs, d') \<and> length devs = n)"

lemma query_drvA:
  assumes "device_count V n"
  obtains devs d' where "drvA (query_dev_names V) s = (Inr devs, s\<lparr>rt_drv := d'\<rparr>)" "length devs = n"
  using assms unfolding device_count_def drvA_def by (metis (no_types, lifting) case_prod_conv)

lemma register_nic_names:
  "register_nic rnd k nic s = (Inr (), s') \<Longrightarrow> fst ` set (store (opened_nics s')) = insert k (fst ` set (store (opened_nics s)))"
proof -
  assume "register_nic rnd k nic s = (Inr (), s')"
  then obtain a where "store (opened_nics s') = (k, nic, a) # store (opened_nics s)"
    by (auto simp: register_nic_def reg_def assertE_def split: if_splits option.splits)
  then show ?thesis
    by simp
qed

lemma drvA_nics: "drvA m s = (r, s') \<Longrightarrow> opened_nics s' = opened_nics s"
  by (metis drvA_regs(4) snd_conv)

lemma bench_nics_names:
  assumes "device_count V n" "bench_nics rnd V fuel i s = (Inr (), s')" "i \<le> n"
    and "fst ` set (store (opened_nics s)) = of_nat ` {..<i}"
  shows "fst ` set (store (opened_nics s')) = of_nat ` {..<n}"
  using assms(2-)
proof (induction fuel arbitrary: i s)
  case 0
  then show ?case
    by (simp add: failA_def)
next
  case (Suc fuel)
  obtain devs d' where q: "drvA (query_dev_names V) s = (Inr devs, s\<lparr>rt_drv := d'\<rparr>)" "length devs = n"
    using query_drvA [OF assms(1)] .
  show ?case
  proof (cases "i < n")
    case True
    then obtain nic s1 s2 where st: "drvA (open_nic V (of_nat i)) (s\<lparr>rt_drv := d'\<rparr>) = (Inr nic, s1)"
        "register_nic rnd (of_nat i) nic s1 = (Inr (), s2)" "bench_nics rnd V fuel (Suc i) s2 = (Inr (), s')"
      using Suc.prems(1) q by (auto simp: bindA_def split: prod.splits sum.splits)
    have "opened_nics s1 = opened_nics s"
      using drvA_nics [OF st(1)] by simp
    then have "fst ` set (store (opened_nics s2)) = of_nat ` {..<Suc i}"
      using register_nic_names [OF st(2)] Suc.prems(3) by (simp add: lessThan_Suc)
    from Suc.IH [OF st(3) _ this] True show ?thesis
      by simp
  next
    case False
    then have "s' = s\<lparr>rt_drv := d'\<rparr>" "i = n"
      using Suc.prems(1,2) q by (simp_all add: bindA_def retA_def)
    then show ?thesis
      using Suc.prems(3) by simp
  qed
qed

lemma register_region_nics: "register_region rnd V af k sz nic s = (r, s') \<Longrightarrow> opened_nics s' = opened_nics s"
  by (auto simp: register_region_def bindA_def split: prod.splits sum.splits dest!: drvA_nics)

lemma bench_regions_nics:
  "bench_regions rnd V af fuel i s = (r, s') \<Longrightarrow> opened_nics s' = opened_nics s"
proof (induction fuel arbitrary: i s)
  case 0
  then show ?case
    by (simp add: failA_def)
next
  case (Suc fuel)
  then show ?case
    by (auto simp: bindA_def opened_nic_def retA_def split: prod.splits sum.splits if_splits
        dest!: drvA_nics register_region_nics Suc.IH)
qed

lemma store_words_ctrl: "store_words buf magic n s = (r, s') \<Longrightarrow> sv_ctrl s' = sv_ctrl s"
proof -
  have "each (\<lambda>i. store_bytes buf (8 * of_nat i) (enc_word (magic + of_nat i))) xs s = (r, s') \<Longrightarrow> sv_ctrl s' = sv_ctrl s" for xs
    by (induction xs arbitrary: s)
      (auto simp: retA_def bindA_def store_bytes_def split: prod.splits sum.splits if_splits)
  then show "store_words buf magic n s = (r, s') \<Longrightarrow> sv_ctrl s' = sv_ctrl s"
    by (simp add: store_words_def)
qed

lemma bench_server_names:
  assumes "device_count V n" "bench_server rnd V af magic ok fuel s = (Inr (), s')" "sv_ctrl s = rctrl_blank r d"
  shows "fst ` set (store (opened_nics (sv_ctrl s'))) = of_nat ` {..<n}"
proof -
  obtain c1 c2 where "bench_nics rnd V fuel 0 (sv_ctrl s) = (Inr (), c1)"
      "bench_regions rnd V af fuel 0 c1 = (Inr (), c2)" "sv_ctrl s' = c2"
    using assms(2)
    by (auto simp: bench_server_def bindA_def on_ctrl_def launch_def region_buf_def split: prod.splits sum.splits
        dest!: store_words_ctrl)
  then show ?thesis
    using bench_nics_names [OF assms(1), of rnd fuel 0 "sv_ctrl s" c1] bench_regions_nics [of rnd V af fuel 0 c1]
    by (simp add: assms(3) rctrl_blank_def factory_empty_def)
qed

text \<open>What bench_server offers: every device, and a region on each, under its index.\<close>

definition nics_law :: "'d verbs \<Rightarrow> nat \<Rightarrow> bool" where
  "nics_law V n \<longleftrightarrow> (\<forall>d. \<forall>i < n. \<exists>nic d'. open_nic V (of_nat i) d = (Inr nic, d'))"

definition names_upto :: "nat \<Rightarrow> (u64 \<times> 'v) list \<Rightarrow> bool" where
  "names_upto n xs \<longleftrightarrow> fst ` set xs = of_nat ` {..<n}"

lemma names_upto_new: "names_upto i xs \<Longrightarrow> i < 2 ^ 32 \<Longrightarrow> map_of xs (of_nat i) = None"
  by (auto simp: names_upto_def map_of_eq_None_iff image_iff word_of_nat_eq_iff take_bit_eq_mod)

lemma names_upto_cons: "names_upto i xs \<Longrightarrow> names_upto (Suc i) ((of_nat i, v) # xs)"
  by (simp add: names_upto_def lessThan_Suc)

lemma names_upto_old:
  assumes "names_upto n xs" "i < n" "\<forall>e \<in> set xs. P (snd e)"
  shows "\<exists>v. map_of xs (of_nat i) = Some v \<and> P v"
proof -
  obtain v where v: "map_of xs (of_nat i) = Some v"
    using assms(1,2) map_of_eq_None_iff [of xs "of_nat i"] unfolding names_upto_def by (metis imageI lessThan_iff not_None_eq)
  from bspec [OF assms(3) map_of_SomeD [OF v]] v show ?thesis
    by simp
qed

lemma bench_nics_run:
  assumes "device_count V n" "nics_law V n" "keys_law rnd" "n \<le> 2 ^ 32"
  shows "i \<le> n \<Longrightarrow> n - i < fuel \<Longrightarrow> names_upto i (store (opened_nics s)) \<Longrightarrow> \<forall>e \<in> set (store (opened_nics s)). nic_valid (fst (snd e)) \<Longrightarrow>
    \<exists>s'. bench_nics rnd V fuel i s = (Inr (), s') \<and> registered_mrs s' = registered_mrs s \<and>
      names_upto n (store (opened_nics s')) \<and> (\<forall>e \<in> set (store (opened_nics s')). nic_valid (fst (snd e)))"
proof (induction fuel arbitrary: i s)
  case 0
  then show ?case
    by simp
next
  case (Suc fuel)
  obtain devs d1 where q: "drvA (query_dev_names V) s = (Inr devs, s\<lparr>rt_drv := d1\<rparr>)" "length devs = n"
    using query_drvA [OF assms(1)] .
  show ?case
  proof (cases "i < n")
    case True
    then obtain nic d2 where nic: "open_nic V (of_nat i) d1 = (Inr nic, d2)"
      using assms(2) unfolding nics_law_def by blast
    obtain k r where k: "generate_key rnd (rt_rng s) = Some (k, r)"
      using assms(3) unfolding keys_law_def by fastforce
    let ?s = "s\<lparr>rt_drv := d2, opened_nics := \<lparr>store = (of_nat i, (nic, k)) # store (opened_nics s)\<rparr>, rt_rng := r\<rparr>"
    have "map_of (store (opened_nics s)) (of_nat i) = None"
      using names_upto_new [OF Suc.prems(3)] True assms(4) by simp
    then have step: "register_nic rnd (of_nat i) nic (s\<lparr>rt_drv := d2\<rparr>) = (Inr (), ?s)"
      using k by (simp add: register_nic_def reg_def)
    have "\<exists>s'. bench_nics rnd V fuel (Suc i) ?s = (Inr (), s') \<and> registered_mrs s' = registered_mrs ?s \<and>
        names_upto n (store (opened_nics s')) \<and> (\<forall>e \<in> set (store (opened_nics s')). nic_valid (fst (snd e)))"
      using True Suc.prems(2,4) open_nic_valid [OF nic] names_upto_cons [OF Suc.prems(3)]
      by (intro Suc.IH) simp_all
    then show ?thesis
      using True q nic step by (simp add: bindA_def drvA_def)
  next
    case False
    then have "i = n"
      using Suc.prems(1) by simp
    then show ?thesis
      using q Suc.prems(3,4) by (simp add: bindA_def retA_def)
  qed
qed

lemma bench_regions_run:
  assumes "device_count V n" "region_law V obs" "keys_law rnd" "n \<le> 2 ^ 32" "af (1024 * 1024 * 64) = Some p"
  shows "i \<le> n \<Longrightarrow> n - i < fuel \<Longrightarrow> names_upto n (store (opened_nics s)) \<Longrightarrow>
    \<forall>e \<in> set (store (opened_nics s)). nic_valid (fst (snd e)) \<Longrightarrow> names_upto i (store (registered_mrs s)) \<Longrightarrow>
    \<forall>e \<in> set (store (registered_mrs s)). map_option ra_buf (get_reg_attr (fst (snd e))) = Some (of_nat p) \<Longrightarrow>
    \<exists>s'. bench_regions rnd V af fuel i s = (Inr (), s') \<and> opened_nics s' = opened_nics s \<and> names_upto n (store (registered_mrs s')) \<and>
      (\<forall>e \<in> set (store (registered_mrs s')). map_option ra_buf (get_reg_attr (fst (snd e))) = Some (of_nat p))"
proof (induction fuel arbitrary: i s)
  case 0
  then show ?case
    by simp
next
  case (Suc fuel)
  obtain devs d1 where q: "drvA (query_dev_names V) s = (Inr devs, s\<lparr>rt_drv := d1\<rparr>)" "length devs = n"
    using query_drvA [OF assms(1)] .
  show ?case
  proof (cases "i < n")
    case True
    obtain e where e: "map_of (store (opened_nics s)) (of_nat i) = Some e" "nic_valid (fst e)"
      using names_upto_old [OF Suc.prems(3) True Suc.prems(4)] by blast
    obtain keys d2 where reg: "v_reg_mr V (nic_pd (fst e)) (Some p) (1024 * 1024 * 64) (get_value (default_flags (v_access V))) d1 = (Some keys, d2)"
      using assms(2) unfolding region_law_def by (metis not_None_eq prod.collapse)
    obtain k r where k: "generate_key rnd (rt_rng s) = Some (k, r)"
      using assms(3) unfolding keys_law_def by fastforce
    let ?mr = "\<lparr>rh_mr = Some keys, rh_nic = fst e, rh_mem = rmem_new af (1024 * 1024 * 64)\<rparr>"
    let ?s = "s\<lparr>rt_drv := d2, registered_mrs := \<lparr>store = (of_nat i, (?mr, k)) # store (registered_mrs s)\<rparr>, rt_rng := r\<rparr>"
    have "map_of (store (registered_mrs s)) (of_nat i) = None"
      using names_upto_new [OF Suc.prems(5)] True assms(4) by simp
    then have step: "register_region rnd V af (of_nat i) (1024 * 1024 * 64) (fst e) (s\<lparr>rt_drv := d1\<rparr>) = (Inr (), ?s)"
      using e(2) reg assms(5) k
      by (simp add: register_region_def drvA_def reg_handler_create_def reg_handler_new_def rmem_new_def bindA_def callA_def
          retA_def rh_valid_def create_then_reg_def reg_def)
    have "map_option ra_buf (get_reg_attr ?mr) = Some (of_nat p)"
      using assms(5) by (cases keys) (simp add: get_reg_attr_def rmem_new_def ptr_u64_def)
    then have "\<exists>s'. bench_regions rnd V af fuel (Suc i) ?s = (Inr (), s') \<and> opened_nics s' = opened_nics ?s \<and> names_upto n (store (registered_mrs s')) \<and>
      (\<forall>e \<in> set (store (registered_mrs s')). map_option ra_buf (get_reg_attr (fst (snd e))) = Some (of_nat p))"
      using True Suc.prems(2-4,6) names_upto_cons [OF Suc.prems(5)] by (intro Suc.IH) simp_all
    then show ?thesis
      using True q e(1) step by (simp add: bindA_def opened_nic_def query_def)
  next
    case False
    then have "i = n"
      using Suc.prems(1) by simp
    then show ?thesis
      using q Suc.prems(5,6) by (simp add: bindA_def retA_def)
  qed
qed

lemma bench_server_run:
  assumes "device_count V n" "nics_law V n" "region_law V obs" "keys_law rnd" "n \<le> 2 ^ 32" "0 < n" "n < fuel"
    and "af (1024 * 1024 * 64) = Some p" "(of_nat p :: u64) \<noteq> 0" "sv_ctrl s = rctrl_blank r d"
  shows "\<exists>s'. bench_server rnd V af magic ok fuel s = (Inr (), s') \<and>
    names_upto n (store (opened_nics (sv_ctrl s'))) \<and> names_upto n (store (registered_mrs (sv_ctrl s'))) \<and>
    (\<forall>i < 10000. mem_read (of_nat p + 8 * of_nat i) 8 (sv_mem s') = enc_word (magic + of_nat i))"
proof -
  obtain c1 where c1: "bench_nics rnd V fuel 0 (sv_ctrl s) = (Inr (), c1)" "registered_mrs c1 = registered_mrs (sv_ctrl s)"
      "names_upto n (store (opened_nics c1))" "\<forall>e \<in> set (store (opened_nics c1)). nic_valid (fst (snd e))"
    using bench_nics_run [OF assms(1,2,4,5), of 0 fuel "sv_ctrl s"] assms(7,10)
    by (auto simp: names_upto_def rctrl_blank_def factory_empty_def)
  obtain c2 where c2: "bench_regions rnd V af fuel 0 c1 = (Inr (), c2)" "opened_nics c2 = opened_nics c1"
      "names_upto n (store (registered_mrs c2))"
      "\<forall>e \<in> set (store (registered_mrs c2)). map_option ra_buf (get_reg_attr (fst (snd e))) = Some (of_nat p)"
    using bench_regions_run [where af = af and p = p, OF assms(1,3-5,8), of 0 fuel c1] c1(2-4) assms(7,10)
    by (auto simp: names_upto_def rctrl_blank_def factory_empty_def)
  obtain e where e: "map_of (store (registered_mrs c2)) 0 = Some e" "map_option ra_buf (get_reg_attr (fst e)) = Some (of_nat p)"
    using names_upto_old [OF c2(3) assms(6) c2(4)] by auto
  then have buf: "region_buf 0 c2 = (Inr (of_nat p), c2)"
    by (auto simp: region_buf_def query_def)
  obtain m where m: "store_words (of_nat p) magic 10000 (s\<lparr>sv_ctrl := c2\<rparr>) = (Inr (), s\<lparr>sv_ctrl := c2, sv_mem := m\<rparr>)"
      "\<forall>i < 10000. mem_read (of_nat p + 8 * of_nat i) 8 m = enc_word (magic + of_nat i)"
    using store_words_run [OF assms(9), of 10000 magic "s\<lparr>sv_ctrl := c2\<rparr>"] by auto
  then show ?thesis
    using c1 c2 buf by (simp add: bench_server_def bindA_def on_ctrl_def launch_def)
qed


lemma sim_rnic_new:
  "rnic_new sim_verbs \<lparr>dev_id = 0, port_id = p\<rparr> 0 d =
     (Inr \<lparr>nic_ctx = Some (sim_next d), nic_pd = Some (sim_next d + 1), nic_id = \<lparr>dev_id = 0, port_id = p\<rparr>,
        nic_addr = Some \<lparr>subnet_prefix = 1, interface_id = 2, local_id = 0\<rparr>, nic_lid = Some 4\<rparr>, d\<lparr>sim_next := sim_next d + 2\<rparr>)"
  by (simp add: rnic_new_def bindA_def callA_def retA_def open_device_def alloc_pd_def query_addr_def fetch_lid_def
      sim_verbs_def sim_new_def)

lemma sim_query_names:
  "\<exists>d'. query_dev_names sim_verbs d = (Inr [\<lparr>dev_id = 0, port_id = 1\<rparr>, \<lparr>dev_id = 0, port_id = 2\<rparr>], d')"
proof -
  have "v_get_device_list sim_verbs d = ((1, Some [Some 100]), d)" "v_query_device sim_verbs c e = ((0, 2), e)" for c e
    by (simp_all add: sim_verbs_def)
  moreover have "[Suc 0..<2] = [1]"
    by (simp add: upt_rec)
  ultimately show ?thesis
    by (simp add: query_dev_names_def bindA_def callA_def retA_def sim_rnic_new nic_valid_def rnic_destroy_def
        device_ports_def split: prod.splits)
qed

lemma sample_devices: "device_count sim_verbs 2" "nics_law sim_verbs 2"
proof -
  show "device_count sim_verbs 2"
    unfolding device_count_def using sim_query_names by fastforce
  show "nics_law sim_verbs 2"
    unfolding nics_law_def
  proof (intro allI impI)
    fix d and i :: nat
    assume "i < 2"
    moreover obtain d' where "query_dev_names sim_verbs d = (Inr [\<lparr>dev_id = 0, port_id = 1\<rparr>, \<lparr>dev_id = 0, port_id = 2\<rparr>], d')"
      using sim_query_names by blast
    ultimately show "\<exists>nic d'. open_nic sim_verbs (of_nat i) d = (Inr nic, d')"
      by (auto simp: less_2_cases_iff open_nic_def bindA_def rnic_create_def sim_rnic_new nic_valid_def retA_def liftA_def opt_value_def)
  qed
qed


end
