(* ===== verification/TwoSidedSpec.thy ===== *)
theory TwoSidedSpec
  imports TwoSided ServersSpec
begin

text \<open>
  What the message programs promise: a number printed into a message is read back, a client
  hands its device the numbers in order, and a server counts the messages up to
  the last one, however they are spread over its iterators.
\<close>

unbundle bit_operations_syntax

section \<open>Numbers as text\<close>

lemma c_str_terminated: "0 \<notin> set t \<Longrightarrow> c_str (t @ 0 # r) = t"
  by (induction t) (auto simp: c_str_def)

lemma atoi_to_string:
  assumes "n < 2 ^ 31"
  shows "atoi (to_string (int n)) = Inr (of_nat n)"
proof -
  let ?ds = "nat_digits n []"
  obtain c cs where ds: "?ds = c # cs" "is_digit c"
    using nat_digits_nonempty [of n] nat_digits_are_digits [of _ n] by (cases ?ds) auto
  then have c: "\<not> is_space c" "c \<noteq> 45" "c \<noteq> 43"
    using digit_not_special by simp_all
  have digits: "takeWhile is_digit cs = cs"
    using nat_digits_are_digits [of _ n] ds(1) by simp
  have "\<not> int n < - (2 ^ 31)" "\<not> 2 ^ 31 \<le> int n"
    using assms by simp_all
  with c show ?thesis
    using ds nat_digits_value [of n] by (simp add: atoi_def to_string_def Let_def digits)
qed

lemma to_string_no_zero: "0 \<notin> set (to_string (int n))"
  using nat_digits_are_digits [of 0 n] by (auto simp: to_string_def is_digit_def)

definition number_msg :: "nat \<Rightarrow> bytes" where
  "number_msg n = to_string (int n) @ [0]"

lemma mem_read_append: "mem_read a (m + n) f = mem_read a m f @ mem_read (a + of_nat m) n f"
  by (rule nth_equalityI) (auto simp: mem_read_def nth_append algebra_simps)

lemma read_seq_number:
  assumes "mem_read (a + off) (length (number_msg x)) m = number_msg x" "length (number_msg x) \<le> sz" "x < 2 ^ 31" "a \<noteq> 0"
  shows "read_seq m (u64_ptr a) off sz = Inr (of_nat x)"
proof -
  obtain n where sz: "sz = length (number_msg x) + n"
    using assms(2) le_Suc_ex by blast
  have "c_str (mem_read (a + off) sz m) = to_string (int x)"
    unfolding sz mem_read_append assms(1) by (simp add: number_msg_def c_str_terminated [OF to_string_no_zero])
  moreover have "scast (of_nat x :: c_int) = (of_nat x :: u64)"
    using assms(3) by (rule scast_of_nat)
  ultimately show ?thesis
    using assms(3,4) atoi_to_string by (simp add: read_seq_def u64_ptr_def ptr_u64_def)
qed

section \<open>The server's loop\<close>

lemma seq_loop_run:
  assumes "k \<le> length wcs" "k < 2 ^ 31" "i \<le> k"
    and "\<And>j. j < k \<Longrightarrow> read_seq m (u64_ptr (wc_id (wcs ! j))) off sz = Inr (val j)"
  shows "seq_loop m off sz limit \<lparr>ri_idx = of_nat i, ri_total = of_nat k, ri_bound = b\<rparr> wcs cnt =
    Inr (case find (\<lambda>j. limit \<le> val j) [i..<k] of
           None \<Rightarrow> (False, cnt + of_nat (k - i)) | Some j \<Rightarrow> (True, cnt + of_nat (j - i + 1)))"
  using assms(3)
proof (induction "k - i" arbitrary: i cnt)
  case 0
  then show ?case
    by (subst seq_loop.simps) (simp add: ri_end)
next
  case (Suc n)
  then have i: "i < k"
    by simp
  note r = ri_at [OF i assms(1,2), of b]
  have ih: "seq_loop m off sz limit \<lparr>ri_idx = of_nat (Suc i), ri_total = of_nat k, ri_bound = b\<rparr> wcs (cnt + 1) =
    Inr (case find (\<lambda>j. limit \<le> val j) [Suc i..<k] of
           None \<Rightarrow> (False, cnt + 1 + of_nat (k - Suc i)) | Some j \<Rightarrow> (True, cnt + 1 + of_nat (j - Suc i + 1)))"
    using Suc.hyps i by (intro Suc.hyps(1)) simp_all
  have one: "cnt + 1 + of_nat (x - Suc i) = cnt + of_nat (x - i)" "cnt + 1 + of_nat (x - Suc i + 1) = cnt + of_nat (x - i + 1)"
    if "i < x" for x
    using that by (simp_all add: of_nat_diff)
  have found: "find (\<lambda>j. limit \<le> val j) [Suc i..<k] = Some j \<Longrightarrow> i < j" for j
    by (auto simp: find_Some_iff)
  show ?case
    using i ih one(1) [OF i] one(2) r assms(4) [OF i] found
    by (subst seq_loop.simps) (auto simp: upt_conv_Cons of_nat_1 [unfolded One_nat_def] split: option.splits simp del: of_nat_Suc of_nat_add)
qed

text \<open>
  The documented behaviour of a device that delivers the messages \<open>msgs\<close> in order: \<open>seen\<close> is the number
  of messages delivered, each into the buffer its completion names, at the offset \<open>off\<close>. While
  messages are outstanding and a buffer is posted, \<open>lag\<close> bounds the number of polls that find none.
\<close>

definition polled :: "c_int \<Rightarrow> nat" where
  "polled k = (if k <s 0 then 0 else unat k)"

definition deliver_law ::
  "'d verbs \<Rightarrow> 'd memory \<Rightarrow> ('d \<Rightarrow> nat \<Rightarrow> (u64 \<times> sge) list) \<Rightarrow> nat \<Rightarrow> nat \<Rightarrow> u64 \<Rightarrow> bytes list \<Rightarrow> ('d \<Rightarrow> nat) \<Rightarrow> ('d \<Rightarrow> nat) \<Rightarrow> bool"
where
  "deliver_law V M rq h c off msgs seen lag \<longleftrightarrow>
     (\<forall>n d k ws d'. v_poll_cq V (Some c) n d = ((k, ws), d') \<longrightarrow>
        seen d' = seen d + polled k \<and> (seen d \<le> length msgs \<longrightarrow> seen d' \<le> length msgs) \<and>
        (polled k = 0 \<and> 0 < n \<and> rq d h \<noteq> [] \<and> seen d < length msgs \<longrightarrow> lag d' < lag d) \<and>
        (\<forall>i < polled k. mem_read (wc_id (ws ! i) + off) (length (msgs ! (seen d + i))) (mem_of M d') = msgs ! (seen d + i))) \<and>
     (\<forall>h wrs d. seen (snd (v_post_recv V h wrs d)) = seen d \<and> lag (snd (v_post_recv V h wrs d)) = lag d)"

lemma deliver_lawD:
  assumes "deliver_law V M rq h c off msgs seen lag" "v_poll_cq V (Some c) n d = ((k, ws), d')"
  shows "seen d' = seen d + polled k" "seen d \<le> length msgs \<Longrightarrow> seen d' \<le> length msgs"
    "polled k = 0 \<and> 0 < n \<and> rq d h \<noteq> [] \<and> seen d < length msgs \<longrightarrow> lag d' < lag d"
    "\<forall>i < polled k. mem_read (wc_id (ws ! i) + off) (length (msgs ! (seen d + i))) (mem_of M d') = msgs ! (seen d + i)"
  using conjunct1 [OF assms(1) [unfolded deliver_law_def], rule_format, OF assms(2)] by blast+

lemma ri_clear_keeps:
  assumes "\<And>h wrs d. f (snd (v_post_recv V h wrs d)) = f d"
  shows "keepsA f (ri_clear V q e it)"
proof -
  have "keepsA f (post_recvs V q e' n)" for e' n
    unfolding post_recvs_def Let_def
    by (auto simp: keepsA_def bindA_def liftA_def callA_def assms split: prod.splits sum.splits) (metis assms snd_conv)
  then show ?thesis
    unfolding ri_clear_def by (intro keepsA_bindA keepsA_if keepsA_pair keepsA_retA) auto
qed

text \<open>A pass of the counting loop is a pass of the iterator, with the messages read in between.\<close>

lemma seq_pass_recv:
  assumes "ri_new V q e d = (Inr (it, e1), d1)" "seq_loop (mem_of M d1) off sz limit it (re_wcs e1) cnt = Inr r"
    and "recv_pass V q e d = (Inr (ms, e'), d')" "\<And>h wrs d. f (snd (v_post_recv V h wrs d)) = f d"
  shows "seq_pass V M off sz limit q e cnt d = (Inr (r, e'), d')" and "f d' = f d1"
proof -
  obtain it' where c: "ri_clear V q e1 it d1 = (Inr (it', e'), d')"
    using assms(1,3) by (auto simp: recv_pass_def bindA_def liftA_def retA_def split: prod.splits sum.splits)
  then show "seq_pass V M off sz limit q e cnt d = (Inr (r, e'), d')"
    using assms(1,2) by (simp add: seq_pass_def bindA_def retA_def)
  show "f d' = f d1"
    using ri_clear_keeps [of f V q e1 it, OF assms(4)] c by (auto simp: keepsA_def dest: spec [of _ d1])
qed

text \<open>The state between two passes: the ring is whole, and its buffers are not null.\<close>

definition serving :: "('d \<Rightarrow> nat \<Rightarrow> (u64 \<times> sge) list) \<Rightarrow> nat \<Rightarrow> recv_entries \<Rightarrow> 'd \<Rightarrow> bool" where
  "serving rq h e d \<longleftrightarrow> (\<exists>t. at_entry e t \<and> rq d h = posted_from e t) \<and> (\<forall>x \<in> set (re_rs e). rw_id x \<noteq> 0)"

lemma posted_ids: "recv_wf e \<Longrightarrow> x \<in> set (posted_from e t) \<Longrightarrow> fst x \<in> rw_id ` set (re_rs e)"
  using ring_seg_cycle [of "length (re_rs e)" t] by (auto simp: posted_from_def re_desc_def recv_wf_def)

text \<open>The buffers that a poll reports are buffers of the ring, so none of them is null.\<close>

lemma polled_buffers:
  assumes "recv_lawful V rq h c" "recv_wf e" "\<forall>x \<in> set (re_rs e). rw_id x \<noteq> 0" "rq d h = posted_from e t"
    and "v_poll_cq V (Some c) m d = ((kk, ws), d1)" "\<not> kk <s 0" "w \<in> set ws"
  shows "wc_id w \<noteq> 0"
proof -
  obtain used where u: "rq d h = used @ rq d1 h" "map wc_id ws = map fst used"
    using recv_lawful_poll(2) [OF assms(1,5,6)] by blast
  have "wc_id w \<in> set (map fst used)"
    using assms(7) unfolding u(2) [symmetric] by simp
  moreover have "set used \<subseteq> set (posted_from e t)"
    using u(1) assms(4) by (metis Un_upper1 set_append)
  ultimately show ?thesis
    using posted_ids [OF assms(2)] assms(3) by fastforce
qed

text \<open>The loop over what a poll has reported: the numbers \<open>num\<close> in the buffers, up to the first one that reaches the limit.\<close>

lemma seq_loop_polled:
  assumes law: "recv_lawful V rq h c" and wf: "recv_wf e" "\<forall>x \<in> set (re_rs e). rw_id x \<noteq> 0" "rq d h = posted_from e t"
    and poll: "v_poll_cq V (Some c) (length (re_rs e)) d = ((kk, ws), d1)"
    and nums: "\<forall>j < polled kk. num j < 2 ^ 31 \<and> length (number_msg (num j)) \<le> sz \<and>
      mem_read (wc_id (ws ! j) + off) (length (number_msg (num j))) m = number_msg (num j)"
  shows "seq_loop m off sz limit \<lparr>ri_idx = 0, ri_total = kk, ri_bound = True\<rparr> (ws @ drop (length ws) (re_wcs e)) cnt =
    Inr (case find (\<lambda>j. limit \<le> of_nat (num j)) [0..<polled kk] of
           None \<Rightarrow> (False, cnt + of_nat (polled kk)) | Some j \<Rightarrow> (True, cnt + of_nat (j + 1)))"
proof (cases "kk <s 0")
  case True
  then show ?thesis
    by (subst seq_loop.simps) (simp add: ri_has_msgs_def word_sless_alt polled_def)
next
  case False
  have len: "length ws = polled kk" "polled kk \<le> length (re_rs e)"
    using recv_lawful_poll(2) [OF law poll False] False by (auto simp: polled_def)
  let ?wcs = "ws @ drop (length ws) (re_wcs e)"
  have wcs: "polled kk \<le> length ?wcs" "polled kk < 2 ^ 31" "kk = of_nat (polled kk)"
    using wf(1) False len by (auto simp: recv_wf_def polled_def)
  have "read_seq m (u64_ptr (wc_id (?wcs ! j))) off sz = Inr (of_nat (num j))" if j: "j < polled kk" for j
    using polled_buffers [OF law wf poll False, of "ws ! j"] nums j len(1) by (simp add: nth_append read_seq_number)
  from seq_loop_run [OF wcs(1,2) le0 this, of limit True cnt, unfolded diff_zero] show ?thesis
    using wcs(3) by simp
qed

lemma seq_pass_step:
  assumes law: "recv_lawful V rq h c" "deliver_law V M rq h c off (map number_msg xs) seen lag"
    and q: "d_qp q = Some h" "d_recv_cq q = Some c" and e: "serving rq h e d" "seen d \<le> length xs"
    and nums: "\<forall>x \<in> set xs. x < 2 ^ 31 \<and> length (number_msg x) \<le> sz"
  shows "\<exists>k e' d'. seq_pass V M off sz limit q e cnt d =
      (Inr (case find (\<lambda>j. limit \<le> of_nat (xs ! (seen d + j))) [0..<k] of
              None \<Rightarrow> (False, cnt + of_nat k) | Some j \<Rightarrow> (True, cnt + of_nat (j + 1)), e'), d') \<and>
    serving rq h e' d' \<and> seen d' = seen d + k \<and> seen d' \<le> length xs \<and> (k = 0 \<and> seen d < length xs \<longrightarrow> lag d' < lag d)"
proof -
  obtain t where t: "at_entry e t" "rq d h = posted_from e t"
    using e(1) by (auto simp: serving_def)
  have wf: "recv_wf e" and ids: "\<forall>x \<in> set (re_rs e). rw_id x \<noteq> 0"
    using t(1) e(1) by (simp_all add: at_entry_def serving_def)
  obtain kk ws d1 where poll: "v_poll_cq V (Some c) (length (re_rs e)) d = ((kk, ws), d1)"
    by (metis prod.collapse)
  have "rq d h = posted_from e t" "length (posted_from e t) = length (re_rs e)" "0 < length (re_rs e)"
    using t(2) wf by (simp_all add: posted_from_def recv_wf_def)
  then have some: "0 < length (re_rs e)" "rq d h \<noteq> []"
    by auto
  let ?k = "polled kk" and ?e1 = "e\<lparr>re_wcs := ws @ drop (length ws) (re_wcs e)\<rparr>"
  have del: "seen d1 = seen d + ?k" "seen d1 \<le> length xs" "?k = 0 \<and> seen d < length xs \<longrightarrow> lag d1 < lag d"
    using deliver_lawD(1-3) [OF law(2) poll] e(2) some by (simp_all only: length_map simp_thms)
  have "\<forall>j < ?k. xs ! (seen d + j) < 2 ^ 31 \<and> length (number_msg (xs ! (seen d + j))) \<le> sz \<and>
      mem_read (wc_id (ws ! j) + off) (length (number_msg (xs ! (seen d + j)))) (mem_of M d1) = number_msg (xs ! (seen d + j))"
    using deliver_lawD(4) [OF law(2) poll] del(1,2) nums by simp
  note loop = seq_loop_polled [OF law(1) wf ids t(2) poll this, of limit cnt]
  have new: "ri_new V q e d = (Inr (\<lparr>ri_idx = 0, ri_total = kk, ri_bound = True\<rparr>, ?e1), d1)"
    using ri_new_apply [of V q e d kk ws d1] poll q(2) by simp
  obtain k2 ms e' d' where p: "recv_pass V q e d = (Inr (ms, e'), d')" "re_rs e' = re_rs e"
      "at_entry e' (t + k2)" "rq d' h = posted_from e' (t + k2)"
    using recv_pass_step [OF law(1) q t] by metis
  have keep: "(seen (snd (v_post_recv V h wrs d)), lag (snd (v_post_recv V h wrs d))) = (seen d, lag d)" for h wrs d
    using law(2) by (simp add: deliver_law_def)
  have "seq_loop (mem_of M d1) off sz limit \<lparr>ri_idx = 0, ri_total = kk, ri_bound = True\<rparr> (re_wcs ?e1) cnt =
      Inr (case find (\<lambda>j. limit \<le> of_nat (xs ! (seen d + j))) [0..<?k] of
         None \<Rightarrow> (False, cnt + of_nat ?k) | Some j \<Rightarrow> (True, cnt + of_nat (j + 1)))"
    using loop by simp
  note s = seq_pass_recv [where f = "\<lambda>d. (seen d, lag d)", OF new this p(1) keep]
  have "serving rq h e' d'"
    using p ids by (auto simp: serving_def)
  with s del show ?thesis
    by (intro exI [of _ ?k] exI [of _ e'] exI [of _ d']) simp
qed

text \<open>The whole loop: it ends with the first number that reaches the limit, having counted up to it.\<close>

lemma seq_serve_counts:
  assumes law: "recv_lawful V rq h c" "deliver_law V M rq h c off (map number_msg xs) seen lag"
    and q: "d_qp q = Some h" "d_recv_cq q = Some c"
    and nums: "\<forall>x \<in> set xs. x < 2 ^ 31 \<and> length (number_msg x) \<le> sz"
    and last: "N < length xs" "limit \<le> (of_nat (xs ! N) :: u64)" "\<forall>j < N. \<not> limit \<le> (of_nat (xs ! j) :: u64)"
    and e: "serving rq h e d" "seen d \<le> N"
  shows "\<exists>f0 e' d'. (\<forall>f \<ge> f0. seq_serve V M off sz limit q f e (of_nat (seen d)) d = (Inr (of_nat (N + 1), e'), d')) \<and>
    serving rq h e' d'"
  using e
proof (induction "(N - seen d, lag d)" arbitrary: e d rule: wf_induct_rule [OF wf_lex_prod [OF wf_less_than wf_less_than]])
  case 1
  obtain k e1 d1 where p: "seq_pass V M off sz limit q e (of_nat (seen d)) d =
      (Inr (case find (\<lambda>j. limit \<le> of_nat (xs ! (seen d + j))) [0..<k] of
              None \<Rightarrow> (False, of_nat (seen d) + of_nat k) | Some j \<Rightarrow> (True, of_nat (seen d) + of_nat (j + 1)), e1), d1)"
    "serving rq h e1 d1" "seen d1 = seen d + k" "seen d1 \<le> length xs" "k = 0 \<and> seen d < length xs \<longrightarrow> lag d1 < lag d"
    using seq_pass_step [OF law q 1(2) _ nums, of limit "of_nat (seen d)"] 1(3) last(1) by fastforce
  show ?case
  proof (cases "N < seen d + k")
    case True
    then have "find (\<lambda>j. limit \<le> of_nat (xs ! (seen d + j))) [0..<k] = Some (N - seen d)"
      using last(2,3) 1(3) by (auto simp: find_Some_iff intro!: exI [of _ "N - seen d"])
    then have run: "seq_serve V M off sz limit q (Suc f) e (of_nat (seen d)) d = (Inr (of_nat (N + 1), e1), d1)" for f
      using p(1) 1(3) by (simp add: bindA_def retA_def of_nat_diff)
    have "seq_serve V M off sz limit q f e (of_nat (seen d)) d = (Inr (of_nat (N + 1), e1), d1)" if "f \<ge> 1" for f
      using run [of "f - 1"] that by simp
    then show ?thesis
      using p(2) by blast
  next
    case False
    then have none: "find (\<lambda>j. limit \<le> of_nat (xs ! (seen d + j))) [0..<k] = None"
      using last(3) by (auto simp: find_None_iff)
    have "((N - seen d1, lag d1), (N - seen d, lag d)) \<in> less_than <*lex*> less_than"
      using p(3,5) False last(1) by auto
    then obtain f0 e' d' where ih: "\<forall>f \<ge> f0. seq_serve V M off sz limit q f e1 (of_nat (seen d1)) d1 = (Inr (of_nat (N + 1), e'), d')"
        "serving rq h e' d'"
      using 1(1) [OF _ p(2)] False p(3) by force
    have "seq_serve V M off sz limit q (Suc f) e (of_nat (seen d)) d = seq_serve V M off sz limit q f e1 (of_nat (seen d1)) d1" for f
      using p(1,3) none by (simp add: bindA_def)
    then have "seq_serve V M off sz limit q f e (of_nat (seen d)) d = (Inr (of_nat (N + 1), e'), d')" if "f \<ge> Suc f0" for f
      using ih(1) that by (cases f) auto
    then show ?thesis
      using ih(2) by blast
  qed
qed

section \<open>The client's messages\<close>

text \<open>
  \<open>trace\<close> is what an observer of the device sees leave: the opcode and the bytes of each accepted
  request, read from memory when it is posted.
\<close>

definition wr_message :: "(u64 \<Rightarrow> u8) \<Rightarrow> send_wr \<Rightarrow> nat \<times> bytes" where
  "wr_message m wr = (wr_op wr, concat (map (\<lambda>s. mem_read (sge_addr s) (unat (sge_length s)) m) (wr_sges wr)))"

definition put_law :: "'d memory \<Rightarrow> ('d \<Rightarrow> 'v) \<Rightarrow> bool" where
  "put_law M f \<longleftrightarrow> (\<forall>a bs d. mem_of M (mem_put M a bs d) = mem_write a bs (mem_of M d) \<and> f (mem_put M a bs d) = f d)"

definition trace_law :: "'d verbs \<Rightarrow> 'd memory \<Rightarrow> ('d \<Rightarrow> (nat \<times> bytes) list) \<Rightarrow> bool" where
  "trace_law V M trace \<longleftrightarrow>
     (\<forall>h wrs d. fst (v_post_send V h wrs d) = 0 \<longrightarrow>
        trace (snd (v_post_send V h wrs d)) = trace d @ map (wr_message (mem_of M d)) wrs) \<and>
     (\<forall>c n d. trace (snd (v_poll_cq V c n d)) = trace d) \<and> (\<forall>d. trace (snd (v_now V d)) = trace d)"

lemma mem_read_text:
  assumes "length msg < 2 ^ 63"
  shows "mem_read a (length msg + 1) (mem_write a msg (mem_write a (replicate (length msg + 1) 0) m)) = msg @ [0]"
proof (rule nth_equalityI)
  fix i
  assume "i < length (mem_read a (length msg + 1) (mem_write a msg (mem_write a (replicate (length msg + 1) 0) m)))"
  then have i: "i < length msg + 1"
    by (simp add: mem_read_def)
  then have "unat (of_nat i :: u64) = i"
    using assms by (intro u64_of_nat) simp
  then show "mem_read a (length msg + 1) (mem_write a msg (mem_write a (replicate (length msg + 1) 0) m)) ! i = (msg @ [0]) ! i"
    using i by (cases "i = length msg") (simp_all add: mem_read_def mem_write_def nth_append del: replicate_Suc)
qed (simp add: mem_read_def)

lemma put_text_ok:
  assumes "put_law M f" "buf \<noteq> 0" "length msg + 1 \<le> unat sz" "unat sz < 2 ^ 63"
  shows "\<exists>d'. put_text M buf sz msg d = (Inr (), d') \<and> mem_read buf (length msg + 1) (mem_of M d') = msg @ [0] \<and> f d' = f d"
  using assms mem_read_text [of msg buf "mem_of M d"]
  by (simp add: put_text_def bindA_def store_local_def put_law_def del: replicate_Suc)

lemma send_and_wait_posts:
  assumes "send_and_wait V rdesc payload s = (Inr (), s')"
    and "rc_local_mr (cm_rc s) = Some lmr" "rc_remote_mr (cm_rc s) = Some rmr"
    and "\<And>c n d. f (snd (v_poll_cq V c n d)) = f d" "\<And>d. f (snd (v_now V d)) = f d"
  obtains wr d1 where "v_post_send V (d_qp (cm_rc s)) [wr] (cm_drv s) = (0, d1)"
    "wr_access wr = access_of rdesc payload lmr rmr" "f (cm_drv s') = f d1"
proof -
  obtain wid q1 where e: "encode_my_wr (rd_wr_id rdesc) 1 (cm_rc s) = (wid, q1)"
    by fastforce
  then have q1: "d_qp q1 = d_qp (cm_rc s)"
    by (auto simp: encode_my_wr_def split: prod.splits)
  define wr where "wr = \<lparr>wr_id = wid, wr_op = rd_op rdesc, wr_flags = rd_flags rdesc,
      wr_imm = ucast (rp_imm_data payload),
      wr_sges = [\<lparr>sge_addr = ptr_u64 (rp_local_addr payload), sge_length = rd_len rdesc, sge_lkey = ra_lkey lmr\<rparr>],
      wr_remote_addr = ra_buf rmr + rp_remote_addr payload, wr_rkey = ra_key rmr, wr_compare_add = 0, wr_swap = 0\<rparr>"
  obtain rc d1 where post: "v_post_send V (d_qp (cm_rc s)) [wr] (cm_drv s) = (rc, d1)"
    by fastforce
  define q2 where "q2 = (if rd_flags rdesc AND v_signaled V \<noteq> 0 then q1\<lparr>d_out_signaled := d_out_signaled q1 + 1\<rparr> else q1)"
  have "d_qp q2 = d_qp (cm_rc s)"
    by (simp add: q2_def q1)
  then have send: "code (rc_status (cm_rc s)) = IO_Ok \<Longrightarrow> rc_send_default V rdesc payload (cm_rc s) (cm_drv s) =
      (Inr (if rc = 0 then Ok [] else Err (v_strerror V d1), q2), d1)"
    using assms(2,3) e post
    by (simp add: rc_send_default_def rc_send_normal_def bindA_def liftA_def callA_def Let_def wr_def [symmetric] q2_def)
  have ready: "code (rc_status (cm_rc s)) = IO_Ok"
    using assms(1-3) by (auto simp: send_and_wait_def rc_send_default_def rc_send_normal_def bindA_def liftA_def failA_def
        split: if_splits)
  then have rc: "rc = 0"
    using assms(1) send by (auto simp: send_and_wait_def Err_def split: if_splits)
  then obtain r q' d' where w: "wait_one_comp V no_timeout q2 d1 = Some (r, q', d')" "s' = s\<lparr>cm_rc := q', cm_drv := d'\<rparr>"
    using assms(1) send [OF ready] by (auto simp: send_and_wait_def Ok_def assertE_def split: option.splits if_splits)
  have "f d' = f d1"
    by (rule wait_keeps [OF assms(4,5) w(1)])
  then show thesis
    using that [of wr d1] post rc w(2) by (simp add: wr_access_def access_of_def wr_def)
qed

lemma number_msg_length: "n < 2 ^ 31 \<Longrightarrow> length (number_msg n) \<le> 11"
proof -
  have digits: "length (nat_digits n []) \<le> Suc k" if "n < 10 ^ Suc k" for n k
    using that
  proof (induction k arbitrary: n)
    case 0
    then show ?case
      by (simp add: nat_digits_step [of n])
  next
    case (Suc k)
    then have "n div 10 < 10 ^ Suc k"
      by (simp add: less_mult_imp_div_less)
    from Suc.IH [OF this] show ?case
      by (simp add: nat_digits_step [of n])
  qed
  assume "n < 2 ^ 31"
  then have "n < 10 ^ Suc 9"
    by simp
  from digits [OF this] show ?thesis
    by (simp add: number_msg_def to_string_def)
qed

lemma send_number_ok:
  assumes laws: "post_law V h pend cap" "0 < cap" "poll_law V c pend lag" "clock_range V" "log_law V sent" "trace_law V M trace"
      "put_law M (\<lambda>d. (pend d, trace d))"
    and s: "ready_to_send pend h c lmr rmr s" "buf \<noteq> 0" "11 \<le> unat sz" "unat sz < 2 ^ 63" "i < 2 ^ 31"
  shows "\<exists>q d. send_number V imm M buf sz i s = (Inr (), s\<lparr>cm_rc := q, cm_drv := d\<rparr>) \<and>
    ready_to_send pend h c lmr rmr (s\<lparr>cm_rc := q, cm_drv := d\<rparr>) \<and>
    trace d = trace (cm_drv s) @ [(imm, number_msg i)]"
proof -
  let ?msg = "to_string (int i)"
  have len: "length ?msg + 1 \<le> unat sz" "length ?msg < 2 ^ 31"
    using number_msg_length [OF s(5)] s(3) by (simp_all add: number_msg_def)
  obtain d0 where d0: "put_text M buf sz ?msg (cm_drv s) = (Inr (), d0)"
      "mem_read buf (length ?msg + 1) (mem_of M d0) = number_msg i" "pend d0 = pend (cm_drv s)" "trace d0 = trace (cm_drv s)"
    using put_text_ok [OF laws(7) s(2) len(1) s(4), of "cm_drv s"] by (auto simp: number_msg_def)
  let ?s = "s\<lparr>cm_drv := d0\<rparr>"
  let ?dx = "\<lparr>rd_op = imm, rd_flags = v_signaled V, rd_len = of_nat (length ?msg) + 1, rd_wr_id = 0\<rparr>"
  let ?pl = "\<lparr>rp_local_addr = u64_ptr buf, rp_remote_addr = 0, rp_imm_data = 0\<rparr>"
  have ready: "ready_to_send pend h c lmr rmr ?s"
    using s(1) d0(3) by (simp add: ready_to_send_def)
  obtain q d where run: "send_and_wait V ?dx ?pl ?s = (Inr (), ?s\<lparr>cm_rc := q, cm_drv := d\<rparr>)"
      "ready_to_send pend h c lmr rmr (?s\<lparr>cm_rc := q, cm_drv := d\<rparr>)"
    using send_and_wait_ok [OF laws(1-5) ready, of ?dx ?pl] by auto
  obtain wr d1 where wr: "v_post_send V (d_qp (cm_rc ?s)) [wr] (cm_drv ?s) = (0, d1)"
      "wr_access wr = access_of ?dx ?pl lmr rmr" "trace (cm_drv (?s\<lparr>cm_rc := q, cm_drv := d\<rparr>)) = trace d1"
  proof (rule send_and_wait_posts [OF run(1), where f = trace])
    show "rc_local_mr (cm_rc ?s) = Some lmr" "rc_remote_mr (cm_rc ?s) = Some rmr"
      using ready by (simp_all add: ready_to_send_def)
  qed (use laws(6) that in \<open>simp_all add: trace_law_def\<close>)
  have "unat (of_nat (length ?msg) + 1 :: u32) = length ?msg + 1"
    using len(2) usize_nat [of "length ?msg + 1"] by (simp add: add.commute)
  then have "wr_message (mem_of M d0) wr = (imm, number_msg i)"
    using wr(2) s(2) d0(2) by (simp add: wr_message_def wr_access_def access_of_def u64_ptr_def ptr_u64_def)
  moreover have "trace d1 = trace d0 @ [wr_message (mem_of M d0) wr]"
    using laws(6) wr(1) unfolding trace_law_def by (elim conjE allE [of _ "d_qp (cm_rc ?s)"] allE [of _ "[wr]"] allE [of _ d0]) simp
  moreover have "send_number V imm M buf sz i s = (Inr (), s\<lparr>cm_rc := q, cm_drv := d\<rparr>)"
    using d0(1) run(1) s(5) by (simp add: send_number_def Let_def bindA_def cmD_def)
  ultimately show ?thesis
    using run(2) wr(3) d0(4) by (intro exI [of _ q] exI [of _ d]) simp
qed

lemma send_numbers_ok:
  assumes laws: "post_law V h pend cap" "0 < cap" "poll_law V c pend lag" "clock_range V" "log_law V sent" "trace_law V M trace"
      "put_law M (\<lambda>d. (pend d, trace d))"
    and s: "ready_to_send pend h c lmr rmr s" "buf \<noteq> 0" "11 \<le> unat sz" "unat sz < 2 ^ 63" "n < 2 ^ 31"
  shows "\<exists>q d. send_numbers V imm M buf sz n s = (Inr (), s\<lparr>cm_rc := q, cm_drv := d\<rparr>) \<and>
    trace d = trace (cm_drv s) @ map (\<lambda>i. (imm, number_msg i)) [1..<Suc n]"
proof -
  have "\<forall>i \<in> set xs. i < 2 ^ 31 \<Longrightarrow> ready_to_send pend h c lmr rmr s \<Longrightarrow>
    \<exists>q d. each (send_number V imm M buf sz) xs s = (Inr (), s\<lparr>cm_rc := q, cm_drv := d\<rparr>) \<and>
      trace d = trace (cm_drv s) @ map (\<lambda>i. (imm, number_msg i)) xs" for xs
  proof (induction xs arbitrary: s)
    case Nil
    then show ?case
      by (intro exI [of _ "cm_rc s"] exI [of _ "cm_drv s"]) (simp add: retA_def)
  next
    case (Cons i xs)
    obtain q d where 1: "send_number V imm M buf sz i s = (Inr (), s\<lparr>cm_rc := q, cm_drv := d\<rparr>)"
        "ready_to_send pend h c lmr rmr (s\<lparr>cm_rc := q, cm_drv := d\<rparr>)" "trace d = trace (cm_drv s) @ [(imm, number_msg i)]"
      using send_number_ok [OF laws Cons.prems(2) s(2-4), of i imm] Cons.prems(1) by auto
    with Cons.IH [OF _ 1(2)] Cons.prems(1) show ?case
      by (auto simp: bindA_def)
  qed
  from this [OF _ s(1), of "[1..<Suc n]"] s(5) show ?thesis
    unfolding send_numbers_def by (simp del: upt_Suc)
qed

section \<open>The numbers from end to end\<close>

text \<open>
  C14: Rc_overflow, both loops. The client hands its device exactly the numbers from one to
  \<open>n\<close>, each as a text with its terminating zero, and returns. Over a device of the server that delivers
  these messages in order, into the posted buffers and as many at a time as it likes, the
  server's loop returns after finitely many iterators, having counted exactly \<open>n\<close>
  messages, with its ring whole.
\<close>
theorem rc_overflow_counts:
  fixes V1 :: "'d verbs" and V2 :: "'e verbs"
  assumes client: "post_law V1 h1 pend cap" "0 < cap" "poll_law V1 c1 pend lag1" "clock_range V1" "log_law V1 sent"
      "trace_law V1 M1 trace" "put_law M1 (\<lambda>d. (pend d, trace d))" "ready_to_send pend h1 c1 lmr rmr s" "buf \<noteq> 0"
      "0 < n" "n < 2 ^ 31"
    and server: "recv_lawful V2 rq h c" "deliver_law V2 M2 rq h c 0 (map number_msg [1..<Suc n]) seen lag"
      "d_qp q = Some h" "d_recv_cq q = Some c" "serving rq h e d" "seen d = 0"
  shows "\<exists>s' f0 e' d'. send_numbers V1 imm M1 buf (1024 * 1024) n s = (Inr (), s') \<and>
    trace (cm_drv s') = trace (cm_drv s) @ map (\<lambda>i. (imm, number_msg i)) [1..<Suc n] \<and>
    (\<forall>f \<ge> f0. seq_serve V2 M2 0 2048 (of_nat n) q f e 0 d = (Inr (of_nat n, e'), d')) \<and> serving rq h e' d'"
proof -
  obtain q1 d1 where 1: "send_numbers V1 imm M1 buf (1024 * 1024) n s = (Inr (), s\<lparr>cm_rc := q1, cm_drv := d1\<rparr>)"
      "trace d1 = trace (cm_drv s) @ map (\<lambda>i. (imm, number_msg i)) [1..<Suc n]"
    using send_numbers_ok [OF client(1-9) _ _ client(11), of "1024 * 1024" imm] by auto
  have nums: "\<forall>x \<in> set [1..<Suc n]. x < 2 ^ 31 \<and> length (number_msg x) \<le> 2048"
  proof
    fix x
    assume "x \<in> set [1..<Suc n]"
    then have "x < 2 ^ 31"
      using client(11) by (simp del: upt_Suc)
    then show "x < 2 ^ 31 \<and> length (number_msg x) \<le> 2048"
      using number_msg_length [of x] by simp
  qed
  have val: "unat (of_nat x :: u64) = x" if "x \<le> n" for x
    using that client(11) by (intro u64_of_nat) simp
  have at: "[1..<Suc n] ! j = Suc j" if "j < n" for j
    using that by (simp del: upt_Suc)
  have "of_nat n \<le> (of_nat ([1..<Suc n] ! (n - 1)) :: u64)"
    using client(10) at [of "n - 1"] by (simp del: upt_Suc)
  moreover have "\<forall>j < n - 1. \<not> of_nat n \<le> (of_nat ([1..<Suc n] ! j) :: u64)"
    using val [of n] val [of "Suc j" for j] at by (auto simp: word_le_nat_alt simp del: upt_Suc of_nat_Suc)
  moreover have "n - 1 < length [1..<Suc n]"
    using client(10) by simp
  ultimately obtain f0 e' d' where
    "\<forall>f \<ge> f0. seq_serve V2 M2 0 2048 (of_nat n) q f e (of_nat (seen d)) d = (Inr (of_nat (n - 1 + 1), e'), d')" "serving rq h e' d'"
    using seq_serve_counts [OF server(1-4) nums _ _ _ server(5), of "n - 1" "of_nat n"] server(6) by auto
  with 1 client(10) server(6) show ?thesis
    by (intro exI [of _ "s\<lparr>cm_rc := q1, cm_drv := d1\<rparr>"] exI [of _ f0] exI [of _ e'] exI [of _ d']) simp
qed

text \<open>The entries that a factory cuts from a memory: whole, and no buffer at null.\<close>

lemma recv_fill_ids:
  assumes "recv_fill al sz i k e a = (Inr e', a')" "i + k \<le> length (re_rs e)" "length (re_sges e) = length (re_rs e)"
    and "\<forall>j < i. rw_id (re_rs e ! j) = sge_addr (re_sges e ! j)"
  shows "\<forall>j < i + k. rw_id (re_rs e' ! j) = sge_addr (re_sges e' ! j)"
  using assms
proof (induction k arbitrary: i e a)
  case 0
  then show ?case
    by (simp add: retA_def)
next
  case (Suc k)
  obtain o1 a1 where o1: "al sz a = (o1, a1)"
    by fastforce
  then obtain buf key where b: "o1 = Some (buf, key)"
    using Suc.prems(1) by (cases o1) (auto simp: bindA_def callA_def liftA_def)
  let ?e = "e\<lparr>re_rs := (re_rs e)[i := recv_entry (length (re_rs e)) i buf],
            re_sges := (re_sges e)[i := \<lparr>sge_addr = ptr_u64 buf, sge_length = sz, sge_lkey = key\<rparr>]\<rparr>"
  have "recv_fill al sz (Suc i) k ?e a1 = (Inr e', a')"
    using Suc.prems(1) by (simp add: bindA_def callA_def liftA_def o1 b)
  from Suc.IH [OF this] Suc.prems(2-4) show ?case
    by (simp add: less_Suc_eq nth_list_update recv_entry_def)
qed

lemma sa_entries:
  assumes "0 < b" "b + t < 2 ^ 64" "t < 2 ^ 32" "n * unat sz \<le> t" "0 < n" "n < 2 ^ 31" "0 < unat sz"
  shows "\<exists>e a'. recv_entries_create sa_alloc_one n sz (sa_at b t key) = (Inr e, a') \<and> recv_wf e \<and> length (re_rs e) = n \<and>
    re_header e = 0 \<and> (\<forall>x \<in> set (re_rs e). rw_id x \<noteq> 0)"
proof -
  obtain e where e: "recv_entries_create sa_alloc_one n sz (sa_at b t key) = (Inr e, sa_at (b + n * unat sz) (t - n * unat sz) key)"
      "\<forall>j < n. re_sges e ! j = \<lparr>sge_addr = of_nat (b + j * unat sz), sge_length = sz, sge_lkey = key\<rparr>"
    using sa_fill [OF assms(1-3), of 0 n "recv_entries_blank n" sz key] assms(4)
    by (auto simp: recv_entries_create_def recv_entries_blank_def)
  note wf = recv_entries_create_wf [OF e(1) assms(5,6)]
  have "rw_id (re_rs e ! j) = sge_addr (re_sges e ! j)" if "j < n" for j
    using recv_fill_ids [of sa_alloc_one sz 0 n "recv_entries_blank n" "sa_at b t key" e] e(1) that
    by (simp add: recv_entries_create_def recv_entries_blank_def)
  moreover have "(of_nat (b + j * unat sz) :: u64) \<noteq> 0" if j: "j < n" for j
  proof -
    have "j * unat sz < n * unat sz"
      using j assms(7) by simp
    then have "unat (of_nat (b + j * unat sz) :: u64) = b + j * unat sz"
      using assms(2,4) by (intro u64_of_nat) linarith
    with assms(1) show ?thesis
      by (metis add_is_0 less_numeral_extra(3) unat_0)
  qed
  ultimately have "\<forall>j < n. rw_id (re_rs e ! j) \<noteq> 0"
    using e(2) by simp
  then have "\<forall>x \<in> set (re_rs e). rw_id x \<noteq> 0"
    using wf(2) by (metis in_set_conv_nth)
  with e(1) wf show ?thesis
    by blast
qed

text \<open>
  A device for the witnesses, with memory, a send queue and a receive queue into which the
  messages \<open>msgs\<close> arrive one by one.
\<close>

record link =
  lk_mem :: "u64 \<Rightarrow> u8"
  lk_wrs :: "send_wr list"
  lk_log :: "send_wr list"
  lk_trace :: "(nat \<times> bytes) list"
  lk_rq :: "(u64 \<times> sge) list"
  lk_seen :: nat

definition link_start :: link where
  "link_start = \<lparr>lk_mem = (\<lambda>_. 0), lk_wrs = [], lk_log = [], lk_trace = [], lk_rq = [], lk_seen = 0\<rparr>"

definition link_memory :: "link memory" where
  "link_memory = \<lparr>mem_of = lk_mem, mem_put = (\<lambda>a bs d. d\<lparr>lk_mem := mem_write a bs (lk_mem d)\<rparr>)\<rparr>"

definition link_pend :: "link \<Rightarrow> bool list" where
  "link_pend d = map queue_signal (lk_wrs d)"

definition link_send_poll :: "link \<Rightarrow> (c_int \<times> wc list) \<times> link" where
  "link_send_poll d = (case dropWhile (\<lambda>wr. \<not> queue_signal wr) (lk_wrs d) of [] \<Rightarrow> ((0, []), d)
     | sr # srs \<Rightarrow> ((1, [\<lparr>wc_id = wr_id sr, wc_ok = True, wc_imm = wr_imm sr\<rparr>]), d\<lparr>lk_wrs := srs\<rparr>))"

definition link_recv_poll :: "u64 \<Rightarrow> bytes list \<Rightarrow> nat \<Rightarrow> link \<Rightarrow> (c_int \<times> wc list) \<times> link" where
  "link_recv_poll off msgs n d = (case (lk_rq d, drop (lk_seen d) msgs) of
       (x # xs, m # _) \<Rightarrow>
         if n = 0 then ((0, []), d)
         else ((1, [\<lparr>wc_id = fst x, wc_ok = True, wc_imm = 0\<rparr>]),
               d\<lparr>lk_rq := xs, lk_seen := lk_seen d + 1, lk_mem := mem_write (fst x + off) m (lk_mem d)\<rparr>)
     | _ \<Rightarrow> ((0, []), d))"

definition link_verbs :: "u64 \<Rightarrow> bytes list \<Rightarrow> link verbs" where
  "link_verbs off msgs = null_verbs\<lparr>
     v_post_send := (\<lambda>_ srs d. if length (lk_wrs d) + length srs \<le> 128
        then (0, d\<lparr>lk_wrs := lk_wrs d @ srs, lk_log := lk_log d @ srs, lk_trace := lk_trace d @ map (wr_message (lk_mem d)) srs\<rparr>)
        else (12, d)),
     v_post_recv := (\<lambda>_ wrs d. (0, d\<lparr>lk_rq := lk_rq d @ wrs\<rparr>)),
     v_poll_cq := (\<lambda>c n d. if c = Some 3 then link_recv_poll off msgs n d else link_send_poll d)\<rparr>"

lemma link_polls:
  "link_recv_poll off msgs n d = ((k, ws), d') \<Longrightarrow> lk_wrs d' = lk_wrs d \<and> lk_log d' = lk_log d \<and> lk_trace d' = lk_trace d"
  "link_send_poll d = ((k, ws), d') \<Longrightarrow> lk_log d' = lk_log d \<and> lk_trace d' = lk_trace d"
  by (auto simp: link_recv_poll_def link_send_poll_def split: list.splits if_splits)

lemma link_send_laws:
  "post_law (link_verbs off msgs) h link_pend 128" "poll_law (link_verbs off msgs) (Some 2) link_pend (\<lambda>_. 0)"
  "clock_range (link_verbs off msgs)" "log_law (link_verbs off msgs) lk_log" "trace_law (link_verbs off msgs) link_memory lk_trace"
  "put_law link_memory (\<lambda>d. (link_pend d, lk_trace d))"
proof -
  have some: "dropWhile (\<lambda>wr. \<not> queue_signal wr) xs = y # ys \<Longrightarrow> \<exists>x \<in> set xs. queue_signal x" for xs y ys
    by (metis dropWhile_eq_Nil_conv list.distinct(1))
  have keep: "lk_log (snd (v_poll_cq (link_verbs off msgs) c n d)) = lk_log d" "lk_trace (snd (v_poll_cq (link_verbs off msgs) c n d)) = lk_trace d"
    for c n d
    using link_polls by (auto simp: link_verbs_def null_verbs_def) (metis prod.collapse)+
  show "post_law (link_verbs off msgs) h link_pend 128"
    by (simp add: post_law_def link_verbs_def null_verbs_def link_pend_def queue_signal_def)
  show "poll_law (link_verbs off msgs) (Some 2) link_pend (\<lambda>_. 0)"
    unfolding poll_law_def
    by (auto simp: link_verbs_def null_verbs_def link_send_poll_def link_pend_def retire_map split: list.splits dest: some)
  show "clock_range (link_verbs off msgs)"
    by (simp add: clock_range_def link_verbs_def null_verbs_def)
  show "log_law (link_verbs off msgs) lk_log" "trace_law (link_verbs off msgs) link_memory lk_trace"
    using keep by (auto simp: log_law_def trace_law_def link_verbs_def null_verbs_def link_memory_def)
  show "put_law link_memory (\<lambda>d. (link_pend d, lk_trace d))"
    by (simp add: put_law_def link_memory_def link_pend_def)
qed

lemma link_recv_laws:
  assumes "\<forall>m \<in> set msgs. length m < 2 ^ 63"
  shows "recv_lawful (link_verbs off msgs) (\<lambda>d _. lk_rq d) h 3"
    "deliver_law (link_verbs off msgs) link_memory (\<lambda>d _. lk_rq d) h 3 off msgs lk_seen (\<lambda>_. 0)"
proof -
  have one: "\<not> 1 <s (0 :: c_int)" "\<not> 0 <s (0 :: c_int)"
    by (simp_all add: word_sless_alt)
  show "recv_lawful (link_verbs off msgs) (\<lambda>d _. lk_rq d) h 3"
    by (auto simp: recv_lawful_def recv_post_law_def recv_poll_law_def link_verbs_def null_verbs_def link_recv_poll_def one
        split: list.splits if_splits)
  have drop: "drop i msgs = m # ms \<Longrightarrow> i < length msgs \<and> m = msgs ! i" for i m ms
    by (metis drop_all leI list.distinct(1) nth_via_drop)
  have read: "i < length msgs \<Longrightarrow> mem_read a (length (msgs ! i)) (mem_write a (msgs ! i) f) = msgs ! i" for i a f
    using assms by (intro mem_read_write_same) (auto intro: less_imp_le)
  show "deliver_law (link_verbs off msgs) link_memory (\<lambda>d _. lk_rq d) h 3 off msgs lk_seen (\<lambda>_. 0)"
    by (auto simp: deliver_law_def link_verbs_def null_verbs_def link_recv_poll_def link_memory_def polled_def one read
        split: list.splits if_splits dest: drop)
qed

text \<open>Four buffers of 2048 bytes, all posted, and a connected queue pair.\<close>

lemma link_entries:
  "\<exists>e a'. recv_entries_create sa_alloc_one 4 2048 (sa_at 4096 8192 7) = (Inr e, a') \<and> serving (\<lambda>d _. lk_rq d) h e (link_start\<lparr>lk_rq := posted_from e 0\<rparr>)"
  using sa_entries [of 4096 8192 4 2048 7] by (auto simp: serving_def at_entry_def intro!: exI [of _ "0 :: nat"])

definition link_qp :: rc where
  "link_qp = sample_rc\<lparr>rc_local_mr := Some null_reg_attr, rc_remote_mr := Some null_reg_attr\<rparr>"

theorem rc_overflow_counts_witness:
  "\<exists>S s' f e a' e' d'. send_numbers (link_verbs 0 []) 2 link_memory 65536 (1024 * 1024) 9
       (\<lparr>cm_rpc = S, cm_net = (empty_net :: sockaddr_in net), cm_rc = link_qp, cm_drv = link_start\<rparr>) = (Inr (), s') \<and>
     map snd (lk_trace (cm_drv s')) = map number_msg [1..<10] \<and>
     recv_entries_create sa_alloc_one 4 2048 (sa_at 4096 8192 7) = (Inr e, a') \<and>
     seq_serve (link_verbs 0 (map number_msg [1..<10])) link_memory 0 2048 9 sample_qp f e 0 (link_start\<lparr>lk_rq := posted_from e 0\<rparr>) =
       (Inr (9, e'), d')"
proof -
  obtain S c where "srpc_new sample_lib 0 (bstr ''h:8888'') (h_cache sample_host) = (Inr S, c)"
    using sample_srpc by blast
  let ?s = "\<lparr>cm_rpc = S, cm_net = (empty_net :: sockaddr_in net), cm_rc = link_qp, cm_drv = link_start\<rparr>"
  obtain e a' where e: "recv_entries_create sa_alloc_one 4 2048 (sa_at 4096 8192 7) = (Inr e, a')"
      "serving (\<lambda>d _. lk_rq d) 1 e (link_start\<lparr>lk_rq := posted_from e 0\<rparr>)"
    using link_entries by blast
  have msgs: "\<forall>m \<in> set (map number_msg [1..<Suc 9]). length m < 2 ^ 63"
  proof
    fix m
    assume "m \<in> set (map number_msg [1..<Suc 9])"
    then obtain n where "m = number_msg n" "n < 2 ^ 31"
      by (auto simp del: upt_Suc)
    then show "length m < 2 ^ 63"
      using number_msg_length [of n] by simp
  qed
  have c: "(0 :: nat) < 128" "ready_to_send link_pend (Some 1) (Some 2) null_reg_attr null_reg_attr ?s" "(65536 :: u64) \<noteq> 0" "(0 :: nat) < 9"
      "(9 :: nat) < 2 ^ 31" "d_qp sample_qp = Some 1" "d_recv_cq sample_qp = Some 3" "lk_seen (link_start\<lparr>lk_rq := posted_from e 0\<rparr>) = 0"
    by (simp_all add: ready_to_send_def link_qp_def sample_rc_def Ok_def link_pend_def link_start_def sample_qp_def)
  note T = rc_overflow_counts [where imm = 2, OF link_send_laws(1) c(1) link_send_laws(2-6) c(2-5) link_recv_laws [OF msgs, of 0] c(6,7) e(2) c(8)]
  then obtain s' f e' d' where "send_numbers (link_verbs 0 []) 2 link_memory 65536 (1024 * 1024) 9 ?s = (Inr (), s')"
    "lk_trace (cm_drv s') = lk_trace (cm_drv ?s) @ map (\<lambda>i. (2, number_msg i)) [1..<Suc 9]"
    "seq_serve (link_verbs 0 (map number_msg [1..<Suc 9])) link_memory 0 2048 (of_nat 9) sample_qp f e 0 (link_start\<lparr>lk_rq := posted_from e 0\<rparr>) =
       (Inr (of_nat 9, e'), d')"
    by blast
  with e(1) show ?thesis
    by (intro exI [of _ S] exI [of _ s'] exI [of _ f] exI [of _ e] exI [of _ a'] exI [of _ e'] exI [of _ d'])
      (simp add: link_start_def comp_def del: upt_Suc)
qed

section \<open>Unreliable datagrams\<close>

text \<open>
  ud_pingpong. A line of 4000 bytes or more is written past the end of the buffer; that a line
  is too large is only logged. Polling for a request that the library did not post makes its
  count of signalled requests wrap.
\<close>

lemma ud_send_overruns:
  assumes "4000 \<le> length line" "length line < 2 ^ 63"
  shows "ud_send V ud_post M us line s = (Inl Undefined, s)"
  using assms by (simp add: ud_send_def bindA_def cuD_def put_text_def store_local_def split: prod.splits)

lemma ud_send_miscounts:
  assumes "ud_send V ud_post M us msg s = (Inr (), s')" "poll_law V (d_cq (cu_ud s)) pend lag"
    and "clock_range V" "\<And>h wr d. True \<in> set (pend (snd (ud_post h wr d)))"
  shows "ongoing_signaled (cu_ud s') = ongoing_signaled (cu_ud s) - 1"
proof -
  let ?msg = "cuD (put_text M (us_buf us) 4000 msg) s"
  obtain s1 where s1: "?msg = (Inr (), s1)" "cu_ud s1 = cu_ud s"
    using assms(1) by (cases ?msg) (auto simp: ud_send_def bindA_def cuD_def split: prod.splits sum.splits)
  let ?wr = "(us_wr us)\<lparr>uw_sge := (uw_sge (us_wr us))\<lparr>sge_length := of_nat (length msg + 1)\<rparr>\<rparr>"
  obtain rc d where post: "ud_post (d_qp (cu_ud s)) ?wr (cu_drv s1) = (rc, d)"
    by fastforce
  have "True \<in> set (pend d)"
    using assms(4) [of "d_qp (cu_ud s)" ?wr "cu_drv s1"] post by simp
  from wait_completes [OF assms(2,3) _ this, of "cu_ud s"] obtain x d2 where
    "wait_one_comp V no_timeout (cu_ud s) d = Some (Ok x, (cu_ud s)\<lparr>d_out_signaled := d_out_signaled (cu_ud s) - 1\<rparr>, d2)"
    by auto
  then show ?thesis
    using assms(1) s1 post by (auto simp: ud_send_def bindA_def ongoing_signaled_def split: if_splits)
qed

text \<open>The set-up of a server leaves the ring of buffers posted.\<close>

lemma posted_at_start:
  assumes "recv_lawful V rq h c" "d_qp q = Some h" "recv_wf e" "re_header e = 0" "rq d h = []"
    and "\<forall>x \<in> set (re_rs e). rw_id x \<noteq> 0"
  shows "\<exists>d0. post_recvs V q e (of_nat (length (re_rs e))) d = (Inr (Ok 0, e), d0) \<and> serving rq h e d0 \<and>
    d0 = snd (v_post_recv V (Some h) (posted_from e 0) d)"
proof -
  obtain k where n: "length (re_rs e) = Suc k"
    using assms(3) by (cases "length (re_rs e)") (auto simp: recv_wf_def)
  let ?wrs = "map (re_desc e) (ring_seg (length (re_rs e)) (unat (re_header e)) (Suc k))"
  have wrs: "?wrs = posted_from e 0"
    using n assms(4) by (simp add: posted_from_def)
  obtain d0 where d0: "v_post_recv V (Some h) ?wrs d = (0, d0)"
    using assms(1) unfolding recv_lawful_def by (metis prod.collapse)
  have "post_recvs V q e (of_nat (Suc k)) d = (Inr (Ok 0, e\<lparr>re_header := of_nat ((unat (re_header e) + Suc k) mod length (re_rs e))\<rparr>), d0)"
    by (rule post_recvs_ok) (use assms(2,3) n d0 in simp_all)
  then have "post_recvs V q e (of_nat (length (re_rs e))) d = (Inr (Ok 0, e), d0)"
    using n assms(4) by (simp del: of_nat_Suc)
  moreover have "rq d0 h = posted_from e 0"
    using assms(1,5) d0 wrs unfolding recv_lawful_def recv_post_law_def by (metis append_Nil fst_conv snd_conv)
  then have "serving rq h e d0"
    using assms(3,4,6) by (auto simp: serving_def at_entry_def intro!: exI [of _ "0 :: nat"])
  ultimately show ?thesis
    using d0 wrs by simp
qed

lemma entries_checked: "recv_wf e \<Longrightarrow> entries_sanity_check e = Inr ()"
proof -
  assume wf: "recv_wf e"
  have "rw_next (re_rs e ! i) = Some (i + 1)" if "i < length (re_rs e) - 1" for i
  proof -
    have "re_nexts e ! i = Some (Suc i mod length (re_nexts e))"
      using wf that by (simp add: recv_wf_def ring_def)
    then show ?thesis
      using that by (simp add: re_nexts_def)
  qed
  then show ?thesis
    using wf by (simp add: entries_sanity_check_def assertE_def list_all_iff recv_wf_def)
qed

lemma ud_server_setup_run:
  assumes "open_nic V idx d = (Inr nic, d1)" "reg_handler_create V (rmem_new af sz) nic (default_flags (v_access V)) d1 = (Inr (Some mr), d2)"
    and "ud_create V nic (default_config (v_access V)) d2 = (Inr (Some q), d3)"
    and "recv_lawful V rq h c" "d_qp q = Some h" "rq d3 h = []"
    and "af sz = Some p" "0 < p" "p + unat sz < 2 ^ 64" "unat sz < 2 ^ 32" "n * 4096 \<le> unat sz" "0 < n" "n < 2 ^ 31" "keys_law rnd"
  shows "\<exists>e s' d4. ud_server_setup rnd V af idx mem_name sz n (rctrl_blank r d) = (Inr (q, e), s') \<and> rt_drv s' = d4 \<and>
    serving rq h e d4 \<and> d4 = snd (v_post_recv V (Some h) (posted_from e 0) d3)"
proof -
  have mr: "rh_mem mr = rmem_new af sz"
    using assms(2) by (auto simp: reg_handler_create_def reg_handler_new_def reg_handler_destroy_def bindA_def callA_def retA_def split: prod.splits if_splits option.splits sum.splits)
  have "rh_valid mr"
    using assms(2) by (auto simp: reg_handler_create_def bindA_def retA_def split: prod.splits if_splits sum.splits)
  then obtain attr where attr: "get_reg_attr mr = Some attr"
    by (cases "rh_mr mr") (auto simp: rh_valid_def get_reg_attr_def)
  have sa: "sa_new (rh_mem mr) (ra_key attr) = sa_at p (unat sz) (ra_key attr)"
    using assms(7) by (simp add: sa_new_def sa_at_def mr rmem_new_def)
  have "n * unat (4096 :: usize) \<le> unat sz" "0 < unat (4096 :: usize)"
    using assms(11) by simp_all
  from sa_entries [OF assms(8-10) this(1) assms(12,13) this(2), of "ra_key attr"]
  obtain e a' where e: "recv_entries_create sa_alloc_one n 4096 (sa_at p (unat sz) (ra_key attr)) = (Inr e, a')" "recv_wf e"
      "length (re_rs e) = n" "re_header e = 0" "\<forall>x \<in> set (re_rs e). rw_id x \<noteq> 0"
    by blast
  obtain d4 where post: "post_recvs V q e (of_nat n) d3 = (Inr (Ok 0, e), d4)" "serving rq h e d4"
      "d4 = snd (v_post_recv V (Some h) (posted_from e 0) d3)"
    using posted_at_start [OF assms(4,5) e(2,4) assms(6) e(5)] e(3) by blast
  obtain k1 r1 where k1: "generate_key rnd r = Some (k1, r1)"
    using assms(14) unfolding keys_law_def by fastforce
  obtain k2 r2 where k2: "generate_key rnd r1 = Some (k2, r2)"
    using assms(14) unfolding keys_law_def by fastforce
  show ?thesis
    using assms(1-3) attr e post k1 k2 entries_checked [OF e(2)]
    by (auto simp: ud_server_setup_def bindA_def drvA_def new_region_def liftA_def offer_region_def reg_def rctrl_blank_def
        factory_empty_def sa register_ud_def reg_qp_def retA_def Ok_def)
qed

text \<open>
  C15: Ud_overflow's server, from its first line. With a device that brings a datagram queue pair
  up, its set-up posts all 128 buffers. Whatever numbers \<open>xs\<close> then arrive - those that find no buffer
  are lost before - the loop ends at the first number that reaches the limit, and its count is the
  number of messages that did arrive up to then.
\<close>
theorem ud_overflow_server_counts:
  assumes init: "open_nic V idx d = (Inr nic, d1)"
      "reg_handler_create V (rmem_new af (4 * 1024 * 1024)) nic (default_flags (v_access V)) d1 = (Inr (Some mr), d2)"
      "ud_create V nic (default_config (v_access V)) d2 = (Inr (Some q), d3)" "d_qp q = Some h" "d_recv_cq q = Some c"
      "rq d3 h = []" "seen d3 = 0" "af (4 * 1024 * 1024) = Some p" "0 < p" "p + 4 * 1024 * 1024 < 2 ^ 64" "keys_law rnd"
      "sv_ctrl s = rctrl_blank r d"
    and device: "recv_lawful V rq h c" "deliver_law V M rq h c (ucast kGRHSz) (map number_msg xs) seen lag"
    and nums: "\<forall>x \<in> set xs. x < 2 ^ 31" "N < length xs" "limit \<le> (of_nat (xs ! N) :: u64)" "\<forall>j < N. \<not> limit \<le> (of_nat (xs ! j) :: u64)"
  shows "\<exists>f0 s'. \<forall>f \<ge> f0. ud_overflow_server rnd V M af idx mem_name limit ok f s = (Inr (of_nat (N + 1)), s')"
proof -
  have sz: "unat (4 * 1024 * 1024 :: u64) = 4 * 1024 * 1024"
    by simp
  obtain e s1 d4 where up: "ud_server_setup rnd V af idx mem_name (4 * 1024 * 1024) 128 (rctrl_blank r d) = (Inr (q, e), s1)"
      "rt_drv s1 = d4" "serving rq h e d4" "d4 = snd (v_post_recv V (Some h) (posted_from e 0) d3)"
    using ud_server_setup_run [OF init(1-3) device(1) init(4,6,8,9), of 128 rnd mem_name r] init(10,11) by (auto simp: sz)
  have "seen d4 = 0"
    using device(2) init(7) up(4) by (simp add: deliver_law_def)
  moreover have "\<forall>x \<in> set xs. x < 2 ^ 31 \<and> length (number_msg x) \<le> 4096"
    using nums(1) number_msg_length by fastforce
  ultimately obtain f0 e' d' where
    "\<forall>f \<ge> f0. seq_serve V M (ucast kGRHSz) 4096 limit q f e 0 d4 = (Inr (of_nat (N + 1), e'), d')"
    using seq_serve_counts [where sz = 4096, OF device init(4,5) _ nums(2-4) up(3)] by auto
  then have "\<forall>f \<ge> f0. ud_overflow_server rnd V M af idx mem_name limit ok f s =
      (Inr (of_nat (N + 1)), s\<lparr>sv_ctrl := s1\<lparr>rt_drv := d'\<rparr>, sv_daemon := snd (start_daemon ok (sv_daemon s))\<rparr>)"
    using up(1,2) init(12) by (simp add: ud_overflow_server_def bindA_def on_ctrl_def launch_def drvA_def retA_def)
  then show ?thesis
    by blast
qed

text \<open>The device of the witnesses with what a server's set-up needs.\<close>

definition link_host :: "u64 \<Rightarrow> bytes list \<Rightarrow> link verbs" where
  "link_host off msgs = (link_verbs off msgs)\<lparr>
     v_get_device_list := (\<lambda>d. ((1, Some [Some 1]), d)), v_open_device := (\<lambda>_ d. (Some 1, d)), v_alloc_pd := (\<lambda>_ d. (Some 1, d)),
     v_query_gid := (\<lambda>_ _ _ d. (Some (1, 2), d)), v_query_device := (\<lambda>_ d. ((0, 1), d)), v_reg_mr := (\<lambda>_ _ _ _ d. (Some (11, 12), d)),
     v_create_cq := (\<lambda>_ _ d. (Some 3, d)), v_create_qp := (\<lambda>_ _ d. (Some 1, d)), v_qp_type := (\<lambda>_ _. QPT_UD)\<rparr>"

lemma link_host_laws:
  assumes "\<forall>m \<in> set msgs. length m < 2 ^ 63"
  shows "recv_lawful (link_host off msgs) (\<lambda>d _. lk_rq d) h 3"
    "deliver_law (link_host off msgs) link_memory (\<lambda>d _. lk_rq d) h 3 off msgs lk_seen (\<lambda>_. 0)"
proof -
  have eq: "v_post_recv (link_host off msgs) = v_post_recv (link_verbs off msgs)" "v_poll_cq (link_host off msgs) = v_poll_cq (link_verbs off msgs)"
    by (simp_all add: link_host_def)
  show "recv_lawful (link_host off msgs) (\<lambda>d _. lk_rq d) h 3"
    using link_recv_laws(1) [OF assms, of off h] unfolding recv_lawful_def recv_post_law_def recv_poll_law_def eq .
  show "deliver_law (link_host off msgs) link_memory (\<lambda>d _. lk_rq d) h 3 off msgs lk_seen (\<lambda>_. 0)"
    using link_recv_laws(2) [OF assms, of off h] unfolding deliver_law_def eq .
qed

lemma link_host_ops:
  "v_get_device_list (link_host off msgs) d = ((1, Some [Some 1]), d)" "v_open_device (link_host off msgs) dev d = (Some 1, d)"
  "v_alloc_pd (link_host off msgs) ctx d = (Some 1, d)" "v_query_gid (link_host off msgs) ctx port gid d = (Some (1, 2), d)"
  "v_query_port (link_host off msgs) ctx prt d = ((0, \<lparr>pt_active = True, pt_lid = 4\<rparr>), d)"
  "v_query_device (link_host off msgs) ctx d = ((0, 1), d)" "v_reg_mr (link_host off msgs) pd at len acc d = (Some (11, 12), d)"
  "v_create_cq (link_host off msgs) ctx n d = (Some 3, d)" "v_create_qp (link_host off msgs) pd at' d = (Some 1, d)"
  "v_modify_qp (link_host off msgs) qp at'' mk d = (0, d)" "v_dealloc_pd (link_host off msgs) pd d = (0, d)"
  "v_close_device (link_host off msgs) ctx d = (0, d)" "v_qp_type (link_host off msgs) d qp = QPT_UD"
  by (simp_all add: link_host_def link_verbs_def null_verbs_def)

lemma link_open:
  "\<exists>nic. open_nic (link_host off msgs) 0 d = (Inr nic, d) \<and> nic_valid nic"
proof -
  have new: "rnic_new (link_host off msgs) \<lparr>dev_id = 0, port_id = k\<rparr> 0 e =
    (Inr \<lparr>nic_ctx = Some 1, nic_pd = Some 1, nic_id = \<lparr>dev_id = 0, port_id = k\<rparr>,
       nic_addr = Some \<lparr>subnet_prefix = 1, interface_id = 2, local_id = 0\<rparr>, nic_lid = Some 4\<rparr>, e)" for k e
    by (simp add: rnic_new_def bindA_def callA_def retA_def open_device_def alloc_pd_def query_addr_def fetch_lid_def link_host_ops)
  show ?thesis
    by (simp add: open_nic_def query_dev_names_def bindA_def callA_def retA_def liftA_def rnic_create_def new nic_valid_def
        rnic_destroy_def device_ports_def link_host_ops)
qed

lemma link_ud:
  "\<exists>q. ud_create (link_host off msgs) nic config d = (Inr (Some q), d) \<and> d_qp q = Some 1 \<and> d_recv_cq q = Some 3"
proof -
  have "bring_qp_to_init (link_host off msgs) (Some 1) config nic d = (Inr (Ok []), d)"
      "bring_ud_to_recv (link_host off msgs) (Some 1) d = (Inr True, d)"
      "bring_ud_to_send (link_host off msgs) (Some 1) (c_rq_psn config) d = (Inr True, d)"
    by (simp_all add: bring_qp_to_init_def bring_ud_to_recv_def bring_ud_to_send_def act_simps rc_result_def link_host_ops Ok_def)
  from ud_new_apply [OF link_host_ops(8) link_host_ops(8) link_host_ops(9) this] show ?thesis
    by (simp add: ud_create_def bindA_def retA_def dummy_valid_def ud_blank_def)
qed

lemma link_region:
  "nic_valid nic \<Longrightarrow> \<exists>mr. reg_handler_create (link_host off msgs) (rmem_new (\<lambda>_. Some 4096) sz) nic f d = (Inr (Some mr), d)"
  by (simp add: reg_handler_create_def reg_handler_new_def rmem_new_def bindA_def callA_def retA_def rh_valid_def link_host_ops)

theorem ud_overflow_server_counts_witness:
  "\<exists>f s'. ud_overflow_server sample_rnd (link_host 40 (map number_msg [1, 2, 5, 9])) link_memory (\<lambda>_. Some 4096) 0 73 9 True f
     \<lparr>sv_ctrl = rctrl_blank 1 link_start, sv_mem = (\<lambda>_. 0), sv_daemon = \<lparr>running = False, thread_alive = False\<rparr>\<rparr> = (Inr 4, s')"
proof -
  let ?xs = "[1, 2, 5, 9] :: nat list"
  let ?V = "link_host 40 (map number_msg ?xs)"
  have msgs: "\<forall>m \<in> set (map number_msg ?xs). length m < 2 ^ 63"
    using number_msg_length [of 1] number_msg_length [of 2] number_msg_length [of 5] number_msg_length [of 9] by simp
  obtain nic where nic: "open_nic ?V 0 link_start = (Inr nic, link_start)" "nic_valid nic"
    using link_open by blast
  obtain mr where mr: "reg_handler_create ?V (rmem_new (\<lambda>_. Some 4096) (4 * 1024 * 1024)) nic (default_flags (v_access ?V)) link_start =
      (Inr (Some mr), link_start)"
    using link_region [OF nic(2)] by blast
  obtain q where q: "ud_create ?V nic (default_config (v_access ?V)) link_start = (Inr (Some q), link_start)"
      "d_qp q = Some 1" "d_recv_cq q = Some 3"
    using link_ud by blast
  have c: "lk_rq link_start = []" "lk_seen link_start = 0" "(Some 4096 :: ptr) = Some 4096" "(0 :: nat) < 4096"
      "(4096 :: nat) + 4 * 1024 * 1024 < 2 ^ 64" "ucast kGRHSz = (40 :: u64)" "\<forall>x \<in> set ?xs. x < 2 ^ 31" "3 < length ?xs"
      "(9 :: u64) \<le> of_nat (?xs ! 3)" "\<forall>j < 3. \<not> (9 :: u64) \<le> of_nat (?xs ! j)"
    by (simp_all add: link_start_def kGRHSz_def less_Suc_eq numeral_3_eq_3 word_le_nat_alt)
  let ?s = "\<lparr>sv_ctrl = rctrl_blank 1 link_start, sv_mem = (\<lambda>_. 0), sv_daemon = \<lparr>running = False, thread_alive = False\<rparr>\<rparr>"
  have s: "sv_ctrl ?s = rctrl_blank 1 link_start"
    by simp
  have laws: "recv_lawful ?V (\<lambda>d _. lk_rq d) 1 3"
      "deliver_law ?V link_memory (\<lambda>d _. lk_rq d) 1 3 (ucast kGRHSz) (map number_msg ?xs) lk_seen (\<lambda>_. 0)"
    using link_host_laws [OF msgs, of 40 1] by (simp_all only: c(6))
  note T = ud_overflow_server_counts [where M = link_memory and seen = lk_seen and lag = "\<lambda>_. 0" and rq = "\<lambda>d _. lk_rq d" and N = 3
        and xs = ?xs and af = "\<lambda>_. Some 4096" and limit = 9 and p = 4096 and rnd = sample_rnd and s = ?s,
      OF nic(1) mr q c(1-5) sample_keys s laws c(7-10)]
  show ?thesis
    using T by force
qed

end
