(* ===== verification/DynamicSpec.thy ===== *)
theory DynamicSpec
  imports Dynamic TwoSidedSpec
begin

text \<open>
  The client of dc_bench: its list of machines is read back from the command line, and its
  reads go round over the queue pairs and stay within the regions.
\<close>

unbundle bit_operations_syntax

section \<open>The list of machines\<close>

lemma strtok_end: "t \<noteq> [] \<Longrightarrow> set t \<inter> set d = {} \<Longrightarrow> strtok d t = Some (t, [])"
proof -
  assume t: "t \<noteq> []" "set t \<inter> set d = {}"
  then have a: "dropWhile (\<lambda>c. c \<in> set d) t = t"
    by (cases t) auto
  have b: "takeWhile (\<lambda>c. c \<notin> set d) t = t" "dropWhile (\<lambda>c. c \<notin> set d) t = []"
    using t(2) by (auto simp: takeWhile_eq_all_conv dropWhile_eq_Nil_conv disjoint_iff)
  show ?thesis
    using t(1) unfolding strtok_def Let_def a b by simp
qed

lemma strtok_sep:
  assumes "t \<noteq> []" "set t \<inter> set d = {}" "x \<in> set d"
  shows "strtok d (t @ x # r) = Some (t, r)"
proof -
  have "dropWhile (\<lambda>c. c \<in> set d) (t @ x # r) = t @ x # r"
    using assms(1,2) by (cases t) auto
  moreover have "takeWhile (\<lambda>c. c \<notin> set d) (t @ x # r) = t" "dropWhile (\<lambda>c. c \<notin> set d) (t @ x # r) = x # r"
    using assms(2,3) by (auto simp: takeWhile_append dropWhile_append takeWhile_eq_all_conv dropWhile_eq_Nil_conv disjoint_iff)
  ultimately show ?thesis
    by (simp add: strtok_def)
qed

lemma strtok_sound:
  assumes "strtok d s = Some (t, r)"
  shows "t \<noteq> []" "set t \<inter> set d = {}"
proof -
  define u where "u = dropWhile (\<lambda>c. c \<in> set d) s"
  have u: "u \<noteq> []" "t = takeWhile (\<lambda>c. c \<notin> set d) u"
    using assms by (auto simp: strtok_def u_def Let_def split: if_splits)
  then have "hd u \<notin> set d"
    using hd_dropWhile [of "\<lambda>c. c \<in> set d" s] by (simp add: u_def)
  then show "t \<noteq> []" "set t \<inter> set d = {}"
    using u by (cases u; auto dest: set_takeWhileD)+
qed

lemma split_loop_sound: "t \<in> set (split_loop d s) \<Longrightarrow> t \<noteq> [] \<and> set t \<inter> set d = {}"
proof (induction d s rule: split_loop.induct)
  case (1 d s)
  then obtain t' r where t': "strtok d s = Some (t', r)" "t = t' \<or> t \<in> set (split_loop d r)"
    using split_loop.simps [of d s] by (auto split: option.splits)
  then show ?case
    using 1(1) strtok_sound [OF t'(1)] by metis
qed

text \<open>Names with one separator between two of them.\<close>

fun separated :: "u8 \<Rightarrow> bytes list \<Rightarrow> bytes" where
  "separated x [] = []"
| "separated x [m] = m"
| "separated x (m # ms) = m @ x # separated x ms"

lemma split_loop_separated:
  assumes "x \<in> set d" "\<forall>m \<in> set ms. m \<noteq> [] \<and> set m \<inter> set d = {}"
  shows "split_loop d (separated x ms) = ms"
  using assms(2)
proof (induction ms)
  case Nil
  then show ?case
    by (subst split_loop.simps) (simp add: strtok_def)
next
  case (Cons m ms)
  show ?case
  proof (cases ms)
    case Nil
    have "split_loop d [] = []"
      by (subst split_loop.simps) (simp add: strtok_def)
    moreover have "strtok d m = Some (m, [])"
      using Cons.prems by (intro strtok_end) auto
    ultimately show ?thesis
      using Nil by (subst split_loop.simps) simp
  next
    case (Cons n ns)
    have "strtok d (m @ x # separated x ms) = Some (m, separated x ms)"
      using Cons.prems assms(1) by (intro strtok_sep) auto
    then show ?thesis
      using Cons Cons.IH Cons.prems by (subst split_loop.simps) simp
  qed
qed

lemma separated_set: "set (separated x ms) \<subseteq> insert x (\<Union> (set ` set ms))"
  by (induction x ms rule: separated.induct) auto

text \<open>
  The client of dc_bench reads back the machines it is given: whatever the string, the parts are not empty
  and hold no blank, and names without a blank or a zero, written with one blank between two of
  them, are read back as they are.
\<close>
theorem split_machines:
  "(\<forall>m \<in> set (split_str s (bstr '' '')). m \<noteq> [] \<and> 32 \<notin> set m) \<and>
   ((\<forall>m \<in> set ms. m \<noteq> [] \<and> 32 \<notin> set m \<and> 0 \<notin> set m) \<longrightarrow> split_str (separated 32 ms) (bstr '' '') = ms)"
proof (intro conjI impI)
  have d: "c_str (bstr '' '') = [32]"
    by code_simp
  show "\<forall>m \<in> set (split_str s (bstr '' '')). m \<noteq> [] \<and> 32 \<notin> set m"
    using split_loop_sound [of _ "[32]" "c_str s"] by (auto simp: split_str_def d)
  assume ms: "\<forall>m \<in> set ms. m \<noteq> [] \<and> 32 \<notin> set m \<and> 0 \<notin> set m"
  then have "0 \<notin> set (separated 32 ms)"
    using separated_set [of 32 ms] by auto
  then have "c_str (separated 32 ms) = separated 32 ms"
    unfolding c_str_def by (subst takeWhile_eq_all_conv) auto
  moreover have "separated 32 ms = [] \<longleftrightarrow> ms = []"
    using ms by (cases "(32 :: u8, ms)" rule: separated.cases) auto
  ultimately show "split_str (separated 32 ms) (bstr '' '') = ms"
    using split_loop_separated [of 32 "[32]" ms] ms by (simp add: split_str_def d)
qed

theorem split_machines_witness:
  "split_str (bstr ''val01:8888 val02:8888'') (bstr '' '') = [bstr ''val01:8888'', bstr ''val02:8888'']"
proof -
  have s: "separated 32 [bstr ''val01:8888'', bstr ''val02:8888''] = bstr ''val01:8888 val02:8888''"
      "\<forall>m \<in> set [bstr ''val01:8888'', bstr ''val02:8888'']. m \<noteq> [] \<and> 32 \<notin> set m \<and> 0 \<notin> set m"
    by code_simp+
  show ?thesis
    using split_machines [of "[]" "[bstr ''val01:8888'', bstr ''val02:8888'']"] s by simp
qed

section \<open>The device\<close>

text \<open>
  The documented behaviour of a device with dynamic connections: a request is taken when nothing
  is outstanding on the completion queue \<open>cq h\<close> of the queue pair \<open>h\<close>, which it then is;
  polling a queue completes what is outstanding there and nothing else. \<open>pend c\<close> are the requests
  outstanding on the queue \<open>c\<close>, \<open>posted\<close> those that were taken so far.
\<close>

definition dc_device ::
  "'d verbs \<Rightarrow> u32 \<Rightarrow> (nat \<Rightarrow> nat) \<Rightarrow> (nat \<Rightarrow> 'd \<Rightarrow> bool list) \<Rightarrow> ('d \<Rightarrow> nat) \<Rightarrow> ('d \<Rightarrow> (ptr \<times> dc_wr) list) \<Rightarrow> bool"
where
  "dc_device V sig cq pend lag posted \<longleftrightarrow>
     (\<forall>h wr d. pend (cq h) d = [] \<longrightarrow>
        fst (v_exp_post_send V (Some h) wr d) = 0 \<and>
        pend (cq h) (snd (v_exp_post_send V (Some h) wr d)) = [dw_flags wr AND ucast sig \<noteq> 0] \<and>
        (\<forall>c. c \<noteq> cq h \<longrightarrow> pend c (snd (v_exp_post_send V (Some h) wr d)) = pend c d) \<and>
        posted (snd (v_exp_post_send V (Some h) wr d)) = posted d @ [(Some h, wr)]) \<and>
     (\<forall>c. poll_law V (Some c) (pend c) lag) \<and>
     (\<forall>c n d. posted (snd (v_poll_cq V (Some c) n d)) = posted d \<and>
        (\<forall>c'. c' \<noteq> c \<longrightarrow> pend c' (snd (v_poll_cq V (Some c) n d)) = pend c' d)) \<and>
     (\<forall>d. posted (snd (v_now V d)) = posted d)"

lemma dc_deviceD:
  assumes "dc_device V sig cq pend lag posted"
  shows "pend (cq h) d = [] \<Longrightarrow> fst (v_exp_post_send V (Some h) wr d) = 0"
    "pend (cq h) d = [] \<Longrightarrow> pend (cq h) (snd (v_exp_post_send V (Some h) wr d)) = [dw_flags wr AND ucast sig \<noteq> 0]"
    "pend (cq h) d = [] \<Longrightarrow> c \<noteq> cq h \<Longrightarrow> pend c (snd (v_exp_post_send V (Some h) wr d)) = pend c d"
    "pend (cq h) d = [] \<Longrightarrow> posted (snd (v_exp_post_send V (Some h) wr d)) = posted d @ [(Some h, wr)]"
    "poll_law V (Some c) (pend c) lag" "posted (snd (v_poll_cq V (Some c) n d)) = posted d"
    "c' \<noteq> c \<Longrightarrow> pend c' (snd (v_poll_cq V (Some c) n d)) = pend c' d" "posted (snd (v_now V d)) = posted d"
  using assms unfolding dc_device_def by blast+

lemma dc_device_now: "dc_device V sig cq pend lag posted \<Longrightarrow> pend c (snd (v_now V d)) = pend c d"
  using dc_deviceD(5) [of V sig cq pend lag posted c] by (simp add: poll_law_def)

text \<open>The request that reaches the device.\<close>

definition dc_wr_of :: "dc_req_desc \<Rightarrow> dc_req_payload \<Rightarrow> dc_wr" where
  "dc_wr_of rdesc payload =
     \<lparr>dw_op = dq_op rdesc, dw_flags = ucast (dq_send_flags rdesc),
      dw_sge = \<lparr>sge_addr = dp_laddr payload, sge_length = dq_len rdesc, sge_lkey = dp_lkey payload\<rparr>,
      dw_remote_addr = dp_raddr payload, dw_rkey = dp_rkey payload, dw_ah = dq_ah rdesc,
      dw_access_key = scast (dq_dc_key rdesc), dw_number = dq_dct_num rdesc\<rparr>"

lemma dc_post_send_wr:
  "dc_post_send V rdesc payload q = bindA (callA (v_exp_post_send V (d_qp q) (dc_wr_of rdesc payload))) (rc_result V)"
  by (simp add: dc_post_send_def dc_wr_of_def)

section \<open>Rounds\<close>

text \<open>A read of one of the machines, of \<open>p\<close> bytes that lie within the first \<open>m\<close> bytes of its region.\<close>

definition dc_read :: "nat \<Rightarrow> u32 \<Rightarrow> nat \<Rightarrow> nat \<Rightarrow> reg_attr \<Rightarrow> dc_peers \<Rightarrow> dc_wr \<Rightarrow> bool" where
  "dc_read exp_read sig m p lattr P wr \<longleftrightarrow>
     (\<exists>i < length (pe_nodes P). \<exists>k. k + p \<le> m \<and>
        wr = \<lparr>dw_op = exp_read, dw_flags = ucast sig,
              dw_sge = \<lparr>sge_addr = ra_buf lattr, sge_length = of_nat p, sge_lkey = ra_key lattr\<rparr>,
              dw_remote_addr = ra_buf (pe_regs P ! i) + of_nat k, dw_rkey = ra_key (pe_regs P ! i),
              dw_ah = pe_ahs P ! i, dw_access_key = scast (dc_key (pe_nodes P ! i)),
              dw_number = dc_dct_num (pe_nodes P ! i)\<rparr>)"

lemma dc_modulus_value:
  assumes "0 < p" "p < 2 ^ 31" "p \<le> m" "m < 2 ^ 63" "m div p < 2 ^ 31"
  shows "dc_modulus (of_nat m) (of_nat p) = Inr (of_nat (m div p))"
proof -
  have s: "sint (of_nat p :: c_int) = int p" "sint (of_nat m :: u64) = int m"
    using assms by (simp_all add: signed_of_nat signed_take_bit_int_eq_self)
  then have "(of_nat p :: c_int) \<noteq> 0"
    using assms(1) by force
  then show ?thesis
    using s by (simp add: dc_modulus_def signed_divide_int_def) (simp flip: of_nat_div)
qed

lemma dc_request_reads:
  fixes rand_val :: u64
  assumes "0 < p" "p < 2 ^ 31" "p \<le> m" "m < 2 ^ 63" "m div p < 2 ^ 31" "idx < length (pe_nodes P)"
    and "dc_request exp_read sig (of_nat p) lattr P idx (rand_val mod scast (of_nat (m div p) :: c_int)) = (rdesc, payl)"
  shows "dc_read exp_read sig m p lattr P (dc_wr_of rdesc payl)"
proof -
  have s: "sint (of_nat p :: c_int) = int p" "sint (of_nat (m div p) :: c_int) = int (m div p)"
    using assms by (simp_all add: signed_of_nat signed_take_bit_int_eq_self del: of_nat_div)
  have md: "scast (of_nat (m div p) :: c_int) = (of_nat (m div p) :: u64)" "scast (of_nat p :: c_int) = (of_nat p :: u64)"
    using s by (simp_all add: scast_eq del: of_nat_div)
  define off where "off = unat (rand_val mod of_nat (m div p))"
  have "unat (of_nat (m div p) :: u64) = m div p"
    using assms(5) by (intro u64_of_nat) simp
  then have "off = unat rand_val mod (m div p)"
    by (simp add: off_def unat_mod del: of_nat_div)
  moreover have "0 < m div p"
    using assms(1,3) by (simp add: div_greater_zero_iff)
  ultimately have "off < m div p"
    by simp
  then have "off * p + p \<le> m"
    by (metis Suc_leI add.commute div_times_less_eq_dividend mult_Suc mult_le_mono1 order_trans)
  moreover have "rand_val mod of_nat (m div p) * of_nat p = of_nat (off * p)"
    by (simp add: off_def)
  ultimately show ?thesis
    using assms(6,7) unfolding dc_read_def
    by (intro exI [of _ idx] conjI exI [of _ "off * p"]) (auto simp: dc_request_def dc_wr_of_def md)
qed

text \<open>Between two rounds nothing is outstanding.\<close>

definition dc_idle :: "(nat \<Rightarrow> nat) \<Rightarrow> (nat \<Rightarrow> 'd \<Rightarrow> bool list) \<Rightarrow> ptr list \<Rightarrow> 'd dc_worker \<Rightarrow> bool" where
  "dc_idle cq pend hs w \<longleftrightarrow> map d_qp (dk_dcs w) = hs \<and>
     (\<forall>q \<in> set (dk_dcs w). \<exists>h. d_qp q = Some h \<and> d_cq q = Some (cq h) \<and> pend (cq h) (dk_drv w) = [])"

lemma dc_post_wait:
  fixes q :: dc
  assumes dev: "dc_device V sig cq pend lag posted" "clock_range V" "sig \<noteq> 0"
    and q: "d_qp q = Some h" "d_cq q = Some (cq h)" "pend (cq h) d = []" and wr: "dw_flags wr = ucast sig"
  obtains x d1 d2 where "v_exp_post_send V (Some h) wr d = (0, d1)"
    "wait_one_comp V no_timeout q d1 = Some (Ok x, q\<lparr>d_out_signaled := d_out_signaled q - 1\<rparr>, d2)"
    "posted d2 = posted d @ [(Some h, wr)]" "\<And>c. pend c d = [] \<Longrightarrow> pend c d2 = []"
proof -
  obtain d1 where post: "v_exp_post_send V (Some h) wr d = (0, d1)"
    using dc_deviceD(1) [OF dev(1) q(3), of wr] by (metis prod.collapse)
  have flag: "(ucast sig :: u64) AND ucast sig \<noteq> 0"
  proof -
    have "unat (ucast sig :: u64) = unat sig"
      using less_trans [OF unsigned_less [of sig, where 'a = nat], of "2 ^ 64"] by (simp add: unsigned_ucast_eq take_bit_nat_eq_self)
    then show ?thesis
      using dev(3) by (metis and.idem unat_0 unat_eq_zero)
  qed
  have d1: "pend (cq h) d1 = [True]" "\<forall>c. c \<noteq> cq h \<longrightarrow> pend c d1 = pend c d" "posted d1 = posted d @ [(Some h, wr)]"
    using dc_deviceD(2-4) [where wr = wr, OF dev(1) q(3)] post wr flag by auto
  obtain x d2 where wait: "wait_one_comp V no_timeout q d1 = Some (Ok x, q\<lparr>d_out_signaled := d_out_signaled q - 1\<rparr>, d2)"
      "pend (cq h) d2 = []"
    using wait_completes [OF dc_deviceD(5) [OF dev(1)] dev(2) q(2), of d1] by (auto simp: retire_def d1(1))
  have d2: "posted d2 = posted d1"
    by (rule wait_keeps [OF _ _ wait(1)]) (simp_all add: q(2) dc_deviceD(6,8) [OF dev(1)])
  have rest: "pend c d2 = pend c d1" if "c \<noteq> cq h" for c
    by (rule wait_keeps [OF _ _ wait(1)]) (simp_all add: q(2) dc_deviceD(7) [OF dev(1) that] dc_device_now [OF dev(1)])
  have "pend c d2 = []" if "pend c d = []" for c
    using that rest [of c] d1(2) wait(2) by (cases "c = cq h") auto
  then show thesis
    using that [OF post wait(1)] d1(3) d2 by simp
qed

lemma dc_idle_update:
  assumes "dc_idle cq pend hs w" "i < length hs" "hs ! i = Some h" "d_qp q = Some h" "d_cq q = Some (cq h)"
    and "\<And>c. pend c (dk_drv w) = [] \<Longrightarrow> pend c d = []"
  shows "dc_idle cq pend hs (w\<lparr>dk_dcs := (dk_dcs w)[i := q], dk_drv := d\<rparr>)"
proof -
  have "dk_dcs w ! i \<in> set (dk_dcs w)" "d_qp (dk_dcs w ! i) = Some h"
    using assms(1-3) by (auto simp: dc_idle_def)
  then have "pend (cq h) d = []"
    using assms(1,6) by (fastforce simp: dc_idle_def)
  moreover have "map d_qp ((dk_dcs w)[i := q]) = hs"
    using assms(1,3,4) by (metis dc_idle_def list_update_id map_update)
  ultimately show ?thesis
    using assms(1,4-6) unfolding dc_idle_def by (auto dest!: set_update_subset_insert [THEN subsetD])
qed

text \<open>The machine and the request of a round.\<close>

lemma dc_round_request:
  assumes sz: "0 < p" "p < 2 ^ 31" "p \<le> m" "m < 2 ^ 63" "m div p < 2 ^ 31"
    and P: "pe_nodes P \<noteq> []" "length (pe_nodes P) < 2 ^ 31"
  obtains rdesc payl where
    "dc_request exp_read sig (of_nat p) lattr P (unat (x mod of_nat (length (pe_nodes P)))) (x mod scast (of_nat (m div p) :: c_int)) = (rdesc, payl)"
    "dc_read exp_read sig m p lattr P (dc_wr_of rdesc payl)"
proof -
  let ?idx = "unat (x mod of_nat (length (pe_nodes P)))"
  have "unat (of_nat (length (pe_nodes P)) :: u64) = length (pe_nodes P)"
    using P(2) by (intro u64_of_nat) simp
  then have idx: "?idx < length (pe_nodes P)"
    using P(1) by (simp add: unat_mod)
  obtain rdesc payl where req:
    "dc_request exp_read sig (of_nat p) lattr P ?idx (x mod scast (of_nat (m div p) :: c_int)) = (rdesc, payl)"
    by fastforce
  show thesis
    by (rule that [OF req dc_request_reads [OF sz idx req]])
qed

lemma dc_round_ok:
  assumes dev: "dc_device V sig cq pend lag posted" "clock_range V" "sig \<noteq> 0"
    and w: "dc_idle cq pend hs w" "length hs = num" "0 < num" "pe_nodes P \<noteq> []" "length (pe_nodes P) < 2 ^ 31"
    and sz: "0 < p" "p < 2 ^ 31" "p \<le> m" "m < 2 ^ 63" "m div p < 2 ^ 31"
  shows "\<exists>w' wr. dc_round V exp_read sig num (of_nat p) (of_nat (m div p)) lattr P w = (Inr (), w') \<and> dc_idle cq pend hs w' \<and>
    dk_idx w' = (dk_idx w + 1) mod num \<and> st_counter (dk_stat w') = st_counter (dk_stat w) + 1 \<and>
    posted (dk_drv w') = posted (dk_drv w) @ [(hs ! dk_idx w', wr)] \<and> dc_read exp_read sig m p lattr P wr"
proof -
  define i where "i = (dk_idx w + 1) mod num"
  have i_Suc: "Suc (dk_idx w) mod num = i"
    by (simp add: i_def)
  have len: "length (dk_dcs w) = num" "i < num"
    using w(1-3) by (auto simp: dc_idle_def i_def)
  then have "dk_dcs w ! i \<in> set (dk_dcs w)"
    by simp
  then obtain h where h: "d_qp (dk_dcs w ! i) = Some h" "d_cq (dk_dcs w ! i) = Some (cq h)" "pend (cq h) (dk_drv w) = []"
    using w(1) unfolding dc_idle_def by blast
  have hs: "hs ! i = Some h"
    using w(1) len h(1) by (auto simp: dc_idle_def)
  obtain rand_val r where r: "fr_next (dk_rand w) = (rand_val, r)"
    by fastforce
  obtain rdesc payl where req: "dc_request exp_read sig (of_nat p) lattr P (unat (rand_val mod of_nat (length (pe_nodes P))))
        (rand_val mod scast (of_nat (m div p) :: c_int)) = (rdesc, payl)"
      and reads: "dc_read exp_read sig m p lattr P (dc_wr_of rdesc payl)"
    by (rule dc_round_request [OF sz w(4,5)]) (rule that)
  define wr where "wr = dc_wr_of rdesc payl"
  have flags: "dw_flags wr = ucast sig"
    using reads by (auto simp: dc_read_def wr_def)
  obtain x d1 d2 where post: "v_exp_post_send V (Some h) wr (dk_drv w) = (0, d1)"
      and wait: "wait_one_comp V no_timeout (dk_dcs w ! i) d1 =
        Some (Ok x, (dk_dcs w ! i)\<lparr>d_out_signaled := d_out_signaled (dk_dcs w ! i) - 1\<rparr>, d2)"
      and d2: "posted d2 = posted (dk_drv w) @ [(Some h, wr)]" "\<And>c. pend c (dk_drv w) = [] \<Longrightarrow> pend c d2 = []"
    by (rule dc_post_wait [OF dev h flags]) (rule that)
  define q where "q = (dk_dcs w ! i)\<lparr>d_out_signaled := d_out_signaled (dk_dcs w ! i) - 1\<rparr>"
  define w' where "w' = w\<lparr>dk_idx := i, dk_rand := r, dk_dcs := (dk_dcs w)[i := q], dk_drv := d2,
    dk_stat := increment 1 (dk_stat w)\<rparr>"
  have md: "(of_nat (m div p) :: c_int) \<noteq> 0"
    using sz by (auto simp: div_eq_0_iff simp del: of_nat_div dest!: arg_cong [of _ _ unat] simp: usize_nat)
  have "dc_round V exp_read sig num (of_nat p) (of_nat (m div p)) lattr P w = (Inr (), w')"
    using w(3,4) md r req post wait h(1)
    by (simp add: dc_round_def Let_def i_Suc dc_post_send_wr wr_def bindA_def callA_def rc_result_def dc_wait_one_comp_def
        q_def w'_def Ok_def del: of_nat_div)
  moreover have "dc_idle cq pend hs w'"
    using dc_idle_update [where q = q, OF w(1) _ hs _ _ d2(2)] h len w(2) by (simp add: w'_def q_def dc_idle_def)
  ultimately show ?thesis
    using d2(1) reads hs by (intro exI [of _ w'] exI [of _ wr]) (simp add: w'_def wr_def increment_def i_def)
qed

lemma dc_rounds_ok:
  assumes dev: "dc_device V sig cq pend lag posted" "clock_range V" "sig \<noteq> 0"
    and w: "dc_idle cq pend hs w" "length hs = num" "0 < num" "pe_nodes P \<noteq> []" "length (pe_nodes P) < 2 ^ 31"
    and sz: "0 < p" "p < 2 ^ 31" "p \<le> m" "m < 2 ^ 63" "m div p < 2 ^ 31"
  shows "\<exists>w' sent. dc_rounds V exp_read sig num (of_nat p) (of_nat (m div p)) lattr P n w = (Inr (), w') \<and>
    st_counter (dk_stat w') = st_counter (dk_stat w) + of_nat n \<and>
    posted (dk_drv w') = posted (dk_drv w) @ sent \<and> length sent = n \<and>
    (\<forall>k < n. fst (sent ! k) = hs ! ((dk_idx w + k + 1) mod num) \<and> dc_read exp_read sig m p lattr P (snd (sent ! k)))"
  using w(1)
proof (induction n arbitrary: w)
  case 0
  then show ?case
    by (auto simp: retA_def)
next
  case (Suc n)
  obtain w1 wr where 1: "dc_round V exp_read sig num (of_nat p) (of_nat (m div p)) lattr P w = (Inr (), w1)"
      "dc_idle cq pend hs w1" "dk_idx w1 = (dk_idx w + 1) mod num" "st_counter (dk_stat w1) = st_counter (dk_stat w) + 1"
      "posted (dk_drv w1) = posted (dk_drv w) @ [(hs ! dk_idx w1, wr)]" "dc_read exp_read sig m p lattr P wr"
    using dc_round_ok [OF dev Suc.prems w(2-5) sz] by blast
  obtain w2 sent where 2: "dc_rounds V exp_read sig num (of_nat p) (of_nat (m div p)) lattr P n w1 = (Inr (), w2)"
      "st_counter (dk_stat w2) = st_counter (dk_stat w1) + of_nat n" "posted (dk_drv w2) = posted (dk_drv w1) @ sent" "length sent = n"
      "\<forall>k < n. fst (sent ! k) = hs ! ((dk_idx w1 + k + 1) mod num) \<and> dc_read exp_read sig m p lattr P (snd (sent ! k))"
    using Suc.IH [OF 1(2)] by blast
  have next_idx: "(dk_idx w1 + k + 1) mod num = (dk_idx w + Suc k + 1) mod num" for k
    using mod_add_left_eq [of "dk_idx w + 1" num "k + 1"] by (simp add: 1(3) add.assoc del: mod_add_left_eq)
  have "\<forall>k < Suc n. fst (((hs ! dk_idx w1, wr) # sent) ! k) = hs ! ((dk_idx w + k + 1) mod num) \<and>
      dc_read exp_read sig m p lattr P (snd (((hs ! dk_idx w1, wr) # sent) ! k))"
    using 1(3,6) 2(5) unfolding next_idx by (auto simp: nth_Cons split: nat.splits)
  then show ?case
    using 1(1,4,5) 2(1-4)
    by (intro exI [of _ w2] exI [of _ "(hs ! dk_idx w1, wr) # sent"]) (simp add: bindA_def add.assoc)
qed


text \<open>A device with two queue pairs for the witness.\<close>

record dcd =
  dd_pend :: "nat \<Rightarrow> bool list"
  dd_posted :: "(ptr \<times> dc_wr) list"

definition dcd_verbs :: "dcd verbs" where
  "dcd_verbs = (null_verbs :: dcd verbs)\<lparr>
     v_exp_post_send := (\<lambda>h wr d. (0, d\<lparr>dd_pend := (dd_pend d)(the h + 10 := dd_pend d (the h + 10) @ [dw_flags wr AND 2 \<noteq> 0]),
       dd_posted := dd_posted d @ [(h, wr)]\<rparr>)),
     v_poll_cq := (\<lambda>c n d. if True \<in> set (dd_pend d (the c))
       then ((1, [\<lparr>wc_id = 0, wc_ok = True, wc_imm = 0\<rparr>]), d\<lparr>dd_pend := (dd_pend d)(the c := retire (dd_pend d (the c)))\<rparr>)
       else ((0, []), d))\<rparr>"

lemma dcd_laws: "dc_device dcd_verbs 2 (\<lambda>h. h + 10) (\<lambda>c d. dd_pend d c) (\<lambda>_. 0) dd_posted" "clock_range dcd_verbs"
  by (auto simp: dc_device_def poll_law_def clock_range_def dcd_verbs_def null_verbs_def)

definition dcd_qp :: "nat \<Rightarrow> dc" where
  "dcd_qp h = (dc_blank sample_nic (default_config sample_flags))\<lparr>d_qp := Some h, d_cq := Some (h + 10)\<rparr>"

definition dcd_peers :: dc_peers where
  "dcd_peers = \<lparr>pe_nodes = [\<lparr>dc_lid = 1, dc_dct_num = 5, dc_key = 9\<rparr>, \<lparr>dc_lid = 2, dc_dct_num = 6, dc_key = 9\<rparr>],
     pe_ahs = [Some 31, Some 32], pe_regs = [null_reg_attr\<lparr>ra_buf := 4096\<rparr>, null_reg_attr\<lparr>ra_buf := 65536\<rparr>]\<rparr>"

definition dcd_worker :: "dcd dc_worker" where
  "dcd_worker = \<lparr>dk_dcs = [dcd_qp 1, dcd_qp 2], dk_idx = 0, dk_rand = fr_new 0xdeafbeaf, dk_stat = statics_new,
     dk_drv = \<lparr>dd_pend = (\<lambda>_. []), dd_posted = []\<rparr>\<rparr>"


text \<open>
  Where the size in requests does not fit an \<open>int\<close>, the modulus is cut to 32 bits: for 16 GB in
  requests of four bytes it is zero, and the first round divides by it.
\<close>

lemma dc_modulus_cut:
  "dc_modulus (2 ^ 34) 4 = Inr 0 \<and> fst (dc_round V exp_read sig num 4 0 lattr P w) = Inl Undefined"
  by (simp add: dc_modulus_def dc_round_def)

text \<open>The worker never returns a number.\<close>

lemma dc_worker_returns_nothing: "\<exists>e. fst (fst (dc_worker_fn V exp_read sig L af now F n i st h)) = Inl e"
  unfolding dc_worker_fn_def Let_def by (simp only: split: prod.split sum.split) simp

section \<open>The server and what its clients learn\<close>

text \<open>The calls that a target for dynamic connections needs succeed.\<close>

definition dct_law :: "'d verbs \<Rightarrow> bool" where
  "dct_law V \<longleftrightarrow> (\<forall>c n d. fst (v_create_cq V c n d) \<noteq> None) \<and> (\<forall>p w g d. fst (v_create_srq V p w g d) \<noteq> None) \<and>
     (\<forall>c a d. fst (fst (v_create_dct V c a d)) \<noteq> None)"

lemma dct_target_ready:
  assumes "dct_law V" "nic_lid nic = Some li"
  obtains t k d' where "dct_target_create V nic config d = (Inr t, d')"
    "dt_attr t = Some \<lparr>dc_lid = li, dc_dct_num = k, dc_key = c_dc_key config\<rparr>"
proof -
  obtain c d1 where c: "v_create_cq V (nic_ctx nic) (max_send_sz config) d = (Some c, d1)"
    using assms(1) unfolding dct_law_def by (metis not_None_eq prod.collapse)
  obtain r d2 where r: "v_create_srq V (nic_pd nic) (max_send_sz config) 1 d1 = (Some r, d2)"
    using assms(1) unfolding dct_law_def by (metis not_None_eq prod.collapse)
  have srq: "create_srq V nic (max_send_sz config) 1 d1 = (Inr (Ok (Some r, [])), d2)"
    by (simp add: create_srq_def act_simps handle_result_def r)
  have "\<exists>h k d3. create_dct V nic (Some c) (Some r) (c_dc_key config) d2 = (Inr (Ok ((Some h, k), [])), d3)"
    using assms(1) unfolding dct_law_def create_dct_def by (simp add: act_simps) (metis not_None_eq prod.collapse)
  then obtain h k d3 where dct: "create_dct V nic (Some c) (Some r) (c_dc_key config) d2 = (Inr (Ok ((Some h, k), [])), d3)"
    by blast
  show thesis
    by (rule that [of "\<lparr>dt_dct = Some (Some h), dt_srq = Some (Some r), dt_config = config,
          dt_attr = Some \<lparr>dc_lid = li, dc_dct_num = k, dc_key = c_dc_key config\<rparr>\<rparr>" d3 k])
      (simp_all add: dct_target_create_def bindA_def create_cq_apply c srq dct assms(2) act_simps Let_def Ok_def)
qed

text \<open>The server's set-up leaves the target, the device and the region under their names.\<close>

lemma dc_server_run:
  assumes "open_nic V idx d = (Inr nic, d1)" "nic_lid nic = Some li" "dct_law V" "region_law V obs"
    and "af (1024 * 1024) = Some p" "keys_law rnd" "sv_ctrl s = rctrl_blank r d"
  obtains s1 t k mr attr where "dc_server rnd V af idx nic_name mem_name ok s = (Inr (), s1)"
    "query (registered_dcs (sv_ctrl s1)) (bstr ''server_dc'') = Some t"
    "dt_attr t = Some \<lparr>dc_lid = li, dc_dct_num = k, dc_key = c_dc_key (default_config (v_access V))\<rparr>"
    "query (registered_mrs (sv_ctrl s1)) mem_name = Some mr" "get_reg_attr mr = Some attr" "ra_buf attr = of_nat p"
proof -
  let ?cfg = "default_config (v_access V)"
  have valid: "nic_valid nic"
    using assms(1) by (rule open_nic_valid)
  obtain k1 r1 k2 r2 k3 r3 where keys: "generate_key rnd r = Some (k1, r1)" "generate_key rnd r1 = Some (k2, r2)"
      "generate_key rnd r2 = Some (k3, r3)"
    using assms(6) unfolding keys_law_def by (metis not_None_eq prod.collapse)
  obtain t k d2 where t: "dct_target_create V nic ?cfg d1 = (Inr t, d2)"
      "dt_attr t = Some \<lparr>dc_lid = li, dc_dct_num = k, dc_key = c_dc_key ?cfg\<rparr>"
    by (rule dct_target_ready [OF assms(3,2)])
  obtain ks d3 where reg: "v_reg_mr V (nic_pd nic) (Some p) (1024 * 1024) (get_value (default_flags (v_access V))) d2 = (Some ks, d3)"
    using assms(4) unfolding region_law_def by (metis not_None_eq prod.collapse)
  let ?mr = "\<lparr>rh_mr = Some ks, rh_nic = nic, rh_mem = rmem_new af (1024 * 1024)\<rparr>"
  have "reg_handler_create V (rmem_new af (1024 * 1024)) nic (default_flags (v_access V)) d2 = (Inr (Some ?mr), d3)"
    using valid reg assms(5) by (simp add: reg_handler_create_def reg_handler_new_def rmem_new_def act_simps rh_valid_def bindA_def callA_def)
  moreover obtain attr where "get_reg_attr ?mr = Some attr" "ra_buf attr = of_nat p"
    using assms(5) by (cases ks) (simp add: get_reg_attr_def rmem_new_def ptr_u64_def)
  moreover have "\<exists>s1. dc_server rnd V af idx nic_name mem_name ok s = (Inr (), s1) \<and>
      registered_dcs (sv_ctrl s1) = \<lparr>store = [(bstr ''server_dc'', (t, k1))]\<rparr> \<and>
      registered_mrs (sv_ctrl s1) = \<lparr>store = [(mem_name, (?mr, k3))]\<rparr>"
    using assms(1,7) t(1) calculation(1) keys
    by (simp add: dc_server_def bindA_def on_ctrl_def drvA_def rctrl_blank_def register_dc_def reg_def factory_empty_def
        register_nic_def assertE_def opened_nic_def query_def register_region_def create_then_reg_def launch_def)
  ultimately show thesis
    using that t(2) by (auto simp: query_def)
qed

text \<open>The address handle that a client makes for a target.\<close>

definition dc_handle :: "'d verbs \<Rightarrow> rnic \<Rightarrow> dc_attr \<Rightarrow> 'd \<Rightarrow> ptr" where
  "dc_handle V nic dc d = fst (v_create_ah V (nic_pd nic)
     (zero_ah\<lparr>ah_is_global := 0, ah_dlid := ucast (ucast (dc_lid dc) :: c_int), ah_sl := 0, ah_src_path_bits := 0, ah_port_num := 1\<rparr>) d)"

text \<open>The three calls of a client: is the server there, its target, its region.\<close>

lemma query_body_run:
  fixes S :: "'a srpc" and V :: "'d verbs"
  assumes client: "fd_valid (sc_fd (sp_chan S))" "send_fails n = []"
    and server: "idle H" "map_of (hd_fac H) HeartBeat = Some heartbeat_handler"
      "map_of (hd_fac H) FetchDCAttr = Some fetch_dc_attr_wrapper" "map_of (hd_fac H) FetchMr = Some fetch_mr_handler"
      "query (registered_dcs s) (bstr ''server_dc'') = Some t" "dt_attr t = Some dc"
      "query (registered_mrs s) mem_name = Some mr" "get_reg_attr mr = Some attr"
  obtains ps H' c' where "exchanges H s a ps H' s" "length ps = 3"
    "query_body V nic mem_name \<lparr>cm_rpc = S, cm_net = with_replies n b ps es, cv_drv = d\<rparr> = (Inr (dc, dc_handle V nic dc d, attr), c')"
proof -
  let ?t = "sc_end (sp_chan S)" and ?nm = "bstr ''server_dc''"
  have hb: "\<forall>h \<in> set []. heartbeat_packet (snd (h :: 'a \<times> bytes))" and nm: "length ?nm \<le> kMaxQPNameLen" "0 \<notin> set ?nm"
    by (simp_all add: bstr_def kMaxQPNameLen_def)
  obtain x1 y1 H1 where x1: "one_exchange H s a x1 y1 H1 s"
      "\<forall>n es k. \<forall>c :: ('a, 'd) cm_dev. send_fails n = [] \<longrightarrow> cm_rpc c = S \<longrightarrow> cm_net c = with_answer n [] b y1 es \<longrightarrow>
         wait_ready (Suc k) c = (Inr (Ok []), c\<lparr>cm_net := after_call S n x1 es\<rparr>)"
    using heartbeat_exchange [OF client(1) server(1,2), of s a b] by blast
  then have H1: "idle H1" "map_of (hd_fac H1) FetchDCAttr = Some fetch_dc_attr_wrapper"
    using server(3) by (simp_all add: one_exchange_def)
  obtain x2 y2 H2 where x2: "one_exchange H1 s a x2 y2 H2 s"
      "\<forall>n es. \<forall>c :: ('a, 'd) cm_dev. send_fails n = [] \<longrightarrow> cm_rpc c = S \<longrightarrow> cm_net c = with_answer n [] b y2 es \<longrightarrow>
         cm_fetch_dc_attr ?nm c = (Inr (Ok ([], dc)), c\<lparr>cm_rpc := next_ck S, cm_net := after_call S n x2 es\<rparr>)"
    using fetch_dc_exchange [OF client(1) nm H1 server(5,6) hb, of a b] by blast
  then have H2: "idle H2" "map_of (hd_fac H2) FetchMr = Some fetch_mr_handler"
    using server(4) x1(1) by (simp_all add: one_exchange_def)
  have valid: "fd_valid (sc_fd (sp_chan (next_ck S)))"
    using client(1) by simp
  obtain x3 y3 H3 where x3: "one_exchange H2 s a x3 y3 H3 s"
      "\<forall>n es. \<forall>c :: ('a, 'd) cm_dev. send_fails n = [] \<longrightarrow> cm_rpc c = next_ck S \<longrightarrow> cm_net c = with_answer n [] b y3 es \<longrightarrow>
         fetch_remote_mr mem_name c = (Inr (Ok ([], attr)), c\<lparr>cm_rpc := next_ck (next_ck S), cm_net := after_call (next_ck S) n x3 es\<rparr>)"
    using fetch_mr_exchange [OF valid H2 server(7,8) hb, of a b] by blast
  let ?ps = "[(x1, y1), (x2, y2), (x3, y3)]" and ?e2 = "SelData b y2 # SelData b y3 # es" and ?e3 = "SelData b y3 # es"
  let ?n1 = "n\<lparr>outbox := outbox n @ [(?t, x1)]\<rparr>" and ?n2 = "n\<lparr>outbox := outbox n @ [(?t, x1), (?t, x2)]\<rparr>"
  let ?c0 = "\<lparr>cm_rpc = S, cm_net = with_replies n b ?ps es, cv_drv = d\<rparr>"
  let ?c1 = "?c0\<lparr>cm_net := with_answer ?n1 [] b y2 ?e3\<rparr>"
  let ?c2 = "?c0\<lparr>cm_rpc := next_ck S, cm_net := with_answer ?n2 [] b y3 es\<rparr>"
  have 1: "wait_ready 2 ?c0 = (Inr (Ok []), ?c1)"
    using x1(2) [rule_format, OF client(2), of ?c0 ?e2 1]
    by (simp add: with_replies_def with_answer_def after_call_def numeral_2_eq_2)
  have 2: "cm_fetch_dc_attr ?nm ?c1 = (Inr (Ok ([], dc)), ?c2)"
    using x2(2) [rule_format, of ?n1 ?c1 ?e3] client(2) by (simp add: with_answer_def after_call_def)
  have 3: "fetch_remote_mr mem_name (?c2\<lparr>cv_drv := d'\<rparr>) = (Inr (Ok ([], attr)),
      ?c2\<lparr>cv_drv := d', cm_rpc := next_ck (next_ck S), cm_net := after_call (next_ck S) ?n2 x3 es\<rparr>)" for d'
    using x3(2) [rule_format, of ?n2 "?c2\<lparr>cv_drv := d'\<rparr>" es] client(2) by simp
  have "exchanges H s a ?ps H3 s"
    using x1(1) x2(1) x3(1) by auto
  moreover have "\<exists>c'. query_body V nic mem_name ?c0 = (Inr (dc, dc_handle V nic dc d, attr), c')"
    unfolding query_body_def wait_server_def remote_region_def expect_ok_def
    using 1 2 3 by (simp add: bindA_def liftA_def retA_def cvD_def dc_create_ah_def callA_def dc_handle_def split: prod.splits)
  ultimately show thesis
    using that [of ?ps H3] by auto
qed



end
