(* ===== verification/Threads.thy ===== *)
theory Threads
  imports Clients
begin

text \<open>
  The main function of the measuring clients: it starts the workers' threads, reports their
  counters once a second while they run, clears the flag \<open>running\<close> and joins them. Here the
  threads are interleaved: a step is one action of the main thread or of one worker. The source
  is benchs/thread.hh, reporter.hh and the function \<open>main\<close> of bench_client.cc, which that of the other
  measuring clients repeats.
\<close>

section \<open>Workers and their threads\<close>

text \<open>
  What a worker's function does, as the main program sees it: its set-up, one turn of the loop,
  which gives what it adds to the counter or fails an assertion, and what follows the loop.
\<close>

record 'l worker_code =
  wk_begin :: "usize \<Rightarrow> 'l"
  wk_turn :: "usize \<Rightarrow> 'l \<Rightarrow> ('l \<times> u64) option"
  wk_return :: "usize \<Rightarrow> 'l \<Rightarrow> usize"

text \<open>
  A thread has not been started, is about to read the flag, is in a turn, or has ended with
  the value of \<open>res\<close>.
\<close>

datatype 'l tstate = T_new | T_head 'l | T_body 'l | T_done usize

text \<open>The loop of or_bench as such a code, every worker with objects of its own.\<close>

definition or_code ::
  "'d verbs \<Rightarrow> wr_opcodes \<Rightarrow> reg_attr \<Rightarrow> nat \<Rightarrow> nat \<Rightarrow> (usize \<Rightarrow> 'd worker) \<Rightarrow> 'd worker worker_code"
where
  "or_code V C attr or_max or_factor start =
     \<lparr>wk_begin = start,
      wk_turn = (\<lambda>_ w. case or_round V C attr or_max or_factor w of
          (Inl e, w') \<Rightarrow> None
        | (Inr _, w') \<Rightarrow> Some (w', st_counter (wk_stat w') - st_counter (wk_stat w))),
      wk_return = (\<lambda>_ _. 0)\<rparr>"

text \<open>
  The loops of the other measuring clients. What a turn adds to the counter is what its requests
  incremented it by. fly_bench carries the numbers of received and flying requests from turn to turn.
\<close>

definition fly_code ::
  "'d verbs \<Rightarrow> wr_opcodes \<Rightarrow> reg_attr \<Rightarrow> u64 \<Rightarrow> (usize \<Rightarrow> 'd worker) \<Rightarrow> ('d worker \<times> u64 \<times> u64) worker_code"
where
  "fly_code V C attr para start =
     \<lparr>wk_begin = (\<lambda>i. (start i, 0, 0)),
      wk_turn = (\<lambda>_ (w, recv_cnt, flying_cnt). case fly_round V C attr para recv_cnt flying_cnt w of
          (Inl e, w') \<Rightarrow> None
        | (Inr (recv_cnt', flying_cnt'), w') \<Rightarrow>
            Some ((w', recv_cnt', flying_cnt'), st_counter (wk_stat w') - st_counter (wk_stat w))),
      wk_return = (\<lambda>_ _. 0)\<rparr>"

definition bench_worker_code :: "('d bench_worker, unit) act \<Rightarrow> (usize \<Rightarrow> 'd bench_worker) \<Rightarrow> 'd bench_worker worker_code" where
  "bench_worker_code round start =
     \<lparr>wk_begin = start,
      wk_turn = (\<lambda>_ w. case round w of
          (Inl e, w') \<Rightarrow> None
        | (Inr _, w') \<Rightarrow> Some (w', st_counter (bk_stat w') - st_counter (bk_stat w))),
      wk_return = (\<lambda>_ _. 0)\<rparr>"

definition bench_code :: "'d verbs \<Rightarrow> wr_opcodes \<Rightarrow> (usize \<Rightarrow> 'd bench_worker) \<Rightarrow> 'd bench_worker worker_code" where
  "bench_code V C = bench_worker_code (bench_round V C)"

definition db_code :: "'d verbs \<Rightarrow> wr_opcodes \<Rightarrow> nat \<Rightarrow> nat \<Rightarrow> (usize \<Rightarrow> 'd bench_worker) \<Rightarrow> 'd bench_worker worker_code" where
  "db_code V C or_max or_factor = bench_worker_code (batch_round V C or_max or_factor)"

section \<open>The main thread\<close>

text \<open>
  Where it is: starting the i-th thread; in epoch \<open>e\<close> of the report, about to read the i-th
  counter with the sum so far; joining the i-th thread; at the end; or ended by a failed assertion,
  which ends every thread.
\<close>

datatype main_pc = M_start nat | M_report nat nat u64 | M_join nat | M_end | M_abort

record 'l sys =
  sy_threads :: "'l tstate list"
  sy_counters :: "u64 list"
  sy_olds :: "u64 list"
  sy_reports :: "u64 list"
  sy_running :: bool
  sy_pc :: main_pc
  sy_results :: "usize list"

definition sys_init :: "nat \<Rightarrow> 'l sys" where
  "sys_init n = \<lparr>sy_threads = replicate n T_new, sy_counters = replicate n 0, sy_olds = replicate n 0, sy_reports = [],
     sy_running = True, sy_pc = M_start 0, sy_results = []\<rparr>"

text \<open>\<open>start\<close> asserts its three calls of pthread, \<open>join\<close> its one: \<open>started\<close> and \<open>joined\<close> say whether they succeed.\<close>

definition thread_start :: "bool \<Rightarrow> 'l worker_code \<Rightarrow> nat \<Rightarrow> 'l sys \<Rightarrow> 'l sys" where
  "thread_start started W i s =
     (if started then s\<lparr>sy_threads := (sy_threads s)[i := T_head (wk_begin W (of_nat i))], sy_pc := M_start (Suc i)\<rparr>
      else s\<lparr>sy_pc := M_abort\<rparr>)"

definition thread_join :: "bool \<Rightarrow> nat \<Rightarrow> 'l sys \<Rightarrow> 'l sys option" where
  "thread_join joined i s =
     (case sy_threads s ! i of
        T_done res \<Rightarrow>
          Some (if joined then s\<lparr>sy_results := sy_results s @ [res], sy_pc := M_join (Suc i)\<rparr> else s\<lparr>sy_pc := M_abort\<rparr>)
      | _ \<Rightarrow> None)"

text \<open>One counter of an epoch; after the last one the epoch is reported and the next begins.\<close>

definition report_step :: "nat \<Rightarrow> nat \<Rightarrow> u64 \<Rightarrow> 'l sys \<Rightarrow> 'l sys" where
  "report_step e i acc s =
     (if i < length (sy_threads s)
      then let temp = sy_counters s ! i in
        s\<lparr>sy_olds := (sy_olds s)[i := temp], sy_pc := M_report e (Suc i) (acc + (temp - sy_olds s ! i))\<rparr>
      else s\<lparr>sy_reports := sy_reports s @ [acc], sy_pc := M_report (Suc e) 0 0\<rparr>)"

definition main_step ::
  "(nat \<Rightarrow> bool) \<Rightarrow> (nat \<Rightarrow> bool) \<Rightarrow> 'l worker_code \<Rightarrow> nat \<Rightarrow> 'l sys \<Rightarrow> 'l sys option"
where
  "main_step started joined W epoches s =
     (case sy_pc s of
        M_start i \<Rightarrow>
          Some (if i < length (sy_threads s) then thread_start (started i) W i s else s\<lparr>sy_pc := M_report 0 0 0\<rparr>)
      | M_report e i acc \<Rightarrow>
          Some (if e < epoches then report_step e i acc s else s\<lparr>sy_running := False, sy_pc := M_join 0\<rparr>)
      | M_join i \<Rightarrow> if i < length (sy_threads s) then thread_join (joined i) i s else Some (s\<lparr>sy_pc := M_end\<rparr>)
      | M_end \<Rightarrow> None
      | M_abort \<Rightarrow> None)"

section \<open>A worker's step\<close>

definition ended :: "'l sys \<Rightarrow> bool" where
  "ended s \<longleftrightarrow> sy_pc s = M_end \<or> sy_pc s = M_abort"

definition thread_step :: "'l worker_code \<Rightarrow> nat \<Rightarrow> 'l sys \<Rightarrow> 'l sys option" where
  "thread_step W i s =
     (if ended s \<or> length (sy_threads s) \<le> i then None
      else case sy_threads s ! i of
          T_head l \<Rightarrow>
            Some (s\<lparr>sy_threads := (sy_threads s)[i := if sy_running s then T_body l else T_done (wk_return W (of_nat i) l)]\<rparr>)
        | T_body l \<Rightarrow>
            (case wk_turn W (of_nat i) l of
               None \<Rightarrow> Some (s\<lparr>sy_pc := M_abort\<rparr>)
             | Some (l', d) \<Rightarrow>
                 Some (s\<lparr>sy_threads := (sy_threads s)[i := T_head l'], sy_counters := (sy_counters s)[i := sy_counters s ! i + d]\<rparr>))
        | _ \<Rightarrow> None)"

inductive bench_step :: "(nat \<Rightarrow> bool) \<Rightarrow> (nat \<Rightarrow> bool) \<Rightarrow> 'l worker_code \<Rightarrow> nat \<Rightarrow> 'l sys \<Rightarrow> 'l sys \<Rightarrow> bool"
  for started joined W epoches
where
  main: "main_step started joined W epoches s = Some s' \<Longrightarrow> bench_step started joined W epoches s s'"
| worker: "thread_step W i s = Some s' \<Longrightarrow> bench_step started joined W epoches s s'"

inductive_cases bench_stepE: "bench_step started joined W epoches s s'"

text \<open>
  The mains of the four measuring clients: what is reachable with their threads and the ten
  epochs of their report.
\<close>

definition client_main :: "(nat \<Rightarrow> bool) \<Rightarrow> (nat \<Rightarrow> bool) \<Rightarrow> 'l worker_code \<Rightarrow> nat \<Rightarrow> 'l sys \<Rightarrow> bool" where
  "client_main started joined W threads s \<longleftrightarrow> (bench_step started joined W 10)\<^sup>*\<^sup>* (sys_init threads) s"

definition or_main ::
  "(nat \<Rightarrow> bool) \<Rightarrow> (nat \<Rightarrow> bool) \<Rightarrow> 'd verbs \<Rightarrow> wr_opcodes \<Rightarrow> reg_attr \<Rightarrow> nat \<Rightarrow> nat \<Rightarrow> (usize \<Rightarrow> 'd worker) \<Rightarrow> nat \<Rightarrow>
     'd worker sys \<Rightarrow> bool"
where
  "or_main started joined V C attr or_max or_factor start = client_main started joined (or_code V C attr or_max or_factor start)"

definition fly_main ::
  "(nat \<Rightarrow> bool) \<Rightarrow> (nat \<Rightarrow> bool) \<Rightarrow> 'd verbs \<Rightarrow> wr_opcodes \<Rightarrow> reg_attr \<Rightarrow> u64 \<Rightarrow> (usize \<Rightarrow> 'd worker) \<Rightarrow> nat \<Rightarrow>
     ('d worker \<times> u64 \<times> u64) sys \<Rightarrow> bool"
where
  "fly_main started joined V C attr para start = client_main started joined (fly_code V C attr para start)"

definition bench_main ::
  "(nat \<Rightarrow> bool) \<Rightarrow> (nat \<Rightarrow> bool) \<Rightarrow> 'd verbs \<Rightarrow> wr_opcodes \<Rightarrow> (usize \<Rightarrow> 'd bench_worker) \<Rightarrow> nat \<Rightarrow> 'd bench_worker sys \<Rightarrow> bool"
where
  "bench_main started joined V C start = client_main started joined (bench_code V C start)"

definition db_main ::
  "(nat \<Rightarrow> bool) \<Rightarrow> (nat \<Rightarrow> bool) \<Rightarrow> 'd verbs \<Rightarrow> wr_opcodes \<Rightarrow> nat \<Rightarrow> nat \<Rightarrow> (usize \<Rightarrow> 'd bench_worker) \<Rightarrow> nat \<Rightarrow>
     'd bench_worker sys \<Rightarrow> bool"
where
  "db_main started joined V C or_max or_factor start = client_main started joined (db_code V C or_max or_factor start)"

text \<open>A schedule of the threads as a list: \<open>None\<close> is the main thread.\<close>

fun run_schedule ::
  "(nat \<Rightarrow> bool) \<Rightarrow> (nat \<Rightarrow> bool) \<Rightarrow> 'l worker_code \<Rightarrow> nat \<Rightarrow> nat option list \<Rightarrow> 'l sys \<Rightarrow> 'l sys option"
where
  "run_schedule started joined W epoches [] s = Some s"
| "run_schedule started joined W epoches (x # xs) s =
     (case (case x of None \<Rightarrow> main_step started joined W epoches s | Some i \<Rightarrow> thread_step W i s) of
        None \<Rightarrow> None
      | Some s' \<Rightarrow> run_schedule started joined W epoches xs s')"

end
