(* ===== verification/ThreadsSpec.thy ===== *)
theory ThreadsSpec
  imports Threads BenchSpec
begin

text \<open>
  The threads of a measuring client in every interleaving: what is reported, what is joined,
  and that the program ends.
\<close>

lemma run_schedule_steps:
  "run_schedule started joined W epoches xs s = Some s' \<Longrightarrow> (bench_step started joined W epoches)\<^sup>*\<^sup>* s s'"
proof (induction xs arbitrary: s)
  case (Cons x xs)
  then obtain s1 where "run_schedule started joined W epoches xs s1 = Some s'" "bench_step started joined W epoches s s1"
    by (auto split: option.splits intro: bench_step.intros)
  then show ?case
    using Cons.IH by (meson converse_rtranclp_into_rtranclp)
qed simp

section \<open>The invariant\<close>

text \<open>
  What holds wherever the main thread is: \<open>n\<close> threads with their counters, none ended while the
  flag is set; threads before the main thread's position are started or joined; and what has
  been reported so far sums up to the counters last read.
\<close>

fun pc_inv :: "nat \<Rightarrow> 'l sys \<Rightarrow> main_pc \<Rightarrow> bool" where
  "pc_inv E s (M_start i) \<longleftrightarrow> i \<le> length (sy_threads s) \<and> sy_running s \<and> sy_reports s = [] \<and> sy_results s = [] \<and>
     sy_olds s = replicate (length (sy_threads s)) 0 \<and> (\<forall>j < length (sy_threads s). sy_threads s ! j = T_new \<longleftrightarrow> i \<le> j)"
| "pc_inv E s (M_report e i acc) \<longleftrightarrow> i \<le> length (sy_threads s) \<and> e \<le> E \<and> (e = E \<longrightarrow> acc = 0) \<and> length (sy_reports s) = e \<and> sy_results s = [] \<and> sy_running s \<and>
     T_new \<notin> set (sy_threads s) \<and> sum_list (sy_reports s) + acc = sum_list (sy_olds s)"
| "pc_inv E s (M_join i) \<longleftrightarrow> i \<le> length (sy_threads s) \<and> \<not> sy_running s \<and> T_new \<notin> set (sy_threads s) \<and>
     length (sy_reports s) = E \<and> sum_list (sy_reports s) = sum_list (sy_olds s) \<and>
     map T_done (sy_results s) = take i (sy_threads s)"
| "pc_inv E s M_end \<longleftrightarrow> length (sy_reports s) = E \<and> sum_list (sy_reports s) = sum_list (sy_olds s) \<and>
     map T_done (sy_results s) = sy_threads s"
| "pc_inv E s M_abort \<longleftrightarrow> True"

definition bench_inv :: "nat \<Rightarrow> nat \<Rightarrow> 'l sys \<Rightarrow> bool" where
  "bench_inv n E s \<longleftrightarrow> length (sy_threads s) = n \<and> length (sy_counters s) = n \<and> length (sy_olds s) = n \<and>
     (sy_running s \<longrightarrow> (\<forall>r. T_done r \<notin> set (sy_threads s))) \<and> pc_inv E s (sy_pc s)"

lemma bench_inv_init: "bench_inv n E (sys_init n)"
  by (simp add: bench_inv_def sys_init_def)

lemma sum_list_reread: "i < length xs \<Longrightarrow> sum_list (xs[i := x]) = sum_list xs + (x - xs ! i :: 'a :: ab_group_add)"
  by (induction xs arbitrary: i) (auto simp: algebra_simps split: nat.splits)

lemma sum_list_zeros: "sum_list (replicate k (0 :: u64)) = 0"
  by (induction k) simp_all

lemma main_step_inv:
  assumes "bench_inv n E s" "main_step started joined W E s = Some s'"
  shows "bench_inv n E s'"
proof (cases "sy_pc s")
  case (M_start i)
  then show ?thesis
    using assms
    by (auto simp: bench_inv_def main_step_def thread_start_def sum_list_zeros nth_list_update in_set_conv_nth split: if_splits
        dest!: set_update_subset_insert [THEN subsetD])
next
  case (M_report e i acc)
  then show ?thesis
    using assms
    by (auto simp: bench_inv_def main_step_def report_step_def Let_def sum_list_reread algebra_simps split: if_splits)
next
  case (M_join i)
  then show ?thesis
    using assms
    by (auto simp: bench_inv_def main_step_def thread_join_def take_Suc_conv_app_nth split: if_splits tstate.splits)
qed (use assms in \<open>auto simp: main_step_def\<close>)

lemma take_update_ended:
  assumes "map T_done rs = take i ts" "\<forall>r. ts ! j \<noteq> T_done r" "j < length ts"
  shows "take i (ts[j := t]) = take i ts"
proof -
  have "i \<le> j"
  proof (rule ccontr)
    assume "\<not> i \<le> j"
    then have "ts ! j = T_done (rs ! j)"
      using assms(1,3) by (metis length_map length_take linorder_not_le min_less_iff_conj nth_map nth_take)
    then show False
      using assms(2) by simp
  qed
  then show ?thesis
    by simp
qed

text \<open>A worker's step ends the program or changes its own thread and counter only.\<close>

lemma thread_stepE:
  assumes "thread_step W i s = Some s'"
  obtains (abort) l where "s' = s\<lparr>sy_pc := M_abort\<rparr>" "i < length (sy_threads s)" "sy_threads s ! i = T_body l" "\<not> ended s"
  | (turn) l l' d where "s' = s\<lparr>sy_threads := (sy_threads s)[i := T_head l'], sy_counters := (sy_counters s)[i := sy_counters s ! i + d]\<rparr>"
      "i < length (sy_threads s)" "sy_threads s ! i = T_body l" "\<not> ended s"
  | (enter) l where "s' = s\<lparr>sy_threads := (sy_threads s)[i := T_body l]\<rparr>" "i < length (sy_threads s)" "sy_threads s ! i = T_head l"
      "sy_running s" "\<not> ended s"
  | (leave) l r where "s' = s\<lparr>sy_threads := (sy_threads s)[i := T_done r]\<rparr>" "i < length (sy_threads s)" "sy_threads s ! i = T_head l"
      "\<not> sy_running s" "\<not> ended s"
  using assms by (auto simp: thread_step_def split: if_splits tstate.splits option.splits)

lemma update_inv:
  assumes "bench_inv n E s" "i < length (sy_threads s)" "t \<noteq> T_new" "\<forall>r. sy_threads s ! i \<noteq> T_done r" "sy_threads s ! i \<noteq> T_new"
    "\<not> ended s" "sy_running s \<longrightarrow> (\<forall>r. t \<noteq> T_done r)" "length cs = length (sy_counters s)"
  shows "bench_inv n E (s\<lparr>sy_threads := (sy_threads s)[i := t], sy_counters := cs\<rparr>)"
proof -
  have new: "T_new \<notin> set (sy_threads s) \<Longrightarrow> T_new \<notin> set ((sy_threads s)[i := t])"
    using assms(3) by (auto dest!: set_update_subset_insert [THEN subsetD])
  have fin: "sy_running s \<Longrightarrow> \<forall>r. T_done r \<notin> set ((sy_threads s)[i := t])"
    using assms(1,7) by (auto simp: bench_inv_def dest!: set_update_subset_insert [THEN subsetD])
  have "pc_inv E (s\<lparr>sy_threads := (sy_threads s)[i := t], sy_counters := cs\<rparr>) (sy_pc s)"
    using assms(1-6) new by (cases "sy_pc s") (auto simp: bench_inv_def ended_def nth_list_update take_update_ended)
  then show ?thesis
    using assms(1,8) fin by (simp add: bench_inv_def)
qed

lemma thread_step_inv:
  assumes "bench_inv n E s" "thread_step W i s = Some s'"
  shows "bench_inv n E s'"
  using assms(2)
proof (cases rule: thread_stepE)
  case abort
  then show ?thesis
    using assms(1) by (simp add: bench_inv_def)
next
  case (turn l l' d)
  then show ?thesis
    using update_inv [OF assms(1), of i "T_head l'" "(sy_counters s)[i := sy_counters s ! i + d]"] by simp
next
  case (enter l)
  then show ?thesis
    using update_inv [OF assms(1), of i "T_body l" "sy_counters s"] by simp
next
  case (leave l r)
  then show ?thesis
    using update_inv [OF assms(1), of i "T_done r" "sy_counters s"] by simp
qed

lemma bench_step_inv: "bench_step started joined W E s s' \<Longrightarrow> bench_inv n E s \<Longrightarrow> bench_inv n E s'"
  by (auto elim!: bench_stepE intro: main_step_inv thread_step_inv)

lemma reachable_inv:
  assumes "(bench_step started joined W E)\<^sup>*\<^sup>* (sys_init n) s"
  shows "bench_inv n E s"
  using assms by (induction rule: rtranclp_induct) (auto intro: bench_inv_init bench_step_inv)

section \<open>The end\<close>

text \<open>How many steps are left: of a thread once the flag is cleared, and of the main thread.\<close>

fun thread_left :: "'l tstate \<Rightarrow> nat" where
  "thread_left T_new = 3"
| "thread_left (T_body l) = 2"
| "thread_left (T_head l) = 1"
| "thread_left (T_done r) = 0"

fun join_left :: "nat \<Rightarrow> main_pc \<Rightarrow> nat" where
  "join_left n (M_join i) = n - i"
| "join_left n _ = 0"

definition steps_left :: "'l sys \<Rightarrow> nat" where
  "steps_left s =
     (if ended s then 0 else Suc (sum_list (map thread_left (sy_threads s)) + join_left (length (sy_threads s)) (sy_pc s)))"

lemma sum_list_nat_update: "i < length xs \<Longrightarrow> sum_list (xs[i := x]) + xs ! i = sum_list xs + (x :: nat)"
  by (induction xs arbitrary: i) (auto split: nat.splits)

lemma threads_left_update:
  assumes "i < length ts" "thread_left t < thread_left (ts ! i)"
  shows "sum_list (map thread_left (ts[i := t])) < sum_list (map thread_left ts)"
  using sum_list_nat_update [of i "map thread_left ts" "thread_left t"] assms by (simp add: map_update)

lemma stopping_step:
  assumes "bench_step started joined W E s s'" "\<not> sy_running s" "bench_inv n E s"
  shows "steps_left s' < steps_left s \<and> \<not> sy_running s'"
proof -
  consider (main) "main_step started joined W E s = Some s'" | (worker) i where "thread_step W i s = Some s'"
    using assms(1) by (auto elim: bench_stepE)
  then show ?thesis
proof cases
  case main
  then show ?thesis
    using assms(2,3)
    by (cases "sy_pc s")
      (auto simp: main_step_def thread_join_def bench_inv_def steps_left_def ended_def split: if_splits tstate.splits)
next
  case (worker i)
  then show ?thesis
  proof (cases rule: thread_stepE)
    case (abort l)
    then show ?thesis
      using assms(2) by (simp add: steps_left_def ended_def)
  next
    case (turn l l' d)
    then show ?thesis
      using threads_left_update [of i "sy_threads s" "T_head l'"] assms(2) by (simp add: steps_left_def ended_def)
  next
    case (leave l r)
    then show ?thesis
      using threads_left_update [of i "sy_threads s" "T_done r"] assms(2) by (simp add: steps_left_def ended_def)
  qed (use assms(2) in auto)
qed
qed

text \<open>Nobody waits for ever: where the program has not ended, some thread can take a step.\<close>

lemma progress:
  assumes "bench_inv n E s" "\<not> ended s"
  shows "\<exists>s'. bench_step started joined W E s s'"
proof (cases "main_step started joined W E s")
  case None
  then obtain i where i: "sy_pc s = M_join i" "i < length (sy_threads s)" "\<forall>r. sy_threads s ! i \<noteq> T_done r"
    using assms(2) by (auto simp: main_step_def thread_join_def ended_def split: main_pc.splits if_splits tstate.splits)
  then have "sy_threads s ! i \<noteq> T_new"
    using assms(1) by (auto simp: bench_inv_def in_set_conv_nth)
  then have "thread_step W i s \<noteq> None"
    using i assms(2) by (cases "sy_threads s ! i") (auto simp: thread_step_def split: option.splits)
  then show ?thesis
    by (auto intro: bench_step.worker)
qed (auto intro: bench_step.main)

text \<open>What the main thread has to do before it clears the flag.\<close>

fun main_left :: "nat \<Rightarrow> nat \<Rightarrow> main_pc \<Rightarrow> nat" where
  "main_left n E (M_start i) = Suc (n - i) + Suc (E * Suc n)"
| "main_left n E (M_report e i acc) = Suc ((E - e) * Suc n) - i"
| "main_left n E _ = 0"

lemma main_step_left:
  assumes "bench_inv n E s" "sy_running s" "\<not> ended s"
  shows "\<exists>s'. main_step started joined W E s = Some s' \<and> (ended s' \<or> \<not> sy_running s' \<or> main_left n E (sy_pc s') < main_left n E (sy_pc s))"
proof (cases "sy_pc s")
  case (M_report e i acc)
  show ?thesis
  proof (cases "e < E")
    case True
    then obtain k where k: "E = Suc e + k"
      by (metis less_imp_Suc_add add_Suc)
    show ?thesis
      using assms M_report True k
      by (auto simp: main_step_def report_step_def Let_def bench_inv_def)
  qed (use M_report in \<open>simp add: main_step_def\<close>)
qed (use assms in \<open>auto simp: main_step_def thread_start_def bench_inv_def ended_def\<close>)

lemma main_runs:
  assumes "bench_inv n E s" "sy_running s"
  shows "\<exists>s'. (bench_step started joined W E)\<^sup>*\<^sup>* s s' \<and> bench_inv n E s' \<and> (ended s' \<or> \<not> sy_running s')"
  using assms
proof (induction "main_left n E (sy_pc s)" arbitrary: s rule: less_induct)
  case less
  show ?case
  proof (cases "ended s")
    case False
    obtain s1 where s1: "main_step started joined W E s = Some s1"
        "ended s1 \<or> \<not> sy_running s1 \<or> main_left n E (sy_pc s1) < main_left n E (sy_pc s)"
      using main_step_left [OF less.prems False] by blast
    then have "bench_inv n E s1" "bench_step started joined W E s s1"
      using main_step_inv [OF less.prems(1)] by (auto intro: bench_step.main)
    then show ?thesis
      using less.hyps [of s1] s1(2) by (metis converse_rtranclp_into_rtranclp r_into_rtranclp)
  qed (use less.prems in blast)
qed

lemma stopping_ends:
  assumes "bench_inv n E s" "\<not> sy_running s"
  shows "\<exists>s'. (bench_step started joined W E)\<^sup>*\<^sup>* s s' \<and> ended s'"
  using assms
proof (induction "steps_left s" arbitrary: s rule: less_induct)
  case less
  show ?case
  proof (cases "ended s")
    case False
    then obtain s1 where s1: "bench_step started joined W E s s1"
      using progress [OF less.prems(1)] by blast
    then have "bench_inv n E s1" "steps_left s1 < steps_left s" "\<not> sy_running s1"
      using bench_step_inv less.prems stopping_step by blast+
    then show ?thesis
      using less.hyps [of s1] s1 by (meson converse_rtranclp_into_rtranclp)
  qed blast
qed

lemma stopping_bound:
  assumes "((bench_step started joined W E) ^^ k) s s'" "bench_inv n E s" "\<not> sy_running s"
  shows "k \<le> steps_left s"
  using assms
proof (induction k arbitrary: s)
  case (Suc k)
  then obtain s1 where "bench_step started joined W E s s1" "((bench_step started joined W E) ^^ k) s1 s'"
    by (metis relpowp_Suc_D2)
  then show ?case
    using Suc.IH [of s1] Suc.prems(2,3) stopping_step [of started joined W E s s1 n] bench_step_inv [of started joined W E s s1 n]
    by fastforce
qed simp

lemma steps_left_bound:
  assumes "bench_inv n E s"
  shows "steps_left s \<le> 4 * n + 1"
proof -
  have "sum_list (map thread_left ts) \<le> 3 * length ts" for ts :: "'l tstate list"
  proof (induction ts)
    case (Cons t ts)
    then show ?case
      by (cases t) auto
  qed simp
  from this [of "sy_threads s"] show ?thesis
    using assms by (cases "sy_pc s") (auto simp: steps_left_def bench_inv_def)
qed

text \<open>
  C27: The threads of a measuring client, in every interleaving of any number of workers with the main
  thread. While the flag is set no worker has ended, and all have been started before the report
  begins. When the program ends without a failed assertion, every worker has ended and been joined in order, every epoch has
  been reported, and the reports sum up to the counters that were last read.
\<close>
theorem bench_threads_invariant:
  assumes "(bench_step started joined W epoches)\<^sup>*\<^sup>* (sys_init n) s"
  shows "(sy_running s \<longrightarrow> (\<forall>r. T_done r \<notin> set (sy_threads s))) \<and>
    ((\<forall>i. sy_pc s \<noteq> M_start i) \<and> sy_pc s \<noteq> M_abort \<longrightarrow> T_new \<notin> set (sy_threads s)) \<and>
    (sy_pc s = M_end \<longrightarrow> length (sy_results s) = n \<and> sy_threads s = map T_done (sy_results s) \<and>
       length (sy_reports s) = epoches \<and> sum_list (sy_reports s) = sum_list (sy_olds s))"
proof -
  have inv: "bench_inv n epoches s"
    using reachable_inv [OF assms] .
  have "length (sy_results s) = n" if "map T_done (sy_results s) = sy_threads s"
    using that inv by (metis bench_inv_def length_map)
  moreover have "T_new \<notin> set (sy_threads s)" if "map T_done (sy_results s) = sy_threads s"
    using that by (metis ex_map_conv tstate.distinct(5))
  ultimately show ?thesis
    using inv by (cases "sy_pc s") (auto simp: bench_inv_def)
qed

text \<open>Two workers whose turns add 50 and 64 requests, and a schedule in which they report twice.\<close>

definition turn_code :: "u64 worker_code" where
  "turn_code = \<lparr>wk_begin = (\<lambda>_. 0), wk_turn = (\<lambda>i l. Some (l + 1, if i = 0 then 50 else 64)), wk_return = (\<lambda>_ _. 0)\<rparr>"

definition turn_schedule :: "nat option list" where
  "turn_schedule = [None, Some 0, Some 0, None, None, None, Some 1, Some 1, None, None, Some 0, None, None, None, None, Some 0]"

definition turn_rest :: "nat option list" where
  "turn_rest = [Some 1, Some 0, None, None, None]"

definition turn_stopping :: "u64 sys" where
  "turn_stopping = \<lparr>sy_threads = [T_head 2, T_head 1], sy_counters = [100, 64], sy_olds = [50, 64], sy_reports = [114, 0],
     sy_running = False, sy_pc = M_join 0, sy_results = []\<rparr>"

lemma turn_runs:
  "run_schedule (\<lambda>_. True) (\<lambda>_. True) turn_code 2 turn_schedule (sys_init 2) = Some turn_stopping"
  "run_schedule (\<lambda>_. True) (\<lambda>_. True) turn_code 2 (turn_schedule @ turn_rest) (sys_init 2) =
     Some \<lparr>sy_threads = [T_done 0, T_done 0], sy_counters = [100, 64], sy_olds = [50, 64], sy_reports = [114, 0],
       sy_running = False, sy_pc = M_end, sy_results = [0, 0]\<rparr>"
  by code_simp+

theorem bench_threads_invariant_witness:
  "\<exists>s. (bench_step (\<lambda>_. True) (\<lambda>_. True) turn_code 2)\<^sup>*\<^sup>* (sys_init 2) s \<and> sy_pc s = M_end \<and> length (sy_results s) = 2 \<and>
     sy_reports s = [114, 0] \<and> sum_list (sy_olds s) = 114"
  using bench_threads_invariant [OF run_schedule_steps [OF turn_runs(2)]] run_schedule_steps [OF turn_runs(2)]
  by (intro exI conjI) (assumption | simp)+



section \<open>Workers that keep a contract\<close>

text \<open>
  Where the threads' states satisfy \<open>I\<close>, every counter is \<open>m\<close> times a number of units of work, and what was
  last read of it is \<open>m\<close> times a smaller one. A turn of the loop does any number of units.
\<close>

fun local_ok :: "('l \<Rightarrow> bool) \<Rightarrow> 'l tstate \<Rightarrow> bool" where
  "local_ok I (T_head l) \<longleftrightarrow> I l"
| "local_ok I (T_body l) \<longleftrightarrow> I l"
| "local_ok I _ \<longleftrightarrow> True"

definition turns_inv :: "('l \<Rightarrow> bool) \<Rightarrow> nat \<Rightarrow> nat \<Rightarrow> 'l sys \<Rightarrow> nat list \<Rightarrow> nat list \<Rightarrow> bool" where
  "turns_inv I m n s turns seen \<longleftrightarrow> sy_pc s \<noteq> M_abort \<and> length (sy_threads s) = n \<and> (\<forall>t \<in> set (sy_threads s). local_ok I t) \<and>
     list_all2 (\<le>) seen turns \<and> length turns = n \<and>
     sy_counters s = map (\<lambda>k. of_nat (k * m)) turns \<and> sy_olds s = map (\<lambda>k. of_nat (k * m)) seen"

lemma turns_inv_init: "turns_inv I m n (sys_init n) (replicate n 0) (replicate n 0)"
  by (simp add: turns_inv_def sys_init_def list_all2_conv_all_nth)

lemma local_ok_update: "\<forall>t \<in> set ts. local_ok I t \<Longrightarrow> local_ok I t' \<Longrightarrow> \<forall>t \<in> set (ts[i := t']). local_ok I t"
  by (auto dest!: set_update_subset_insert [THEN subsetD])

locale worker_contract =
  fixes W :: "'l worker_code" and I :: "'l \<Rightarrow> bool" and m :: nat
  assumes begins: "I (wk_begin W i)"
    and turns: "I l \<Longrightarrow> \<exists>l' k. wk_turn W i l = Some (l', of_nat (k * m)) \<and> I l'"
begin

lemma main_turns:
  assumes "turns_inv I m n s ks js" "main_step (\<lambda>_. True) (\<lambda>_. True) W E s = Some s'"
  shows "\<exists>js'. turns_inv I m n s' ks js'"
proof (cases "sy_pc s")
  case (M_start i)
  then show ?thesis
    using assms local_ok_update [of "sy_threads s" I "T_head (wk_begin W (of_nat i))" i] begins
    by (intro exI [of _ js]) (auto simp: turns_inv_def main_step_def thread_start_def split: if_splits)
next
  case (M_report e i acc)
  show ?thesis
  proof (cases "e < E \<and> i < n")
    case True
    then have "turns_inv I m n s' ks (js[i := ks ! i])"
      using assms M_report
      by (auto simp: turns_inv_def main_step_def report_step_def Let_def map_update list_all2_conv_all_nth nth_list_update)
    then show ?thesis
      by blast
  next
    case False
    then show ?thesis
      using assms M_report by (intro exI [of _ js]) (auto simp: turns_inv_def main_step_def report_step_def split: if_splits)
  qed
next
  case (M_join i)
  then show ?thesis
    using assms by (intro exI [of _ js]) (auto simp: turns_inv_def main_step_def thread_join_def split: if_splits tstate.splits)
qed (use assms in \<open>auto simp: main_step_def\<close>)

lemma thread_turns:
  assumes "turns_inv I m n s ks js" "thread_step W i s = Some s'"
  shows "\<exists>ks'. turns_inv I m n s' ks' js"
proof -
  have i: "i < length (sy_threads s)" "\<not> ended s"
    using assms(2) by (auto simp: thread_step_def split: if_splits)
  then have ok: "local_ok I (sy_threads s ! i)" "i < length ks"
    using assms(1) by (auto simp: turns_inv_def)
  show ?thesis
  proof (cases "sy_threads s ! i")
    case (T_head l)
    then show ?thesis
      using assms i ok local_ok_update [of "sy_threads s" I "if sy_running s then T_body l else T_done (wk_return W (of_nat i) l)" i]
      by (intro exI [of _ ks]) (auto simp: turns_inv_def thread_step_def)
  next
    case (T_body l)
    then obtain l' k where l': "wk_turn W (of_nat i) l = Some (l', of_nat (k * m))" "I l'"
      using turns ok(1) by fastforce
    have "turns_inv I m n s' (ks[i := ks ! i + k]) js"
      using assms i ok T_body l' local_ok_update [of "sy_threads s" I "T_head l'" i]
      by (auto simp: turns_inv_def thread_step_def map_update list_all2_conv_all_nth nth_list_update algebra_simps)
    then show ?thesis
      by blast
  qed (use assms(2) i in \<open>auto simp: thread_step_def\<close>)
qed

lemma reachable_turns:
  assumes "(bench_step (\<lambda>_. True) (\<lambda>_. True) W E)\<^sup>*\<^sup>* (sys_init n) s"
  shows "\<exists>ks js. turns_inv I m n s ks js"
  using assms
proof (induction rule: rtranclp_induct)
  case base
  then show ?case
    using turns_inv_init by blast
next
  case (step s s')
  then obtain ks js where inv: "turns_inv I m n s ks js"
    by blast
  consider (main) "main_step (\<lambda>_. True) (\<lambda>_. True) W E s = Some s'" | (worker) i where "thread_step W i s = Some s'"
    using step.hyps(2) by (auto elim: bench_stepE)
  then show ?case
    using main_turns [OF inv] thread_turns [OF inv] by cases blast+
qed

text \<open>No assertion fails, and what has been reported at the end has been done.\<close>

lemma reported_done:
  assumes "(bench_step (\<lambda>_. True) (\<lambda>_. True) W E)\<^sup>*\<^sup>* (sys_init n) s"
  shows "\<exists>ks js. sy_pc s \<noteq> M_abort \<and> sy_counters s = map (\<lambda>k. of_nat (k * m)) ks \<and> list_all2 (\<le>) js ks \<and>
    (sy_pc s = M_end \<longrightarrow> sum_list (sy_reports s) = of_nat (sum_list js * m))"
proof -
  obtain ks js where inv: "turns_inv I m n s ks js"
    using reachable_turns [OF assms] by blast
  have "sum_list (map (\<lambda>k. of_nat (k * m)) xs) = (of_nat (sum_list xs * m) :: u64)" for xs
    by (induction xs) (simp_all add: algebra_simps)
  then show ?thesis
    using inv reachable_inv [OF assms] by (intro exI [of _ ks] exI [of _ js]) (auto simp: turns_inv_def bench_inv_def)
qed

end

text \<open>The workers of or_bench keep the contract on every device with a queue of requests.\<close>

definition or_inv :: "('d \<Rightarrow> bool list) \<Rightarrow> nat \<Rightarrow> ptr \<Rightarrow> ptr \<Rightarrow> 'd worker \<Rightarrow> bool" where
  "or_inv pend M h c w \<longleftrightarrow> d_qp (wk_rc w) = h \<and> d_cq (wk_rc w) = c \<and> (\<exists>l < M. pend (wk_drv w) = replicate l False)"

lemma or_code_contract:
  assumes "post_law V h pend cap" "poll_law V c pend lag" "clock_range V" "2 * M \<le> cap" "0 < factor" "factor < 2 ^ 31"
    and "\<And>i. or_inv pend M h c (start i)"
  shows "worker_contract (or_code V C attr M factor start) (or_inv pend M h c) factor"
proof
  show "or_inv pend M h c (wk_begin (or_code V C attr M factor start) i)" for i
    using assms(7) by (simp add: or_code_def)
  fix w :: "'a worker" and i
  assume "or_inv pend M h c w"
  then obtain l where l: "l < M" "wk_obs pend w = (h, c, d_out_signaled (wk_rc w), st_counter (wk_stat w), replicate l False)"
    by (auto simp: or_inv_def wk_obs_def)
  obtain w' l' where "or_round V C attr M factor w = (Inr (), w')" "l' < M"
      "wk_obs pend w' = (h, c, d_out_signaled (wk_rc w), st_counter (wk_stat w) + of_nat factor, replicate l' False)"
    using or_round_obs [OF assms(1-4) l(2,1) assms(5,6), of C attr] by blast
  then show "\<exists>w' k. wk_turn (or_code V C attr M factor start) i w = Some (w', of_nat (k * factor)) \<and> or_inv pend M h c w'"
    by (intro exI [of _ w'] exI [of _ 1]) (auto simp: or_code_def or_inv_def wk_obs_def)
qed


text \<open>Two workers on the device of the witnesses, one epoch of the report.\<close>

definition or_start :: "usize \<Rightarrow> sim worker" where
  "or_start i = sample_worker\<lparr>wk_rand := fr_new (3735928495 + i)\<rparr>"

lemma or_start_inv: "or_inv queue_pend 64 (Some 1) (Some 2) (or_start i)"
  by (auto simp: or_inv_def or_start_def sample_worker_def sample_rc_def queue_pend_def sim_start_def)

interpretation or_steady: worker_contract
  "or_code steady_verbs sample_ops null_reg_attr 64 1000 or_start" "or_inv queue_pend 64 (Some 1) (Some 2)" 1000
  by (rule or_code_contract [OF queue_laws(2,4,6) _ _ _ or_start_inv]) simp_all

lemma some_run_ends:
  "\<exists>s. (bench_step (\<lambda>_. True) (\<lambda>_. True) W E)\<^sup>*\<^sup>* (sys_init n) s \<and> ended s"
proof -
  let ?step = "bench_step (\<lambda>_. True) (\<lambda>_. True) W E"
  obtain s1 where s1: "?step\<^sup>*\<^sup>* (sys_init n) s1" "bench_inv n E s1" "ended s1 \<or> \<not> sy_running s1"
    using main_runs [OF bench_inv_init, of n "\<lambda>_. True" "\<lambda>_. True" W E] by (auto simp: sys_init_def)
  then obtain s where "?step\<^sup>*\<^sup>* s1 s" "ended s"
    using stopping_ends [OF s1(2)] by blast
  then show ?thesis
    using s1(1) by (meson rtranclp_trans)
qed


section \<open>The workers of the other clients\<close>

definition fly_inv :: "('d \<Rightarrow> bool list) \<Rightarrow> u64 \<Rightarrow> ptr \<Rightarrow> ptr \<Rightarrow> 'd worker \<times> u64 \<times> u64 \<Rightarrow> bool" where
  "fly_inv pend para h c = (\<lambda>(w, recv_cnt, flying_cnt). \<exists>s r f. recv_cnt = of_nat r \<and> flying_cnt = of_nat f \<and> f \<le> unat para \<and>
     wk_obs pend w = (h, c, s + of_nat f, of_nat (r + f), replicate f True))"

lemma fly_code_contract:
  assumes "post_law V h pend cap" "poll_law V c pend lag" "clocked V clock" "unat para \<le> cap"
    and "\<And>i. fly_inv pend para h c (start i, 0, 0)"
  shows "worker_contract (fly_code V C attr para start) (fly_inv pend para h c) 1"
proof
  show "fly_inv pend para h c (wk_begin (fly_code V C attr para start) i)" for i
    using assms(5) by (simp add: fly_code_def)
  fix l :: "'a worker \<times> u64 \<times> u64" and i
  assume "fly_inv pend para h c l"
  then obtain w s r f where l: "l = (w, of_nat r, of_nat f)" "f \<le> unat para"
      "wk_obs pend w = (h, c, s + of_nat f, of_nat (r + f), replicate f True)"
    by (auto simp: fly_inv_def)
  obtain w' u g where w': "fly_round V C attr para (of_nat r) (of_nat f) w = (Inr (of_nat u, of_nat g), w')"
      "g \<le> unat para" "u + g = r + unat para" "wk_obs pend w' = (h, c, s + of_nat g, of_nat (u + g), replicate g True)"
    by (rule fly_round_obs [OF assms(1-4) l(3,2), of C attr]) (rule that)
  have "st_counter (wk_stat w') - st_counter (wk_stat w) = of_nat (u + g) - of_nat (r + f)"
    using l(3) w'(4) by (simp add: wk_obs_def)
  also have "\<dots> = of_nat ((unat para - f) * 1)"
    using w'(3) l(2) by (simp add: of_nat_diff)
  finally have "wk_turn (fly_code V C attr para start) i l = Some ((w', of_nat u, of_nat g), of_nat ((unat para - f) * 1))"
    using w'(1) l(1) by (simp add: fly_code_def)
  moreover have "fly_inv pend para h c (w', of_nat u, of_nat g)"
    using w'(2,4) unfolding fly_inv_def by blast
  ultimately show "\<exists>l' k. wk_turn (fly_code V C attr para start) i l = Some (l', of_nat (k * 1)) \<and> fly_inv pend para h c l'"
    by blast
qed

text \<open>A worker over \<open>bk_obs\<close> whose rounds succeed and add \<open>m\<close>.\<close>

lemma bench_worker_contract:
  assumes "\<And>i. I (start i)"
    and "\<And>w. I w \<Longrightarrow> \<exists>w'. round w = (Inr (), w') \<and> I w' \<and> st_counter (bk_stat w') = st_counter (bk_stat w) + of_nat m"
  shows "worker_contract (bench_worker_code round start) I m"
proof
  show "I (wk_begin (bench_worker_code round start) i)" for i
    using assms(1) by (simp add: bench_worker_code_def)
  fix w i
  assume "I w"
  then obtain w' where "round w = (Inr (), w')" "I w'" "st_counter (bk_stat w') = st_counter (bk_stat w) + of_nat m"
    using assms(2) by blast
  then show "\<exists>w' k. wk_turn (bench_worker_code round start) i w = Some (w', of_nat (k * m)) \<and> I w'"
    by (intro exI [of _ w'] exI [of _ 1]) (simp add: bench_worker_code_def)
qed

definition bench_inv_of :: "('d \<Rightarrow> bool list) \<Rightarrow> ptr \<Rightarrow> ptr \<Rightarrow> 'd bench_worker \<Rightarrow> bool" where
  "bench_inv_of pend h c w \<longleftrightarrow> d_qp (bk_rc w) = h \<and> d_cq (bk_rc w) = c \<and> pend (bk_drv w) = [] \<and> bench_ready (bk_ops w)"

definition db_inv_of :: "('d \<Rightarrow> bool list) \<Rightarrow> ptr \<Rightarrow> ptr \<Rightarrow> 'd bench_worker \<Rightarrow> bool" where
  "db_inv_of pend h c w \<longleftrightarrow> d_qp (bk_rc w) = h \<and> d_cq (bk_rc w) = c \<and> (\<exists>l \<le> 50. pend (bk_drv w) = replicate l False) \<and>
     batch_ready (bk_ops w)"

lemma bench_code_contract:
  assumes "post_law V h pend cap" "0 < cap" "poll_law V c pend lag" "clock_range V" "\<And>i. bench_inv_of pend h c (start i)"
  shows "worker_contract (bench_code V C start) (bench_inv_of pend h c) 1"
  unfolding bench_code_def
proof (rule bench_worker_contract, rule assms(5))
  fix w
  assume "bench_inv_of pend h c w"
  then have w: "bk_obs pend w = (h, c, d_out_signaled (bk_rc w), st_counter (bk_stat w), [])" "bench_ready (bk_ops w)"
    by (simp_all add: bench_inv_of_def bk_obs_def)
  obtain w' where "bench_round V C w = (Inr (), w')" "bench_ready (bk_ops w')"
      "bk_obs pend w' = (h, c, d_out_signaled (bk_rc w), st_counter (bk_stat w) + 1, [])"
    by (rule bench_round_obs [OF assms(1-4) w, of C]) (rule that)
  then show "\<exists>w'. bench_round V C w = (Inr (), w') \<and> bench_inv_of pend h c w' \<and>
      st_counter (bk_stat w') = st_counter (bk_stat w) + of_nat 1"
    by (intro exI [of _ w']) (simp add: bench_inv_of_def bk_obs_def)
qed

lemma db_code_contract:
  assumes "post_law V h pend 128" "poll_law V c pend lag" "clock_range V" "10 < factor" "factor \<le> 60" "factor mod 10 = 0"
    and "\<And>i. db_inv_of pend h c (start i)"
  shows "worker_contract (db_code V C 64 factor start) (db_inv_of pend h c) factor"
  unfolding db_code_def
proof (rule bench_worker_contract, rule assms(7))
  fix w
  assume "db_inv_of pend h c w"
  then obtain l where w: "bk_obs pend w = (h, c, d_out_signaled (bk_rc w), st_counter (bk_stat w), replicate l False)"
      "batch_ready (bk_ops w)" "l \<le> 50"
    by (auto simp: db_inv_of_def bk_obs_def)
  obtain w' l' where "batch_round V C 64 factor w = (Inr (), w')" "batch_ready (bk_ops w')" "l' \<le> 50"
      "bk_obs pend w' = (h, c, d_out_signaled (bk_rc w) - 1, st_counter (bk_stat w) + of_nat factor, replicate l' False)"
    by (rule db_round_obs [OF assms(1-6) w, of C]) (rule that)
  then show "\<exists>w'. batch_round V C 64 factor w = (Inr (), w') \<and> db_inv_of pend h c w' \<and>
      st_counter (bk_stat w') = st_counter (bk_stat w) + of_nat factor"
    by (intro exI [of _ w']) (auto simp: db_inv_of_def bk_obs_def)
qed

text \<open>
  fly_bench with its threads: no assertion fails in any interleaving of workers whose window fits the
  send queue, and the sum of the reports is the sum of requests that were posted.
\<close>
theorem fly_bench_threads:
  assumes "post_law V h pend cap" "poll_law V c pend lag" "clocked V clock" "unat para \<le> cap"
    and "\<And>i. fly_inv pend para h c (start i, 0, 0)"
    and "fly_main (\<lambda>_. True) (\<lambda>_. True) V C attr para start n s"
  shows "\<exists>posted seen. sy_pc s \<noteq> M_abort \<and> sy_counters s = map of_nat posted \<and> list_all2 (\<le>) seen posted \<and>
    (sy_pc s = M_end \<longrightarrow> sum_list (sy_reports s) = of_nat (sum_list seen))"
  using worker_contract.reported_done [OF fly_code_contract [OF assms(1-5)] assms(6) [unfolded fly_main_def client_main_def]]
  by (simp only: mult_1_right)

text \<open>The same of bench_client and of db_bench with no more than 60 requests to a round.\<close>

theorem bench_client_threads:
  assumes "post_law V h pend cap" "0 < cap" "poll_law V c pend lag" "clock_range V" "\<And>i. bench_inv_of pend h c (start i)"
    and "bench_main (\<lambda>_. True) (\<lambda>_. True) V C start n s"
  shows "\<exists>rounds seen. sy_pc s \<noteq> M_abort \<and> sy_counters s = map of_nat rounds \<and> list_all2 (\<le>) seen rounds \<and>
    (sy_pc s = M_end \<longrightarrow> sum_list (sy_reports s) = of_nat (sum_list seen))"
  using worker_contract.reported_done [OF bench_code_contract [OF assms(1-5)] assms(6) [unfolded bench_main_def client_main_def]]
  by (simp only: mult_1_right)

theorem db_bench_threads:
  assumes "post_law V h pend 128" "poll_law V c pend lag" "clock_range V" "10 < factor" "factor \<le> 60" "factor mod 10 = 0"
    and "\<And>i. db_inv_of pend h c (start i)"
    and "db_main (\<lambda>_. True) (\<lambda>_. True) V C 64 factor start n s"
  shows "\<exists>turns seen. sy_pc s \<noteq> M_abort \<and> sy_counters s = map (\<lambda>k. of_nat (k * factor)) turns \<and> list_all2 (\<le>) seen turns \<and>
    (sy_pc s = M_end \<longrightarrow> sum_list (sy_reports s) = of_nat (sum_list seen * factor))"
  by (rule worker_contract.reported_done [OF db_code_contract [OF assms(1-7)] assms(8) [unfolded db_main_def client_main_def]])

text \<open>Each contract on the devices of the witnesses.\<close>

lemma sample_starts:
  "fly_inv queue_pend 20 (Some 1) (Some 2) (or_start i, 0, 0)"
  "bench_inv_of queue_pend (Some 1) (Some 2) (sample_bench_worker\<lparr>bk_ops := [bench_client_op sample_ops RDMA_READ (Some 64) 8 7 null_reg_attr]\<rparr>)"
  "db_inv_of queue_pend (Some 1) (Some 2) (sample_bench_worker\<lparr>bk_ops := batch_ops sample_ops RDMA_READ (Some 64) 7 null_reg_attr\<rparr>)"
  using batch_ready_ops [of sample_ops RDMA_READ "Some 64" 7 null_reg_attr]
  by (auto simp: fly_inv_def wk_obs_def or_start_def sample_worker_def sample_rc_def queue_pend_def sim_start_def statics_new_def
      bench_inv_of_def db_inv_of_def sample_bench_worker_def bench_ready_def bench_client_op_def bo_init_rbuf_def bo_init_lbuf_def
      bo_new_def bo_set_type_def on_op_def Let_def intro!: exI [of _ 0])

interpretation fly_steady: worker_contract
  "fly_code queue_verbs sample_ops null_reg_attr 20 or_start" "fly_inv queue_pend 20 (Some 1) (Some 2)" 1
  by (rule fly_code_contract [OF queue_laws(1,3,5) _ sample_starts(1)]) simp

interpretation bench_steady: worker_contract
  "bench_code steady_verbs sample_ops (\<lambda>_. sample_bench_worker\<lparr>bk_ops := [bench_client_op sample_ops RDMA_READ (Some 64) 8 7 null_reg_attr]\<rparr>)"
  "bench_inv_of queue_pend (Some 1) (Some 2)" 1
  by (rule bench_code_contract [OF queue_laws(2) _ queue_laws(4,6) sample_starts(2)]) simp

interpretation db_steady: worker_contract
  "db_code steady_verbs sample_ops 64 50 (\<lambda>_. sample_bench_worker\<lparr>bk_ops := batch_ops sample_ops RDMA_READ (Some 64) 7 null_reg_attr\<rparr>)"
  "db_inv_of queue_pend (Some 1) (Some 2)" 50
  by (rule db_code_contract [OF queue_laws(2,4,6) _ _ _ sample_starts(3)]) simp_all

end
