(* ===== verification/Legacy.thy ===== *)
theory Legacy
  imports Impl Ipname
begin

text \<open>
  The headers utils/util.hpp and utils/marshal.hpp, from before the library's present form. They
  include headers that the repository no longer has: the constants and the
  members of the structures that those declare are arguments, with the values that reach the driver.
\<close>

section \<open>Printing an address\<close>

text \<open>
  A string stream that is built from a text writes over it from the start, so that the brace
  it begins with is lost.
\<close>

definition stream_write :: "bytes \<Rightarrow> bytes \<Rightarrow> bytes" where
  "stream_write initial out = out @ drop (length out) initial"

definition qp_addr_to_str :: "int \<Rightarrow> int \<Rightarrow> int \<Rightarrow> bytes" where
  "qp_addr_to_str subnet interface local =
     stream_write (bstr ''{'')
       (bstr ''subnet_prefix: '' @ to_string subnet @ bstr '';'' @
        bstr ''interface_id:  '' @ to_string interface @ bstr '';'' @
        bstr ''local_id:      '' @ to_string local @ bstr ''}'')"

section \<open>Times\<close>

text \<open>\<open>Duration_t\<close>: seconds and microseconds, both \<open>long\<close>, as the words that hold them.\<close>

record timeval =
  tv_sec :: u64
  tv_usec :: u64

definition us_to_duration :: "u64 \<Rightarrow> timeval" where
  "us_to_duration us = \<lparr>tv_sec = 0, tv_usec = us\<rparr>"

text \<open>The guard compares the seconds of the later time with themselves.\<close>

definition time_gap :: "timeval \<Rightarrow> timeval \<Rightarrow> u64" where
  "time_gap t1 t0 =
     (if tv_sec t1 <s tv_sec t1 then 0 else (tv_sec t1 - tv_sec t0) * 1000000 + (tv_usec t1 - tv_usec t0))"

definition time_to_micro :: "timeval \<Rightarrow> u64" where
  "time_to_micro t = tv_sec t * 1000000 + tv_usec t"

section \<open>Queue pairs\<close>

text \<open>The path MTU from the numbers of \<open>ibv_mtu\<close>.\<close>

definition convert_mtu :: "nat \<Rightarrow> c_int" where
  "convert_mtu ty =
     (if ty = 1 then 256 else if ty = 2 then 512 else if ty = 3 then 1024 else if ty = 4 then 2048
      else if ty = 5 then 4096 else 0)"

text \<open>What is used of the configuration and of the device.\<close>

record old_config =
  oc_max_send :: u32
  oc_max_recv :: u32
  oc_access :: u32
  oc_qkey :: u32

record old_nic =
  on_ctx :: ptr
  on_pd :: ptr
  on_port :: u8

definition old_create_cq :: "'d verbs \<Rightarrow> old_nic \<Rightarrow> c_int \<Rightarrow> ('d, ptr) act" where
  "old_create_cq V nic len = callA (v_create_cq V (on_ctx nic) len)"

definition old_bring_to_init :: "'d verbs \<Rightarrow> ptr \<Rightarrow> old_nic \<Rightarrow> old_config \<Rightarrow> ('d, bool) act" where
  "old_bring_to_init V qp nic config d =
     (if qp = None then (Inr False, d)
      else
        let ty = v_qp_type V d qp;
            a0 = zero_attr\<lparr>qa_state := QPS_INIT, qa_pkey_index := 0, qa_port_num := on_port nic\<rparr>;
            a1 = (if ty = QPT_RC then a0\<lparr>qa_access_flags := oc_access config\<rparr> else a0);
            a2 = (if ty = QPT_UD then a1\<lparr>qa_qkey := oc_qkey config\<rparr> else a1);
            m = {M_STATE, M_PKEY_INDEX, M_PORT} \<union> (if ty = QPT_RC then {M_ACCESS_FLAGS} else {}) \<union>
                (if ty = QPT_UD then {M_QKEY} else {})
        in bindA (callA (v_modify_qp V qp a2 m)) (\<lambda>rc. retA (rc = 0)) d)"

text \<open>A queue pair that does not reach INIT is dropped without destroying it.\<close>

definition old_create_qp ::
  "'d verbs \<Rightarrow> u32 \<Rightarrow> qp_type \<Rightarrow> old_nic \<Rightarrow> old_config \<Rightarrow> ptr \<Rightarrow> ptr \<Rightarrow> ('d, ptr) act"
where
  "old_create_qp V max_inline ty nic config send_cq recv_cq =
     bindA (callA (v_create_qp V (on_pd nic)
       \<lparr>qi_send_cq = send_cq, qi_recv_cq = recv_cq, qi_type = ty, qi_sq_sig_all = 0,
        qi_max_send_wr = oc_max_send config, qi_max_recv_wr = oc_max_recv config,
        qi_max_send_sge = 1, qi_max_recv_sge = 1, qi_max_inline_data = max_inline\<rparr>)) (\<lambda>qp.
       if qp = None then retA None
       else bindA (old_bring_to_init V qp nic config) (\<lambda>res. retA (if res then qp else None)))"

definition old_destroy_qp :: "'d verbs \<Rightarrow> ptr \<Rightarrow> ('d, bool) act" where
  "old_destroy_qp V qp = bindA (callA (v_destroy_qp V qp)) (\<lambda>rc. retA (rc = 0))"

section \<open>Waiting for a completion\<close>

datatype old_status = OS_SUCC | OS_TIMEOUT | OS_ERR

text \<open>
  \<open>tod\<close> is \<open>gettimeofday\<close>. The loop goes on while there is no completion and the time that has
  passed is not below the timeout; the result \<open>None\<close> stands for a loop that does not end.
\<close>

partial_function (option) old_poll ::
  "'d verbs \<Rightarrow> ('d \<Rightarrow> timeval \<times> 'd) \<Rightarrow> ptr \<Rightarrow> timeval \<Rightarrow> timeval \<Rightarrow> 'd \<Rightarrow> ((c_int \<times> wc list) \<times> 'd) option"
where
  "old_poll V tod cq start timeout d =
     (case v_poll_cq V cq 1 d of
        (res, d1) \<Rightarrow>
          (case tod d1 of
             (now, d2) \<Rightarrow>
               if fst res = 0 \<and> \<not> time_gap now start < time_to_micro timeout
               then old_poll V tod cq start timeout d2
               else Some (res, d2)))"

definition wait_completion ::
  "'d verbs \<Rightarrow> ('d \<Rightarrow> timeval \<times> 'd) \<Rightarrow> ptr \<Rightarrow> timeval \<Rightarrow> 'd \<Rightarrow> (old_status \<times> 'd) option"
where
  "wait_completion V tod cq timeout d =
     (case tod d of
        (start, d0) \<Rightarrow>
          (case tod d0 of
             (now, d1) \<Rightarrow>
               map_option (\<lambda>((n, ws), d').
                 (if n = 0 then OS_TIMEOUT else if n <s 0 \<or> \<not> wc_ok (hd ws) then OS_ERR else OS_SUCC, d'))
                 (old_poll V tod cq start timeout d1)))"

section \<open>Buffers\<close>

text \<open>\<open>std::string\<close> throws for a length below zero and \<open>substr\<close> for a position past the end.\<close>

definition get_buffer :: "c_int \<Rightarrow> bytes outcome" where
  "get_buffer len = (if sint len < 0 then Inl Thrown else Inr (replicate (unat len) 48))"

definition old_forward :: "bytes \<Rightarrow> c_int \<Rightarrow> c_int \<Rightarrow> bytes outcome" where
  "old_forward b pos len =
     (if sint pos < 0 \<or> length b < unat pos then Inl Thrown
      else Inr (take (if sint len < 0 then length b else unat len) (drop (unat pos) b)))"

definition direct_forward :: "bytes \<Rightarrow> c_int \<Rightarrow> bytes outcome" where
  "direct_forward b len = old_forward b len (of_nat (length b) - len)"

text \<open>
  The forms that take a pointer give it advanced by the size of the value: here the buffer starts at
  the pointer and the result has the offset.
\<close>

definition serialize_at :: "nat \<Rightarrow> ('a \<Rightarrow> bytes) \<Rightarrow> 'a \<Rightarrow> bytes \<Rightarrow> (bytes \<times> nat) outcome" where
  "serialize_at sz enc t buf = (if length buf < sz then Inl Undefined else Inr (memcpy buf (enc t) sz, sz))"

definition deserialize_at :: "nat \<Rightarrow> (bytes \<Rightarrow> 'a) \<Rightarrow> bytes \<Rightarrow> ('a \<times> nat) outcome" where
  "deserialize_at sz dec buf = (if length buf < sz then Inl Undefined else Inr (dec (take sz buf), sz))"

definition deserialize_ptr :: "nat \<Rightarrow> (bytes \<Rightarrow> 'a) \<Rightarrow> bytes \<Rightarrow> 'a outcome" where
  "deserialize_ptr sz dec buf = bindE (deserialize_at sz dec buf) (\<lambda>(ret, _). Inr ret)"

definition serialize :: "nat \<Rightarrow> ('a \<Rightarrow> bytes) \<Rightarrow> 'a \<Rightarrow> bytes outcome" where
  "serialize sz enc t =
     bindE (get_buffer (of_nat sz)) (\<lambda>res. bindE (serialize_at sz enc t res) (\<lambda>(res', _). Inr res'))"

definition deserialize :: "nat \<Rightarrow> (bytes \<Rightarrow> 'a) \<Rightarrow> bytes \<Rightarrow> 'a option" where
  "deserialize sz dec buf = (if length buf < sz then None else Some (dec (take sz buf)))"

text \<open>The form that returns the value copies what there is and leaves the rest uninitialised.\<close>

definition deserialize_value :: "nat \<Rightarrow> (bytes \<Rightarrow> 'a) \<Rightarrow> bytes \<Rightarrow> 'a outcome" where
  "deserialize_value sz dec buf = (if length buf < sz then Inl Undefined else Inr (dec (take sz buf)))"

definition null_req :: "bytes outcome" where
  "null_req = serialize 4 (\<lambda>(ty, payload). enc_word ty @ enc_word payload) (0 :: u16, 0 :: u16)"

definition null_reply :: "u16 \<Rightarrow> bytes outcome" where
  "null_reply err = serialize 4 (\<lambda>(st, payload). enc_word st @ enc_word payload) (err, 0 :: u16)"

end
