(* ===== verification/LegacySpec.thy ===== *)
theory LegacySpec
  imports Legacy RecvSpec
begin

text \<open>
  The old utilities: what is copied in is read back, and how long waiting for a completion takes.
\<close>

section \<open>Addresses\<close>

lemma qp_addr_no_brace: "hd (qp_addr_to_str subnet interface local) = 115" "last (qp_addr_to_str subnet interface local) = 125"
  by (simp_all add: qp_addr_to_str_def stream_write_def bstr_def)

section \<open>Buffers\<close>

lemma direct_forward_drop:
  assumes "n \<le> length b" "length b < 2 ^ 31"
  shows "direct_forward b (of_nat n) = Inr (drop n b)"
proof -
  have s: "sint (of_nat n :: c_int) = int n" "unat (of_nat n :: c_int) = n"
    using assms by (simp_all add: signed_of_nat signed_take_bit_int_eq_self usize_nat)
  have d: "(of_nat (length b) - of_nat n :: c_int) = of_nat (length b - n)"
    using assms(1) by (simp add: of_nat_diff)
  have "sint (of_nat (length b - n) :: c_int) = int (length b - n)" "unat (of_nat (length b - n) :: c_int) = length b - n"
    using assms by (simp_all add: signed_of_nat signed_take_bit_int_eq_self usize_nat del: of_nat_diff)
  then show ?thesis
    using assms(1) s unfolding direct_forward_def d by (simp add: old_forward_def)
qed

lemma serialize_deserialize:
  assumes "length (enc t) = sz" "sz < 2 ^ 31" "dec (enc t) = t"
  shows "\<exists>b. serialize sz enc t = Inr b \<and> deserialize sz dec b = Some t \<and> deserialize_value sz dec b = Inr t"
proof -
  have "sint (of_nat sz :: c_int) = int sz" "unat (of_nat sz :: c_int) = sz"
    using assms(2) by (simp_all add: signed_of_nat signed_take_bit_int_eq_self usize_nat)
  then show ?thesis
    using assms(1,3) by (simp add: serialize_def serialize_at_def get_buffer_def deserialize_def deserialize_value_def memcpy_def)
qed

text \<open>Two values written one behind the other, each at the pointer that the previous one gives, are read back in turn.\<close>

lemma serialize_at_twice:
  assumes "length (enc x) = n" "dec (enc x) = x" "length (enc' y) = m" "dec' (enc' y) = y" "n + m \<le> length buf"
    and "serialize_at n enc x buf = Inr (b1, p)" "serialize_at m enc' y (drop p b1) = Inr (b2, q)"
  shows "deserialize_at n dec (take p b1 @ b2) = Inr (x, p)" "deserialize_at m dec' (drop p (take p b1 @ b2)) = Inr (y, q)"
    "deserialize_ptr m dec' b2 = Inr y"
  using assms
  by (auto simp: serialize_at_def deserialize_at_def deserialize_ptr_def memcpy_def split: if_splits)

section \<open>Waiting\<close>

lemma time_gap_exact: "time_gap t1 t0 = time_to_micro t1 - time_to_micro t0"
  by (simp add: time_gap_def time_to_micro_def algebra_simps)

lemma old_poll_runs_on:
  assumes "\<And>d n. fst (v_poll_cq V cq n d) = (0, [])" "\<And>d. \<not> time_gap (fst (tod d)) start < time_to_micro timeout"
  shows "old_poll V tod cq start timeout d = None"
proof (cases "old_poll V tod cq start timeout d")
  case (Some y)
  have "V = V \<and> tod = tod \<and> cq = cq \<and> start = start \<and> timeout = timeout \<longrightarrow> False"
    using Some
  proof (rule old_poll.raw_induct [where P = "\<lambda>V' tod' cq' start' timeout' d y.
      V' = V \<and> tod' = tod \<and> cq' = cq \<and> start' = start \<and> timeout' = timeout \<longrightarrow> False", rotated])
    fix op :: "'a verbs \<Rightarrow> ('a \<Rightarrow> timeval \<times> 'a) \<Rightarrow> ptr \<Rightarrow> timeval \<Rightarrow> timeval \<Rightarrow> 'a \<Rightarrow> ((c_int \<times> wc list) \<times> 'a) option"
    fix V' tod' cq' start' timeout' d y
    assume ih: "\<And>V' tod' cq' start' timeout' d y. op V' tod' cq' start' timeout' d = Some y \<Longrightarrow>
          V' = V \<and> tod' = tod \<and> cq' = cq \<and> start' = start \<and> timeout' = timeout \<longrightarrow> False"
      and body: "(case v_poll_cq V' cq' 1 d of
            (res, d1) \<Rightarrow>
              case tod' d1 of
                (now, d2) \<Rightarrow>
                  if fst res = 0 \<and> \<not> time_gap now start' < time_to_micro timeout' then op V' tod' cq' start' timeout' d2
                  else Some (res, d2)) = Some y"
    show "V' = V \<and> tod' = tod \<and> cq' = cq \<and> start' = start \<and> timeout' = timeout \<longrightarrow> False"
    proof
      assume eq: "V' = V \<and> tod' = tod \<and> cq' = cq \<and> start' = start \<and> timeout' = timeout"
      obtain d1 where p: "v_poll_cq V cq 1 d = ((0, []), d1)"
        using assms(1) [of 1 d] by (metis prod.collapse)
      obtain now d2 where t: "tod d1 = (now, d2)"
        by fastforce
      then have "\<not> time_gap now start < time_to_micro timeout"
        using assms(2) [of d1] by simp
      then show False
        using body p t eq ih [of V tod cq start timeout d2 y] by simp
    qed
  qed
  then show ?thesis
    by simp
qed

text \<open>
  \<open>wait_completion\<close> has its timeout the wrong way round. On a completion queue that stays empty it
  gives up after the first poll if the timeout has not passed by then, and it
  never returns if the timeout had passed and the clock does not fall back, as with a timeout of zero.
\<close>
theorem wait_completion_inverted:
  assumes silent: "\<And>d n. fst (v_poll_cq V cq n d) = (0, [])"
    and start: "tod d = (start, d0)" "tod d0 = (now0, d1)" "v_poll_cq V cq 1 d1 = (res, d2)" "tod d2 = (now, d3)"
  shows "(time_gap now start < time_to_micro timeout \<longrightarrow> wait_completion V tod cq timeout d = Some (OS_TIMEOUT, d3)) \<and>
    ((\<forall>e. time_to_micro timeout \<le> time_gap (fst (tod e)) start) \<longrightarrow> wait_completion V tod cq timeout d = None)"
proof (intro conjI impI)
  have "res = (0, [])"
    using silent [of 1 d1] start(3) by simp
  then show "wait_completion V tod cq timeout d = Some (OS_TIMEOUT, d3)" if "time_gap now start < time_to_micro timeout"
    using that start by (simp add: wait_completion_def old_poll.simps)
  show "wait_completion V tod cq timeout d = None" if "\<forall>e. time_to_micro timeout \<le> time_gap (fst (tod e)) start"
  proof -
    have "old_poll V tod cq start timeout d1 = None"
      using that by (intro old_poll_runs_on silent) (simp add: not_less)
    then show ?thesis
      using start(1,2) by (simp add: wait_completion_def)
  qed
qed

text \<open>A clock of microseconds that goes on by one with every reading, over a queue that stays empty.\<close>

theorem wait_completion_inverted_witness:
  "wait_completion (null_verbs\<lparr>v_poll_cq := (\<lambda>_ _ d. ((0, []), d))\<rparr>) (\<lambda>d. (\<lparr>tv_sec = 3, tv_usec = d\<rparr>, d + 1)) (Some 3) (us_to_duration 5) 10 =
     Some (OS_TIMEOUT, 13) \<and>
   wait_completion (null_verbs\<lparr>v_poll_cq := (\<lambda>_ _ d. ((0, []), d))\<rparr>) (\<lambda>d. (\<lparr>tv_sec = 3, tv_usec = d\<rparr>, d + 1)) (Some 3) (us_to_duration 0) 10 = None"
proof -
  let ?V = "(null_verbs :: u64 verbs)\<lparr>v_poll_cq := (\<lambda>_ _ d. ((0, []), d))\<rparr>"
  let ?tod = "\<lambda>d :: u64. (\<lparr>tv_sec = 3, tv_usec = d\<rparr>, d + 1)"
  have silent: "fst (v_poll_cq ?V c n d) = (0, [])" for c n d
    by simp
  have run: "?tod 10 = (\<lparr>tv_sec = 3, tv_usec = 10\<rparr>, 11)" "?tod 11 = (\<lparr>tv_sec = 3, tv_usec = 11\<rparr>, 12)"
      "v_poll_cq ?V (Some 3) 1 12 = ((0, []), 12)" "?tod 12 = (\<lparr>tv_sec = 3, tv_usec = 12\<rparr>, 13)"
    by simp_all
  have "time_gap \<lparr>tv_sec = 3, tv_usec = 12\<rparr> \<lparr>tv_sec = 3, tv_usec = 10\<rparr> < time_to_micro (us_to_duration 5)"
      "\<forall>e. time_to_micro (us_to_duration 0) \<le> time_gap (fst (?tod e)) \<lparr>tv_sec = 3, tv_usec = 10\<rparr>"
    by (simp_all add: time_gap_def time_to_micro_def us_to_duration_def)
  then show ?thesis
    using wait_completion_inverted [OF silent run, of "us_to_duration 5"] wait_completion_inverted [OF silent run, of "us_to_duration 0"]
    by simp
qed

end
