(* ===== verification/NetTests.thy ===== *)
theory NetTests
  imports SRpc Nic Registry
begin

text \<open>
  The unit tests that use sockets or devices, as programs over the model: test_channel.cc,
  test_rpc.cc, test_nicinfo.cc and test_mem.cc. Both ends of a socket test are in
  one process; \<open>W\<close> is what the network does to the two sockets while the test waits. A failed
  assertion of a test is \<open>Aborted\<close>; a test that gives \<open>Inr ()\<close> passes.
\<close>

section \<open>test_channel.cc\<close>

definition test_naming :: "'ai resolver \<Rightarrow> int \<Rightarrow> int \<Rightarrow> int \<Rightarrow> ip_cache \<Rightarrow> unit outcome" where
  "test_naming R t0 t1 t2 c0 =
     (case host2ip R t0 (bstr ''localhost'') c0 of
        (ip, c1) \<Rightarrow> bindE (assertE (code ip = IO_Ok)) (\<lambda>_.
      case host2ip R t1 (bstr ''val02'') c1 of
        (ip1, c2) \<Rightarrow> bindE (assertE (code ip1 = IO_Ok)) (\<lambda>_.
      case host2ip R t2 (bstr ''  val02  '') c2 of
        (ip3, c3) \<Rightarrow> bindE (assertE (code ip3 = IO_Ok)) (\<lambda>_. assertE (desc ip3 = desc ip1)))))"

text \<open>The results of sending are not looked at.\<close>

fun channel_send :: "'a send_channel \<Rightarrow> usize list \<Rightarrow> ('a net, unit) act" where
  "channel_send c [] = retA ()"
| "channel_send c (i # ks) =
     bindA (sc_send c (dump 8 enc_word (ucast (i + 73) :: u64))) (\<lambda>_. channel_send c ks)"

text \<open>The receiving loop from its condition on: every message is checked and answered.\<close>

definition answer_number :: "'a recv_channel \<Rightarrow> usize \<Rightarrow> ('a net, unit) act" where
  "answer_number c cnt =
     bindA (liftA (opt_value (dedump 8 dec_word (cur_msg c)))) (\<lambda>val :: u64.
     bindA (liftA (assertE (val = ucast (cnt + 73)))) (\<lambda>_.
     bindA (reply_cur c (dump 8 enc_word (ucast (cnt + 75) :: u64))) (\<lambda>_. retA ())))"

lemma answer_number_inbox: "answer_number c cnt n = (r, n') \<Longrightarrow> inbox n' = inbox n"
  by (auto simp: answer_number_def bindA_def liftA_def retA_def split: sum.splits prod.splits dest: reply_cur_inboxD)

function answer_loop :: "'a recv_channel \<Rightarrow> usize \<Rightarrow> 'a net \<Rightarrow> usize outcome \<times> 'a net" where
  "answer_loop c cnt n =
     (if \<not> has_msg c then (Inr cnt, n)
      else
        (case answer_number c cnt n of
           (Inl e, n') \<Rightarrow> (Inl e, n')
         | (Inr _, n') \<Rightarrow>
             (case rc_next c n' of
                (Inl e, n'') \<Rightarrow> (Inl e, n'')
              | (Inr c', n'') \<Rightarrow> answer_loop c' (cnt + 1) n'')))"
  by pat_completeness auto
termination
  by (relation "measure (\<lambda>(c, _, n). length (inbox n) + (if has_msg c then 1 else 0))")
    (auto dest!: rc_next_decreases [OF sym] answer_number_inbox [OF sym])

declare answer_loop.simps [simp del]

fun channel_check :: "'a send_channel \<Rightarrow> usize list \<Rightarrow> ('a net, unit) act" where
  "channel_check c [] = retA ()"
| "channel_check c (i # ks) =
     bindA (sc_recv c) (\<lambda>res.
     bindA (liftA (assertE (code res = IO_Ok))) (\<lambda>_.
     bindA (liftA (opt_value (dedump 8 dec_word (desc res)))) (\<lambda>val :: u64.
     bindA (liftA (assertE (val = ucast (i + 75)))) (\<lambda>_. channel_check c ks))))"

definition total_sent :: nat where "total_sent = 12"

definition test_channel ::
  "('ai, 'x) netlib_scheme \<Rightarrow> (sockaddr_in net \<times> sockaddr_in net \<Rightarrow> sockaddr_in net \<times> sockaddr_in net) \<Rightarrow> int \<Rightarrow>
     ip_cache \<Rightarrow> sockaddr_in net \<Rightarrow> sockaddr_in net \<Rightarrow> unit outcome"
where
  "test_channel L W now cache nc ns =
     (let ks = map of_nat [0..<total_sent] in
      bindE (opt_value (fst (send_channel_create L now (bstr ''localhost:7777'') cache))) (\<lambda>send_c.
      bindE (recv_channel_create L 7777 (bstr ''localhost'')) (\<lambda>ro.
      bindE (opt_value ro) (\<lambda>(recv_c, _).
        case channel_send send_c ks nc of
          (sent, nc1) \<Rightarrow> bindE sent (\<lambda>_.
        case W (nc1, ns) of
          (nc2, ns2) \<Rightarrow>
        case rc_start recv_c ns2 of
          (started, ns3) \<Rightarrow> bindE started (\<lambda>c.
        case answer_loop c 0 ns3 of
          (cnt, ns4) \<Rightarrow> bindE cnt (\<lambda>cnt. bindE (assertE (cnt = of_nat total_sent)) (\<lambda>_.
        case W (nc2, ns4) of
          (nc5, ns5) \<Rightarrow> fst (channel_check send_c ks nc5)))))))))"

section \<open>test_rpc.cc\<close>

definition test_rpc_handler :: "nat \<Rightarrow> unit handler" where
  "test_rpc_handler i b s =
     (bindE (assertE (length b = i + 233)) (\<lambda>_.
      bindE (assertE (b = replicate (i + 233) (51 + of_nat i))) (\<lambda>_.
        Inr (replicate (73 + i) (49 + of_nat i)))), s)"

definition rpc_registered :: "('a, unit) srpc_handler \<Rightarrow> ('a, unit) srpc_handler" where
  "rpc_registered H = foldl (\<lambda>H i. snd (handler_register H (73 + of_nat i) (test_rpc_handler i))) H [0..<12]"

text \<open>One call: the request, the server's loop after a second, the reply after another.\<close>

type_synonym 'a rpc_ends = "'a srpc \<times> ('a, unit) srpc_handler \<times> 'a net \<times> 'a net"

definition rpc_test_round :: "('a net \<times> 'a net \<Rightarrow> 'a net \<times> 'a net) \<Rightarrow> nat \<Rightarrow> 'a rpc_ends \<Rightarrow> 'a rpc_ends outcome" where
  "rpc_test_round W i = (\<lambda>(S, H, nc, ns).
     case srpc_call S (73 + of_nat i) (replicate (233 + i) (51 + of_nat i)) nc of
       (res, nc1) \<Rightarrow> bindE res (\<lambda>res. bindE (assertE (code res = IO_Ok)) (\<lambda>_.
     case W (nc1, ns) of
       (nc2, ns2) \<Rightarrow>
     case run_one_event_loop H () ns2 of
       (rpc_calls, H', _, ns3) \<Rightarrow> bindE rpc_calls (\<lambda>rpc_calls. bindE (assertE (rpc_calls = 1)) (\<lambda>_.
     case W (nc2, ns3) of
       (nc4, ns4) \<Rightarrow>
     case receive_reply S False nc4 of
       (res_reply, S', nc5) \<Rightarrow> bindE res_reply (\<lambda>res_reply.
         bindE (assertE (code res_reply = IO_Ok)) (\<lambda>_.
         bindE (assertE (length (desc res_reply) = 73 + i)) (\<lambda>_. Inr (S', H', nc5, ns4)))))))))"

fun rpc_test_rounds :: "('a net \<times> 'a net \<Rightarrow> 'a net \<times> 'a net) \<Rightarrow> nat list \<Rightarrow> 'a rpc_ends \<Rightarrow> 'a rpc_ends outcome" where
  "rpc_test_rounds W [] s = Inr s"
| "rpc_test_rounds W (i # ks) s = bindE (rpc_test_round W i s) (rpc_test_rounds W ks)"

definition test_rpc ::
  "('ai, 'x) netlib_scheme \<Rightarrow> (sockaddr_in net \<times> sockaddr_in net \<Rightarrow> sockaddr_in net \<times> sockaddr_in net) \<Rightarrow> int \<Rightarrow>
     ip_cache \<Rightarrow> sockaddr_in net \<Rightarrow> sockaddr_in net \<Rightarrow> unit outcome"
where
  "test_rpc L W now cache nc ns =
     bindE (fst (srpc_new L now (bstr ''localhost:1111'') cache)) (\<lambda>rpc.
     bindE (srpc_handler_new L 1111 (bstr ''localhost'')) (\<lambda>handler.
     bindE (rpc_test_rounds W [0..<12] (rpc, rpc_registered handler, nc, ns)) (\<lambda>_. Inr ())))"

section \<open>test_nicinfo.cc and test_mem.cc\<close>

definition test_nic_exists :: "'d verbs \<Rightarrow> ('d, unit) act" where
  "test_nic_exists V = bindA (query_dev_names V) (\<lambda>res. liftA (assertE (res \<noteq> [])))"

text \<open>\<open>at(0)\<close> throws when there is no device. The device is released at the end of the test.\<close>

definition test_nic_state :: "'d verbs \<Rightarrow> (port_attr \<Rightarrow> bytes) \<Rightarrow> ('d, unit) act" where
  "test_nic_state V state_str =
     bindA (query_dev_names V) (\<lambda>res.
     bindA (liftA (opt_value (if res = [] then None else Some (hd res)))) (\<lambda>idx.
     bindA (rnic_create V idx 0) (\<lambda>created.
     bindA (liftA (opt_value created)) (\<lambda>nic.
     bindA (is_active V state_str nic) (\<lambda>active.
     bindA (liftA (assertE (code active = IO_Ok))) (\<lambda>_. rnic_destroy V nic))))))"

text \<open>The first device: the list of devices may not be empty.\<close>

definition first_dev :: "'d verbs \<Rightarrow> ('d, dev_idx) act" where
  "first_dev V =
     bindA (query_dev_names V) (\<lambda>res. bindA (liftA (assertE (res \<noteq> []))) (\<lambda>_. retA (hd res)))"

text \<open>
  A region of 1024 bytes from the allocator \<open>af\<close> registers, memory that could not be allocated
  does not. At the end of the block the handlers are destroyed, then the device.
\<close>

definition test_can_reg :: "'d verbs \<Rightarrow> (u64 \<Rightarrow> ptr) \<Rightarrow> memory_flags \<Rightarrow> ('d, unit) act" where
  "test_can_reg V af flags =
     bindA (first_dev V) (\<lambda>dev.
     bindA (rnic_new V dev 0) (\<lambda>nic.
     let mem = rmem_new af 1024; mem_not_valid = rmem_new (\<lambda>_. None) 1024 in
     bindA (liftA (assertE (rmem_valid mem))) (\<lambda>_.
     bindA (reg_handler_new V mem nic flags) (\<lambda>handler.
     bindA (liftA (assertE (rh_valid handler))) (\<lambda>_.
     bindA (liftA (assertE (get_reg_attr handler \<noteq> None))) (\<lambda>_.
     bindA (liftA (assertE (\<not> rmem_valid mem_not_valid))) (\<lambda>_.
     bindA (reg_handler_new V mem_not_valid nic flags) (\<lambda>handler_not_valid.
     bindA (liftA (assertE (\<not> rh_valid handler_not_valid))) (\<lambda>_.
     bindA (reg_handler_destroy V handler_not_valid) (\<lambda>_.
     bindA (reg_handler_destroy V handler) (\<lambda>_. rnic_destroy V nic)))))))))))"

text \<open>
  The registry of regions: a name is registered once, and \<open>create_then_reg\<close> adds a region under
  another name. The registry keeps the device until both regions are gone.
\<close>

definition test_mem_factory ::
  "('r \<Rightarrow> u64 \<times> 'r) \<Rightarrow> 'r \<Rightarrow> 'd verbs \<Rightarrow> (u64 \<Rightarrow> ptr) \<Rightarrow> memory_flags \<Rightarrow> ('d, unit) act"
where
  "test_mem_factory rnd r V af flags =
     bindA (first_dev V) (\<lambda>dev.
     bindA (rnic_new V dev 0) (\<lambda>nic.
     bindA (reg_handler_new V (rmem_new af 1024) nic flags) (\<lambda>mr.
     bindA (liftA (reg rnd factory_empty (73 :: u64) mr r)) (\<lambda>(res, f1, r1).
     bindA (liftA (assertE (res \<noteq> None))) (\<lambda>_.
     bindA (liftA (reg rnd f1 73 mr r1)) (\<lambda>(res1, f2, r2).
     bindA (liftA (assertE (res1 = None))) (\<lambda>_.
     bindA (liftA (assertE (\<not> rmem_valid (rmem_new (\<lambda>_. None) 1024)))) (\<lambda>_.
     bindA (reg_handler_create V (rmem_new af 1024) nic flags) (\<lambda>created.
     bindA (liftA (create_then_reg rnd f2 12 created r2)) (\<lambda>(mr3_res, _, _).
     bindA (liftA (opt_value mr3_res)) (\<lambda>(mr3, _).
     bindA (liftA (assertE (rh_valid mr3))) (\<lambda>_.
     bindA (reg_handler_destroy V mr3) (\<lambda>_.
     bindA (reg_handler_destroy V mr) (\<lambda>_. rnic_destroy V nic))))))))))))))"

end
