(* ===== verification/UnitTests.thy ===== *)
theory UnitTests
  imports TwoSided MsgIter
begin

text \<open>
  Unit tests of the repository as programs over the model: those of the results, of the
  progress marks, of marshalling, of batches of messages and of one-sided operations. A failed assertion
  of a test is \<open>Aborted\<close>; a test that gives \<open>Inr ()\<close> passes.
\<close>

section \<open>test_common.cc, test_qp_progress.cc, test_marshal.cc\<close>

definition test_common :: "unit outcome" where
  "test_common =
     (let res = Ok () in
      bindE (assertE (code res = IO_Ok)) (\<lambda>_. assertE (io_name (code res) = bstr ''Ok'')))"

definition test_progress :: "unit outcome" where
  "test_progress =
     (let p1 = snd (forward_mark progress_new 12);
          p2 = done_mark p1 12
      in bindE (assertE (pending_reqs p1 = 12)) (\<lambda>_. assertE (pending_reqs p2 = 0)))"

text \<open>Going through a buffer byte by byte; \<open>k\<close> is what is left of \<open>test_sz\<close>. The result is the number of bytes.\<close>

fun marshal_walk :: "nat \<Rightarrow> usize \<Rightarrow> bytes option \<Rightarrow> usize outcome" where
  "marshal_walk 0 n r = Inr n"
| "marshal_walk (Suc k) n None = Inr n"
| "marshal_walk (Suc k) n (Some b) =
     bindE (assertE (b \<noteq> [] \<and> scast (b ! 0) = n)) (\<lambda>_. marshal_walk k (n + 1) (Marshal.forward b 1))"

definition test_marshal_basic :: "unit outcome" where
  "test_marshal_basic =
     (let test_buf = foldl (\<lambda>b i. b[i := of_nat i]) (alloc 12) [0..<12] in
      bindE (marshal_walk 12 0 (Marshal.forward test_buf 0)) (\<lambda>n. assertE (n = 12)))"

definition test_marshal_dedump :: "unit outcome" where
  "test_marshal_dedump =
     (let test_val = 73 :: u64 in
      bindE (opt_value (dedump 8 dec_word (dump 8 enc_word test_val))) (\<lambda>v. assertE (v = test_val)))"

section \<open>test_mmsg.cc\<close>

text \<open>
  The test draws up to eight random messages; here they are the argument \<open>msgs\<close>. Those that were
  appended are the second part of the result of the first loop.
\<close>

fun mmsg_fill :: "bytes list \<Rightarrow> usize \<Rightarrow> mmsg \<Rightarrow> bytes list \<Rightarrow> (mmsg \<times> bytes list) outcome" where
  "mmsg_fill [] cur_sz mss ground_truth = Inr (mss, ground_truth)"
| "mmsg_fill (msg # msgs) cur_sz mss ground_truth =
     bindE (mmsg_append 1024 mss msg) (\<lambda>(res, mss').
       let cur_sz' = cur_sz + of_nat (length msg) in
       if \<not> res then bindE (assertE (unat cur_sz' + header_size > 1024)) (\<lambda>_. Inr (mss', ground_truth))
       else mmsg_fill msgs cur_sz' mss' (ground_truth @ [msg]))"

function mmsg_compare :: "mmsg msgs_iter \<Rightarrow> usize \<Rightarrow> bytes list \<Rightarrow> usize outcome" where
  "mmsg_compare iter iter_count ground_truth =
     (if iter_valid num_msg iter
      then bindE (assertE (unat iter_count < length ground_truth)) (\<lambda>_.
           bindE (iter_cur_msg num_msg mmsg_entry mm_buf iter) (\<lambda>cur.
           bindE (assertE (cur = ground_truth ! unat iter_count)) (\<lambda>_.
           bindE (query_one (msgs_p iter) iter_count) (\<lambda>q.
           bindE (opt_value q) (\<lambda>msg.
           bindE (assertE (cur = msg)) (\<lambda>_.
             mmsg_compare (iter_next iter) (iter_count + 1) ground_truth))))))
      else Inr iter_count)"
  by pat_completeness auto
termination
  by (relation "measure (\<lambda>(it, _, _). unat (num_msg (msgs_p it)) - unat (cur_idx it))")
    (auto intro: iter_next_decreases)

declare mmsg_compare.simps [simp del]

definition test_mmsg :: "bytes list \<Rightarrow> unit outcome" where
  "test_mmsg msgs =
     bindE (mmsg_fill msgs 0 (mmsg_new 1024 1024) []) (\<lambda>(mss, ground_truth).
     bindE (create_from 1024 (mm_buf mss)) (\<lambda>r.
     bindE (opt_value r) (\<lambda>mss_2.
     bindE (assertE (num_msg mss_2 = num_msg mss)) (\<lambda>_.
     bindE (mmsg_compare (iter_new mss_2) 0 ground_truth) (\<lambda>iter_count.
       assertE (unat iter_count = length ground_truth))))))"

section \<open>test_op.cc\<close>

text \<open>
  The tests of one-sided operations on a queue pair connected to itself, from the registered
  region \<open>mr\<close> of 1024 bytes on. \<open>test_loc\<close> points to its first words.
\<close>

definition word_at :: "u64 \<Rightarrow> (u64 \<Rightarrow> u8) \<Rightarrow> u64" where
  "word_at a m = dec_word (mem_read a 8 m)"

definition set_word :: "'d memory \<Rightarrow> reg_attr \<Rightarrow> u64 \<Rightarrow> u64 \<Rightarrow> ('d, unit) act" where
  "set_word M mr off v = store_local M (ra_buf mr + off) (1024 - off) (enc_word v)"

definition assert_words :: "'d memory \<Rightarrow> ((u64 \<Rightarrow> u8) \<Rightarrow> bool) \<Rightarrow> ('d, unit) act" where
  "assert_words M P d = (assertE (P (mem_of M d)), d)"

definition execute_and_wait :: "'d verbs \<Rightarrow> wr_opcodes \<Rightarrow> op \<Rightarrow> rc \<Rightarrow> ('d, rc \<times> op) act" where
  "execute_and_wait V C o1 q =
     bindA (op_execute V C o1 q (v_signaled V) 0) (\<lambda>(res_s, q1, o2).
     bindA (liftA (assertE (code res_s = IO_Ok))) (\<lambda>_ d.
       case wait_one_comp V no_timeout q1 d of
         None \<Rightarrow> (Inl Diverged, d)
       | Some (res_p, q2, d') \<Rightarrow> (bindE (assertE (code res_p = IO_Ok)) (\<lambda>_. Inr (q2, o2)), d')))"

definition with_payload :: "reg_attr \<Rightarrow> op \<Rightarrow> op outcome" where
  "with_payload mr o1 =
     (case op_set_payload (ra_buf mr + 8) 8 (ra_key mr) 0 o1 of (ok, o2) \<Rightarrow> bindE (assertE ok) (\<lambda>_. Inr o2))"

definition test_op_basic :: "'d verbs \<Rightarrow> wr_opcodes \<Rightarrow> 'd memory \<Rightarrow> reg_attr \<Rightarrow> rc \<Rightarrow> ('d, unit) act" where
  "test_op_basic V C M mr qp =
     (let test_loc = ra_buf mr; q = bind_local_mr mr (bind_remote_mr mr qp) in
      bindA (set_word M mr 0 73) (\<lambda>_.
      bindA (assert_words M (\<lambda>m. word_at (test_loc + 8) m \<noteq> 73)) (\<lambda>_.
      bindA (liftA (with_payload mr (op_set_imm 0 (op_set_read C (op_set_rdma_rbuf test_loc (ra_key mr) (op_new 1)))))) (\<lambda>o1.
      bindA (execute_and_wait V C o1 q) (\<lambda>_.
        assert_words M (\<lambda>m. word_at (test_loc + 8) m = 73))))))"

definition test_op_fetch_add :: "'d verbs \<Rightarrow> wr_opcodes \<Rightarrow> 'd memory \<Rightarrow> reg_attr \<Rightarrow> rc \<Rightarrow> ('d, unit) act" where
  "test_op_fetch_add V C M mr qp =
     (let test_loc = ra_buf mr; q = bind_local_mr mr (bind_remote_mr mr qp); origin_data = 73 in
      bindA (set_word M mr 0 origin_data) (\<lambda>_.
      bindA (set_word M mr 8 0) (\<lambda>_.
      bindA (assert_words M (\<lambda>m. origin_data \<noteq> word_at (test_loc + 8) m)) (\<lambda>_.
      bindA (liftA (with_payload mr (op_set_fetch_add C origin_data (op_set_atomic_rbuf test_loc (ra_key mr) (op_new 1))))) (\<lambda>o1.
      bindA (execute_and_wait V C o1 q) (\<lambda>_.
      bindA (assert_words M (\<lambda>m. word_at (test_loc + 8) m = origin_data)) (\<lambda>_.
        assert_words M (\<lambda>m. word_at test_loc m = origin_data * 2))))))))"

definition test_op_cas :: "'d verbs \<Rightarrow> wr_opcodes \<Rightarrow> 'd memory \<Rightarrow> reg_attr \<Rightarrow> rc \<Rightarrow> ('d, unit) act" where
  "test_op_cas V C M mr qp =
     (let test_loc = ra_buf mr; q = bind_local_mr mr (bind_remote_mr mr qp); compare_data = 73; swap_data = 24 in
      bindA (set_word M mr 0 0) (\<lambda>_.
      bindA (set_word M mr 8 swap_data) (\<lambda>_.
      bindA (liftA (with_payload mr (op_set_cas C compare_data swap_data (op_set_atomic_rbuf test_loc (ra_key mr) (op_new 1))))) (\<lambda>o1.
      bindA (execute_and_wait V C o1 q) (\<lambda>(q1, o2).
      bindA (assert_words M (\<lambda>m. word_at test_loc m = 0)) (\<lambda>_.
      bindA (assert_words M (\<lambda>m. word_at (test_loc + 8) m = 0)) (\<lambda>_.
      bindA (set_word M mr 0 compare_data) (\<lambda>_.
      bindA (execute_and_wait V C o2 q1) (\<lambda>_.
      bindA (assert_words M (\<lambda>m. word_at test_loc m = swap_data)) (\<lambda>_.
        assert_words M (\<lambda>m. word_at (test_loc + 8) m = compare_data)))))))))))"

end
