(* ===== verification/QPTests.thy ===== *)
theory QPTests
  imports NetTests UnitTests
begin

text \<open>
  The tests that create queue pairs, as programs over the model: test_rc.cc, the fixture of
  test_op.cc, test_ud.cc and test_cm.cc. A failed assertion is \<open>Aborted\<close>, a test that gives
  \<open>Inr ()\<close> passes, and what a test has created is destroyed at its end. The daemon of test_cm.cc runs
  in the same process as the client; what it answers is in the client's network.
\<close>

unbundle bit_operations_syntax

section \<open>test_rc.cc and the fixture of test_op.cc\<close>

text \<open>A queue pair on the first device.\<close>

definition own_qp :: "'d verbs \<Rightarrow> ('d, rnic \<times> rc) act" where
  "own_qp V =
     bindA (first_dev V) (\<lambda>dev.
     bindA (rnic_new V dev 0) (\<lambda>nic.
     bindA (liftA (assertE (nic_valid nic))) (\<lambda>_.
     bindA (open_qp V nic) (\<lambda>q.
     bindA (liftA (assertE (dummy_valid q))) (\<lambda>_. retA (nic, q))))))"

text \<open>A registered region of 1024 bytes.\<close>

definition own_region :: "'d verbs \<Rightarrow> (u64 \<Rightarrow> ptr) \<Rightarrow> rnic \<Rightarrow> ('d, reg_handler \<times> reg_attr) act" where
  "own_region V af nic =
     (let mem = rmem_new af 1024 in
      bindA (liftA (assertE (rmem_valid mem))) (\<lambda>_.
      bindA (reg_handler_new V mem nic (default_flags (v_access V))) (\<lambda>handler.
      bindA (liftA (assertE (rh_valid handler))) (\<lambda>_.
      bindA (liftA (opt_value (get_reg_attr handler))) (\<lambda>mr. retA (handler, mr))))))"

definition connect_self :: "'d verbs \<Rightarrow> rc \<Rightarrow> ('d, rc) act" where
  "connect_self V q =
     bindA (\<lambda>d. (rc_my_attr V q d, d)) (\<lambda>attr.
     bindA (rc_connect V attr q) (\<lambda>(res_c, q').
     bindA (liftA (assertE (code res_c = IO_Ok))) (\<lambda>_. retA q')))"

definition close_region :: "'d verbs \<Rightarrow> reg_handler \<Rightarrow> ('x) qp_dummy_scheme \<Rightarrow> rnic \<Rightarrow> ('d, unit) act" where
  "close_region V handler q nic =
     bindA (reg_handler_destroy V handler) (\<lambda>_. bindA (dummy_destroy V q) (\<lambda>_. rnic_destroy V nic))"

text \<open>The read of the test, with the regions that were bound.\<close>

definition test_rc_read :: "'d verbs \<Rightarrow> wr_opcodes \<Rightarrow> 'd memory \<Rightarrow> reg_attr \<Rightarrow> rc \<Rightarrow> ('d, unit) act" where
  "test_rc_read V C M mr q =
     (let test_loc = ra_buf mr in
      bindA (set_word M mr 0 73) (\<lambda>_.
      bindA (assert_words M (\<lambda>m. 73 \<noteq> word_at (test_loc + 8) m)) (\<lambda>_.
      bindA (rc_send_default V
          \<lparr>rd_op = wro_read C, rd_flags = v_signaled V, rd_len = 8, rd_wr_id = 0\<rparr>
          \<lparr>rp_local_addr = u64_ptr (test_loc + 8), rp_remote_addr = 0, rp_imm_data = 0\<rparr> q) (\<lambda>(res_s, q1).
      bindA (liftA (assertE (code res_s = IO_Ok))) (\<lambda>_.
      bindA (\<lambda>d. case wait_one_comp V no_timeout q1 d of
               None \<Rightarrow> (Inl Diverged, d)
             | Some (res_p, q2, d') \<Rightarrow> (assertE (code res_p = IO_Ok), d')) (\<lambda>_.
        assert_words M (\<lambda>m. word_at (test_loc + 8) m = 73)))))))"

definition test_rc_basic :: "'d verbs \<Rightarrow> wr_opcodes \<Rightarrow> 'd memory \<Rightarrow> (u64 \<Rightarrow> ptr) \<Rightarrow> ('d, unit) act" where
  "test_rc_basic V C M af =
     bindA (own_qp V) (\<lambda>(nic, q).
     bindA (own_region V af nic) (\<lambda>(handler, mr).
     bindA (connect_self V (bind_local_mr mr (bind_remote_mr mr q))) (\<lambda>q'.
     bindA (test_rc_read V C M mr q') (\<lambda>_. close_region V handler q' nic))))"

text \<open>The fixture connects the queue pair first; each test of test_op.cc registers its region and runs.\<close>

definition test_op_run ::
  "'d verbs \<Rightarrow> (u64 \<Rightarrow> ptr) \<Rightarrow> (reg_attr \<Rightarrow> rc \<Rightarrow> ('d, unit) act) \<Rightarrow> ('d, unit) act"
where
  "test_op_run V af body =
     bindA (own_qp V) (\<lambda>(nic, q).
     bindA (connect_self V q) (\<lambda>q'.
     bindA (own_region V af nic) (\<lambda>(handler, mr).
     bindA (body mr q') (\<lambda>_. close_region V handler q' nic))))"

text \<open>A factory under which a queue pair is created and registered.\<close>

definition test_rc_factory :: "('r \<Rightarrow> u64 \<times> 'r) \<Rightarrow> 'r \<Rightarrow> 'd verbs \<Rightarrow> ('d, unit) act" where
  "test_rc_factory rnd r V =
     bindA (first_dev V) (\<lambda>dev.
     bindA (rnic_create V dev 0) (\<lambda>created.
     bindA (liftA (opt_value created)) (\<lambda>nic.
     bindA (rc_create V nic (default_config (v_access V)) None) (\<lambda>qo.
     bindA (liftA (create_then_reg rnd factory_empty (12 :: u64) qo r)) (\<lambda>(qp_res, _, _).
     bindA (liftA (opt_value qp_res)) (\<lambda>(q, key).
     bindA (liftA (assertE (dummy_valid q))) (\<lambda>_.
     bindA (dummy_destroy V q) (\<lambda>_. rnic_destroy V nic))))))))"

section \<open>test_cm.cc\<close>

text \<open>The client's part of a test, with a connection manager of its own.\<close>

definition with_cm ::
  "('ai, 'x) netlib_scheme \<Rightarrow> int \<Rightarrow> bytes \<Rightarrow> 'd host \<Rightarrow> (sockaddr_in cm, unit) act \<Rightarrow> unit outcome"
where
  "with_cm L now addr h body =
     bindE (fst (srpc_new L now addr (h_cache h))) (\<lambda>S. fst (body \<lparr>cm_rpc = S, cm_net = h_net h\<rparr>))"

definition end_daemon :: "('r, 'd) server \<Rightarrow> unit outcome" where
  "end_daemon s = bindE (stop_daemon (sv_daemon s)) (\<lambda>_. Inr ())"

text \<open>A region is registered under the name 73; whether it could be is not looked at.\<close>

definition cm_mr_setup ::
  "('r \<Rightarrow> u64 \<times> 'r) \<Rightarrow> 'd verbs \<Rightarrow> (u64 \<Rightarrow> ptr) \<Rightarrow> bool \<Rightarrow> (('r, 'd) server, reg_handler) act"
where
  "cm_mr_setup rnd V af create_ok =
     bindA (launch create_ok) (\<lambda>_.
     bindA (on_ctrl (drvA (first_dev V))) (\<lambda>dev.
     bindA (on_ctrl (drvA (rnic_new V dev 0))) (\<lambda>nic.
     bindA (on_ctrl (drvA (reg_handler_new V (rmem_new af 1024) nic (default_flags (v_access V))))) (\<lambda>mr.
     bindA (on_ctrl (offer_region rnd 73 mr)) (\<lambda>_. retA mr)))))"

definition cm_mr_check :: "reg_handler \<Rightarrow> ('a cm, unit) act" where
  "cm_mr_check mr =
     bindA (wait_server 2) (\<lambda>_.
     bindA (remote_region 73) (\<lambda>attr.
     bindA (liftA (opt_value (get_reg_attr mr))) (\<lambda>local_mr.
       liftA (assertE (ra_buf local_mr = ra_buf attr \<and> ra_sz local_mr = ra_sz attr \<and> ra_key local_mr = ra_key attr)))))"

definition test_cm_mr ::
  "('r \<Rightarrow> u64 \<times> 'r) \<Rightarrow> 'd verbs \<Rightarrow> ('ai, 'x) netlib_scheme \<Rightarrow> (u64 \<Rightarrow> ptr) \<Rightarrow> bool \<Rightarrow> int \<Rightarrow> 'd host \<Rightarrow> ('r, 'd) server \<Rightarrow> unit outcome"
where
  "test_cm_mr rnd V L af create_ok now h s =
     (case cm_mr_setup rnd V af create_ok s of
        (mr, s1) \<Rightarrow> bindE mr (\<lambda>mr.
          bindE (with_cm L now (bstr ''localhost:8889'') h (cm_mr_check mr)) (\<lambda>_. end_daemon s1)))"

text \<open>A datagram queue pair with the key 73 under the name test_ud_qp.\<close>

definition test_ud_name :: bytes where "test_ud_name = bstr ''test_ud_qp''"

definition register_test_qp :: "('r \<Rightarrow> u64 \<times> 'r) \<Rightarrow> ud \<Rightarrow> (('r, 'd) rctrl, unit) act" where
  "register_test_qp rnd u s =
     bindA (reg_qp rnd test_ud_name (length (qp_heap s))) (\<lambda>key. bindA (liftA (opt_value key)) (\<lambda>_. retA ()))
       (s\<lparr>qp_heap := qp_heap s @ [\<lparr>ho_qp = Q_UD u, ho_held = True\<rparr>]\<rparr>)"

definition cm_qp_setup ::
  "('r \<Rightarrow> u64 \<times> 'r) \<Rightarrow> 'd verbs \<Rightarrow> bool \<Rightarrow> (('r, 'd) server, qp_attr) act"
where
  "cm_qp_setup rnd V create_ok =
     bindA (launch create_ok) (\<lambda>_.
     bindA (on_ctrl (drvA (first_dev V))) (\<lambda>dev.
     bindA (on_ctrl (drvA (rnic_create V dev 0))) (\<lambda>created.
     bindA (liftA (opt_value created)) (\<lambda>nic.
     bindA (on_ctrl (drvA (ud_create V nic (set_qkey 73 (default_config (v_access V)))))) (\<lambda>u.
     bindA (liftA (opt_value u)) (\<lambda>ud.
     bindA (on_ctrl (drvA (\<lambda>d. (ud_my_attr V ud d, d)))) (\<lambda>test_attr.
     bindA (on_ctrl (register_test_qp rnd ud)) (\<lambda>_. retA test_attr))))))))"

definition cm_qp_check :: "qp_attr \<Rightarrow> ('a cm, unit) act" where
  "cm_qp_check test_attr =
     bindA (wait_server 2) (\<lambda>_.
     bindA (cm_fetch_qp_attr test_ud_name) (\<lambda>res.
     bindA (expect_ok res) (\<lambda>(_, fetched_attr).
       liftA (assertE (q_lid test_attr = q_lid fetched_attr \<and> q_psn test_attr = q_psn fetched_attr \<and>
         q_port_id test_attr = q_port_id fetched_attr \<and> q_qpn test_attr = q_qpn fetched_attr \<and>
         q_qkey test_attr = q_qkey fetched_attr \<and> q_qkey fetched_attr = 73)))))"

definition test_cm_qp ::
  "('r \<Rightarrow> u64 \<times> 'r) \<Rightarrow> 'd verbs \<Rightarrow> ('ai, 'x) netlib_scheme \<Rightarrow> bool \<Rightarrow> int \<Rightarrow> 'd host \<Rightarrow> ('r, 'd) server \<Rightarrow> unit outcome"
where
  "test_cm_qp rnd V L create_ok now h s =
     (case cm_qp_setup rnd V create_ok s of
        (test_attr, s1) \<Rightarrow> bindE test_attr (\<lambda>test_attr.
          bindE (with_cm L now (bstr ''localhost:6666'') h (cm_qp_check test_attr)) (\<lambda>_. end_daemon s1)))"

end
