(* ===== verification/UDTest.thy ===== *)
theory UDTest
  imports QPTests
begin

text \<open>
  test_ud.cc as a program over the model: a datagram queue pair sends 1024 numbers to itself, one at a
  time, and a single iterator checks what has arrived after a pause. \<open>ud_post\<close> is the driver's
  call with a datagram request, which the test makes itself; \<open>place i\<close> is where the buffer of
  message \<open>i\<close> lies, \<open>lk\<close> the local key that the test does not set, and \<open>nap\<close> what the device does
  during the pause.
\<close>

unbundle bit_operations_syntax

section \<open>Setting up\<close>

definition own_ud :: "'d verbs \<Rightarrow> ('d, rnic \<times> ud) act" where
  "own_ud V =
     bindA (first_dev V) (\<lambda>dev.
     bindA (rnic_new V dev 0) (\<lambda>nic.
     bindA (liftA (assertE (nic_valid nic))) (\<lambda>_.
     bindA (ud_create V nic (default_config (v_access V))) (\<lambda>u.
     bindA (liftA (opt_value u)) (\<lambda>q.
     bindA (liftA (assertE (dummy_valid q))) (\<lambda>_. retA (nic, q)))))))"

definition ud_buffers :: "'d verbs \<Rightarrow> (u64 \<Rightarrow> ptr) \<Rightarrow> rnic \<Rightarrow> ud \<Rightarrow> ('d, reg_handler \<times> recv_entries) act" where
  "ud_buffers V af nic q =
     (let mem = rmem_new af (16 * 1024 * 1024) in
      bindA (liftA (assertE (rmem_valid mem))) (\<lambda>_.
      bindA (reg_handler_create V mem nic (default_flags (v_access V))) (\<lambda>created.
      bindA (liftA (opt_value created)) (\<lambda>handler.
      bindA (liftA (opt_value (get_reg_attr handler))) (\<lambda>attr.
      bindA (liftA (fst (recv_entries_create sa_alloc_one 1024 1000 (sa_new mem (ra_key attr))))) (\<lambda>recv_rs.
      bindA (liftA (entries_sanity_check recv_rs)) (\<lambda>_.
      bindA (post_recvs V q recv_rs 1024) (\<lambda>(res, recv_rs').
      bindA (liftA (assertE (code res = IO_Ok))) (\<lambda>_. retA (handler, recv_rs'))))))))))"

definition ud_address :: "'d verbs \<Rightarrow> ud \<Rightarrow> ('d, qp_attr \<times> ptr) act" where
  "ud_address V q =
     bindA (\<lambda>d. (ud_my_attr V q d, d)) (\<lambda>attr.
     bindA (create_ah V q attr) (\<lambda>ah.
     bindA (liftA (assertE (ah \<noteq> None))) (\<lambda>_. retA (attr, ah))))"

section \<open>Sending\<close>

definition ud_test_wr :: "'d verbs \<Rightarrow> nat \<Rightarrow> u32 \<Rightarrow> (nat \<Rightarrow> u64) \<Rightarrow> qp_attr \<Rightarrow> ptr \<Rightarrow> nat \<Rightarrow> ud_wr" where
  "ud_test_wr V send_imm lk place attr ah i =
     \<lparr>uw_op = send_imm, uw_flags = v_inline V OR v_signaled V, uw_imm = 73,
      uw_sge = \<lparr>sge_addr = place i, sge_length = 8, sge_lkey = lk\<rparr>,
      uw_ah = ah, uw_remote_qpn = ucast (q_qpn attr), uw_remote_qkey = ucast (q_qkey attr)\<rparr>"

definition ud_test_send ::
  "'d verbs \<Rightarrow> (ptr \<Rightarrow> ud_wr \<Rightarrow> 'd \<Rightarrow> c_int \<times> 'd) \<Rightarrow> 'd memory \<Rightarrow> (nat \<Rightarrow> u64) \<Rightarrow> (nat \<Rightarrow> ud_wr) \<Rightarrow> nat \<Rightarrow> ud \<Rightarrow> ('d, ud) act"
where
  "ud_test_send V ud_post M place wr i q =
     bindA (store_local M (place i) 8 (dump 8 enc_word (of_nat i :: u64))) (\<lambda>_.
     bindA (callA (ud_post (d_qp q) (wr i))) (\<lambda>rc.
     bindA (liftA (assertE (rc = 0))) (\<lambda>_ d.
       case wait_one_comp V no_timeout q d of
         None \<Rightarrow> (Inl Diverged, d)
       | Some (ret_r, q', d') \<Rightarrow> (bindE (assertE (code ret_r = IO_Ok)) (\<lambda>_. Inr q'), d'))))"

fun ud_test_sends ::
  "'d verbs \<Rightarrow> (ptr \<Rightarrow> ud_wr \<Rightarrow> 'd \<Rightarrow> c_int \<times> 'd) \<Rightarrow> 'd memory \<Rightarrow> (nat \<Rightarrow> u64) \<Rightarrow> (nat \<Rightarrow> ud_wr) \<Rightarrow> nat list \<Rightarrow> ud \<Rightarrow> ('d, ud) act"
where
  "ud_test_sends V ud_post M place wr [] q = retA q"
| "ud_test_sends V ud_post M place wr (i # ks) q =
     bindA (ud_test_send V ud_post M place wr i q) (ud_test_sends V ud_post M place wr ks)"

section \<open>Receiving\<close>

text \<open>128 bytes behind the header are read, of which the first eight are the number.\<close>

definition ud_check_msg :: "(u64 \<Rightarrow> u8) \<Rightarrow> usize \<Rightarrow> u32 \<times> ptr \<Rightarrow> unit outcome" where
  "ud_check_msg m cnt = (\<lambda>(imm, p).
     if p = None then Inl Undefined
     else bindE (opt_value (dedump 8 dec_word (mem_read (ptr_u64 p + ucast kGRHSz) 128 m))) (\<lambda>res :: u64.
          bindE (assertE (imm = 73)) (\<lambda>_. assertE (res = ucast cnt))))"

function ud_check_loop :: "(u64 \<Rightarrow> u8) \<Rightarrow> recv_iter \<Rightarrow> wc list \<Rightarrow> usize \<Rightarrow> usize outcome" where
  "ud_check_loop m it wcs cnt =
     (if ri_has_msgs it
      then bindE (ri_cur_msg it wcs) (\<lambda>imm_msg.
           bindE (opt_value imm_msg) (\<lambda>msg.
           bindE (ud_check_msg m cnt msg) (\<lambda>_. ud_check_loop m (ri_next it) wcs (cnt + 1))))
      else Inr cnt)"
  by pat_completeness auto
termination
  by (relation "measure (\<lambda>(_, it, _, _). nat (sint (ri_total it) - sint (ri_idx it)))")
    (use ri_next_decreases in auto)

declare ud_check_loop.simps [simp del]

definition ud_test_receive :: "'d verbs \<Rightarrow> 'd memory \<Rightarrow> ud \<Rightarrow> recv_entries \<Rightarrow> ('d, unit) act" where
  "ud_test_receive V M q e =
     bindA (ri_new V q e) (\<lambda>(it, e1).
     bindA (\<lambda>d. (ud_check_loop (mem_of M d) it (re_wcs e1) 0, d)) (\<lambda>recved_msgs.
     bindA (ri_clear V q e1 it) (\<lambda>_. liftA (assertE (recved_msgs = 1024)))))"

definition test_ud ::
  "'d verbs \<Rightarrow> (ptr \<Rightarrow> ud_wr \<Rightarrow> 'd \<Rightarrow> c_int \<times> 'd) \<Rightarrow> nat \<Rightarrow> 'd memory \<Rightarrow> (u64 \<Rightarrow> ptr) \<Rightarrow> u32 \<Rightarrow> (nat \<Rightarrow> u64) \<Rightarrow>
     ('d \<Rightarrow> 'd) \<Rightarrow> ('d, unit) act"
where
  "test_ud V ud_post send_imm M af lk place nap =
     bindA (own_ud V) (\<lambda>(nic, q).
     bindA (ud_buffers V af nic q) (\<lambda>(handler, recv_rs).
     bindA (ud_address V q) (\<lambda>(attr, ah).
     bindA (ud_test_sends V ud_post M place (ud_test_wr V send_imm lk place attr ah) [0..<1024] q) (\<lambda>q'.
     bindA (\<lambda>d. (Inr (), nap d)) (\<lambda>_.
     bindA (ud_test_receive V M q' recv_rs) (\<lambda>_. close_region V handler q' nic))))))"

end
