(* ===== verification/NetTestsSpec.thy ===== *)
theory NetTestsSpec
  imports NetTests ClientsSpec
begin

text \<open>
  The tests over sockets pass on a network that delivers what is sent, and those of devices on
  hardware that works: every call of theirs is computed.
\<close>

section \<open>A network that delivers\<close>

text \<open>
  Two sockets of one machine: what either has sent to the other is appended, in order and with the
  address of its sender, to what the other finds.
\<close>

definition loopback :: "'a \<Rightarrow> 'a \<Rightarrow> ('a net \<times> 'a net \<Rightarrow> 'a net \<times> 'a net) \<Rightarrow> bool" where
  "loopback ca sa W \<longleftrightarrow>
     (\<forall>nc ns. (\<forall>p \<in> set (outbox nc). fst p = sa) \<longrightarrow> (\<forall>p \<in> set (outbox ns). fst p = ca) \<longrightarrow>
        W (nc, ns) =
          (nc\<lparr>inbox := inbox nc @ map (\<lambda>p. SelData sa (snd p)) (outbox ns), outbox := []\<rparr>,
           ns\<lparr>inbox := inbox ns @ map (\<lambda>p. SelData ca (snd p)) (outbox nc), outbox := []\<rparr>))"

lemma loopback_request:
  assumes "loopback ca sa W"
  shows "W (empty_net\<lparr>outbox := [(sa, d)]\<rparr>, empty_net) = (empty_net, empty_net\<lparr>inbox := [SelData ca d]\<rparr>)"
  using assms by (simp add: loopback_def empty_net_def)

lemma loopback_reply:
  assumes "loopback ca sa W"
  shows "W (empty_net, empty_net\<lparr>outbox := [(ca, e)]\<rparr>) = (empty_net\<lparr>inbox := [SelData sa e]\<rparr>, empty_net)"
  using assms by (simp add: loopback_def empty_net_def)

section \<open>Names\<close>

text \<open>Within the lease of an address the two spellings of a host have the same one.\<close>

theorem test_naming_passes:
  assumes "\<And>h. \<exists>ps. getaddrinfo R h = Some ps \<and> last_name (getnameinfo R) ps [] \<noteq> []"
    and "t1 \<le> t2" "t2 - t1 < 10 * 1000000000"
  shows "test_naming R t0 t1 t2 [] = Inr ()"
proof -
  have trim: "trim_host (bstr ''localhost'') = bstr ''localhost''" "trim_host (bstr ''val02'') = bstr ''val02''"
      "trim_host (bstr ''  val02  '') = bstr ''val02''" "bstr ''localhost'' \<noteq> bstr ''val02''"
    by code_simp+
  obtain ps qs where r: "getaddrinfo R (bstr ''localhost'') = Some ps" "last_name (getnameinfo R) ps [] \<noteq> []"
      "getaddrinfo R (bstr ''val02'') = Some qs" "last_name (getnameinfo R) qs [] \<noteq> []"
    using assms(1) by meson
  let ?c = "[(bstr ''localhost'', (last_name (getnameinfo R) ps [], timer_new t0))]"
  have 1: "host2ip R t0 (bstr ''localhost'') [] = (Ok (last_name (getnameinfo R) ps []), ?c)"
    using r by (simp add: host2ip_def host2ip_miss_def Let_def trim)
  have 2: "host2ip R t1 (bstr ''val02'') ?c =
      (Ok (last_name (getnameinfo R) qs []), (bstr ''val02'', (last_name (getnameinfo R) qs [], timer_new t1)) # ?c)"
    using r trim(4) trim(4) [symmetric] by (simp add: host2ip_def host2ip_miss_def Let_def trim)
  have "passed_sec t2 (timer_new t1) < cache_lease_sec"
    using assms(2,3) by (simp add: passed_sec_lease timer_new_def)
  then have 3: "host2ip R t2 (bstr ''  val02  '') ((bstr ''val02'', (last_name (getnameinfo R) qs [], timer_new t1)) # ?c) =
      (Ok (last_name (getnameinfo R) qs []), (bstr ''val02'', (last_name (getnameinfo R) qs [], timer_new t1)) # ?c)"
    by (simp add: host2ip_def trim)
  show ?thesis
    unfolding test_naming_def 1 prod.case 2 3 by (simp add: assertE_def Ok_def)
qed

theorem test_naming_passes_witness:
  "test_naming (\<lparr>getaddrinfo = \<lambda>_. Some [()], getnameinfo = \<lambda>_. Some [49], strerror_errno = []\<rparr>) 0 5 7 [] = Inr ()"
  by (rule test_naming_passes) simp_all

section \<open>The channels\<close>

text \<open>What opening a channel gives.\<close>

lemma send_channel_open:
  "send_channel_create L now addr c = (Some sc, c') \<Longrightarrow> fd_valid (sc_fd sc)"
  by (auto simp: send_channel_create_def Let_def split: option.splits prod.splits if_splits)

lemma recv_channel_open:
  "recv_channel_create L port h = Inr (Some (c, b)) \<Longrightarrow>
     fd_valid (rc_fd c) \<and> \<not> has_msg c \<and> length (cur_msg c) = 4096"
  by (auto simp: recv_channel_create_def recv_channel_new_def bindE_Inr_iff has_msg_def split: option.splits prod.splits if_splits)

definition number_grams :: "usize \<Rightarrow> usize list \<Rightarrow> bytes list" where
  "number_grams off is = map (\<lambda>i. dump 8 enc_word (ucast (i + off) :: u64)) is"

lemma number_datagram:
  "length (dump 8 enc_word (x :: u64)) = 8" "dump 8 enc_word (x :: u64) \<noteq> []"
  "dedump 8 dec_word (dump 8 enc_word (x :: u64) @ r) = Some x"
  using u64_packed.length_dump [of x] u64_packed.dedump_dump_append [of x r] by auto

lemma channel_send_ok:
  assumes "fd_valid (sc_fd c)" "send_fails n = []"
  shows "channel_send c is n = (Inr (), n\<lparr>outbox := outbox n @ map (Pair (sc_end c)) (number_grams 73 is)\<rparr>)"
  using assms(2)
proof (induction "is" arbitrary: n)
  case (Cons i ks)
  then show ?case
    using sc_send_ok [OF assms(1) Cons.prems number_datagram(2)] by (simp add: act_simps number_grams_def)
qed (simp add: retA_def number_grams_def)

text \<open>The receiver's loop, entered before a receive, over the numbers that are left.\<close>

definition awaiting :: "'a recv_channel \<Rightarrow> bool" where
  "awaiting c \<longleftrightarrow> fd_valid (rc_fd c) \<and> \<not> has_msg c \<and> length (cur_msg c) = 4096"

lemma awaiting_idle: "awaiting c \<longleftrightarrow> idle (handler_of_channel c :: ('a, unit) srpc_handler)"
  by (auto simp: awaiting_def idle_def handler_of_channel_def)

lemma awaiting_start:
  assumes "awaiting c"
  shows "inbox n = [] \<Longrightarrow> rc_start c n = (Inr c, n)"
    and "inbox n = SelData a d # es \<Longrightarrow> length d \<le> 4096 \<Longrightarrow>
      rc_start c n = (Inr (c\<lparr>cur_msg := d @ drop (length d) (cur_msg c), cur_msg_client := Some a\<rparr>), n\<lparr>inbox := es\<rparr>)"
  using rc_start_empty [of "handler_of_channel c :: ('a, unit) srpc_handler"]
    rc_start_data [of "handler_of_channel c :: ('a, unit) srpc_handler"] assms
  by (simp_all add: awaiting_idle handler_of_channel_def)

lemma answer_number_ok:
  fixes cnt :: usize
  assumes "fd_valid (rc_fd c)" "cur_msg_client c = Some a" "send_fails n = []"
    and "cur_msg c = dump 8 enc_word (ucast (cnt + 73) :: u64) @ r"
  shows "answer_number c cnt n =
    (Inr (), n\<lparr>outbox := outbox n @ [(a, dump 8 enc_word (ucast (cnt + 75) :: u64))]\<rparr>)"
proof -
  have "reply_cur c (dump 8 enc_word (ucast (cnt + 75) :: u64)) n =
      (Inr (Ok []), n\<lparr>outbox := outbox n @ [(a, dump 8 enc_word (ucast (cnt + 75) :: u64))]\<rparr>)"
    using assms(1-3) number_datagram(2) by (simp add: reply_cur_def raw_send_def sendto_ok)
  then show ?thesis
    using assms(4) by (simp add: answer_number_def act_simps number_datagram assertE_def)
qed

lemma answer_loop_numbers:
  assumes "awaiting c" "send_fails n = []" "inbox n = map (SelData a) (number_grams 73 (map of_nat [k..<k + m]))"
  shows "\<exists>c1 n1. rc_start c n = (Inr c1, n1) \<and>
    answer_loop c1 (of_nat k) n1 =
      (Inr (of_nat (k + m)), n\<lparr>inbox := [], outbox := outbox n @ map (Pair a) (number_grams 75 (map of_nat [k..<k + m]))\<rparr>)"
  using assms
proof (induction m arbitrary: c n k)
  case 0
  then show ?case
    using awaiting_start(1) [OF 0(1), of n] by (simp add: answer_loop.simps awaiting_def number_grams_def)
next
  case (Suc m)
  let ?d = "dump 8 enc_word (ucast (of_nat k + 73 :: usize) :: u64)"
  let ?e = "dump 8 enc_word (ucast (of_nat k + 75 :: usize) :: u64)"
  let ?es = "map (SelData a) (number_grams 73 (map of_nat [Suc k..<Suc k + m]))"
  let ?c1 = "c\<lparr>cur_msg := ?d @ drop (length ?d) (cur_msg c), cur_msg_client := Some a\<rparr>"
  let ?n1 = "n\<lparr>inbox := ?es\<rparr>" and ?n2 = "n\<lparr>inbox := ?es, outbox := outbox n @ [(a, ?e)]\<rparr>"
  have range: "[k..<k + Suc m] = k # [Suc k..<Suc k + m]"
    by (simp add: upt_conv_Cons del: upt_Suc)
  have start: "rc_start c n = (Inr ?c1, ?n1)"
    using Suc.prems(3) unfolding range
    by (intro awaiting_start(2) [OF Suc.prems(1)]) (simp_all add: number_grams_def number_datagram del: upt_Suc)
  have "awaiting (?c1\<lparr>cur_msg_client := None\<rparr>)"
    using Suc.prems(1) by (simp add: awaiting_def has_msg_def number_datagram)
  then obtain c2 n3 where step: "rc_next ?c1 ?n2 = (Inr c2, n3)"
    and ih: "answer_loop c2 (of_nat (Suc k)) n3 = (Inr (of_nat (Suc k + m)),
        ?n2\<lparr>inbox := [], outbox := outbox ?n2 @ map (Pair a) (number_grams 75 (map of_nat [Suc k..<Suc k + m]))\<rparr>)"
    using Suc.IH [of "?c1\<lparr>cur_msg_client := None\<rparr>" ?n2 "Suc k"] Suc.prems(2) by (auto simp: rc_next_def)
  have "answer_number ?c1 (of_nat k) ?n1 = (Inr (), ?n2)"
    using Suc.prems(1,2) by (subst answer_number_ok [where a = a]) (simp_all add: awaiting_def)
  then have "answer_loop ?c1 (of_nat k) ?n1 = answer_loop c2 (of_nat (Suc k)) n3"
    using step by (subst answer_loop.simps) (simp add: has_msg_def add.commute)
  with start ih show ?case
    unfolding range by (simp add: number_grams_def)
qed

lemma channel_check_ok:
  assumes "fd_valid (sc_fd c)" "inbox n = map (SelData a) (number_grams 75 is)"
  shows "channel_check c is n = (Inr (), n\<lparr>inbox := []\<rparr>)"
  using assms(2)
proof (induction "is" arbitrary: n)
  case Nil
  then show ?case
    by (simp add: retA_def number_grams_def)
next
  case (Cons i ks)
  let ?n = "n\<lparr>inbox := map (SelData a) (number_grams 75 ks)\<rparr>"
  have "channel_check c ks ?n = (Inr (), n\<lparr>inbox := []\<rparr>)"
    using Cons.IH [of ?n] by simp
  moreover have "sc_recv c n = (Inr (Ok (dump 8 enc_word (ucast (i + 75) :: u64) @ replicate 4088 0)), ?n)"
    using sc_recv_data [OF assms(1), of n a "dump 8 enc_word (ucast (i + 75) :: u64)"] Cons.prems
    by (simp add: number_grams_def number_datagram)
  ultimately show ?case
    by (simp add: act_simps number_datagram assertE_def Ok_def)
qed

text \<open>
  The test of the channels passes: the twelve numbers arrive in order and are answered, and the answers
  come back in order.
\<close>
theorem test_channel_passes:
  assumes "send_channel_create L now (bstr ''localhost:7777'') cache = (Some sc, cache')"
    and "recv_channel_create L 7777 (bstr ''localhost'') = Inr (Some (rc :: sockaddr_in recv_channel, bound))"
    and "loopback ca (sc_end sc) W"
  shows "test_channel L W now cache empty_net empty_net = Inr ()"
proof -
  let ?is = "map of_nat [0..<total_sent] :: usize list" and ?sa = "sc_end sc"
  have sc: "fd_valid (sc_fd sc)"
    using assms(1) by (rule send_channel_open)
  have rc: "awaiting rc"
    using recv_channel_open [OF assms(2)] by (simp add: awaiting_def)
  have 1: "channel_send sc ?is empty_net = (Inr (), empty_net\<lparr>outbox := map (Pair ?sa) (number_grams 73 ?is)\<rparr>)"
    using channel_send_ok [OF sc, of empty_net ?is] by simp
  let ?ns = "empty_net\<lparr>inbox := map (SelData ca) (number_grams 73 ?is)\<rparr>"
  have 2: "W (empty_net\<lparr>outbox := map (Pair ?sa) (number_grams 73 ?is)\<rparr>, empty_net) = (empty_net, ?ns)"
    using assms(3) by (simp add: loopback_def empty_net_def comp_def)
  obtain c1 n1 where 3: "rc_start rc ?ns = (Inr c1, n1)"
      "answer_loop c1 0 n1 = (Inr (of_nat total_sent), empty_net\<lparr>outbox := map (Pair ca) (number_grams 75 ?is)\<rparr>)"
    using answer_loop_numbers [OF rc, of ?ns ca 0 total_sent] by (auto simp: empty_net_def)
  have 4: "W (empty_net, empty_net\<lparr>outbox := map (Pair ca) (number_grams 75 ?is)\<rparr>) =
      (empty_net\<lparr>inbox := map (SelData ?sa) (number_grams 75 ?is)\<rparr>, empty_net)"
    using assms(3) by (simp add: loopback_def empty_net_def comp_def)
  have 5: "channel_check sc ?is (empty_net\<lparr>inbox := map (SelData ?sa) (number_grams 75 ?is)\<rparr>) = (Inr (), empty_net)"
    using channel_check_ok [OF sc, of "empty_net\<lparr>inbox := map (SelData ?sa) (number_grams 75 ?is)\<rparr>" ?sa ?is]
    by (simp add: empty_net_def)
  show ?thesis
    unfolding test_channel_def Let_def assms(1,2) fst_conv opt_value_simps bindE_simps prod.case 1 2 3 4 5
    by (simp add: assertE_def)
qed

text \<open>The network of one machine, for the witnesses.\<close>

definition sample_loopback :: "'a \<Rightarrow> 'a \<Rightarrow> 'a net \<times> 'a net \<Rightarrow> 'a net \<times> 'a net" where
  "sample_loopback ca sa = (\<lambda>(nc, ns).
     (nc\<lparr>inbox := inbox nc @ map (\<lambda>p. SelData sa (snd p)) (outbox ns), outbox := []\<rparr>,
      ns\<lparr>inbox := inbox ns @ map (\<lambda>p. SelData ca (snd p)) (outbox nc), outbox := []\<rparr>))"

lemma sample_loopback_delivers: "loopback ca sa (sample_loopback ca sa)"
  by (simp add: loopback_def sample_loopback_def)

lemma sample_channels:
  "\<exists>sc c. send_channel_create sample_lib 0 (bstr ''localhost:7777'') [] = (Some sc, c) \<and>
     sc_end sc = \<lparr>sin_port = htons 7777, sin_addr = 16909060\<rparr>"
  "\<exists>rc b. recv_channel_create sample_lib 7777 (bstr ''localhost'') = Inr (Some (rc :: sockaddr_in recv_channel, b))"
proof -
  have "case send_channel_create sample_lib 0 (bstr ''localhost:7777'') [] of
      (Some sc, c) \<Rightarrow> sc_end sc = \<lparr>sin_port = htons 7777, sin_addr = 16909060\<rparr> | _ \<Rightarrow> False"
    by code_simp
  then show "\<exists>sc c. send_channel_create sample_lib 0 (bstr ''localhost:7777'') [] = (Some sc, c) \<and>
      sc_end sc = \<lparr>sin_port = htons 7777, sin_addr = 16909060\<rparr>"
    by (auto split: prod.splits option.splits)
  show "\<exists>rc b. recv_channel_create sample_lib 7777 (bstr ''localhost'') = Inr (Some (rc :: sockaddr_in recv_channel, b))"
    by (simp add: recv_channel_create_def recv_channel_new_def sample_lib_def fd_valid_def) (rule exI [of _ True], rule TrueI)
qed

theorem test_channel_passes_witness:
  "test_channel sample_lib (sample_loopback \<lparr>sin_port = 0, sin_addr = 0\<rparr> \<lparr>sin_port = htons 7777, sin_addr = 16909060\<rparr>)
     0 [] empty_net empty_net = Inr ()"
proof -
  obtain sc c where sc: "send_channel_create sample_lib 0 (bstr ''localhost:7777'') [] = (Some sc, c)"
      "sc_end sc = \<lparr>sin_port = htons 7777, sin_addr = 16909060\<rparr>"
    using sample_channels(1) by blast
  obtain rc b where "recv_channel_create sample_lib 7777 (bstr ''localhost'') = Inr (Some (rc :: sockaddr_in recv_channel, b))"
    using sample_channels(2) by blast
  from test_channel_passes [OF sc(1) this, unfolded sc(2), OF sample_loopback_delivers] show ?thesis .
qed

section \<open>Remote calls\<close>

text \<open>The ends between two calls: both idle, the handlers of the test in the table.\<close>

definition rpc_ready :: "'a \<Rightarrow> 'a srpc \<Rightarrow> ('a, unit) srpc_handler \<Rightarrow> bool" where
  "rpc_ready sa S H \<longleftrightarrow> fd_valid (sc_fd (sp_chan S)) \<and> sc_end (sp_chan S) = sa \<and> idle H \<and>
     (\<forall>i < 12. map_of (hd_fac H) (73 + of_nat i) = Some (test_rpc_handler i))"

lemma test_rpc_handler_ok:
  "test_rpc_handler i (replicate (233 + i) (51 + of_nat i)) s = (Inr (replicate (73 + i) (49 + of_nat i)), s)"
  by (simp add: test_rpc_handler_def assertE_def add.commute)

lemma rpc_ids_distinct:
  fixes i j :: nat
  assumes "i < 12" "j < 12"
  shows "(73 + of_nat i :: rpc_id_t) \<noteq> HeartBeat" and "(73 + of_nat i :: rpc_id_t) = 73 + of_nat j \<longleftrightarrow> i = j"
proof -
  have u: "unat (73 + of_nat k :: rpc_id_t) = 73 + k" if "k < 12" for k :: nat
    using that by (simp add: unat_word_ariths unat_of_nat)
  show "(73 + of_nat i :: rpc_id_t) \<noteq> HeartBeat"
    using u [OF assms(1)] by (auto simp: HeartBeat_def)
  show "(73 + of_nat i :: rpc_id_t) = 73 + of_nat j \<longleftrightarrow> i = j"
    using u [OF assms(1)] u [OF assms(2)] by (metis add_left_cancel)
qed

text \<open>Registering the handlers one after the other.\<close>

lemma handlers_registered:
  fixes H :: "('a, unit) srpc_handler"
  assumes "hd_fac H = rpc_factory_new" "n \<le> 12"
  defines "K \<equiv> foldl (\<lambda>H i. snd (handler_register H (73 + of_nat i) (test_rpc_handler i))) H [0..<n]"
  shows "hd_chan K = hd_chan H \<and>
    (\<forall>i < 12. map_of (hd_fac K) (73 + of_nat i) = (if i < n then Some (test_rpc_handler i) else None))"
  using assms(2) unfolding K_def
proof (induction n)
  case 0
  then show ?case
    using rpc_ids_distinct(1) assms(1)
    by (auto simp: rpc_factory_new_def register_handler_def)
next
  case (Suc n)
  then show ?case
    using rpc_ids_distinct(2) by (auto simp: handler_register_def register_handler_def less_Suc_eq)
qed

lemma rpc_test_round_passes:
  assumes "loopback ca sa W" "rpc_ready sa S H" "i < 12"
  obtains S' H' where "rpc_test_round W i (S, H, empty_net, empty_net) = Inr (S', H', empty_net, empty_net)"
    "rpc_ready sa S' H'"
proof -
  have ready: "fd_valid (sc_fd (sp_chan S))" "sc_end (sp_chan S) = sa" "idle H"
      "map_of (hd_fac H) (73 + of_nat i) = Some (test_rpc_handler i)"
    using assms(2,3) by (simp_all add: rpc_ready_def)
  let ?p = "replicate (233 + i) (51 + of_nat i) :: bytes" and ?r = "replicate (73 + i) (49 + of_nat i) :: bytes"
  have len: "length ?p \<le> 4054" "length ?r \<le> 4053" "\<forall>h \<in> set []. heartbeat_packet (snd h)"
    using assms(3) by simp_all
  obtain d e H' where
    call: "\<forall>n. send_fails n = [] \<longrightarrow>
       srpc_call S (73 + of_nat i) ?p n = (Inr (Ok []), n\<lparr>outbox := outbox n @ [(sc_end (sp_chan S), d)]\<rparr>)"
    and run: "run_one_event_loop H () (empty_net\<lparr>inbox := [SelData ca d]\<rparr>) =
      (Inr 1, H', (), empty_net\<lparr>outbox := [(ca, e)]\<rparr>)" "idle H'" "hd_fac H' = hd_fac H"
    and recv: "\<forall>n es. inbox n = map (\<lambda>h. SelData (fst h) (snd h)) [] @ SelData sa e # es \<longrightarrow>
       receive_reply S False n = (Inr (Ok ?r), S\<lparr>sp_checksum := sp_checksum S + 1\<rparr>, n\<lparr>inbox := es\<rparr>)"
    using rpc_round_trip [OF ready(1) len(1) ready(3,4) test_rpc_handler_ok len(2) rpc_ids_distinct(1) [OF assms(3,3)] len(3),
        where a = ca and b = sa and s = "()"]
    by blast
  have 1: "srpc_call S (73 + of_nat i) ?p empty_net = (Inr (Ok []), empty_net\<lparr>outbox := [(sa, d)]\<rparr>)"
    using call ready(2) by (simp add: empty_net_def)
  have 2: "receive_reply S False (empty_net\<lparr>inbox := [SelData sa e]\<rparr>) =
      (Inr (Ok ?r), S\<lparr>sp_checksum := sp_checksum S + 1\<rparr>, empty_net)"
    using recv by (simp add: empty_net_def)
  have "rpc_test_round W i (S, H, empty_net, empty_net) =
      Inr (S\<lparr>sp_checksum := sp_checksum S + 1\<rparr>, H', empty_net, empty_net)"
    unfolding rpc_test_round_def prod.case 1 bindE_simps loopback_request [OF assms(1)] run(1) loopback_reply [OF assms(1)] 2
    by (simp add: assertE_def Ok_def)
  moreover have "rpc_ready sa (S\<lparr>sp_checksum := sp_checksum S + 1\<rparr>) H'"
    using assms(2) run(2,3) by (simp add: rpc_ready_def)
  ultimately show thesis
    by (rule that)
qed

lemma rpc_test_rounds_pass:
  "loopback ca sa W \<Longrightarrow> rpc_ready sa S H \<Longrightarrow> \<forall>i \<in> set ks. i < 12 \<Longrightarrow>
     \<exists>S' H'. rpc_test_rounds W ks (S, H, empty_net, empty_net) = Inr (S', H', empty_net, empty_net)"
proof (induction ks arbitrary: S H)
  case (Cons i ks)
  obtain S' H' where "rpc_test_round W i (S, H, empty_net, empty_net) = Inr (S', H', empty_net, empty_net)" "rpc_ready sa S' H'"
    using Cons.prems by (auto elim: rpc_test_round_passes)
  then show ?case
    using Cons.IH Cons.prems by simp
qed simp

lemma srpc_open: "srpc_new L now addr c = (Inr S, c') \<Longrightarrow> fd_valid (sc_fd (sp_chan S))"
  by (auto simp: srpc_new_def srpc_of_channel_def bindE_Inr_iff opt_value_def
      split: prod.splits option.splits dest: send_channel_open)

lemma srpc_handler_open:
  assumes "srpc_handler_new L port h = Inr H"
  shows "idle H \<and> hd_fac H = rpc_factory_new"
proof -
  obtain c bound where "recv_channel_create L port h = Inr (Some (c, bound))" "H = handler_of_channel c"
    using assms by (auto simp: srpc_handler_new_def bindE_Inr_iff opt_value_def simp del: split_paired_Ex split: option.splits)
  then show ?thesis
    using recv_channel_open [of L port h c bound] by (simp add: idle_def handler_of_channel_def)
qed

text \<open>
  The test of remote calls passes: each of the twelve handlers gets the parameter of its call and no other,
  and each call gets its handler's reply.
\<close>
theorem test_rpc_passes:
  assumes "srpc_new L now (bstr ''localhost:1111'') cache = (Inr S, cache')"
    and "srpc_handler_new L 1111 (bstr ''localhost'') = Inr (H :: (sockaddr_in, unit) srpc_handler)"
    and "loopback ca (sc_end (sp_chan S)) W"
  shows "test_rpc L W now cache empty_net empty_net = Inr ()"
proof -
  have "rpc_ready (sc_end (sp_chan S)) S (rpc_registered H)"
    using srpc_open [OF assms(1)] srpc_handler_open [OF assms(2)] handlers_registered [of H 12]
    by (simp add: rpc_ready_def rpc_registered_def idle_def)
  then obtain S' H' where "rpc_test_rounds W [0..<12] (S, rpc_registered H, empty_net, empty_net) =
      Inr (S', H', empty_net, empty_net)"
    using rpc_test_rounds_pass [OF assms(3), of S "rpc_registered H" "[0..<12]"] by auto
  then show ?thesis
    unfolding test_rpc_def assms(1,2) fst_conv bindE_simps by simp
qed

theorem test_rpc_passes_witness:
  "test_rpc sample_lib (sample_loopback \<lparr>sin_port = 0, sin_addr = 0\<rparr> \<lparr>sin_port = htons 1111, sin_addr = 16909060\<rparr>)
     0 [] empty_net empty_net = Inr ()"
proof -
  have "case srpc_new sample_lib 0 (bstr ''localhost:1111'') [] of
      (Inr S, c) \<Rightarrow> sc_end (sp_chan S) = \<lparr>sin_port = htons 1111, sin_addr = 16909060\<rparr> | _ \<Rightarrow> False"
    by code_simp
  then obtain S c where S: "srpc_new sample_lib 0 (bstr ''localhost:1111'') [] = (Inr S, c)"
      "sc_end (sp_chan S) = \<lparr>sin_port = htons 1111, sin_addr = 16909060\<rparr>"
    by (auto dest!: case_returns)
  have "\<exists>H. srpc_handler_new sample_lib 1111 (bstr ''localhost'') = Inr (H :: (sockaddr_in, unit) srpc_handler)"
    by (simp add: srpc_handler_new_def recv_channel_create_def recv_channel_new_def sample_lib_def fd_valid_def)
  then obtain H where "srpc_handler_new sample_lib 1111 (bstr ''localhost'') = Inr (H :: (sockaddr_in, unit) srpc_handler)"
    by blast
  from test_rpc_passes [OF S(1) this, unfolded S(2), OF sample_loopback_delivers] show ?thesis .
qed

section \<open>Devices and memory\<close>

text \<open>
  Working hardware: \<open>n\<close> devices that open, each with \<open>ports\<close> active ports; memory registers unless its
  address is null.
\<close>

definition hardware :: "'d verbs \<Rightarrow> nat \<Rightarrow> u8 \<Rightarrow> bool" where
  "hardware V n ports \<longleftrightarrow> n < 2 ^ 31 \<and>
     (\<forall>d. \<exists>devs. fst (v_get_device_list V d) = (of_nat n, Some devs) \<and> length devs = n) \<and>
     (\<forall>c d. fst (v_open_device V c d) \<noteq> None) \<and> (\<forall>c d. fst (v_alloc_pd V c d) \<noteq> None) \<and>
     (\<forall>c p i d. fst (v_query_gid V c p i d) \<noteq> None) \<and> (\<forall>c d. fst (v_query_device V c d) = (0, ports)) \<and>
     (\<forall>c p d. fst (fst (v_query_port V c p d)) = 0 \<and> pt_active (snd (fst (v_query_port V c p d)))) \<and>
     (\<forall>pd p sz fl d. fst (v_reg_mr V pd p sz fl d) = None \<longleftrightarrow> p = None)"

lemma hardware_opens:
  assumes "hardware V n ports" "unat (dev_id idx) < n"
  shows "\<exists>nic d'. rnic_new V idx gid d = (Inr nic, d') \<and> nic_valid nic \<and> nic_addr nic \<noteq> None \<and> nic_lid nic \<noteq> None"
proof -
  have n: "n < 2 ^ 31"
    using assms(1) by (simp add: hardware_def)
  obtain devs d1 where devs: "v_get_device_list V d = ((of_nat n, Some devs), d1)" "length devs = n"
    using assms(1) unfolding hardware_def by (metis prod.collapse)
  have "\<not> of_nat n \<le> dev_id idx"
    using assms(2) n by (simp add: word_le_nat_alt unat_of_nat)
  moreover obtain ctx d2 where ctx: "v_open_device V (devs ! unat (dev_id idx)) d1 = (Some ctx, d2)"
    using assms(1) unfolding hardware_def by (metis not_None_eq prod.collapse)
  ultimately have 1: "open_device V idx d = (Inr (Some ctx), d2)"
    using devs assms(2) by (simp add: open_device_def act_simps)
  obtain pd d3 where "v_alloc_pd V (Some ctx) d2 = (Some pd, d3)"
    using assms(1) unfolding hardware_def by (metis not_None_eq prod.collapse)
  then have 2: "alloc_pd V (Some ctx) d2 = (Inr (Some pd), d3)"
    by (simp add: alloc_pd_def act_simps)
  obtain sub ifc d4 where "v_query_gid V (Some ctx) (ucast (port_id idx)) (ucast gid) d3 = (Some (sub, ifc), d4)"
    using assms(1) unfolding hardware_def by (metis not_None_eq prod.collapse)
  then have 3: "query_addr V (Some ctx) (Some pd) idx gid d3 =
      (Inr (Some \<lparr>subnet_prefix = sub, interface_id = ifc, local_id = ucast gid\<rparr>), d4)"
    by (simp add: query_addr_def act_simps)
  obtain at d5 where "v_query_port V (Some ctx) (ucast (port_id idx)) d4 = ((0, at), d5)"
    using assms(1) unfolding hardware_def by (metis prod.collapse)
  then obtain lid where 4: "fetch_lid V (Some ctx) (Some pd) idx d4 = (Inr (Some lid), d5)"
    by (simp add: fetch_lid_def act_simps)
  show ?thesis
    by (intro exI [of _ "\<lparr>nic_ctx = Some ctx, nic_pd = Some pd, nic_id = idx,
          nic_addr = Some \<lparr>subnet_prefix = sub, interface_id = ifc, local_id = ucast gid\<rparr>, nic_lid = Some lid\<rparr>"] exI [of _ d5])
      (simp add: rnic_new_def act_simps 1 2 3 4 nic_valid_def)
qed

lemma rnic_destroy_ends: "\<exists>d'. rnic_destroy V n d = (Inr (), d')"
  by (auto simp: rnic_destroy_def act_simps)

lemma reg_handler_destroy_ends: "\<exists>d'. reg_handler_destroy V h d = (Inr (), d')"
  by (auto simp: reg_handler_destroy_def act_simps split: option.splits)

text \<open>The list of devices has every port of every device, in order.\<close>

lemma query_devs_hardware:
  assumes "hardware V n ports"
  shows "i + k = n \<Longrightarrow>
    \<exists>d'. query_devs V k i res d = (Inr (res @ concat (map (\<lambda>j. device_ports (of_nat j) ports) [i..<n])), d')"
proof (induction k arbitrary: i res d)
  case (Suc k)
  have n: "n < 2 ^ 31"
    using assms by (simp add: hardware_def)
  then have "unat (of_nat i :: usize) < n"
    using Suc.prems by (simp add: unat_of_nat)
  then obtain nic d1 where nic: "rnic_new V \<lparr>dev_id = of_nat i, port_id = 73\<rparr> 0 d = (Inr nic, d1)" "nic_valid nic"
    using hardware_opens [OF assms, of "\<lparr>dev_id = of_nat i, port_id = 73\<rparr>" 0 d] by auto
  obtain d2 where dev: "v_query_device V (nic_ctx nic) d1 = ((0, ports), d2)"
    using assms unfolding hardware_def by (metis prod.collapse)
  obtain d3 where "rnic_destroy V nic d2 = (Inr (), d3)"
    using rnic_destroy_ends [of V nic d2] by auto
  moreover have "[i..<n] = i # [Suc i..<n]"
    using Suc.prems by (simp add: upt_conv_Cons)
  moreover obtain d4 where "query_devs V k (Suc i) (res @ device_ports (of_nat i) ports) d3 =
      (Inr ((res @ device_ports (of_nat i) ports) @ concat (map (\<lambda>j. device_ports (of_nat j) ports) [Suc i..<n])), d4)"
    using Suc.IH [of "Suc i" "res @ device_ports (of_nat i) ports" d3] Suc.prems by (auto simp del: upt_Suc)
  ultimately show ?case
    using nic dev by (simp add: act_simps)
qed (simp add: act_simps)

lemma query_names_hardware:
  assumes "hardware V n ports"
  obtains d' where "query_dev_names V d = (Inr (concat (map (\<lambda>j. device_ports (of_nat j) ports) [0..<n])), d')"
proof -
  have "unat (of_nat n :: c_int) = n"
    using assms by (simp add: hardware_def unat_of_nat)
  moreover obtain devs d1 where "v_get_device_list V d = ((of_nat n, Some devs), d1)"
    using assms unfolding hardware_def by (metis prod.collapse)
  moreover obtain d2 where "query_devs V n 0 [] d1 = (Inr (concat (map (\<lambda>j. device_ports (of_nat j) ports) [0..<n])), d2)"
    using query_devs_hardware [OF assms, of 0 n "[]" d1] by auto
  ultimately show thesis
    by (intro that [of d2]) (simp add: query_dev_names_def act_simps)
qed

text \<open>The first entry, which the tests open, is the first port of the first device.\<close>

lemma first_device:
  assumes "hardware V n ports" "0 < n" "0 < ports"
  obtains idxs d' where "query_dev_names V d = (Inr (\<lparr>dev_id = 0, port_id = 1\<rparr> # idxs), d')"
proof -
  have "[1..<unat ports + 1] = 1 # [2..<unat ports + 1]"
    using assms(3) by (simp add: upt_conv_Cons word_less_nat_alt numeral_2_eq_2)
  then have "device_ports 0 ports = \<lparr>dev_id = 0, port_id = 1\<rparr> # map (\<lambda>p. \<lparr>dev_id = 0, port_id = of_nat p\<rparr>) [2..<unat ports + 1]"
    by (simp add: device_ports_def)
  moreover have "[0..<n] = 0 # [1..<n]"
    using assms(2) by (simp add: upt_conv_Cons)
  moreover obtain d' where "query_dev_names V d = (Inr (concat (map (\<lambda>j. device_ports (of_nat j) ports) [0..<n])), d')"
    by (rule query_names_hardware [OF assms(1)])
  ultimately show thesis
    by (intro that) simp
qed

lemma test_nic_state_passes:
  assumes "hardware V n ports" "0 < n" "0 < ports"
  shows "\<exists>d'. test_nic_state V state_str d = (Inr (), d')"
proof -
  let ?idx = "\<lparr>dev_id = 0, port_id = 1\<rparr>"
  obtain idxs d1 where names: "query_dev_names V d = (Inr (?idx # idxs), d1)"
    by (rule first_device [OF assms])
  obtain nic d2 where nic: "rnic_new V ?idx 0 d1 = (Inr nic, d2)" "nic_valid nic"
    using hardware_opens [OF assms(1), of ?idx 0 d1] assms(2) by auto
  obtain attr d3 where "v_query_port V (nic_ctx nic) (ucast (port_id (nic_id nic))) d2 = ((0, attr), d3)" "pt_active attr"
    using assms(1) unfolding hardware_def by (metis prod.collapse)
  then have "is_active V state_str nic d2 = (Inr (Ok []), d3)"
    using nic(2) by (simp add: is_active_def act_simps bindA_def callA_def)
  moreover have "rnic_create V ?idx 0 d1 = (Inr (Some nic), d2)"
    using nic by (simp add: rnic_create_def act_simps)
  ultimately show ?thesis
    using rnic_destroy_ends by (simp add: test_nic_state_def act_simps names assertE_def Ok_def)
qed

lemma hardware_registers:
  assumes "hardware V n ports" "nic_valid nic"
  shows "m \<noteq> None \<Longrightarrow> \<exists>mr d'. reg_handler_new V (rmem_new (\<lambda>_. m) sz) nic flags d =
      (Inr \<lparr>rh_mr = Some mr, rh_nic = nic, rh_mem = rmem_new (\<lambda>_. m) sz\<rparr>, d')"
    and "\<exists>d'. reg_handler_new V (rmem_new (\<lambda>_. None) sz) nic flags d =
      (Inr \<lparr>rh_mr = None, rh_nic = nic, rh_mem = rmem_new (\<lambda>_. None) sz\<rparr>, d')"
proof -
  obtain r d' where r: "v_reg_mr V (nic_pd nic) m sz (get_value flags) d = (r, d')" "r = None \<longleftrightarrow> m = None"
    using assms(1) unfolding hardware_def by (metis prod.collapse)
  then show "m \<noteq> None \<Longrightarrow> \<exists>mr d'. reg_handler_new V (rmem_new (\<lambda>_. m) sz) nic flags d =
      (Inr \<lparr>rh_mr = Some mr, rh_nic = nic, rh_mem = rmem_new (\<lambda>_. m) sz\<rparr>, d')"
    using assms(2) by (auto simp: reg_handler_new_def act_simps rmem_new_def)
  obtain d' where "v_reg_mr V (nic_pd nic) None sz (get_value flags) d = (None, d')"
    using assms(1) unfolding hardware_def by (metis prod.collapse)
  then show "\<exists>d'. reg_handler_new V (rmem_new (\<lambda>_. None) sz) nic flags d =
      (Inr \<lparr>rh_mr = None, rh_nic = nic, rh_mem = rmem_new (\<lambda>_. None) sz\<rparr>, d')"
    using assms(2) by (simp add: reg_handler_new_def act_simps rmem_new_def)
qed

lemma test_can_reg_passes:
  assumes "hardware V n ports" "0 < n" "0 < ports" "af 1024 \<noteq> None"
  shows "\<exists>d'. test_can_reg V af flags d = (Inr (), d')"
proof -
  obtain idxs d1 where names: "query_dev_names V d = (Inr (\<lparr>dev_id = 0, port_id = 1\<rparr> # idxs), d1)"
    by (rule first_device [OF assms(1-3)])
  obtain nic d2 where nic: "rnic_new V \<lparr>dev_id = 0, port_id = 1\<rparr> 0 d1 = (Inr nic, d2)" "nic_valid nic"
    using hardware_opens [OF assms(1), of "\<lparr>dev_id = 0, port_id = 1\<rparr>" 0 d1] assms(2) by auto
  have mem: "rmem_new af 1024 = rmem_new (\<lambda>_. af 1024) 1024" "rmem_valid (rmem_new af 1024)"
      "\<not> rmem_valid (rmem_new (\<lambda>_. None) 1024)"
    using assms(4) by (simp_all add: rmem_valid_def rmem_new_def)
  obtain mr d3 where 1: "reg_handler_new V (rmem_new af 1024) nic flags d2 =
      (Inr \<lparr>rh_mr = Some mr, rh_nic = nic, rh_mem = rmem_new af 1024\<rparr>, d3)"
    using hardware_registers(1) [OF assms(1) nic(2) assms(4)] unfolding mem(1) by blast
  obtain d4 where 2: "reg_handler_new V (rmem_new (\<lambda>_. None) 1024) nic flags d3 =
      (Inr \<lparr>rh_mr = None, rh_nic = nic, rh_mem = rmem_new (\<lambda>_. None) 1024\<rparr>, d4)"
    using hardware_registers(2) [OF assms(1) nic(2)] by blast
  obtain d5 where 3: "reg_handler_destroy V \<lparr>rh_mr = Some mr, rh_nic = nic, rh_mem = rmem_new af 1024\<rparr> d4 = (Inr (), d5)"
    using reg_handler_destroy_ends [of V "\<lparr>rh_mr = Some mr, rh_nic = nic, rh_mem = rmem_new af 1024\<rparr>" d4] by auto
  show ?thesis
    using mem(2,3) rnic_destroy_ends
    by (simp add: test_can_reg_def first_dev_def act_simps names nic(1) 1 2 3 assertE_def rh_valid_def get_reg_attr_def
        reg_handler_destroy_def [of V "\<lparr>rh_mr = None, rh_nic = nic, rh_mem = rmem_new (\<lambda>_. None) 1024\<rparr>"] split: prod.splits)
qed

text \<open>On working hardware the tests of devices and of registered memory pass.\<close>

theorem device_tests_pass:
  assumes "hardware V n ports" "0 < n" "0 < ports" "af 1024 \<noteq> None"
  shows "(\<exists>d'. test_nic_exists V d = (Inr (), d')) \<and> (\<exists>d'. test_nic_state V state_str d = (Inr (), d')) \<and>
    (\<exists>d'. test_can_reg V af flags d = (Inr (), d'))"
proof -
  obtain idxs d1 where "query_dev_names V d = (Inr (\<lparr>dev_id = 0, port_id = 1\<rparr> # idxs), d1)"
    by (rule first_device [OF assms(1-3)])
  then have "\<exists>d'. test_nic_exists V d = (Inr (), d')"
    by (simp add: test_nic_exists_def act_simps assertE_def)
  with test_nic_state_passes [OF assms(1-3)] test_can_reg_passes [where af = af, OF assms] show ?thesis
    by blast
qed

text \<open>The simulated device, with registration that refuses the null address.\<close>

definition checked_verbs :: "sim verbs" where
  "checked_verbs = sim_verbs\<lparr>v_reg_mr := (\<lambda>_ p _ _ d. (if p = None then None else Some (11, 12), d))\<rparr>"

theorem device_tests_pass_witness:
  "(\<exists>d'. test_nic_exists checked_verbs sim_start = (Inr (), d')) \<and>
   (\<exists>d'. test_nic_state checked_verbs (\<lambda>_. bstr ''PORT_DOWN'') sim_start = (Inr (), d')) \<and>
   (\<exists>d'. test_can_reg checked_verbs (\<lambda>_. Some 4096) \<lparr>protection_flags = 7\<rparr> sim_start = (Inr (), d'))"
  by (rule device_tests_pass [where n = 1 and ports = 2])
    (simp_all add: hardware_def checked_verbs_def sim_verbs_def sim_new_def)

end
