(* ===== verification/UnitTestsSpec.thy ===== *)
theory UnitTestsSpec
  imports UnitTests TwoSidedSpec
begin

text \<open>
  The unit tests pass: the small ones by evaluation, the one of batches for every list of random
  messages, and those of one-sided operations on every device that performs what it accepts.
\<close>

unbundle bit_operations_syntax

section \<open>Results, progress and marshalling\<close>

theorem small_tests_pass:
  "test_common = Inr ()" "test_progress = Inr ()" "test_marshal_basic = Inr ()" "test_marshal_dedump = Inr ()"
  by code_simp+

section \<open>Batches of messages\<close>

text \<open>Filling a batch stops with a batch of some of the messages, and the assertion about its size holds.\<close>

lemma mmsg_fill_encodes:
  assumes "encodes (mm_buf m) truth []" "mm_live m" "1024 \<le> mm_cap m" "length (mm_buf m) \<le> 1024"
    and "length truth + length msgs \<le> 8" "unat cur = length (concat truth)"
    and "length (concat truth) + length (concat msgs) < 2 ^ 32"
  shows "\<exists>m' truth'. mmsg_fill msgs cur m truth = Inr (m', truth') \<and> encodes (mm_buf m') truth' [] \<and> mm_live m' \<and>
    length (mm_buf m') \<le> 1024"
  using assms
proof (induction msgs arbitrary: m truth cur)
  case Nil
  then show ?case
    by auto
next
  case (Cons x xs)
  have len: "length (mm_buf m) = 33 + length (concat truth)"
    using encodes_length [OF Cons.prems(1)] by simp
  have cur: "unat (cur + of_nat (length x)) = length (concat truth) + length x"
    using Cons.prems(6,7) by (simp add: unat_word_ariths unat_of_nat)
  show ?case
  proof (cases "length (mm_buf m) + length x \<le> 1024")
    case True
    obtain m1 where m1: "mmsg_append 1024 m x = Inr (True, m1)" "encodes (mm_buf m1) (truth @ [x]) []"
        "mm_live m1 \<longleftrightarrow> length (mm_buf m1) \<le> mm_cap m" "mm_cap m \<le> mm_cap m1"
      using mmsg_append_room [OF Cons.prems(1,2) True] Cons.prems(5) by auto
    have "length (mm_buf m1) \<le> 1024"
      using encodes_length [OF m1(2)] len True by simp
    then show ?thesis
      using Cons.IH [OF m1(2), of "cur + of_nat (length x)"] m1 Cons.prems cur by simp
  next
    case False
    then have "mmsg_append 1024 m x = Inr (False, m)"
      by (simp add: mmsg_append_def)
    then show ?thesis
      using Cons.prems(1,2,4) False len cur by simp
  qed
qed

text \<open>Comparing what an iterator yields with the messages themselves.\<close>

lemma mmsg_compare_contents:
  assumes "iter_all num_msg mmsg_entry mm_buf it = Inr (drop (unat i) truth)" "unat i \<le> length truth" "length truth < 2 ^ 32"
    and "\<And>k. unat k < length truth \<Longrightarrow> query_one (msgs_p it) k = Inr (Some (truth ! unat k))"
  shows "mmsg_compare it i truth = Inr (of_nat (length truth))"
  using assms
proof (induction it i truth rule: mmsg_compare.induct)
  case (1 it i truth)
  show ?case
  proof (cases "iter_valid num_msg it")
    case False
    then have "unat i = length truth"
      using 1(2,3) by (simp add: iter_all.simps)
    then have "i = of_nat (length truth)"
      by (metis of_nat_unat ucast_id)
    with False show ?thesis
      by (simp add: mmsg_compare.simps)
  next
    case True
    obtain x xs where x: "iter_cur_msg num_msg mmsg_entry mm_buf it = Inr x"
        "iter_all num_msg mmsg_entry mm_buf (iter_next it) = Inr xs" "drop (unat i) truth = x # xs"
      using 1(2) True by (subst (asm) iter_all.simps) (auto simp: bindE_Inr_iff)
    have i: "unat i < length truth"
      using x(3) by (metis drop_all leI list.distinct(1))
    then have e: "x = truth ! unat i" "xs = drop (Suc (unat i)) truth"
      using x(3) by (simp_all flip: Cons_nth_drop_Suc)
    have "unat (i + 1) = Suc (unat i)"
      using i 1(4) by (simp add: unat_word_ariths)
    moreover have "msgs_p (iter_next it) = msgs_p it"
      by (simp add: iter_next_def)
    ultimately have "mmsg_compare (iter_next it) (i + 1) truth = Inr (of_nat (length truth))"
      using 1(1) True i x e 1(4,5) by simp
    then show ?thesis
      using True x(1) i e(1) 1(5) by (subst mmsg_compare.simps) simp
  qed
qed

theorem test_mmsg_passes:
  assumes "length msgs \<le> kMaxMultiMsg" and "length (concat msgs) < 2 ^ 32"
  shows "test_mmsg msgs = Inr ()"
proof -
  have "1024 \<le> mm_cap (mmsg_new 1024 1024)"
    using mmsg_new_cap [of 1024 1024] by simp
  then obtain m truth where m: "mmsg_fill msgs 0 (mmsg_new 1024 1024) [] = Inr (m, truth)"
      "encodes (mm_buf m) truth []" "length (mm_buf m) \<le> 1024"
    using mmsg_fill_encodes [OF encodes_new mmsg_new_live, of 1024 1024 msgs 0] assms encodes_length [OF encodes_new] by auto
  let ?v = "mmsg_view (mm_buf m)"
  have v: "encodes (mm_buf ?v) truth []" "mm_live ?v" "num_msg ?v = num_msg m"
    using m(2) by (simp_all add: mmsg_view_def num_msg_def mm_header_def)
  have n: "length truth \<le> 8"
    using m(2) by (simp add: encodes_def)
  have "mmsg_inv ?v"
    using v by (auto simp: mmsg_inv_def)
  then have "iter_all num_msg mmsg_entry mm_buf (iter_new ?v) = Inr truth"
    using mmsg_container.iter_all_contents contents_encodes [OF v(1,2)] by simp
  then have "mmsg_compare (iter_new ?v) 0 truth = Inr (of_nat (length truth))"
    using n query_one_encodes [OF v(1,2)] by (intro mmsg_compare_contents) (simp_all add: iter_new_def)
  then show ?thesis
    using m(1) create_from_encodes [OF m(2,3)] v(3) n by (simp add: test_mmsg_def unat_of_nat)
qed

theorem test_mmsg_passes_witness: "test_mmsg [[1, 2], [], replicate 900 7, replicate 300 8] = Inr ()"
  by (rule test_mmsg_passes) simp_all

section \<open>One-sided operations\<close>

text \<open>What a request does to the memory of a queue pair that is connected to itself.\<close>

definition exec_wr :: "wr_opcodes \<Rightarrow> send_wr \<Rightarrow> (u64 \<Rightarrow> u8) \<Rightarrow> u64 \<Rightarrow> u8" where
  "exec_wr C wr m =
     (let s = hd (wr_sges wr); n = unat (sge_length s); far = wr_remote_addr wr; old = word_at far m in
      if wr_op wr = wro_read C then mem_write (sge_addr s) (mem_read far n m) m
      else if wr_op wr = wro_write C then mem_write far (mem_read (sge_addr s) n m) m
      else if wr_op wr = wro_cas C
      then mem_write (sge_addr s) (enc_word old) (if old = wr_compare_add wr then mem_write far (enc_word (wr_swap wr)) m else m)
      else if wr_op wr = wro_faa C
      then mem_write (sge_addr s) (enc_word old) (mem_write far (enc_word (old + wr_compare_add wr)) m)
      else m)"

text \<open>
  \<open>final\<close> is the memory once every accepted request has been performed, which may be any time
  until no request is pending: only then the memory itself is known.
\<close>

definition exec_law ::
  "'d verbs \<Rightarrow> wr_opcodes \<Rightarrow> 'd memory \<Rightarrow> ptr \<Rightarrow> ('d \<Rightarrow> bool list) \<Rightarrow> ('d \<Rightarrow> u64 \<Rightarrow> u8) \<Rightarrow> bool" where
  "exec_law V C M h pend final \<longleftrightarrow>
     (\<forall>wr d. fst (v_post_send V h [wr] d) = 0 \<longrightarrow> final (snd (v_post_send V h [wr] d)) = exec_wr C wr (final d)) \<and>
     (\<forall>c n d. final (snd (v_poll_cq V c n d)) = final d) \<and> (\<forall>d. final (snd (v_now V d)) = final d) \<and>
     (\<forall>d. pend d = [] \<longrightarrow> mem_of M d = final d)"

definition op_device ::
  "'d verbs \<Rightarrow> wr_opcodes \<Rightarrow> 'd memory \<Rightarrow> ptr \<Rightarrow> ptr \<Rightarrow> ('d \<Rightarrow> bool list) \<Rightarrow> ('d \<Rightarrow> nat) \<Rightarrow> ('d \<Rightarrow> u64 \<Rightarrow> u8) \<Rightarrow> bool" where
  "op_device V C M h c pend lag final \<longleftrightarrow>
     post_law V h pend 128 \<and> poll_law V c pend lag \<and> clock_range V \<and> put_law M pend \<and> exec_law V C M h pend final \<and>
     distinct [wro_read C, wro_write C, wro_cas C, wro_faa C]"

text \<open>An idle device: nothing is pending, and the memory is \<open>m\<close>.\<close>

definition op_idle :: "'d memory \<Rightarrow> ('d \<Rightarrow> bool list) \<Rightarrow> (u64 \<Rightarrow> u8) \<Rightarrow> 'd \<Rightarrow> bool" where
  "op_idle M pend m d \<longleftrightarrow> pend d = [] \<and> mem_of M d = m"

text \<open>A signalled request that an idle device accepts has been performed once its completion has been waited for.\<close>

lemma post_and_wait:
  assumes dev: "op_device V C M h c pend lag final" and idle: "op_idle M pend m d" and q: "d_qp q = h" "d_cq q = c"
    and e: "encode_my_wr wid 1 q = (w, q1)" and fl: "wr_flags wr = v_signaled V"
  obtains d1 q' x d2 where "v_post_send V h [wr] d = (0, d1)"
    "wait_one_comp V no_timeout (q1\<lparr>d_out_signaled := d_out_signaled q1 + 1\<rparr>) d1 = Some (Ok x, q', d2)"
    "op_idle M pend (exec_wr C wr m) d2" "d_qp q' = h" "d_cq q' = c"
proof -
  have laws: "post_law V h pend 128" "poll_law V c pend lag" "clock_range V" "exec_law V C M h pend final"
    using dev by (simp_all add: op_device_def)
  then have sig: "v_signaled V \<noteq> 0"
    by (simp add: post_law_def)
  note q1 = encode_my_wr_fields [OF e]
  define q2 where "q2 = q1\<lparr>d_out_signaled := d_out_signaled q1 + 1\<rparr>"
  obtain rc d1 where post: "v_post_send V h [wr] d = (rc, d1)"
    by fastforce
  have pend: "pend d = []" and m: "m = final d"
    using idle laws(4) by (auto simp: op_idle_def exec_law_def)
  have p1: "rc = 0 \<and> pend d1 = [True]"
    using laws(1) pend post fl sig by (auto simp: post_law_def dest!: spec [of _ d] spec [of _ "[wr]"])
  have f1: "final d1 = exec_wr C wr m"
    using laws(4) p1 post m unfolding exec_law_def by (metis fst_conv snd_conv)
  obtain x d2 where w: "wait_one_comp V no_timeout q2 d1 = Some (Ok x, q2\<lparr>d_out_signaled := d_out_signaled q2 - 1\<rparr>, d2)"
      "pend d2 = retire (pend d1)"
    using wait_completes [OF laws(2,3), of q2 d1] q q1 p1 by (auto simp: q2_def)
  have "final d2 = final d1"
    by (rule wait_keeps [OF _ _ w(1)]) (use laws(4) in \<open>simp_all add: exec_law_def\<close>)
  moreover have "pend d2 = []"
    using w(2) p1 by (simp add: retire_def)
  ultimately have "op_idle M pend (exec_wr C wr m) d2"
    using laws(4) f1 by (simp add: op_idle_def exec_law_def)
  with that [OF _ w(1) [unfolded q2_def]] post p1 q q1 show thesis
    by simp
qed

text \<open>Executing an operation and waiting for it performs exactly that operation.\<close>

lemma execute_and_wait_performs:
  assumes dev: "op_device V C M h c pend lag final" and idle: "op_idle M pend m d" and q: "d_qp q = h" "d_cq q = c"
  obtains q' w d' where "execute_and_wait V C o1 q d = (Inr (q', o1\<lparr>op_id := w, op_next := None, op_flags := v_signaled V\<rparr>), d')"
    and "op_idle M pend (exec_wr C (op_view C (o1\<lparr>op_id := w, op_next := None, op_flags := v_signaled V\<rparr>)) m) d'"
    and "d_qp q' = h" "d_cq q' = c"
proof -
  have sig: "v_signaled V \<noteq> 0"
    using dev by (simp add: op_device_def post_law_def)
  obtain w q1 where e: "encode_my_wr 0 1 q = (w, q1)"
    by fastforce
  define o2 where "o2 = o1\<lparr>op_id := w, op_next := None, op_flags := v_signaled V\<rparr>"
  have fl: "wr_flags (op_view C o2) = v_signaled V"
    by (simp add: op_view_def Let_def o2_def)
  obtain d1 q' x d2 where p: "v_post_send V h [op_view C o2] d = (0, d1)"
      "wait_one_comp V no_timeout (q1\<lparr>d_out_signaled := d_out_signaled q1 + 1\<rparr>) d1 = Some (Ok x, q', d2)"
      "op_idle M pend (exec_wr C (op_view C o2) m) d2" "d_qp q' = h" "d_cq q' = c"
    by (rule post_and_wait [OF dev idle q e fl]) (rule that)
  have "op_execute V C o1 q (v_signaled V) 0 d = (Inr (Ok [], q1\<lparr>d_out_signaled := d_out_signaled q1 + 1\<rparr>, o2), d1)"
    using e encode_my_wr_fields [OF e] q p(1) sig by (simp add: op_execute_single Let_def o2_def)
  with that [of q' w d2] show thesis
    using p(2-5) by (simp add: execute_and_wait_def act_simps Ok_def o2_def)
qed

text \<open>Storing and loading the two words of the region.\<close>

lemma word_at_write:
  assumes "length bs = 8"
  shows "word_at a (mem_write a bs m) = dec_word bs" "word_at (a + 8) (mem_write a bs m) = word_at (a + 8) m"
    "word_at a (mem_write (a + 8) bs m) = word_at a m"
proof -
  show "word_at a (mem_write a bs m) = dec_word bs"
    using mem_read_write_same [of bs a m] assms by (simp add: word_at_def)
  have "8 \<le> unat (8 + of_nat j :: u64)" "8 \<le> unat (of_nat j - 8 :: u64)" if "j < 8" for j :: nat
    using that word_gap [of 0 1 j 0] by (simp_all add: unat_word_ariths unat_of_nat)
  then show "word_at (a + 8) (mem_write a bs m) = word_at (a + 8) m" "word_at a (mem_write (a + 8) bs m) = word_at a m"
    unfolding word_at_def using assms by (simp_all add: mem_read_write_other algebra_simps)
qed

lemma set_word_idle:
  assumes "op_device V C M h c pend lag final" "op_idle M pend m d" "ra_buf mr + off \<noteq> 0" "off \<le> 8"
  obtains d' where "set_word M mr off v d = (Inr (), d')" "op_idle M pend (mem_write (ra_buf mr + off) (enc_word v) m) d'"
proof -
  have "8 \<le> unat (1024 - off)"
    using assms(4) by (simp add: unat_sub word_le_nat_alt)
  with that assms show thesis
    by (simp add: set_word_def store_local_def op_device_def put_law_def op_idle_def)
qed

text \<open>What the operations of the tests do to the memory, whatever \<open>execute\<close> fills in.\<close>

definition op_does :: "wr_opcodes \<Rightarrow> op \<Rightarrow> ((u64 \<Rightarrow> u8) \<Rightarrow> u64 \<Rightarrow> u8) \<Rightarrow> bool" where
  "op_does C o1 F \<longleftrightarrow> (\<forall>w f m. exec_wr C (op_view C (o1\<lparr>op_id := w, op_next := None, op_flags := f\<rparr>)) m = F m)"

lemma test_ops:
  assumes "distinct [wro_read C, wro_write C, wro_cas C, wro_faa C]"
  shows "\<exists>o1. with_payload mr (op_set_imm 0 (op_set_read C (op_set_rdma_rbuf a k (op_new 1)))) = Inr o1 \<and>
      op_does C o1 (\<lambda>m. mem_write (ra_buf mr + 8) (mem_read a 8 m) m)"
    and "\<exists>o1. with_payload mr (op_set_fetch_add C v (op_set_atomic_rbuf a k (op_new 1))) = Inr o1 \<and>
      op_does C o1 (\<lambda>m. mem_write (ra_buf mr + 8) (enc_word (word_at a m)) (mem_write a (enc_word (word_at a m + v)) m))"
    and "\<exists>o1. with_payload mr (op_set_cas C v u (op_set_atomic_rbuf a k (op_new 1))) = Inr o1 \<and>
      op_does C o1 (\<lambda>m. mem_write (ra_buf mr + 8) (enc_word (word_at a m))
         (if word_at a m = v then mem_write a (enc_word u) m else m))"
  using assms
  by (simp_all add: op_does_def with_payload_def op_set_payload_def op_set_imm_def op_set_read_def op_set_op_def
      op_set_rdma_rbuf_def op_set_rkey_def op_set_fetch_add_def op_set_cas_def op_set_atomic_rbuf_def op_new_def op_view_def
      exec_wr_def Let_def)

lemma bind_mr_handles [simp]:
  "d_qp (bind_local_mr mr (bind_remote_mr mr q)) = d_qp q" "d_cq (bind_local_mr mr (bind_remote_mr mr q)) = d_cq q"
  by (simp_all add: bind_local_mr_def bind_remote_mr_def)

lemma assert_words_idle: "op_idle M pend m d \<Longrightarrow> assert_words M P d = (assertE (P m), d)"
  by (simp add: assert_words_def op_idle_def)

text \<open>What the fixture of the tests has set up: the device, the queue pair and the region.\<close>

definition op_fixture ::
  "'d verbs \<Rightarrow> wr_opcodes \<Rightarrow> 'd memory \<Rightarrow> ptr \<Rightarrow> ptr \<Rightarrow> ('d \<Rightarrow> bool list) \<Rightarrow> ('d \<Rightarrow> nat) \<Rightarrow> ('d \<Rightarrow> u64 \<Rightarrow> u8) \<Rightarrow>
     reg_attr \<Rightarrow> rc \<Rightarrow> bool" where
  "op_fixture V C M h c pend lag final mr q \<longleftrightarrow>
     op_device V C M h c pend lag final \<and> d_qp q = h \<and> d_cq q = c \<and> ra_buf mr \<noteq> 0 \<and> ra_buf mr + 8 \<noteq> 0"

lemma op_fixture_bound:
  "op_fixture V C M h c pend lag final mr q \<Longrightarrow>
     op_fixture V C M h c pend lag final mr (bind_local_mr mr (bind_remote_mr mr q))"
  by (simp add: op_fixture_def)

text \<open>One step of a test: storing a word, and executing an operation.\<close>

lemma fixture_set:
  assumes "op_fixture V C M h c pend lag final mr q" "op_idle M pend m d"
  obtains d1 where "set_word M mr 0 v d = (Inr (), d1)" "op_idle M pend (mem_write (ra_buf mr) (enc_word v) m) d1"
  using set_word_idle [of V C M h c pend lag final m d mr 0 v] assms by (auto simp: op_fixture_def)

lemma fixture_set_8:
  assumes "op_fixture V C M h c pend lag final mr q" "op_idle M pend m d"
  obtains d1 where "set_word M mr 8 v d = (Inr (), d1)" "op_idle M pend (mem_write (ra_buf mr + 8) (enc_word v) m) d1"
  using set_word_idle [of V C M h c pend lag final m d mr 8 v] assms by (auto simp: op_fixture_def)

lemma fixture_execute:
  assumes "op_fixture V C M h c pend lag final mr q" "op_idle M pend m d" "op_does C o1 F"
  obtains q2 o2 d2 where "execute_and_wait V C o1 q d = (Inr (q2, o2), d2)" "op_idle M pend (F m) d2"
    "op_fixture V C M h c pend lag final mr q2" "op_does C o2 F"
proof -
  obtain q' w d' where x: "execute_and_wait V C o1 q d = (Inr (q', o1\<lparr>op_id := w, op_next := None, op_flags := v_signaled V\<rparr>), d')"
      "op_idle M pend (exec_wr C (op_view C (o1\<lparr>op_id := w, op_next := None, op_flags := v_signaled V\<rparr>)) m) d'"
      "d_qp q' = h" "d_cq q' = c"
    using execute_and_wait_performs [of V C M h c pend lag final m d q o1] assms(1,2) unfolding op_fixture_def by blast
  show thesis
    using that [OF x(1)] x(2-4) assms(1,3) by (simp add: op_does_def op_fixture_def)
qed

lemma test_op_basic_result:
  assumes "op_fixture V C M h c pend lag final mr qp" "op_idle M pend m d"
  shows "\<exists>d'. test_op_basic V C M mr qp d = (assertE (word_at (ra_buf mr + 8) m \<noteq> 73), d')"
proof -
  note f = op_fixture_bound [OF assms(1)]
  let ?a = "ra_buf mr"
  obtain o1 where o1: "with_payload mr (op_set_imm 0 (op_set_read C (op_set_rdma_rbuf ?a (ra_key mr) (op_new 1)))) = Inr o1"
      "op_does C o1 (\<lambda>m. mem_write (?a + 8) (mem_read ?a 8 m) m)"
    using test_ops(1) assms(1) unfolding op_fixture_def op_device_def by blast
  obtain d1 where d1: "set_word M mr 0 73 d = (Inr (), d1)" "op_idle M pend (mem_write ?a (enc_word (73 :: u64)) m) d1"
    by (rule fixture_set [OF f assms(2)]) (rule that)
  let ?m = "mem_write ?a (enc_word (73 :: u64)) m"
  obtain q2 o2 d2 where x: "execute_and_wait V C o1 (bind_local_mr mr (bind_remote_mr mr qp)) d1 = (Inr (q2, o2), d2)"
      "op_idle M pend (mem_write (?a + 8) (mem_read ?a 8 ?m) ?m) d2"
    by (rule fixture_execute [OF f d1(2) o1(2)]) (rule that)
  have "word_at (?a + 8) (mem_write (?a + 8) (mem_read ?a 8 ?m) ?m) = word_at ?a ?m"
    by (subst word_at_write(1)) (simp_all add: word_at_def mem_read_def)
  then have a: "assert_words M (\<lambda>m. word_at (?a + 8) m = 73) d2 = (Inr (), d2)"
      "assert_words M (\<lambda>m. word_at (?a + 8) m \<noteq> 73) d1 = (assertE (word_at (?a + 8) m \<noteq> 73), d1)"
    by (simp_all add: assert_words_idle [OF x(2)] assert_words_idle [OF d1(2)] word_at_write)
  show ?thesis
    by (cases "word_at (?a + 8) m = 73")
      (use a in \<open>simp_all add: test_op_basic_def Let_def d1(1) o1(1) x(1) act_simps del: One_nat_def\<close>)
qed

lemma test_op_fetch_add_result:
  assumes "op_fixture V C M h c pend lag final mr qp" "op_idle M pend m d"
  shows "\<exists>d'. test_op_fetch_add V C M mr qp d = (Inr (), d')"
proof -
  note f = op_fixture_bound [OF assms(1)]
  let ?a = "ra_buf mr"
  let ?F = "\<lambda>m. mem_write (?a + 8) (enc_word (word_at ?a m)) (mem_write ?a (enc_word (word_at ?a m + 73)) m)"
  obtain o1 where o1: "with_payload mr (op_set_fetch_add C 73 (op_set_atomic_rbuf ?a (ra_key mr) (op_new 1))) = Inr o1"
      "op_does C o1 ?F"
    using test_ops(2) assms(1) unfolding op_fixture_def op_device_def by blast
  obtain d1 where d1: "set_word M mr 0 73 d = (Inr (), d1)" "op_idle M pend (mem_write ?a (enc_word (73 :: u64)) m) d1"
    by (rule fixture_set [OF f assms(2)]) (rule that)
  let ?m = "mem_write (?a + 8) (enc_word (0 :: u64)) (mem_write ?a (enc_word (73 :: u64)) m)"
  obtain d2 where d2: "set_word M mr 8 0 d1 = (Inr (), d2)" "op_idle M pend ?m d2"
    by (rule fixture_set_8 [OF f d1(2)]) (rule that)
  obtain q3 o3 d3 where x: "execute_and_wait V C o1 (bind_local_mr mr (bind_remote_mr mr qp)) d2 = (Inr (q3, o3), d3)"
      "op_idle M pend (?F ?m) d3"
    by (rule fixture_execute [OF f d2(2) o1(2)]) (rule that)
  have "assert_words M (\<lambda>m. 73 \<noteq> word_at (?a + 8) m) d2 = (Inr (), d2)"
      "assert_words M (\<lambda>m. word_at (?a + 8) m = 73) d3 = (Inr (), d3)"
      "assert_words M (\<lambda>m. word_at ?a m = 73 * 2) d3 = (Inr (), d3)"
    by (simp_all add: assert_words_idle [OF x(2)] assert_words_idle [OF d2(2)] word_at_write)
  then show ?thesis
    by (simp add: test_op_fetch_add_def Let_def d1(1) d2(1) o1(1) x(1) act_simps del: One_nat_def)
qed

text \<open>The first exchange of the test finds another value and fails, the second one swaps.\<close>

lemma test_op_cas_result:
  assumes "op_fixture V C M h c pend lag final mr qp" "op_idle M pend m d"
  shows "\<exists>d'. test_op_cas V C M mr qp d = (Inr (), d')"
proof -
  note f = op_fixture_bound [OF assms(1)]
  let ?a = "ra_buf mr"
  let ?F = "\<lambda>m. mem_write (?a + 8) (enc_word (word_at ?a m)) (if word_at ?a m = 73 then mem_write ?a (enc_word (24 :: u64)) m else m)"
  obtain o1 where o1: "with_payload mr (op_set_cas C 73 24 (op_set_atomic_rbuf ?a (ra_key mr) (op_new 1))) = Inr o1"
      "op_does C o1 ?F"
    using test_ops(3) assms(1) unfolding op_fixture_def op_device_def by blast
  obtain d1 where d1: "set_word M mr 0 0 d = (Inr (), d1)" "op_idle M pend (mem_write ?a (enc_word (0 :: u64)) m) d1"
    by (rule fixture_set [OF f assms(2)]) (rule that)
  let ?m = "mem_write (?a + 8) (enc_word (24 :: u64)) (mem_write ?a (enc_word (0 :: u64)) m)"
  obtain d2 where d2: "set_word M mr 8 24 d1 = (Inr (), d2)" "op_idle M pend ?m d2"
    by (rule fixture_set_8 [OF f d1(2)]) (rule that)
  obtain q3 o3 d3 where x: "execute_and_wait V C o1 (bind_local_mr mr (bind_remote_mr mr qp)) d2 = (Inr (q3, o3), d3)"
      "op_idle M pend (?F ?m) d3" "op_fixture V C M h c pend lag final mr q3" "op_does C o3 ?F"
    by (rule fixture_execute [OF f d2(2) o1(2)]) (rule that)
  let ?n = "mem_write ?a (enc_word (73 :: u64)) (?F ?m)"
  obtain d4 where d4: "set_word M mr 0 73 d3 = (Inr (), d4)" "op_idle M pend ?n d4"
    by (rule fixture_set [OF f x(2)]) (rule that)
  obtain q5 o5 d5 where y: "execute_and_wait V C o3 q3 d4 = (Inr (q5, o5), d5)" "op_idle M pend (?F ?n) d5"
    by (rule fixture_execute [OF x(3) d4(2) x(4)]) (rule that)
  have "assert_words M (\<lambda>m. word_at ?a m = 0) d3 = (Inr (), d3)"
      "assert_words M (\<lambda>m. word_at (?a + 8) m = 0) d3 = (Inr (), d3)"
      "assert_words M (\<lambda>m. word_at ?a m = 24) d5 = (Inr (), d5)"
      "assert_words M (\<lambda>m. word_at (?a + 8) m = 73) d5 = (Inr (), d5)"
    by (simp_all add: assert_words_idle [OF x(2)] assert_words_idle [OF y(2)] word_at_write)
  then show ?thesis
    by (simp add: test_op_cas_def Let_def d1(1) d2(1) d4(1) o1(1) x(1) y(1) act_simps del: One_nat_def)
qed

text \<open>A device for the witness that performs a request when it accepts it.\<close>

definition exec_verbs :: "link verbs" where
  "exec_verbs = null_verbs\<lparr>
     v_post_send := (\<lambda>_ srs d. if length (lk_wrs d) + length srs \<le> 128
        then (0, d\<lparr>lk_wrs := lk_wrs d @ srs, lk_mem := fold (exec_wr sample_ops) srs (lk_mem d)\<rparr>) else (12, d)),
     v_poll_cq := (\<lambda>_ _. link_send_poll)\<rparr>"

lemma exec_device: "op_device exec_verbs sample_ops link_memory h c link_pend (\<lambda>_. 0) lk_mem"
proof -
  have some: "dropWhile (\<lambda>wr. \<not> queue_signal wr) xs = y # ys \<Longrightarrow> \<exists>x \<in> set xs. queue_signal x" for xs y ys
    by (metis dropWhile_eq_Nil_conv list.distinct(1))
  have "post_law exec_verbs h link_pend 128"
    by (simp add: post_law_def exec_verbs_def null_verbs_def link_pend_def queue_signal_def)
  moreover have "poll_law exec_verbs c link_pend (\<lambda>_. 0)"
    unfolding poll_law_def
    by (auto simp: exec_verbs_def null_verbs_def link_send_poll_def link_pend_def retire_map split: list.splits dest: some)
  moreover have "clock_range exec_verbs"
    by (simp add: clock_range_def exec_verbs_def null_verbs_def)
  moreover have "put_law link_memory link_pend"
    by (simp add: put_law_def link_memory_def link_pend_def)
  moreover have "exec_law exec_verbs sample_ops link_memory h link_pend lk_mem"
    by (simp add: exec_law_def exec_verbs_def null_verbs_def link_memory_def link_send_poll_def split: list.splits)
  ultimately show ?thesis
    by (simp add: op_device_def sample_ops_def)
qed

end
