(* ===== verification/QPTestsSpec.thy ===== *)
theory QPTestsSpec
  imports QPTests NetTestsSpec UnitTestsSpec
begin

text \<open>
  The tests that create queue pairs pass, from their first lines, on working hardware: the
  driver's queue pairs follow the documented state machine, and its send queues perform what
  they accept.
\<close>

unbundle bit_operations_syntax

section \<open>The read of test_rc.cc\<close>

lemma test_rc_read_result:
  assumes f: "op_fixture V C M h c pend lag final mr q" and idle: "op_idle M pend m d"
    and q: "rc_status q = Ok ()" "rc_local_mr q = Some mr" "rc_remote_mr q = Some mr"
  shows "\<exists>d'. test_rc_read V C M mr q d = (assertE (word_at (ra_buf mr + 8) m \<noteq> 73), d')"
proof -
  let ?a = "ra_buf mr" and ?m = "mem_write (ra_buf mr) (enc_word (73 :: u64)) m"
  have dev: "op_device V C M h c pend lag final" and h: "d_qp q = h" "d_cq q = c" and a: "?a + 8 \<noteq> 0"
    using f by (simp_all add: op_fixture_def)
  have sig: "v_signaled V \<noteq> 0"
    using dev by (simp add: op_device_def post_law_def)
  obtain d1 where d1: "set_word M mr 0 73 d = (Inr (), d1)" "op_idle M pend ?m d1"
    by (rule fixture_set [OF f idle]) (rule that)
  obtain w q1 where e: "encode_my_wr 0 1 q = (w, q1)"
    by fastforce
  let ?wr = "\<lparr>wr_id = w, wr_op = wro_read C, wr_flags = v_signaled V, wr_imm = 0,
      wr_sges = [\<lparr>sge_addr = ?a + 8, sge_length = 8, sge_lkey = ra_lkey mr\<rparr>],
      wr_remote_addr = ?a, wr_rkey = ra_key mr, wr_compare_add = 0, wr_swap = 0\<rparr>"
  obtain d2 q2 x d3 where p: "v_post_send V h [?wr] d1 = (0, d2)"
      "wait_one_comp V no_timeout (q1\<lparr>d_out_signaled := d_out_signaled q1 + 1\<rparr>) d2 = Some (Ok x, q2, d3)"
      "op_idle M pend (exec_wr C ?wr ?m) d3"
    by (rule post_and_wait [OF dev d1(2) h e, of ?wr]) (simp, rule that)
  have send: "rc_send_default V
          \<lparr>rd_op = wro_read C, rd_flags = v_signaled V, rd_len = 8, rd_wr_id = 0\<rparr>
          \<lparr>rp_local_addr = u64_ptr (?a + 8), rp_remote_addr = 0, rp_imm_data = 0\<rparr> q d1 =
      (Inr (Ok [], q1\<lparr>d_out_signaled := d_out_signaled q1 + 1\<rparr>), d2)"
    using q e encode_my_wr_fields [OF e] h p(1) sig a
    by (simp add: rc_send_default_def rc_send_normal_def act_simps Let_def Ok_def u64_ptr_def ptr_u64_def)
  have "exec_wr C ?wr ?m = mem_write (?a + 8) (mem_read ?a 8 ?m) ?m"
    using dev by (auto simp: exec_wr_def op_device_def)
  moreover have "word_at (?a + 8) (mem_write (?a + 8) (mem_read ?a 8 ?m) ?m) = word_at ?a ?m"
    by (subst word_at_write(1)) (simp_all add: word_at_def mem_read_def)
  ultimately have asserts: "assert_words M (\<lambda>m. word_at (?a + 8) m = 73) d3 = (Inr (), d3)"
      "assert_words M (\<lambda>m. 73 \<noteq> word_at (?a + 8) m) d1 = (assertE (word_at (?a + 8) m \<noteq> 73), d1)"
    using assert_words_idle [OF p(3)] by (auto simp: assert_words_idle [OF d1(2)] word_at_write)
  show ?thesis
    by (cases "word_at (?a + 8) m = 73")
      (use asserts p(2) in \<open>simp_all add: test_rc_read_def Let_def d1(1) send act_simps Ok_def\<close>)
qed

section \<open>The set-up of the tests\<close>

text \<open>
  Opening devices, registering memory and bringing up queue pairs leave \<open>obs\<close> alone, and registering memory
  also the queue pairs.
\<close>

definition quiet_law :: "'d verbs \<Rightarrow> ('d \<Rightarrow> qp_view) \<Rightarrow> ('d \<Rightarrow> 'v) \<Rightarrow> bool" where
  "quiet_law V qps obs \<longleftrightarrow> setup_keeps V obs \<and>
     (\<forall>d. obs (snd (v_get_device_list V d)) = obs d) \<and> (\<forall>c d. obs (snd (v_open_device V c d)) = obs d) \<and>
     (\<forall>c d. obs (snd (v_close_device V c d)) = obs d) \<and> (\<forall>c d. obs (snd (v_alloc_pd V c d)) = obs d) \<and>
     (\<forall>c d. obs (snd (v_dealloc_pd V c d)) = obs d) \<and> (\<forall>c p d. obs (snd (v_query_port V c p d)) = obs d) \<and>
     (\<forall>c p i d. obs (snd (v_query_gid V c p i d)) = obs d) \<and> (\<forall>c d. obs (snd (v_query_device V c d)) = obs d) \<and>
     (\<forall>pd p sz fl d. obs (snd (v_reg_mr V pd p sz fl d)) = obs d) \<and>
     (\<forall>c n d. obs (snd (v_create_cq V c n d)) = obs d) \<and> (\<forall>pd a d. obs (snd (v_create_qp V pd a d)) = obs d) \<and>
     (\<forall>pd p sz fl d. qps (snd (v_reg_mr V pd p sz fl d)) = qps d)"

lemma keepsA_liftA [intro]: "keepsA f (liftA r)"
  by (simp add: keepsA_def liftA_def)

lemma keepsA_option [intro]: "keepsA f m \<Longrightarrow> (\<And>x. keepsA f (g x)) \<Longrightarrow> keepsA f (case x of None \<Rightarrow> m | Some y \<Rightarrow> g y)"
  by (cases x) simp_all

lemma keepsAD: "keepsA f m \<Longrightarrow> m d = (r, d') \<Longrightarrow> f d' = f d"
  unfolding keepsA_def by (metis snd_conv)

lemmas keepsA_rules = keepsA_retA keepsA_failA keepsA_liftA keepsA_bindA keepsA_pair keepsA_if keepsA_option

lemma quiet_calls:
  assumes "quiet_law V qps obs"
  shows "keepsA obs (callA (v_get_device_list V))" "keepsA obs (callA (v_open_device V c))" "keepsA obs (callA (v_close_device V c))"
    "keepsA obs (callA (v_alloc_pd V c))" "keepsA obs (callA (v_dealloc_pd V c))" "keepsA obs (callA (v_query_port V c pt))"
    "keepsA obs (callA (v_query_gid V c pt i))" "keepsA obs (callA (v_query_device V c))"
    "keepsA obs (callA (v_reg_mr V pd p sz fl))" "keepsA obs (callA (v_create_cq V c n))" "keepsA obs (callA (v_create_qp V pd at))"
    "keepsA obs (callA (v_modify_qp V h am mk))"
  using assms by (auto simp: quiet_law_def setup_keeps_def)

lemma rnic_new_keeps:
  assumes "quiet_law V qps obs"
  shows "keepsA obs (rnic_new V idx gid)"
  unfolding rnic_new_def open_device_def alloc_pd_def query_addr_def fetch_lid_def
  by (intro keepsA_rules quiet_calls [OF assms])

lemma rnic_destroy_keeps:
  assumes "quiet_law V qps obs"
  shows "keepsA obs (rnic_destroy V nic)"
  unfolding rnic_destroy_def by (intro keepsA_rules quiet_calls [OF assms])

lemma first_dev_keeps:
  assumes "quiet_law V qps obs"
  shows "keepsA obs (first_dev V)"
proof -
  have "keepsA obs (query_devs V k i res)" for k i res
  proof (induction k arbitrary: i res)
    case (Suc k)
    show ?case
      unfolding query_devs.simps
      by (intro keepsA_rules quiet_calls [OF assms] rnic_new_keeps [OF assms] rnic_destroy_keeps [OF assms] Suc)
  qed auto
  then show ?thesis
    unfolding first_dev_def query_dev_names_def by (intro keepsA_rules quiet_calls [OF assms])
qed

lemma rc_create_keeps:
  assumes "quiet_law V qps obs" "rc_create V nic config None d = (Inr (Some q), d')"
  shows "obs d' = obs d"
proof -
  have "keepsA obs (bindA (callA (v_modify_qp V h a m)) (rc_result V))" for h a m
    by (intro keepsA_rules quiet_calls [OF assms(1)] rc_result_keeps)
  then have init: "keepsA obs (bring_qp_to_init V h config nic)" for h
    by (simp add: keepsA_def bring_qp_to_init_def Let_def)
  have "keepsA obs (rc_new V nic config None)"
    unfolding rc_new_def create_cq_def create_qp_def handle_result_def Let_def
    by (intro keepsA_rules keepsA_pure quiet_calls [OF assms(1)] init)
  moreover have "rc_new V nic config None d = (Inr q, d')"
    using assms(2) by (auto simp: rc_create_def bindA_def retA_def split: prod.splits sum.splits if_splits)
  ultimately show ?thesis
    by (rule keepsAD)
qed

text \<open>What the laws of a working device give: \<open>n\<close> devices with queue pairs that come up and memory that registers.\<close>

definition rc_hardware :: "'d verbs \<Rightarrow> nat \<Rightarrow> u8 \<Rightarrow> ('d \<Rightarrow> qp_view) \<Rightarrow> ('d \<Rightarrow> 'v) \<Rightarrow> bool" where
  "rc_hardware V n ports qps obs \<longleftrightarrow>
     hardware V n ports \<and> 0 < n \<and> 0 < ports \<and> lawful V qps \<and> creates_law V \<and> quiet_law V qps obs"

lemma first_dev_first:
  assumes "rc_hardware V n ports qps obs"
  obtains d' where "first_dev V d = (Inr \<lparr>dev_id = 0, port_id = 1\<rparr>, d')" "obs d' = obs d"
proof -
  have h: "hardware V n ports" "0 < n" "0 < ports" "quiet_law V qps obs"
    using assms by (simp_all add: rc_hardware_def)
  obtain idxs d1 where "query_dev_names V d = (Inr (\<lparr>dev_id = 0, port_id = 1\<rparr> # idxs), d1)"
    by (rule first_device [OF h(1-3)])
  then have "first_dev V d = (Inr \<lparr>dev_id = 0, port_id = 1\<rparr>, d1)"
    by (simp add: first_dev_def act_simps assertE_def)
  with that keepsAD [OF first_dev_keeps [OF h(4)] this] show thesis
    by blast
qed

lemma own_qp_ready:
  assumes hw: "rc_hardware V n ports qps obs"
  obtains nic q h d' where "own_qp V d = (Inr (nic, q), d')" "obs d' = obs d" "nic_valid nic" "nic_addr nic \<noteq> None"
    "nic_lid nic \<noteq> None" "d_nic q = nic" "d_qp q = Some h" "d_cq q \<noteq> None"
    "qps d' h = Some (QPT_RC, QPS_INIT, [init_attr QPT_RC (default_config (v_access V)) nic])"
proof -
  let ?cfg = "default_config (v_access V)"
  have laws: "hardware V n ports" "0 < n" "lawful V qps" "creates_law V" "quiet_law V qps obs"
    using hw by (simp_all add: rc_hardware_def)
  obtain d1 where dev: "first_dev V d = (Inr \<lparr>dev_id = 0, port_id = 1\<rparr>, d1)" "obs d1 = obs d"
    by (rule first_dev_first [OF hw])
  obtain nic d2 where nic: "rnic_new V \<lparr>dev_id = 0, port_id = 1\<rparr> 0 d1 = (Inr nic, d2)" "nic_valid nic"
      "nic_addr nic \<noteq> None" "nic_lid nic \<noteq> None"
    using hardware_opens [OF laws(1), of "\<lparr>dev_id = 0, port_id = 1\<rparr>" 0 d1] laws(2) by auto
  obtain q d3 where q: "rc_create V nic ?cfg None d2 = (Inr (Some q), d3)"
    using rc_create_succeeds [OF laws(3,4)] by blast
  obtain h where h: "d_qp q = Some h" "d_cq q \<noteq> None" "d_nic q = nic"
      "qps d3 h = Some (QPT_RC, QPS_INIT, [init_attr QPT_RC ?cfg nic])"
    using rc_create_init [OF laws(3) q] by metis
  have "own_qp V d = (Inr (nic, q), d3)"
    using h(1,2) nic(2) by (simp add: own_qp_def open_qp_def act_simps dev(1) nic(1) q opt_value_def assertE_def dummy_valid_def)
  moreover have "obs d3 = obs d"
    using keepsAD [OF rnic_new_keeps [OF laws(5)] nic(1)] rc_create_keeps [OF laws(5) q] dev(2) by simp
  ultimately show thesis
    using that nic(2-4) h by blast
qed

lemma own_region_ready:
  assumes hw: "rc_hardware V n ports qps obs" and nic: "nic_valid nic" and p: "af 1024 = Some p"
  obtains handler mr d' where "own_region V af nic d = (Inr (handler, mr), d')" "ra_buf mr = of_nat p"
    "obs d' = obs d" "qps d' = qps d"
proof -
  have laws: "hardware V n ports" "quiet_law V qps obs"
    using hw by (simp_all add: rc_hardware_def)
  let ?fl = "default_flags (v_access V)"
  obtain ks d1 where "v_reg_mr V (nic_pd nic) (Some p) 1024 (get_value ?fl) d = (Some ks, d1)"
    using laws(1) unfolding hardware_def by (metis not_None_eq option.distinct(1) prod.collapse)
  then have new: "reg_handler_new V (rmem_new af 1024) nic ?fl d = (Inr \<lparr>rh_mr = Some ks, rh_nic = nic, rh_mem = rmem_new af 1024\<rparr>, d1)"
      and keep: "obs d1 = obs d" "qps d1 = qps d"
    using nic p laws(2) by (auto simp: reg_handler_new_def act_simps rmem_new_def quiet_law_def) (metis snd_conv)+
  obtain mr where "get_reg_attr \<lparr>rh_mr = Some ks, rh_nic = nic, rh_mem = rmem_new af 1024\<rparr> = Some mr" "ra_buf mr = of_nat p"
    using p by (cases ks) (simp add: get_reg_attr_def rmem_new_def ptr_u64_def)
  with that new keep show thesis
    using p by (simp add: own_region_def Let_def act_simps rmem_valid_def rmem_new_def assertE_def rh_valid_def opt_value_def)
qed

lemma connect_self_ready:
  assumes hw: "rc_hardware V n ports qps obs"
    and q: "qps d h = Some (QPT_RC, QPS_INIT, l)" "d_qp q = Some h" "d_cq q \<noteq> None" "nic_addr (d_nic q) \<noteq> None" "nic_lid (d_nic q) \<noteq> None"
  obtains d' where "connect_self V q d = (Inr (q\<lparr>rc_status := Ok ()\<rparr>), d')" "obs d' = obs d"
proof -
  have laws: "lawful V qps" "setup_keeps V obs"
    using hw by (simp_all add: rc_hardware_def quiet_law_def)
  obtain ad li where n: "nic_addr (d_nic q) = Some ad" "nic_lid (d_nic q) = Some li"
    using q(4,5) by blast
  obtain attr where attr: "rc_my_attr V q d = Inr attr"
    using n q(2) by (simp add: rc_my_attr_def attr_of_def)
  obtain d' where d': "rc_connect V attr q d = (Inr (Ok [], q\<lparr>rc_status := Ok ()\<rparr>), d')"
    using rc_connect_init [OF laws(1) q(1-3) n] by metis
  have "connect_self V q d = (Inr (q\<lparr>rc_status := Ok ()\<rparr>), d')"
    by (simp add: connect_self_def act_simps attr d' assertE_def Ok_def)
  with that keepsAD [OF rc_connect_keeps [OF laws(2)] d'] show thesis
    by blast
qed

lemma close_region_ends: "\<exists>d'. close_region V handler q nic d = (Inr (), d')"
proof -
  obtain d1 where "reg_handler_destroy V handler d = (Inr (), d1)"
    using reg_handler_destroy_ends [of V handler d] by blast
  moreover obtain q' d2 where "dummy_destroy V q d1 = (Inr q', d2)"
    using dummy_destroy_returns [of V q d1] by (metis prod.collapse)
  moreover obtain d3 where "rnic_destroy V nic d2 = (Inr (), d3)"
    using rnic_destroy_ends [of V nic d2] by blast
  ultimately show ?thesis
    by (simp add: close_region_def act_simps)
qed

section \<open>The tests from their first lines\<close>

text \<open>
  A device for the tests: its queue pairs come up, and the send queue of the one that a test creates in
  the state \<open>d\<close> performs what it accepts.
\<close>

definition test_device ::
  "'d verbs \<Rightarrow> wr_opcodes \<Rightarrow> 'd memory \<Rightarrow> nat \<Rightarrow> u8 \<Rightarrow> ('d \<Rightarrow> qp_view) \<Rightarrow> ('d \<Rightarrow> bool list) \<Rightarrow> ('d \<Rightarrow> nat) \<Rightarrow>
     ('d \<Rightarrow> u64 \<Rightarrow> u8) \<Rightarrow> 'd \<Rightarrow> bool" where
  "test_device V C M n ports qps pend lag final d \<longleftrightarrow>
     rc_hardware V n ports qps (\<lambda>d. (pend d, mem_of M d)) \<and>
     (\<forall>nic q d1. own_qp V d = (Inr (nic, q), d1) \<longrightarrow> op_device V C M (d_qp q) (d_cq q) pend lag final)"

lemma test_op_run_result:
  assumes dev: "test_device V C M n ports qps pend lag final d" and p: "af 1024 = Some p" "0 < p" "p + 8 < 2 ^ 64"
    and idle: "op_idle M pend m d"
    and body: "\<And>mr q h c d. ra_buf mr = of_nat p \<Longrightarrow> op_fixture V C M h c pend lag final mr q \<Longrightarrow> op_idle M pend m d \<Longrightarrow>
      \<exists>d'. body mr q d = (r, d')"
  shows "\<exists>d'. test_op_run V af body d = (r, d')"
proof -
  have hw: "rc_hardware V n ports qps (\<lambda>d. (pend d, mem_of M d))" and ops: "own_qp V d = (Inr (nic, q), d1) \<Longrightarrow> op_device V C M (d_qp q) (d_cq q) pend lag final" for nic q d1
    using dev by (simp_all add: test_device_def)
  obtain nic q h d1 where q: "own_qp V d = (Inr (nic, q), d1)" "(pend d1, mem_of M d1) = (pend d, mem_of M d)" "nic_valid nic"
      "nic_addr nic \<noteq> None" "nic_lid nic \<noteq> None" "d_nic q = nic" "d_qp q = Some h" "d_cq q \<noteq> None"
      "qps d1 h = Some (QPT_RC, QPS_INIT, [init_attr QPT_RC (default_config (v_access V)) nic])"
    by (rule own_qp_ready [OF hw])
  have addr: "nic_addr (d_nic q) \<noteq> None" "nic_lid (d_nic q) \<noteq> None"
    using q(4-6) by simp_all
  obtain d2 where c: "connect_self V q d1 = (Inr (q\<lparr>rc_status := Ok ()\<rparr>), d2)" "(pend d2, mem_of M d2) = (pend d1, mem_of M d1)"
    by (rule connect_self_ready [OF hw q(9,7,8) addr])
  obtain handler mr d3 where mr: "own_region V af nic d2 = (Inr (handler, mr), d3)" "ra_buf mr = of_nat p"
      "(pend d3, mem_of M d3) = (pend d2, mem_of M d2)"
    by (rule own_region_ready [where af = af, OF hw q(3) p(1)])
  have "(of_nat p :: u64) \<noteq> 0" "(of_nat p + 8 :: u64) \<noteq> 0"
    using p(2,3) by (simp_all add: unat_eq_zero [symmetric] unat_word_ariths unat_of_nat)
  then have "op_fixture V C M (d_qp q) (d_cq q) pend lag final mr (q\<lparr>rc_status := Ok ()\<rparr>)"
    using ops [OF q(1)] mr(2) by (simp add: op_fixture_def)
  moreover have "op_idle M pend m d3"
    using idle q(2) c(2) mr(3) by (simp add: op_idle_def)
  ultimately obtain d4 where "body mr (q\<lparr>rc_status := Ok ()\<rparr>) d3 = (r, d4)"
    using body mr(2) by blast
  moreover obtain d5 where "close_region V handler (q\<lparr>rc_status := Ok ()\<rparr>) nic d4 = (Inr (), d5)"
    using close_region_ends [of V handler "q\<lparr>rc_status := Ok ()\<rparr>" nic d4] by blast
  ultimately show ?thesis
    by (cases r) (simp_all add: test_op_run_def act_simps q(1) c(1) mr(1))
qed

lemma test_rc_basic_result:
  assumes dev: "test_device V C M n ports qps pend lag final d" and p: "af 1024 = Some p" "0 < p" "p + 8 < 2 ^ 64"
    and idle: "op_idle M pend m d"
  shows "\<exists>d'. test_rc_basic V C M af d = (assertE (word_at (of_nat p + 8) m \<noteq> 73), d')"
proof -
  have hw: "rc_hardware V n ports qps (\<lambda>d. (pend d, mem_of M d))" and ops: "own_qp V d = (Inr (nic, q), d1) \<Longrightarrow> op_device V C M (d_qp q) (d_cq q) pend lag final" for nic q d1
    using dev by (simp_all add: test_device_def)
  obtain nic q h d1 where q: "own_qp V d = (Inr (nic, q), d1)" "(pend d1, mem_of M d1) = (pend d, mem_of M d)" "nic_valid nic"
      "nic_addr nic \<noteq> None" "nic_lid nic \<noteq> None" "d_nic q = nic" "d_qp q = Some h" "d_cq q \<noteq> None"
      "qps d1 h = Some (QPT_RC, QPS_INIT, [init_attr QPT_RC (default_config (v_access V)) nic])"
    by (rule own_qp_ready [OF hw])
  obtain handler mr d2 where mr: "own_region V af nic d1 = (Inr (handler, mr), d2)" "ra_buf mr = of_nat p"
      "(pend d2, mem_of M d2) = (pend d1, mem_of M d1)" "qps d2 = qps d1"
    by (rule own_region_ready [where af = af, OF hw q(3) p(1)])
  define q1 where "q1 = bind_local_mr mr (bind_remote_mr mr q)"
  have q1: "d_qp q1 = Some h" "d_cq q1 \<noteq> None" "nic_addr (d_nic q1) \<noteq> None" "nic_lid (d_nic q1) \<noteq> None"
      "qps d2 h = Some (QPT_RC, QPS_INIT, [init_attr QPT_RC (default_config (v_access V)) nic])"
      "rc_local_mr q1 = Some mr" "rc_remote_mr q1 = Some mr"
    using q(4-9) mr(4) by (simp_all add: q1_def bind_local_mr_def bind_remote_mr_def)
  obtain d3 where c: "connect_self V q1 d2 = (Inr (q1\<lparr>rc_status := Ok ()\<rparr>), d3)" "(pend d3, mem_of M d3) = (pend d2, mem_of M d2)"
    by (rule connect_self_ready [OF hw q1(5,1-4)])
  have "(of_nat p :: u64) \<noteq> 0" "(of_nat p + 8 :: u64) \<noteq> 0"
    using p(2,3) by (simp_all add: unat_eq_zero [symmetric] unat_word_ariths unat_of_nat)
  then have "op_fixture V C M (d_qp q1) (d_cq q1) pend lag final mr (q1\<lparr>rc_status := Ok ()\<rparr>)"
    using ops [OF q(1)] mr(2) by (simp add: op_fixture_def q1_def)
  moreover have "op_idle M pend m d3"
    using idle q(2) c(2) mr(3) by (simp add: op_idle_def)
  ultimately obtain d4 where r: "test_rc_read V C M mr (q1\<lparr>rc_status := Ok ()\<rparr>) d3 = (assertE (word_at (of_nat p + 8) m \<noteq> 73), d4)"
    using test_rc_read_result [of V C M "d_qp q1" "d_cq q1" pend lag final mr "q1\<lparr>rc_status := Ok ()\<rparr>" m d3] q1(6,7) mr(2) by auto
  obtain d5 where "close_region V handler (q1\<lparr>rc_status := Ok ()\<rparr>) nic d4 = (Inr (), d5)"
    using close_region_ends [of V handler "q1\<lparr>rc_status := Ok ()\<rparr>" nic d4] by blast
  then show ?thesis
    using c(1) r
    by (cases "word_at (of_nat p + 8) m = 73") (simp_all add: test_rc_basic_def act_simps q(1) mr(1) q1_def [symmetric] assertE_def)
qed

text \<open>
  C30: the tests of one-sided operations, from their first lines. On a device whose queue pairs come
  up and that performs what it accepts, at any time before the completion, the tests of
  atomic operations pass: fetch-and-add and compare-and-swap return the old word and store
  the new one, and the operation object can be executed again. The test of reads and that of
  test_rc.cc pass except when the memory, which they do not initialise, happens to hold
  the value that they will read.
\<close>
theorem op_suite_passes:
  assumes "test_device V C M n ports qps pend lag final d" "af 1024 = Some p" "0 < p" "p + 8 < 2 ^ 64" "op_idle M pend m d"
  shows "(\<exists>d'. test_op_run V af (test_op_fetch_add V C M) d = (Inr (), d')) \<and>
    (\<exists>d'. test_op_run V af (test_op_cas V C M) d = (Inr (), d')) \<and>
    (\<exists>d'. test_op_run V af (test_op_basic V C M) d = (if word_at (of_nat p + 8) m = 73 then Inl Aborted else Inr (), d')) \<and>
    (\<exists>d'. test_rc_basic V C M af d = (if word_at (of_nat p + 8) m = 73 then Inl Aborted else Inr (), d'))"
proof -
  note run = test_op_run_result [where af = af, OF assms]
  have "\<exists>d'. test_op_run V af (test_op_fetch_add V C M) d = (Inr (), d')"
    by (rule run) (rule test_op_fetch_add_result)
  moreover have "\<exists>d'. test_op_run V af (test_op_cas V C M) d = (Inr (), d')"
    by (rule run) (rule test_op_cas_result)
  moreover have "\<exists>d'. test_op_run V af (test_op_basic V C M) d = (assertE (word_at (of_nat p + 8) m \<noteq> 73), d')"
    by (rule run) (metis test_op_basic_result)
  moreover have "\<exists>d'. test_rc_basic V C M af d = (assertE (word_at (of_nat p + 8) m \<noteq> 73), d')"
    by (rule test_rc_basic_result [where af = af, OF assms])
  ultimately show ?thesis
    by (auto simp: assertE_def)
qed

text \<open>A simulated device next to a send queue that performs a request when it accepts it.\<close>

definition on_fst :: "('a \<Rightarrow> 'r \<times> 'a) \<Rightarrow> 'a \<times> 'b \<Rightarrow> 'r \<times> 'a \<times> 'b" where
  "on_fst f s = (case f (fst s) of (r, a) \<Rightarrow> (r, a, snd s))"

definition on_snd :: "('b \<Rightarrow> 'r \<times> 'b) \<Rightarrow> 'a \<times> 'b \<Rightarrow> 'r \<times> 'a \<times> 'b" where
  "on_snd f s = (case f (snd s) of (r, b) \<Rightarrow> (r, fst s, b))"

lemma on_state [simp]:
  "fst (on_fst f s) = fst (f (fst s))" "snd (on_fst f s) = (snd (f (fst s)), snd s)"
  "fst (on_snd g s) = fst (g (snd s))" "snd (on_snd g s) = (fst s, snd (g (snd s)))"
  by (simp_all add: on_fst_def on_snd_def split: prod.splits)

definition setup_verbs :: "(sim \<times> 'b) verbs" where
  "setup_verbs = null_verbs\<lparr>
     v_get_device_list := on_fst (v_get_device_list checked_verbs), v_open_device := (\<lambda>c. on_fst (v_open_device checked_verbs c)),
     v_alloc_pd := (\<lambda>c. on_fst (v_alloc_pd checked_verbs c)), v_query_gid := (\<lambda>c p i. on_fst (v_query_gid checked_verbs c p i)),
     v_query_port := (\<lambda>c p. on_fst (v_query_port checked_verbs c p)), v_query_device := (\<lambda>c. on_fst (v_query_device checked_verbs c)),
     v_reg_mr := (\<lambda>pd p sz fl. on_fst (v_reg_mr checked_verbs pd p sz fl)), v_create_cq := (\<lambda>c n. on_fst (v_create_cq checked_verbs c n)),
     v_create_qp := (\<lambda>pd a. on_fst (v_create_qp checked_verbs pd a)), v_qp_type := (\<lambda>d. v_qp_type checked_verbs (fst d)),
     v_modify_qp := (\<lambda>h a m. on_fst (v_modify_qp checked_verbs h a m)),
     v_query_qp_state := (\<lambda>h. on_fst (v_query_qp_state checked_verbs h)), v_create_ah := (\<lambda>pd a. on_fst (v_create_ah checked_verbs pd a))\<rparr>"

definition rig_verbs :: "(sim \<times> link) verbs" where
  "rig_verbs = setup_verbs\<lparr>
     v_post_send := (\<lambda>h srs. on_snd (v_post_send exec_verbs h srs)), v_poll_cq := (\<lambda>c n. on_snd (v_poll_cq exec_verbs c n))\<rparr>"

definition rig_memory :: "(sim \<times> link) memory" where
  "rig_memory = \<lparr>mem_of = (\<lambda>d. lk_mem (snd d)), mem_put = (\<lambda>a bs d. (fst d, mem_put link_memory a bs (snd d)))\<rparr>"

lemma rig_ops: "op_device rig_verbs sample_ops rig_memory h c (\<lambda>d. link_pend (snd d)) (\<lambda>_. 0) (\<lambda>d. lk_mem (snd d))"
proof -
  have dev: "post_law exec_verbs h link_pend 128" "poll_law exec_verbs c link_pend (\<lambda>_. 0)" "put_law link_memory link_pend"
      "exec_law exec_verbs sample_ops link_memory h link_pend lk_mem" "distinct [wro_read sample_ops, wro_write sample_ops, wro_cas sample_ops, wro_faa sample_ops]"
    using exec_device [of h c] by (simp_all add: op_device_def)
  have v: "v_post_send rig_verbs = (\<lambda>h srs. on_snd (v_post_send exec_verbs h srs))" "v_signaled rig_verbs = v_signaled exec_verbs"
      "v_poll_cq rig_verbs = (\<lambda>c n. on_snd (v_poll_cq exec_verbs c n))" "v_now rig_verbs = (\<lambda>d. (0, d))"
    by (simp_all add: rig_verbs_def setup_verbs_def exec_verbs_def null_verbs_def)
  have "post_law rig_verbs h (\<lambda>d. link_pend (snd d)) 128"
    using dev(1) by (simp add: post_law_def v)
  moreover have "poll_law rig_verbs c (\<lambda>d. link_pend (snd d)) (\<lambda>_. 0)"
    using dev(2) unfolding poll_law_def v by (auto simp del: One_nat_def split: if_splits)
  moreover have "clock_range rig_verbs"
    by (simp add: clock_range_def v)
  moreover have "put_law rig_memory (\<lambda>d. link_pend (snd d))"
    using dev(3) by (simp add: put_law_def rig_memory_def link_memory_def)
  moreover have "exec_law rig_verbs sample_ops rig_memory h (\<lambda>d. link_pend (snd d)) (\<lambda>d. lk_mem (snd d))"
    using dev(4) by (simp add: exec_law_def v rig_memory_def)
  ultimately show ?thesis
    using dev(5) by (simp add: op_device_def)
qed

lemma setup_hardware:
  "rc_hardware (setup_verbs\<lparr>v_post_send := f, v_post_recv := g, v_poll_cq := p\<rparr>) 1 2 (\<lambda>d. map_of (sim_qps (fst d))) (\<lambda>d. obs (snd d))"
proof -
  let ?V = "setup_verbs\<lparr>v_post_send := f, v_post_recv := g, v_poll_cq := p\<rparr>"
  have "hardware ?V 1 2"
    by (simp add: hardware_def setup_verbs_def checked_verbs_def sim_verbs_def sim_new_def)
  moreover have "lawful ?V (\<lambda>d. map_of (sim_qps (fst d)))"
    using sim_lawful
    by (simp add: lawful_def cq_law_def qp_law_def modify_law_def query_law_def setup_verbs_def checked_verbs_def)
  moreover have "creates_law ?V"
    using sim_creates(1) by (simp add: creates_law_def setup_verbs_def checked_verbs_def)
  moreover have "quiet_law ?V (\<lambda>d. map_of (sim_qps (fst d))) (\<lambda>d. obs (snd d))"
    by (simp add: quiet_law_def setup_keeps_def setup_verbs_def checked_verbs_def null_verbs_def)
  ultimately show ?thesis
    by (simp add: rc_hardware_def)
qed

lemma rig_hardware:
  "rc_hardware rig_verbs 1 2 (\<lambda>d. map_of (sim_qps (fst d))) (\<lambda>d. (link_pend (snd d), lk_mem (snd d)))"
proof -
  have e: "rig_verbs = setup_verbs\<lparr>v_post_send := \<lambda>h srs. on_snd (v_post_send exec_verbs h srs), v_post_recv := v_post_recv setup_verbs,
      v_poll_cq := \<lambda>c n. on_snd (v_poll_cq exec_verbs c n)\<rparr>"
    by (simp add: rig_verbs_def)
  show ?thesis
    unfolding e by (rule setup_hardware [where obs = "\<lambda>d. (link_pend d, lk_mem d)"])
qed

theorem op_suite_passes_witness:
  "(\<exists>d'. test_op_run rig_verbs (\<lambda>_. Some 4096) (test_op_fetch_add rig_verbs sample_ops rig_memory) (sim_start, link_start) = (Inr (), d')) \<and>
   (\<exists>d'. test_rc_basic rig_verbs sample_ops rig_memory (\<lambda>_. Some 4096) (sim_start, link_start) = (Inr (), d'))"
proof -
  have dev: "test_device rig_verbs sample_ops rig_memory 1 2 (\<lambda>d. map_of (sim_qps (fst d))) (\<lambda>d. link_pend (snd d)) (\<lambda>_. 0)
      (\<lambda>d. lk_mem (snd d)) (sim_start, link_start)"
    using rig_ops rig_hardware by (simp add: test_device_def rig_memory_def)
  have c: "(\<lambda>_. Some 4096 :: ptr) (1024 :: u64) = Some 4096" "(0 :: nat) < 4096" "(4096 :: nat) + 8 < 2 ^ 64"
      "op_idle rig_memory (\<lambda>d. link_pend (snd d)) (\<lambda>_. 0) (sim_start, link_start)"
    by (simp_all add: op_idle_def rig_memory_def link_pend_def link_start_def)
  have "word_at (of_nat 4096 + 8) (\<lambda>_. 0) \<noteq> 73"
    unfolding word_at_def mem_read_def by code_simp
  with op_suite_passes [where af = "\<lambda>_. Some 4096", OF dev c] show ?thesis
    by simp
qed

section \<open>The tests of the registries\<close>

text \<open>
  On such a device the tests of the factories pass: a name is registered once, and what is created and
  registered is valid.
\<close>
theorem factory_tests_pass:
  assumes hw: "rc_hardware V n ports qps obs" and keys: "keys_law rnd" and mem: "af 1024 = Some p"
  shows "(\<exists>d'. test_rc_factory rnd r V d = (Inr (), d')) \<and> (\<exists>d'. test_mem_factory rnd r V af flags d = (Inr (), d'))"
proof
  have laws: "hardware V n ports" "0 < n" "lawful V qps" "creates_law V"
    using hw by (simp_all add: rc_hardware_def)
  obtain d1 where dev: "first_dev V d = (Inr \<lparr>dev_id = 0, port_id = 1\<rparr>, d1)"
    by (rule first_dev_first [OF hw])
  obtain nic d2 where nic: "rnic_new V \<lparr>dev_id = 0, port_id = 1\<rparr> 0 d1 = (Inr nic, d2)" "nic_valid nic"
    using hardware_opens [OF laws(1), of "\<lparr>dev_id = 0, port_id = 1\<rparr>" 0 d1] laws(2) by auto
  have destroy: "\<exists>d'. rnic_destroy V nic d = (Inr (), d')" for d
    by (rule rnic_destroy_ends)
  obtain k1 r1 k2 r2 where keys: "generate_key rnd r = Some (k1, r1)" "generate_key rnd r1 = Some (k2, r2)"
    using keys unfolding keys_law_def by (metis not_None_eq prod.collapse)
  show "\<exists>d'. test_rc_factory rnd r V d = (Inr (), d')"
  proof -
    have create: "rnic_create V \<lparr>dev_id = 0, port_id = 1\<rparr> 0 d1 = (Inr (Some nic), d2)"
      by (simp add: rnic_create_def act_simps nic)
    obtain q d3 where q: "rc_create V nic (default_config (v_access V)) None d2 = (Inr (Some q), d3)"
      using rc_create_succeeds [OF laws(3,4)] by blast
    then have "dummy_valid q"
      by (auto simp: rc_create_def bindA_def retA_def split: prod.splits sum.splits if_splits)
    moreover obtain q' d4 where "dummy_destroy V q d3 = (Inr q', d4)"
      using dummy_destroy_returns [of V q d3] by (metis prod.collapse)
    ultimately show ?thesis
      using destroy by (simp add: test_rc_factory_def act_simps dev create q create_then_reg_def reg_def keys factory_empty_def
          bindE_def assertE_def opt_value_def)
  qed
  show "\<exists>d'. test_mem_factory rnd r V af flags d = (Inr (), d')"
  proof -
    have same: "rmem_new af 1024 = rmem_new (\<lambda>_. Some p) 1024"
      by (simp add: rmem_new_def mem)
    let ?h = "\<lambda>ks. \<lparr>rh_mr = Some ks, rh_nic = nic, rh_mem = rmem_new af 1024\<rparr>"
    obtain ks d3 where ks: "reg_handler_new V (rmem_new af 1024) nic flags d2 = (Inr (?h ks), d3)"
      using hardware_registers(1) [OF laws(1) nic(2), of "Some p" 1024 flags d2] unfolding same by blast
    obtain ks' d4 where "reg_handler_new V (rmem_new af 1024) nic flags d3 = (Inr (?h ks'), d4)"
      using hardware_registers(1) [OF laws(1) nic(2), of "Some p" 1024 flags d3] unfolding same by blast
    then have ks': "reg_handler_create V (rmem_new af 1024) nic flags d3 = (Inr (Some (?h ks')), d4)"
      by (simp add: reg_handler_create_def act_simps rh_valid_def)
    obtain d5 where d5: "reg_handler_destroy V (?h ks') d4 = (Inr (), d5)"
      using reg_handler_destroy_ends [of V "?h ks'" d4] by blast
    obtain d6 where d6: "reg_handler_destroy V (?h ks) d5 = (Inr (), d6)"
      using reg_handler_destroy_ends [of V "?h ks" d5] by blast
    have "\<not> rmem_valid (rmem_new (\<lambda>_. None) 1024)"
      by (simp add: rmem_valid_def rmem_new_def)
    then show ?thesis
      using destroy by (simp add: test_mem_factory_def act_simps dev nic(1) ks ks' d5 d6 create_then_reg_def reg_def keys factory_empty_def
          bindE_def assertE_def opt_value_def rh_valid_def)
  qed
qed

theorem factory_tests_pass_witness:
  "\<exists>d'. test_rc_factory sample_rnd 1 rig_verbs (sim_start, link_start) = (Inr (), d')"
  using factory_tests_pass [where af = "\<lambda>_. Some 4096", OF rig_hardware sample_keys refl] by blast

section \<open>test_cm.cc\<close>

text \<open>A client that waits for the daemon and then makes one more call.\<close>

lemma wait_and_call:
  fixes S :: "'a srpc" and f :: "('a cm, 'y) act"
  assumes client: "fd_valid (sc_fd (sp_chan S))" "send_fails n = []"
    and server: "idle H" "map_of (hd_fac H) HeartBeat = Some heartbeat_handler"
    and call: "\<And>H1. idle H1 \<Longrightarrow> hd_fac H1 = hd_fac H \<Longrightarrow> \<exists>d e H2. one_exchange H1 s a d e H2 s \<and>
      (\<forall>n es. send_fails n = [] \<longrightarrow> fst (f \<lparr>cm_rpc = S, cm_net = with_answer n [] b e es\<rparr>) = Inr y)"
  obtains ps H' where "exchanges H s a ps H' s" "length ps = 2"
    "fst (bindA (wait_server 2) (\<lambda>_. f) \<lparr>cm_rpc = S, cm_net = with_replies n b ps es\<rparr>) = Inr y"
proof -
  obtain x1 y1 H1 where x1: "one_exchange H s a x1 y1 H1 s"
      "\<forall>n es k. \<forall>c :: 'a cm. send_fails n = [] \<longrightarrow> cm_rpc c = S \<longrightarrow> cm_net c = with_answer n [] b y1 es \<longrightarrow>
         wait_ready (Suc k) c = (Inr (Ok []), c\<lparr>cm_net := after_call S n x1 es\<rparr>)"
    using heartbeat_exchange [OF client(1) server, of s a b] by blast
  then have "idle H1" "hd_fac H1 = hd_fac H"
    by (simp_all add: one_exchange_def)
  then obtain x2 y2 H2 where x2: "one_exchange H1 s a x2 y2 H2 s"
      "\<forall>n es. send_fails n = [] \<longrightarrow> fst (f \<lparr>cm_rpc = S, cm_net = with_answer n [] b y2 es\<rparr>) = Inr y"
    using call by blast
  let ?n1 = "n\<lparr>outbox := outbox n @ [(sc_end (sp_chan S), x1)]\<rparr>"
  have "wait_ready 2 \<lparr>cm_rpc = S, cm_net = with_replies n b [(x1, y1), (x2, y2)] es\<rparr> =
      (Inr (Ok []), \<lparr>cm_rpc = S, cm_net = with_answer ?n1 [] b y2 es\<rparr>)"
    using x1(2) [rule_format, OF client(2), of "\<lparr>cm_rpc = S, cm_net = with_replies n b [(x1, y1), (x2, y2)] es\<rparr>" "SelData b y2 # es" 1]
    by (simp add: with_replies_def with_answer_def after_call_def numeral_2_eq_2)
  then have "fst (bindA (wait_server 2) (\<lambda>_. f) \<lparr>cm_rpc = S, cm_net = with_replies n b [(x1, y1), (x2, y2)] es\<rparr>) = Inr y"
    using x2(2) [rule_format, of ?n1 es] client(2) by (simp add: wait_server_def act_simps assertE_def Ok_def)
  moreover have "exchanges H s a [(x1, y1), (x2, y2)] H2 s"
    using x1(1) x2(1) by auto
  ultimately show thesis
    using that by force
qed

lemma cm_mr_check_passes:
  fixes S :: "'a srpc"
  assumes "fd_valid (sc_fd (sp_chan S))" "send_fails n = []"
    and "idle H" "map_of (hd_fac H) HeartBeat = Some heartbeat_handler" "map_of (hd_fac H) FetchMr = Some fetch_mr_handler"
    and "query (registered_mrs s) 73 = Some mr" "get_reg_attr mr = Some attr"
  obtains ps H' where "exchanges H s a ps H' s" "length ps = 2"
    "fst (cm_mr_check mr \<lparr>cm_rpc = S, cm_net = with_replies n b ps es\<rparr>) = Inr ()"
proof -
  let ?f = "bindA (remote_region 73) (\<lambda>attr.
     bindA (liftA (opt_value (get_reg_attr mr))) (\<lambda>local_mr.
       liftA (assertE (ra_buf local_mr = ra_buf attr \<and> ra_sz local_mr = ra_sz attr \<and> ra_key local_mr = ra_key attr)))) :: ('a cm, unit) act"
  have call: "\<exists>d e H2. one_exchange H1 s a d e H2 s \<and>
      (\<forall>n es. send_fails n = [] \<longrightarrow> fst (?f \<lparr>cm_rpc = S, cm_net = with_answer n [] b e es\<rparr>) = Inr ())"
    if H1: "idle H1" "hd_fac H1 = hd_fac H" for H1
  proof -
    have fac: "map_of (hd_fac H1) FetchMr = Some fetch_mr_handler" and hb: "\<forall>h \<in> set []. heartbeat_packet (snd (h :: 'a \<times> bytes))"
      using H1(2) assms(5) by simp_all
    obtain x y H2 where x: "one_exchange H1 s a x y H2 s"
        "\<forall>n es. \<forall>c :: 'a cm. send_fails n = [] \<longrightarrow> cm_rpc c = S \<longrightarrow> cm_net c = with_answer n [] b y es \<longrightarrow>
           fetch_remote_mr 73 c = (Inr (Ok ([], attr)), c\<lparr>cm_rpc := next_ck S, cm_net := after_call S n x es\<rparr>)"
      using fetch_mr_exchange [OF assms(1) H1(1) fac assms(6,7) hb, of a b] by blast
    then show ?thesis
      using assms(7) by (intro exI [of _ x] exI [of _ y] exI [of _ H2])
        (simp add: remote_region_def expect_ok_def act_simps assertE_def Ok_def opt_value_def)
  qed
  show thesis
    by (rule wait_and_call [where b = b and es = es, OF assms(1-4) call]) (use that in \<open>simp_all add: cm_mr_check_def\<close>)
qed

lemma cm_qp_check_passes:
  fixes S :: "'a srpc"
  assumes "fd_valid (sc_fd (sp_chan S))" "send_fails n = []"
    and "idle H" "map_of (hd_fac H) HeartBeat = Some heartbeat_handler" "map_of (hd_fac H) FetchQPAttr = Some (fetch_qp_attr_wrapper V)"
    and "query (registered_qps s) test_ud_name = Some i" "i < length (qp_heap s)"
      "any_my_attr V (ho_qp (qp_heap s ! i)) (rt_drv s) = Inr attr" "q_qkey attr = 73"
  obtains ps H' where "exchanges H s a ps H' s" "length ps = 2"
    "fst (cm_qp_check attr \<lparr>cm_rpc = S, cm_net = with_replies n b ps es\<rparr>) = Inr ()"
proof -
  let ?f = "bindA (cm_fetch_qp_attr test_ud_name) (\<lambda>res.
     bindA (expect_ok res) (\<lambda>(_, fetched_attr).
       liftA (assertE (q_lid attr = q_lid fetched_attr \<and> q_psn attr = q_psn fetched_attr \<and>
         q_port_id attr = q_port_id fetched_attr \<and> q_qpn attr = q_qpn fetched_attr \<and>
         q_qkey attr = q_qkey fetched_attr \<and> q_qkey fetched_attr = 73)))) :: ('a cm, unit) act"
  have nm: "length test_ud_name \<le> kMaxQPNameLen" "0 \<notin> set test_ud_name"
    by (simp_all add: test_ud_name_def bstr_def kMaxQPNameLen_def)
  have call: "\<exists>d e H2. one_exchange H1 s a d e H2 s \<and>
      (\<forall>n es. send_fails n = [] \<longrightarrow> fst (?f \<lparr>cm_rpc = S, cm_net = with_answer n [] b e es\<rparr>) = Inr ())"
    if H1: "idle H1" "hd_fac H1 = hd_fac H" for H1
  proof -
    have fac: "map_of (hd_fac H1) FetchQPAttr = Some (fetch_qp_attr_wrapper V)"
      and hb: "\<forall>h \<in> set []. heartbeat_packet (snd (h :: 'a \<times> bytes))"
      using H1(2) assms(5) by simp_all
    obtain x y H2 where x: "one_exchange H1 s a x y H2 s"
        "\<forall>n es. \<forall>c :: 'a cm. send_fails n = [] \<longrightarrow> cm_rpc c = S \<longrightarrow> cm_net c = with_answer n [] b y es \<longrightarrow>
           cm_fetch_qp_attr test_ud_name c = (Inr (Ok ([], attr)), c\<lparr>cm_rpc := next_ck S, cm_net := after_call S n x es\<rparr>)"
      using fetch_qp_exchange [OF assms(1) nm H1(1) fac assms(6-8) hb, of a b] by blast
    then show ?thesis
      using assms(9) by (intro exI [of _ x] exI [of _ y] exI [of _ H2]) (simp add: expect_ok_def act_simps assertE_def Ok_def)
  qed
  show thesis
    by (rule wait_and_call [where b = b and es = es, OF assms(1-4) call]) (use that in \<open>simp_all add: cm_qp_check_def\<close>)
qed

text \<open>What the two tests have set up when their clients start.\<close>

lemma cm_mr_setup_run:
  assumes hw: "rc_hardware V n ports qps obs" and keys: "keys_law rnd" and mem: "af 1024 = Some p" and s: "sv_ctrl s = rctrl_blank r d"
  obtains mr attr s1 where "cm_mr_setup rnd V af True s = (Inr mr, s1)" "query (registered_mrs (sv_ctrl s1)) 73 = Some mr"
    "get_reg_attr mr = Some attr" "end_daemon s1 = Inr ()"
proof -
  have laws: "hardware V n ports" "0 < n"
    using hw by (simp_all add: rc_hardware_def)
  obtain d1 where dev: "first_dev V d = (Inr \<lparr>dev_id = 0, port_id = 1\<rparr>, d1)"
    by (rule first_dev_first [OF hw])
  obtain nic d2 where nic: "rnic_new V \<lparr>dev_id = 0, port_id = 1\<rparr> 0 d1 = (Inr nic, d2)" "nic_valid nic"
    using hardware_opens [OF laws(1), of "\<lparr>dev_id = 0, port_id = 1\<rparr>" 0 d1] laws(2) by auto
  have same: "rmem_new af 1024 = rmem_new (\<lambda>_. Some p) 1024"
    by (simp add: rmem_new_def mem)
  obtain ks d3 where mr: "reg_handler_new V (rmem_new af 1024) nic (default_flags (v_access V)) d2 =
      (Inr \<lparr>rh_mr = Some ks, rh_nic = nic, rh_mem = rmem_new af 1024\<rparr>, d3)"
    using hardware_registers(1) [OF laws(1) nic(2), of "Some p" 1024 "default_flags (v_access V)" d2] unfolding same by blast
  obtain k1 r1 where "generate_key rnd r = Some (k1, r1)"
    using keys unfolding keys_law_def by (metis not_None_eq prod.collapse)
  then have "\<exists>s1. cm_mr_setup rnd V af True s = (Inr \<lparr>rh_mr = Some ks, rh_nic = nic, rh_mem = rmem_new af 1024\<rparr>, s1) \<and>
      query (registered_mrs (sv_ctrl s1)) 73 = Some \<lparr>rh_mr = Some ks, rh_nic = nic, rh_mem = rmem_new af 1024\<rparr> \<and> end_daemon s1 = Inr ()"
    using s by (simp add: cm_mr_setup_def launch_def on_ctrl_def drvA_def act_simps bindA_def dev nic(1) mr offer_region_def reg_def rctrl_blank_def
        factory_empty_def query_def end_daemon_def stop_daemon_def start_daemon_def)
  moreover obtain attr where "get_reg_attr \<lparr>rh_mr = Some ks, rh_nic = nic, rh_mem = rmem_new af 1024\<rparr> = Some attr"
    using mem by (cases ks) (simp add: get_reg_attr_def rmem_new_def)
  ultimately show thesis
    using that by blast
qed

lemma ud_create_succeeds:
  assumes "lawful V qps" "creates_law V"
  obtains q h c sc d' where "ud_create V nic config d = (Inr (Some q), d')" "d_qp q = Some h" "d_nic q = nic" "ud_config q = config"
    "d_recv_cq q = Some c" "d_cq q = Some sc"
proof -
  obtain c d1 where c: "v_create_cq V (nic_ctx nic) (max_send_sz config) d = (Some c, d1)"
    using assms(2) unfolding creates_law_def by (metis not_None_eq prod.collapse)
  obtain rcq d2 where rcq: "v_create_cq V (nic_ctx nic) (max_recv_sz config) d1 = (Some rcq, d2)"
    using assms(2) unfolding creates_law_def by (metis not_None_eq prod.collapse)
  obtain h d3 where h: "v_create_qp V (nic_pd nic) (qp_request QPT_UD config (Some c) (Some rcq)) d2 = (Some h, d3)"
    using assms(2) unfolding creates_law_def by (metis not_None_eq prod.collapse)
  have "qps d3 h = Some (QPT_UD, QPS_RESET, [])"
    using lawful_qp [OF assms(1), of "nic_pd nic" "qp_request QPT_UD config (Some c) (Some rcq)" d2 h] h
    by (simp add: qp_request_def)
  then obtain d4 where d4: "bring_qp_to_init V (Some h) config nic d3 = (Inr (Ok []), d4)"
      "qps d4 h = Some (QPT_UD, QPS_INIT, [init_attr QPT_UD config nic])"
    using lawful_init [OF assms(1)] by (metis fun_upd_same)
  obtain d5 d6 where "bring_ud_to_recv V (Some h) d4 = (Inr True, d5)" "bring_ud_to_send V (Some h) (c_rq_psn config) d5 = (Inr True, d6)"
    using ud_bring [OF assms(1) d4(2)] by blast
  then have "ud_create V nic config d = (Inr (Some ((ud_blank nic config)\<lparr>d_cq := Some c, d_recv_cq := Some rcq, d_qp := Some h\<rparr>)), d6)"
    using ud_new_apply [OF c rcq h d4(1)] by (simp add: ud_create_def act_simps dummy_valid_def)
  with that show thesis
    by (simp add: ud_blank_def)
qed

lemma cm_qp_setup_run:
  assumes hw: "rc_hardware V n ports qps obs" and keys: "keys_law rnd" and s: "sv_ctrl s = rctrl_blank r d"
  obtains attr s1 i where "cm_qp_setup rnd V True s = (Inr attr, s1)" "query (registered_qps (sv_ctrl s1)) test_ud_name = Some i"
    "i < length (qp_heap (sv_ctrl s1))" "any_my_attr V (ho_qp (qp_heap (sv_ctrl s1) ! i)) (rt_drv (sv_ctrl s1)) = Inr attr"
    "q_qkey attr = 73" "end_daemon s1 = Inr ()"
proof -
  have laws: "hardware V n ports" "0 < n" "lawful V qps" "creates_law V"
    using hw by (simp_all add: rc_hardware_def)
  let ?cfg = "set_qkey 73 (default_config (v_access V))"
  obtain d1 where dev: "first_dev V d = (Inr \<lparr>dev_id = 0, port_id = 1\<rparr>, d1)"
    by (rule first_dev_first [OF hw])
  obtain nic d2 where nic: "rnic_new V \<lparr>dev_id = 0, port_id = 1\<rparr> 0 d1 = (Inr nic, d2)" "nic_valid nic" "nic_addr nic \<noteq> None"
      "nic_lid nic \<noteq> None"
    using hardware_opens [OF laws(1), of "\<lparr>dev_id = 0, port_id = 1\<rparr>" 0 d1] laws(2) by auto
  then have create: "rnic_create V \<lparr>dev_id = 0, port_id = 1\<rparr> 0 d1 = (Inr (Some nic), d2)"
    by (simp add: rnic_create_def act_simps)
  obtain q h d3 where q: "ud_create V nic ?cfg d2 = (Inr (Some q), d3)" "d_qp q = Some h" "d_nic q = nic" "ud_config q = ?cfg"
    by (rule ud_create_succeeds [OF laws(3,4)])
  obtain attr where attr: "ud_my_attr V q d3 = Inr attr" "q_qkey attr = 73"
    using nic(3,4) q(2-4) by (auto simp: ud_my_attr_def attr_of_def opt_value_def set_qkey_def)
  obtain k1 r1 where "generate_key rnd r = Some (k1, r1)"
    using keys unfolding keys_law_def by (metis not_None_eq prod.collapse)
  then have "\<exists>s1. cm_qp_setup rnd V True s = (Inr attr, s1) \<and> query (registered_qps (sv_ctrl s1)) test_ud_name = Some 0 \<and>
      qp_heap (sv_ctrl s1) = [\<lparr>ho_qp = Q_UD q, ho_held = True\<rparr>] \<and> rt_drv (sv_ctrl s1) = d3 \<and> end_daemon s1 = Inr ()"
    using s attr(1) by (simp add: cm_qp_setup_def launch_def on_ctrl_def drvA_def act_simps bindA_def dev create q(1) register_test_qp_def reg_qp_def
        reg_def rctrl_blank_def factory_empty_def query_def opt_value_def end_daemon_def stop_daemon_def start_daemon_def)
  then show thesis
    using that attr by auto
qed

text \<open>
  Both tests of test_cm.cc, daemon and client, over a network that delivers the answers of the daemon to the client's two calls:
  what the client fetches is what the test holds.
\<close>
theorem cm_tests_pass:
  assumes hw: "rc_hardware V n ports qps obs" and keys: "keys_law rnd" and mem: "af 1024 = Some p" and s: "sv_ctrl s = rctrl_blank r d"
    and daemons: "rctrl_new rnd V L2 8889 = Inr H1" "rctrl_new rnd V L2 6666 = Inr H2"
    and clients: "srpc_new L now (bstr ''localhost:8889'') (h_cache h) = (Inr S1, c1)"
      "srpc_new L now (bstr ''localhost:6666'') (h_cache h) = (Inr S2, c2)" "send_fails (h_net h) = []"
  shows "\<exists>s1 ps H'. snd (cm_mr_setup rnd V af True s) = s1 \<and> exchanges H1 (sv_ctrl s1) a ps H' (sv_ctrl s1) \<and> length ps = 2 \<and>
      test_cm_mr rnd V L af True now (h\<lparr>h_net := with_replies (h_net h) b ps []\<rparr>) s = Inr ()"
    and "\<exists>s1 ps H'. snd (cm_qp_setup rnd V True s) = s1 \<and> exchanges H2 (sv_ctrl s1) a ps H' (sv_ctrl s1) \<and> length ps = 2 \<and>
      test_cm_qp rnd V L True now (h\<lparr>h_net := with_replies (h_net h) b ps []\<rparr>) s = Inr ()"
proof -
  obtain mr attr s1 where m: "cm_mr_setup rnd V af True s = (Inr mr, s1)" "query (registered_mrs (sv_ctrl s1)) 73 = Some mr"
      "get_reg_attr mr = Some attr" "end_daemon s1 = Inr ()"
    by (rule cm_mr_setup_run [where af = af, OF hw keys mem s])
  obtain ps H' where "exchanges H1 (sv_ctrl s1) a ps H' (sv_ctrl s1)" "length ps = 2"
      "fst (cm_mr_check mr \<lparr>cm_rpc = S1, cm_net = with_replies (h_net h) b ps []\<rparr>) = Inr ()"
    by (rule cm_mr_check_passes [OF srpc_new_valid [OF clients(1)] clients(3) rctrl_new_idle(1,2,4) [OF daemons(1)] m(2,3)])
  then show "\<exists>s1 ps H'. snd (cm_mr_setup rnd V af True s) = s1 \<and> exchanges H1 (sv_ctrl s1) a ps H' (sv_ctrl s1) \<and> length ps = 2 \<and>
      test_cm_mr rnd V L af True now (h\<lparr>h_net := with_replies (h_net h) b ps []\<rparr>) s = Inr ()"
    using m(1,4) clients(1) by (auto simp: test_cm_mr_def with_cm_def)
  obtain attr s2 i where q: "cm_qp_setup rnd V True s = (Inr attr, s2)" "query (registered_qps (sv_ctrl s2)) test_ud_name = Some i"
      "i < length (qp_heap (sv_ctrl s2))" "any_my_attr V (ho_qp (qp_heap (sv_ctrl s2) ! i)) (rt_drv (sv_ctrl s2)) = Inr attr"
      "q_qkey attr = 73" "end_daemon s2 = Inr ()"
    by (rule cm_qp_setup_run [OF hw keys s])
  obtain ps H' where "exchanges H2 (sv_ctrl s2) a ps H' (sv_ctrl s2)" "length ps = 2"
      "fst (cm_qp_check attr \<lparr>cm_rpc = S2, cm_net = with_replies (h_net h) b ps []\<rparr>) = Inr ()"
    by (rule cm_qp_check_passes [OF srpc_new_valid [OF clients(2)] clients(3) rctrl_new_idle(1,2) [OF daemons(2)]
          rctrl_new_table(1) [OF daemons(2)] q(2-5)])
  then show "\<exists>s1 ps H'. snd (cm_qp_setup rnd V True s) = s1 \<and> exchanges H2 (sv_ctrl s1) a ps H' (sv_ctrl s1) \<and> length ps = 2 \<and>
      test_cm_qp rnd V L True now (h\<lparr>h_net := with_replies (h_net h) b ps []\<rparr>) s = Inr ()"
    using q(1,6) clients(2) by (auto simp: test_cm_qp_def with_cm_def)
qed

definition rig_host :: "(sim \<times> link) host" where
  "rig_host = \<lparr>h_net = empty_net, h_cache = [], h_drv = (sim_start, link_start)\<rparr>"

definition rig_server :: "(nat, sim \<times> link) server" where
  "rig_server = \<lparr>sv_ctrl = rctrl_blank 1 (sim_start, link_start), sv_mem = (\<lambda>_. 0), sv_daemon = \<lparr>running = False, thread_alive = False\<rparr>\<rparr>"

lemma rig_daemon: "\<exists>H :: (bool, (nat, sim \<times> link) rctrl) srpc_handler. rctrl_new sample_rnd rig_verbs sample_lib port = Inr H"
  by (simp add: rctrl_new_def srpc_handler_new_def recv_channel_create_def recv_channel_new_def sample_lib_def fd_valid_def
      rctrl_handlers_def handler_register_def register_handler_def handler_of_channel_def rpc_factory_new_def rpc_ids)

theorem cm_tests_pass_witness:
  "\<exists>ps ps'. test_cm_mr sample_rnd rig_verbs sample_lib (\<lambda>_. Some 4096) True 0
       (rig_host\<lparr>h_net := with_replies (h_net rig_host) \<lparr>sin_port = 0, sin_addr = 0\<rparr> ps []\<rparr>) rig_server = Inr () \<and>
     test_cm_qp sample_rnd rig_verbs sample_lib True 0
       (rig_host\<lparr>h_net := with_replies (h_net rig_host) \<lparr>sin_port = 0, sin_addr = 0\<rparr> ps' []\<rparr>) rig_server = Inr ()"
proof -
  have "case srpc_new sample_lib 0 (bstr ''localhost:8889'') [] of (Inr S, c) \<Rightarrow> True | _ \<Rightarrow> False"
      "case srpc_new sample_lib 0 (bstr ''localhost:6666'') [] of (Inr S, c) \<Rightarrow> True | _ \<Rightarrow> False"
    by code_simp+
  then obtain S1 c1 S2 c2 where S: "srpc_new sample_lib 0 (bstr ''localhost:8889'') (h_cache rig_host) = (Inr S1, c1)"
      "srpc_new sample_lib 0 (bstr ''localhost:6666'') (h_cache rig_host) = (Inr S2, c2)"
    by (auto simp: rig_host_def split: prod.splits sum.splits)
  obtain H1 H2 :: "(bool, (nat, sim \<times> link) rctrl) srpc_handler" where H: "rctrl_new sample_rnd rig_verbs sample_lib 8889 = Inr H1"
      "rctrl_new sample_rnd rig_verbs sample_lib 6666 = Inr H2"
    using rig_daemon by blast
  have s: "sv_ctrl rig_server = rctrl_blank 1 (sim_start, link_start)" "send_fails (h_net rig_host) = []"
    by (simp_all add: rig_server_def rig_host_def)
  note T = cm_tests_pass [where af = "\<lambda>_. Some 4096" and b = "\<lparr>sin_port = 0, sin_addr = 0\<rparr>" and a = True,
      OF rig_hardware sample_keys refl s(1) H S s(2)]
  show ?thesis
    using T by blast
qed

end
