(* ===== verification/UDTestSpec.thy ===== *)
theory UDTestSpec
  imports UDTest QPTestsSpec
begin

text \<open>
  test_ud.cc passes, from its first line, on a device that delivers its datagrams during the
  pause of the test: the one poll of its iterator then finds all 1024 messages.
\<close>

unbundle bit_operations_syntax

section \<open>The device\<close>

text \<open>
  \<open>inq d\<close> are the messages that have been sent and not yet been polled. With nothing pending, posting
  adds a message. While each message has a buffer of its own and fits it, a poll of the receive queue takes the oldest
  ones, each in the buffer that its completion names behind the header; after a pause it takes as many as it may.
\<close>

definition apart :: "(u64 \<times> sge) list \<Rightarrow> bool" where
  "apart bs \<longleftrightarrow> (\<forall>i j. i < length bs \<and> j < length bs \<and> i \<noteq> j \<longrightarrow> 1000 \<le> unat (fst (bs ! j) - fst (bs ! i)))"

definition room_for :: "(u32 \<times> bytes) list \<Rightarrow> (u64 \<times> sge) list \<Rightarrow> bool" where
  "room_for ms bs \<longleftrightarrow> length ms \<le> length bs \<and> apart bs \<and> (\<forall>m \<in> set ms. length (snd m) \<le> 960)"

definition datagram_law ::
  "'d verbs \<Rightarrow> (ptr \<Rightarrow> ud_wr \<Rightarrow> 'd \<Rightarrow> c_int \<times> 'd) \<Rightarrow> 'd memory \<Rightarrow> ('d \<Rightarrow> 'd) \<Rightarrow> ('d \<Rightarrow> nat \<Rightarrow> (u64 \<times> sge) list) \<Rightarrow>
     nat \<Rightarrow> nat \<Rightarrow> ptr \<Rightarrow> ('d \<Rightarrow> bool list) \<Rightarrow> ('d \<Rightarrow> (u32 \<times> bytes) list) \<Rightarrow> bool"
where
  "datagram_law V ud_post M nap rq h c sc pend inq \<longleftrightarrow>
     (\<forall>wr d. pend d = [] \<and> uw_flags wr AND v_signaled V \<noteq> 0 \<longrightarrow>
        fst (ud_post (Some h) wr d) = 0 \<and> pend (snd (ud_post (Some h) wr d)) = [True] \<and>
        rq (snd (ud_post (Some h) wr d)) h = rq d h \<and>
        inq (snd (ud_post (Some h) wr d)) =
          inq d @ [(uw_imm wr, mem_read (sge_addr (uw_sge wr)) (unat (sge_length (uw_sge wr))) (mem_of M d))]) \<and>
     (\<forall>n d. (inq (snd (v_poll_cq V sc n d)), rq (snd (v_poll_cq V sc n d)) h) = (inq d, rq d h)) \<and>
     (\<forall>d. (inq (snd (v_now V d)), rq (snd (v_now V d)) h) = (inq d, rq d h)) \<and>
     (\<forall>n d k ws d'. v_poll_cq V (Some c) n d = ((k, ws), d') \<and> room_for (inq d) (rq d h) \<longrightarrow>
        polled k \<le> length (inq d) \<and>
        (\<forall>i < polled k. wc_imm (ws ! i) = fst (inq d ! i) \<and>
           mem_read (wc_id (ws ! i) + ucast kGRHSz) (length (snd (inq d ! i))) (mem_of M d') = snd (inq d ! i))) \<and>
     (\<forall>d. inq (nap d) = inq d \<and> rq (nap d) h = rq d h \<and>
        (\<forall>n < 2 ^ 31. room_for (inq d) (rq d h) \<longrightarrow> polled (fst (fst (v_poll_cq V (Some c) n (nap d)))) = min n (length (inq d))))"

definition number_grams73 :: "nat list \<Rightarrow> (u32 \<times> bytes) list" where
  "number_grams73 is = map (\<lambda>i. (73, dump 8 enc_word (of_nat i :: u64))) is"

section \<open>Sending\<close>

lemma ud_test_send_ok:
  assumes law: "datagram_law V ud_post M nap rq h c sc pend inq" "poll_law V sc pend lag" "clock_range V"
      "put_law M (\<lambda>d. (pend d, inq d, rq d h))"
    and q: "d_qp q = Some h" "d_cq q = sc" and idle: "pend d = []"
    and wr: "uw_flags (wr i) AND v_signaled V \<noteq> 0" "uw_imm (wr i) = 73" "sge_addr (uw_sge (wr i)) = place i"
      "sge_length (uw_sge (wr i)) = 8" "place i \<noteq> 0"
  obtains q' d' where "ud_test_send V ud_post M place wr i q d = (Inr q', d')" "pend d' = []"
    "inq d' = inq d @ number_grams73 [i]" "rq d' h = rq d h" "d_qp q' = Some h" "d_cq q' = sc" "d_recv_cq q' = d_recv_cq q"
proof -
  let ?msg = "dump 8 enc_word (of_nat i :: u64)"
  have len: "length ?msg = 8"
    by (rule number_datagram(1))
  define d1 where "d1 = mem_put M (place i) ?msg d"
  have store: "store_local M (place i) 8 ?msg d = (Inr (), d1)"
    using wr(5) len by (simp add: store_local_def d1_def)
  have d1: "pend d1 = []" "inq d1 = inq d" "rq d1 h = rq d h" "mem_of M d1 = mem_write (place i) ?msg (mem_of M d)"
    using law(4) idle by (simp_all add: put_law_def d1_def)
  have msg: "mem_read (place i) 8 (mem_of M d1) = ?msg"
    using mem_read_write_same [of ?msg "place i" "mem_of M d"] len by (simp add: d1(4))
  obtain rc d2 where "ud_post (Some h) (wr i) d1 = (rc, d2)"
    by fastforce
  then have post: "ud_post (Some h) (wr i) d1 = (0, d2)" "pend d2 = [True]" "rq d2 h = rq d h"
      "inq d2 = inq d @ number_grams73 [i]"
    using conjunct1 [OF law(1) [unfolded datagram_law_def], rule_format, of d1 "wr i"] d1(1-3) wr(1-4) msg
    by (simp_all add: number_grams73_def)
  obtain x d3 where w: "wait_one_comp V no_timeout q d2 = Some (Ok x, q\<lparr>d_out_signaled := d_out_signaled q - 1\<rparr>, d3)"
      "pend d3 = retire (pend d2)"
    using wait_completes [OF law(2,3) q(2), of d2] post(2) by auto
  have "(inq d3, rq d3 h) = (inq d2, rq d2 h)"
    by (rule wait_keeps [where f = "\<lambda>d. (inq d, rq d h)", OF _ _ w(1)]) (use law(1) q(2) in \<open>auto simp: datagram_law_def\<close>)
  then show thesis
    using that [of "q\<lparr>d_out_signaled := d_out_signaled q - 1\<rparr>" d3] store post w q
    by (simp add: ud_test_send_def act_simps assertE_def Ok_def retire_def)
qed

lemma ud_test_sends_ok:
  assumes law: "datagram_law V ud_post M nap rq h c sc pend inq" "poll_law V sc pend lag" "clock_range V"
      "put_law M (\<lambda>d. (pend d, inq d, rq d h))"
    and q: "d_qp q = Some h" "d_cq q = sc" "pend d = []"
    and wr: "\<And>i. uw_flags (wr i) AND v_signaled V \<noteq> 0 \<and> uw_imm (wr i) = 73 \<and> sge_addr (uw_sge (wr i)) = place i \<and>
      sge_length (uw_sge (wr i)) = 8 \<and> place i \<noteq> 0"
  shows "\<exists>q' d'. ud_test_sends V ud_post M place wr ks q d = (Inr q', d') \<and> pend d' = [] \<and>
    inq d' = inq d @ number_grams73 ks \<and> rq d' h = rq d h \<and> d_qp q' = Some h \<and> d_cq q' = sc \<and> d_recv_cq q' = d_recv_cq q"
  using q
proof (induction ks arbitrary: q d)
  case Nil
  then show ?case
    by (simp add: retA_def number_grams73_def)
next
  case (Cons i ks)
  have w: "uw_flags (wr i) AND v_signaled V \<noteq> 0" "uw_imm (wr i) = 73" "sge_addr (uw_sge (wr i)) = place i"
      "sge_length (uw_sge (wr i)) = 8" "place i \<noteq> 0"
    using wr by simp_all
  obtain q1 d1 where 1: "ud_test_send V ud_post M place wr i q d = (Inr q1, d1)" "pend d1 = []"
      "inq d1 = inq d @ number_grams73 [i]" "rq d1 h = rq d h" "d_qp q1 = Some h" "d_cq q1 = sc" "d_recv_cq q1 = d_recv_cq q"
    by (rule ud_test_send_ok [where wr = wr and i = i and place = place, OF law Cons.prems w])
  from Cons.IH [OF 1(5,6,2)] 1 show ?case
    by (auto simp: bindA_def number_grams73_def)
qed

section \<open>Receiving\<close>

lemma number_word: "dec_word (dump 8 enc_word (x :: u64)) = x" "length (dump 8 enc_word (x :: u64)) = 8"
  using u64_packed.dedump_dump [of x] number_datagram(1) [of x] by (simp_all add: dedump_def seg_def)

lemma ud_check_run:
  assumes "k \<le> length wcs" "k < 2 ^ 31" "i \<le> k"
    and msgs: "\<And>j. j < k \<Longrightarrow> wc_imm (wcs ! j) = 73 \<and> wc_id (wcs ! j) \<noteq> 0 \<and>
      mem_read (wc_id (wcs ! j) + ucast kGRHSz) 8 m = dump 8 enc_word (of_nat j :: u64)"
  shows "ud_check_loop m \<lparr>ri_idx = of_nat i, ri_total = of_nat k, ri_bound = b\<rparr> wcs (of_nat i) = Inr (of_nat k)"
  using assms(3)
proof (induction "k - i" arbitrary: i)
  case 0
  then show ?case
    by (subst ud_check_loop.simps) (simp add: ri_end)
next
  case (Suc n)
  then have i: "i < k"
    by simp
  note r = ri_at [OF i assms(1,2), of b]
  have "mem_read (wc_id (wcs ! i) + ucast kGRHSz) 128 m =
      dump 8 enc_word (of_nat i :: u64) @ mem_read (wc_id (wcs ! i) + ucast kGRHSz + 8) 120 m"
    using mem_read_append [of "wc_id (wcs ! i) + ucast kGRHSz" 8 120 m] msgs [OF i] by simp
  then have read: "dedump 8 dec_word (mem_read (wc_id (wcs ! i) + ucast kGRHSz) 128 m) = Some (of_nat i :: u64)"
    using number_datagram(3) by simp
  have "i < 2 ^ 32"
    using i assms(2) by simp
  then have "unat (of_nat i :: usize) = i"
    by (simp add: unat_of_nat)
  then have "(ucast (of_nat i :: usize) :: u64) = of_nat i"
    by (metis of_nat_unat)
  then have "ud_check_msg m (of_nat i) (wc_imm (wcs ! i), u64_ptr (wc_id (wcs ! i))) = Inr ()"
    using msgs [OF i] read by (simp add: ud_check_msg_def u64_ptr_def ptr_u64_def opt_value_def assertE_def)
  moreover have "ud_check_loop m \<lparr>ri_idx = of_nat (Suc i), ri_total = of_nat k, ri_bound = b\<rparr> wcs (of_nat (Suc i)) = Inr (of_nat k)"
    using Suc.hyps i by (intro Suc.hyps(1)) simp_all
  ultimately show ?case
    using r by (subst ud_check_loop.simps) (simp add: opt_value_def add.commute)
qed

text \<open>The iterator after the pause: one poll finds all that has been sent.\<close>

lemma ud_test_receive_ok:
  assumes law: "recv_lawful V rq h c" "datagram_law V ud_post M nap rq h c sc pend inq"
    and q: "d_qp q = Some h" "d_recv_cq q = Some c"
    and e: "serving rq h e d" "length (re_rs e) = 1024" "apart (rq d h)" and sent: "inq d = number_grams73 [0..<1024]"
  shows "\<exists>d'. ud_test_receive V M q e (nap d) = (Inr (), d')"
proof -
  obtain t where t: "at_entry e t" "rq d h = posted_from e t"
    using e(1) by (auto simp: serving_def)
  have wf: "recv_wf e" and ids: "\<forall>x \<in> set (re_rs e). rw_id x \<noteq> 0"
    using t(1) e(1) by (simp_all add: at_entry_def serving_def)
  have nap: "inq (nap d) = number_grams73 [0..<1024]" "rq (nap d) h = posted_from e t" "length (posted_from e t) = 1024"
      "length (inq d) = 1024"
    using law(2) sent t(2) e(2) wf by (simp_all add: datagram_law_def posted_from_def recv_wf_def number_grams73_def)
  have room: "room_for (inq d) (rq d h)" "room_for (inq (nap d)) (rq (nap d) h)"
    using e(3) t(2) nap sent number_word(2) by (auto simp: room_for_def number_grams73_def)
  obtain kk ws d1 where poll: "v_poll_cq V (Some c) (length (re_rs e)) (nap d) = ((kk, ws), d1)"
    by (metis prod.collapse)
  have "\<forall>n < 2 ^ 31. polled (fst (fst (v_poll_cq V (Some c) n (nap d)))) = min n (length (inq d))"
    using law(2) room(1) by (simp add: datagram_law_def)
  from this [rule_format, of 1024] have k: "polled kk = 1024"
    using poll e(2) nap(4) by simp
  then have kk: "\<not> kk <s 0" "unat kk = 1024" "kk = of_nat 1024"
    by (auto simp: polled_def split: if_splits dest: arg_cong [of _ _ "of_nat :: nat \<Rightarrow> c_int"])
  have len: "length ws = 1024"
    using recv_lawful_poll(2) [OF law(1) poll kk(1)] kk(2) by simp
  have msgs: "\<forall>i < 1024. wc_imm (ws ! i) = 73 \<and> mem_read (wc_id (ws ! i) + ucast kGRHSz) 8 (mem_of M d1) = dump 8 enc_word (of_nat i :: u64)"
  proof (intro allI impI)
    fix i :: nat
    assume i: "i < 1024"
    have "inq (nap d) ! i = (73, dump 8 enc_word (of_nat i :: u64))"
      using i nap(1) by (simp add: number_grams73_def)
    moreover have "wc_imm (ws ! i) = fst (inq (nap d) ! i) \<and>
        mem_read (wc_id (ws ! i) + ucast kGRHSz) (length (snd (inq (nap d) ! i))) (mem_of M d1) = snd (inq (nap d) ! i)"
      using law(2) poll room(2) k i unfolding datagram_law_def by metis
    ultimately show "wc_imm (ws ! i) = 73 \<and> mem_read (wc_id (ws ! i) + ucast kGRHSz) 8 (mem_of M d1) = dump 8 enc_word (of_nat i :: u64)"
      using number_word(2) by simp
  qed
  let ?e1 = "e\<lparr>re_wcs := ws @ drop (length ws) (re_wcs e)\<rparr>"
  have loop: "ud_check_loop (mem_of M d1) \<lparr>ri_idx = 0, ri_total = kk, ri_bound = True\<rparr> (re_wcs ?e1) 0 = Inr 1024"
    using ud_check_run [of 1024 "re_wcs ?e1" 0 "mem_of M d1" True] msgs len kk(3)
      polled_buffers [OF law(1) wf ids nap(2) poll kk(1)] by (simp add: nth_append)
  have new: "ri_new V q e (nap d) = (Inr (\<lparr>ri_idx = 0, ri_total = kk, ri_bound = True\<rparr>, ?e1), d1)"
    using ri_new_apply [of V q e "nap d" kk ws d1] poll q(2) by simp
  obtain k2 ms e' d' where "recv_pass V q e (nap d) = (Inr (ms, e'), d')"
    using recv_pass_step [OF law(1) q t(1), of "nap d"] nap(2) by metis
  then obtain it' where "ri_clear V q ?e1 \<lparr>ri_idx = 0, ri_total = kk, ri_bound = True\<rparr> d1 = (Inr (it', e'), d')"
    using new by (auto simp: recv_pass_def bindA_def liftA_def retA_def split: prod.splits sum.splits)
  then show ?thesis
    using new loop by (simp add: ud_test_receive_def act_simps assertE_def)
qed

section \<open>The test from its first line\<close>

lemma ud_create_keeps:
  assumes "quiet_law V qps obs" "ud_create V nic config d = (Inr (Some q), d')"
  shows "obs d' = obs d"
proof -
  have "keepsA obs (bindA (callA (v_modify_qp V h a m)) (rc_result V))" for h a m
    by (intro keepsA_rules quiet_calls [OF assms(1)] rc_result_keeps)
  then have init: "keepsA obs (bring_qp_to_init V h config nic)" for h
    by (simp add: keepsA_def bring_qp_to_init_def Let_def)
  have bring: "keepsA obs (bring_ud_to_recv V h)" "keepsA obs (bring_ud_to_send V h psn)" for h psn
    unfolding bring_ud_to_recv_def bring_ud_to_send_def by (intro keepsA_rules quiet_calls [OF assms(1)])+
  have "keepsA obs (ud_new V nic config)"
    unfolding ud_new_def create_cq_def create_qp_def handle_result_def Let_def
    by (intro keepsA_rules keepsA_pure quiet_calls [OF assms(1)] init bring)
  moreover have "ud_new V nic config d = (Inr q, d')"
    using assms(2) by (auto simp: ud_create_def bindA_def retA_def split: prod.splits sum.splits if_splits)
  ultimately show ?thesis
    by (rule keepsAD)
qed

lemma own_ud_ready:
  assumes hw: "rc_hardware V n ports qps obs"
  obtains nic q h c d' where "own_ud V d = (Inr (nic, q), d')" "obs d' = obs d" "nic_valid nic" "nic_addr nic \<noteq> None"
    "nic_lid nic \<noteq> None" "d_nic q = nic" "d_qp q = Some h" "d_recv_cq q = Some c"
proof -
  let ?cfg = "default_config (v_access V)"
  have laws: "hardware V n ports" "0 < n" "lawful V qps" "creates_law V" "quiet_law V qps obs"
    using hw by (simp_all add: rc_hardware_def)
  obtain d1 where dev: "first_dev V d = (Inr \<lparr>dev_id = 0, port_id = 1\<rparr>, d1)" "obs d1 = obs d"
    by (rule first_dev_first [OF hw])
  obtain nic d2 where nic: "rnic_new V \<lparr>dev_id = 0, port_id = 1\<rparr> 0 d1 = (Inr nic, d2)" "nic_valid nic"
      "nic_addr nic \<noteq> None" "nic_lid nic \<noteq> None"
    using hardware_opens [OF laws(1), of "\<lparr>dev_id = 0, port_id = 1\<rparr>" 0 d1] laws(2) by auto
  obtain q h c sc d3 where q: "ud_create V nic ?cfg d2 = (Inr (Some q), d3)" "d_qp q = Some h" "d_nic q = nic" "ud_config q = ?cfg"
      "d_recv_cq q = Some c" "d_cq q = Some sc"
    by (rule ud_create_succeeds [OF laws(3,4)])
  have "own_ud V d = (Inr (nic, q), d3)"
    using q(2,5,6) nic(2) by (simp add: own_ud_def act_simps dev(1) nic(1) q(1) opt_value_def assertE_def dummy_valid_def)
  moreover have "obs d3 = obs d"
    using keepsAD [OF rnic_new_keeps [OF laws(5)] nic(1)] ud_create_keeps [OF laws(5) q(1)] dev(2) by simp
  ultimately show thesis
    using that nic(2-4) q(2,3,5) by blast
qed

text \<open>The buffers that the factory cuts are 1000 bytes apart.\<close>

lemma sa_posted_apart:
  assumes p: "0 < p" "p + 16 * 1024 * 1024 < 2 ^ 64"
    and e: "recv_entries_create sa_alloc_one 1024 1000 (sa_at p (16 * 1024 * 1024) key) = (Inr e, a')" "length (re_rs e) = 1024"
  shows "apart (posted_from e 0)"
proof -
  have fill: "recv_fill sa_alloc_one 1000 0 1024 (recv_entries_blank 1024) (sa_at p (16 * 1024 * 1024) key) = (Inr e, a')"
    using e(1) by (simp add: recv_entries_create_def)
  then have "\<forall>j < 1024. re_sges e ! j = \<lparr>sge_addr = of_nat (p + j * 1000), sge_length = 1000, sge_lkey = key\<rparr>"
    using sa_fill_fits [OF p, of 0 1024 "recv_entries_blank 1024" 1000 key] by (auto simp: recv_entries_blank_def)
  moreover have "\<forall>j < 0 + 1024. rw_id (re_rs e ! j) = sge_addr (re_sges e ! j)"
    by (rule recv_fill_ids [OF fill]) (simp_all add: recv_entries_blank_def)
  ultimately have at: "fst (posted_from e 0 ! j) = of_nat (p + j * 1000)" if "j < 1024" for j
    using that e(2) by (simp add: posted_from_def re_desc_def ring_seg_def)
  show ?thesis
    unfolding apart_def
  proof (intro allI impI)
    fix i j
    assume ij: "i < length (posted_from e 0) \<and> j < length (posted_from e 0) \<and> i \<noteq> j"
    have l: "length (posted_from e 0) = 1024"
      using e(2) by (simp add: posted_from_def ring_seg_def)
    have u: "unat (of_nat (p + k * 1000) :: u64) = p + k * 1000" if "k < 1024" for k
      using that p(2) by (intro u64_of_nat) linarith
    have dist: "1000 \<le> unat (v - w)" if "unat (v :: u64) = p + j * 1000" "unat (w :: u64) = p + i * 1000" for v w
      using that ij l by (cases "i < j") (simp_all add: unat_sub_if' word_le_nat_alt, linarith+)
    show "1000 \<le> unat (fst (posted_from e 0 ! j) - fst (posted_from e 0 ! i))"
      using dist ij l u by (simp only: at)
  qed
qed

lemma ud_buffers_ready:
  assumes hw: "rc_hardware V n ports qps (\<lambda>d. (pend d, inq d, rq d))" and nic: "nic_valid nic"
    and p: "af (16 * 1024 * 1024) = Some p" "0 < p" "p + 16 * 1024 * 1024 < 2 ^ 64"
    and recv: "recv_lawful V rq h c" "\<forall>h wrs d. (pend (snd (v_post_recv V h wrs d)), inq (snd (v_post_recv V h wrs d))) = (pend d, inq d)"
    and q: "d_qp q = Some h" "rq d h = []"
  obtains handler e d' where "ud_buffers V af nic q d = (Inr (handler, e), d')" "serving rq h e d'" "length (re_rs e) = 1024"
    "pend d' = pend d" "inq d' = inq d" "apart (rq d' h)"
proof -
  have laws: "hardware V n ports" "quiet_law V qps (\<lambda>d. (pend d, inq d, rq d))"
    using hw by (simp_all add: rc_hardware_def)
  let ?fl = "default_flags (v_access V)" and ?sz = "16 * 1024 * 1024 :: u64"
  obtain ks d1 where ks: "v_reg_mr V (nic_pd nic) (Some p) ?sz (get_value ?fl) d = (Some ks, d1)"
    using laws(1) unfolding hardware_def by (metis not_None_eq option.distinct(1) prod.collapse)
  let ?h = "\<lparr>rh_mr = Some ks, rh_nic = nic, rh_mem = rmem_new af ?sz\<rparr>"
  have create: "reg_handler_create V (rmem_new af ?sz) nic ?fl d = (Inr (Some ?h), d1)"
    using nic p(1) ks by (simp add: reg_handler_create_def reg_handler_new_def act_simps rmem_new_def rh_valid_def)
  have "keepsA (\<lambda>d. (pend d, inq d, rq d)) (callA (v_reg_mr V (nic_pd nic) (Some p) ?sz (get_value ?fl)))"
    by (rule quiet_calls(9) [OF laws(2)])
  then have d1: "pend d1 = pend d" "inq d1 = inq d" "rq d1 h = []"
    using ks q(2) by (auto simp: keepsA_def callA_def dest: spec [of _ d])
  obtain attr where attr: "get_reg_attr ?h = Some attr"
    by (cases ks) (simp add: get_reg_attr_def)
  have sa: "sa_new (rmem_new af ?sz) (ra_key attr) = sa_at p (16 * 1024 * 1024) (ra_key attr)"
    using p(1) by (simp add: sa_new_def sa_at_def rmem_new_def)
  obtain e a' where e: "recv_entries_create sa_alloc_one 1024 1000 (sa_at p (16 * 1024 * 1024) (ra_key attr)) = (Inr e, a')" "recv_wf e"
      "length (re_rs e) = 1024" "re_header e = 0" "\<forall>x \<in> set (re_rs e). rw_id x \<noteq> 0"
    using sa_entries [of p "16 * 1024 * 1024" 1024 1000 "ra_key attr"] p(2,3) by auto
  obtain d2 where post: "post_recvs V q e (of_nat 1024) d1 = (Inr (Ok 0, e), d2)" "serving rq h e d2"
      "d2 = snd (v_post_recv V (Some h) (posted_from e 0) d1)"
    using posted_at_start [OF recv(1) q(1) e(2,4) d1(3) e(5)] e(3) by auto
  have valid: "rmem_valid (rmem_new af ?sz)"
    using p(1) by (simp add: rmem_valid_def rmem_new_def)
  have "ud_buffers V af nic q d = (Inr (?h, e), d2)"
    using valid create sa attr e(1) post(1) entries_checked [OF e(2)]
    by (simp add: ud_buffers_def Let_def act_simps opt_value_def assertE_def Ok_def)
  moreover have "rq d2 h = posted_from e 0"
    using recv(1) post(3) d1(3) unfolding recv_lawful_def recv_post_law_def by simp
  moreover have "apart (posted_from e 0)"
    by (rule sa_posted_apart [OF p(2,3) e(1,3)])
  ultimately show thesis
    using that post e(3) d1 recv(2) by simp
qed

lemma ud_address_ready:
  assumes "nic_addr (d_nic q) \<noteq> None" "nic_lid (d_nic q) \<noteq> None" "d_qp q = Some h"
    and ah: "\<forall>pd a d. fst (v_create_ah V pd a d) \<noteq> None \<and> obs (snd (v_create_ah V pd a d)) = obs d"
  obtains attr ah d' where "ud_address V q d = (Inr (attr, ah), d')" "obs d' = obs d"
proof -
  obtain ad li where n: "nic_addr (d_nic q) = Some ad" "nic_lid (d_nic q) = Some li"
    using assms(1,2) by blast
  obtain attr where attr: "ud_my_attr V q d = Inr attr"
    using n assms(3) by (simp add: ud_my_attr_def attr_of_def)
  define a where "a = zero_ah\<lparr>ah_is_global := 1, ah_dlid := ucast (q_lid attr), ah_sl := 0, ah_src_path_bits := 0,
            ah_port_num := ucast (port_id (nic_id (d_nic q))),
            ah_subnet_prefix := subnet_prefix (q_addr attr), ah_interface_id := interface_id (q_addr attr),
            ah_flow_label := 0, ah_hop_limit := 255, ah_sgid_index := ucast (local_id ad)\<rparr>"
  obtain x d' where d': "v_create_ah V (nic_pd (d_nic q)) a d = (Some x, d')"
    using ah by (metis not_None_eq prod.collapse)
  have "ud_address V q d = (Inr (attr, Some x), d')"
    using n(1) d' by (simp add: ud_address_def create_ah_def act_simps attr opt_value_def assertE_def a_def)
  moreover have "obs d' = obs d"
    using ah d' by (metis snd_conv)
  ultimately show thesis
    using that by blast
qed

text \<open>A device for the test: the laws of its queues hold for the queue pair that the test creates in the state \<open>d\<close>.\<close>

definition ud_device ::
  "'d verbs \<Rightarrow> (ptr \<Rightarrow> ud_wr \<Rightarrow> 'd \<Rightarrow> c_int \<times> 'd) \<Rightarrow> 'd memory \<Rightarrow> ('d \<Rightarrow> 'd) \<Rightarrow> nat \<Rightarrow> u8 \<Rightarrow> ('d \<Rightarrow> qp_view) \<Rightarrow>
     ('d \<Rightarrow> nat \<Rightarrow> (u64 \<times> sge) list) \<Rightarrow> ('d \<Rightarrow> bool list) \<Rightarrow> ('d \<Rightarrow> (u32 \<times> bytes) list) \<Rightarrow> ('d \<Rightarrow> nat) \<Rightarrow> 'd \<Rightarrow> bool"
where
  "ud_device V ud_post M nap n ports qps rq pend inq lag d \<longleftrightarrow>
     rc_hardware V n ports qps (\<lambda>d. (pend d, inq d, rq d)) \<and> clock_range V \<and> v_signaled V \<noteq> 0 \<and>
     (\<forall>pd a d. fst (v_create_ah V pd a d) \<noteq> None \<and>
        (pend (snd (v_create_ah V pd a d)), inq (snd (v_create_ah V pd a d)), rq (snd (v_create_ah V pd a d))) = (pend d, inq d, rq d)) \<and>
     (\<forall>h wrs d. (pend (snd (v_post_recv V h wrs d)), inq (snd (v_post_recv V h wrs d))) = (pend d, inq d)) \<and>
     (\<forall>nic q d1 h c. own_ud V d = (Inr (nic, q), d1) \<and> d_qp q = Some h \<and> d_recv_cq q = Some c \<longrightarrow>
        recv_lawful V rq h c \<and> datagram_law V ud_post M nap rq h c (d_cq q) pend inq \<and> poll_law V (d_cq q) pend lag \<and>
        put_law M (\<lambda>d. (pend d, inq d, rq d h)))"

text \<open>
  The test of datagrams passes: each of the 1024 sends completes, and after the pause the iterator finds the numbers
  in order, each with its immediate.
\<close>
theorem test_ud_passes:
  assumes dev: "ud_device V ud_post M nap n ports qps rq pend inq lag d"
    and p: "af (16 * 1024 * 1024) = Some p" "0 < p" "p + 16 * 1024 * 1024 < 2 ^ 64"
    and start: "pend d = []" "inq d = []" "\<forall>h. rq d h = []" "\<forall>i. place i \<noteq> 0"
  shows "\<exists>d'. test_ud V ud_post send_imm M af lk place nap d = (Inr (), d')"
proof -
  have hw: "rc_hardware V n ports qps (\<lambda>d. (pend d, inq d, rq d))" and clock: "clock_range V" and sig: "v_signaled V \<noteq> 0"
    and ah: "\<forall>pd a d. fst (v_create_ah V pd a d) \<noteq> None \<and>
        (pend (snd (v_create_ah V pd a d)), inq (snd (v_create_ah V pd a d)), rq (snd (v_create_ah V pd a d))) = (pend d, inq d, rq d)"
    and keep: "\<forall>h wrs d. (pend (snd (v_post_recv V h wrs d)), inq (snd (v_post_recv V h wrs d))) = (pend d, inq d)"
    using dev by (simp_all add: ud_device_def)
  obtain nic q h c d1 where q: "own_ud V d = (Inr (nic, q), d1)" "(pend d1, inq d1, rq d1) = (pend d, inq d, rq d)" "nic_valid nic"
      "nic_addr nic \<noteq> None" "nic_lid nic \<noteq> None" "d_nic q = nic" "d_qp q = Some h" "d_recv_cq q = Some c"
    by (rule own_ud_ready [OF hw])
  have laws: "recv_lawful V rq h c" "datagram_law V ud_post M nap rq h c (d_cq q) pend inq" "poll_law V (d_cq q) pend lag"
      "put_law M (\<lambda>d. (pend d, inq d, rq d h))"
    using dev q(1,7,8) unfolding ud_device_def by blast+
  have "rq d1 h = []" and addr: "nic_addr (d_nic q) \<noteq> None" "nic_lid (d_nic q) \<noteq> None"
    using q(2,4-6) start(3) by simp_all
  obtain handler e d2 where b: "ud_buffers V af nic q d1 = (Inr (handler, e), d2)" "serving rq h e d2" "length (re_rs e) = 1024"
      "pend d2 = pend d1" "inq d2 = inq d1" "apart (rq d2 h)"
    by (rule ud_buffers_ready [where af = af, OF hw q(3) p laws(1) keep q(7) \<open>rq d1 h = []\<close>])
  obtain attr ahp d3 where a: "ud_address V q d2 = (Inr (attr, ahp), d3)" "(pend d3, inq d3, rq d3) = (pend d2, inq d2, rq d2)"
    by (rule ud_address_ready [where obs = "\<lambda>d. (pend d, inq d, rq d)", OF addr q(7) ah])
  let ?wr = "ud_test_wr V send_imm lk place attr ahp"
  have "pend d3 = []" "inq d3 = []"
    using a(2) b(4,5) q(2) start(1,2) by simp_all
  moreover have "uw_flags (?wr i) AND v_signaled V \<noteq> 0 \<and> uw_imm (?wr i) = 73 \<and> sge_addr (uw_sge (?wr i)) = place i \<and>
      sge_length (uw_sge (?wr i)) = 8 \<and> place i \<noteq> 0" for i
    using start(4) sig by (simp add: ud_test_wr_def word_ao_absorbs)
  ultimately obtain q' d4 where s: "ud_test_sends V ud_post M place ?wr [0..<1024] q d3 = (Inr q', d4)"
      "inq d4 = number_grams73 [0..<1024]" "rq d4 h = rq d3 h" "d_qp q' = Some h" "d_recv_cq q' = Some c"
    using ud_test_sends_ok [OF laws(2,3) clock laws(4) q(7) refl, of d3 ?wr place "[0..<1024]"] q(8) by auto
  have "serving rq h e d4" "apart (rq d4 h)"
    using b(2,6) a(2) s(3) by (simp_all add: serving_def)
  then obtain d5 where r: "ud_test_receive V M q' e (nap d4) = (Inr (), d5)"
    using ud_test_receive_ok [OF laws(1,2) s(4,5) _ b(3) _ s(2)] by blast
  obtain d6 where "close_region V handler q' nic d5 = (Inr (), d6)"
    using close_region_ends [of V handler q' nic d5] by blast
  then show ?thesis
    by (simp add: test_ud_def act_simps q(1) b(1) a(1) s(1) r)
qed

text \<open>A device for the witness, whose datagrams arrive when they are sent and are written to their buffers when they are polled.\<close>

record dgram =
  dg_mem :: "u64 \<Rightarrow> u8"
  dg_pend :: "bool list"
  dg_inq :: "(u32 \<times> bytes) list"
  dg_rq :: "nat \<Rightarrow> (u64 \<times> sge) list"

definition dg_start :: dgram where
  "dg_start = \<lparr>dg_mem = (\<lambda>_. 0), dg_pend = [], dg_inq = [], dg_rq = (\<lambda>_. [])\<rparr>"

definition dg_send_poll :: "dgram \<Rightarrow> (c_int \<times> wc list) \<times> dgram" where
  "dg_send_poll g = (if True \<in> set (dg_pend g)
     then ((1, [\<lparr>wc_id = 0, wc_ok = True, wc_imm = 0\<rparr>]), g\<lparr>dg_pend := retire (dg_pend g)\<rparr>) else ((0, []), g))"

definition dg_count :: "nat \<Rightarrow> nat \<Rightarrow> dgram \<Rightarrow> nat" where
  "dg_count h n g = min (min n (2 ^ 31 - 1)) (min (length (dg_inq g)) (length (dg_rq g h)))"

definition dg_recv_poll :: "nat \<Rightarrow> nat \<Rightarrow> dgram \<Rightarrow> (c_int \<times> wc list) \<times> dgram" where
  "dg_recv_poll h n g =
     (let k = dg_count h n g; ps = zip (take k (dg_rq g h)) (take k (dg_inq g))
      in ((of_nat k, map (\<lambda>(b, m). \<lparr>wc_id = fst b, wc_ok = True, wc_imm = fst m\<rparr>) ps),
          g\<lparr>dg_rq := (dg_rq g)(h := drop k (dg_rq g h)), dg_inq := drop k (dg_inq g),
            dg_mem := fold (\<lambda>(b, m). mem_write (fst b + ucast kGRHSz) (snd m)) ps (dg_mem g)\<rparr>))"

definition dg_post_recv :: "ptr \<Rightarrow> (u64 \<times> sge) list \<Rightarrow> dgram \<Rightarrow> c_int \<times> dgram" where
  "dg_post_recv p wrs g = (case p of None \<Rightarrow> (22, g) | Some h \<Rightarrow> (0, g\<lparr>dg_rq := (dg_rq g)(h := dg_rq g h @ wrs)\<rparr>))"

definition dg_post :: "ptr \<Rightarrow> ud_wr \<Rightarrow> sim \<times> dgram \<Rightarrow> c_int \<times> sim \<times> dgram" where
  "dg_post p wr = on_snd (\<lambda>g. (0, g\<lparr>dg_pend := dg_pend g @ [uw_flags wr AND 2 \<noteq> 0],
     dg_inq := dg_inq g @ [(uw_imm wr, mem_read (sge_addr (uw_sge wr)) (unat (sge_length (uw_sge wr))) (dg_mem g))]\<rparr>))"

definition dg_memory :: "(sim \<times> dgram) memory" where
  "dg_memory = \<lparr>mem_of = (\<lambda>d. dg_mem (snd d)), mem_put = (\<lambda>a bs (s, g). (s, g\<lparr>dg_mem := mem_write a bs (dg_mem g)\<rparr>))\<rparr>"

text \<open>The queue pair \<open>h\<close> receives on the completion queue \<open>c\<close>.\<close>

definition dg_verbs :: "nat \<Rightarrow> nat \<Rightarrow> (sim \<times> dgram) verbs" where
  "dg_verbs h c = setup_verbs\<lparr>v_post_recv := (\<lambda>p wrs. on_snd (dg_post_recv p wrs)),
     v_poll_cq := (\<lambda>q n. on_snd (if q = Some c then dg_recv_poll h n else dg_send_poll))\<rparr>"

lemma far_apart:
  fixes u :: u64
  assumes "1000 \<le> unat u" "1000 \<le> unat (- u)" "j < 960"
  shows "960 \<le> unat (u + of_nat j)"
proof -
  have "unat (- u) = 2 ^ 64 - unat u"
    using assms(1) unat_sub_if' [of 0 u] by auto
  then have "unat u + j < 2 ^ 64"
    using assms by linarith
  then have "unat (u + of_nat j) = unat u + j"
    using assms(3) by (simp add: unat_word_ariths unat_of_nat)
  with assms(1) show ?thesis
    by simp
qed

lemma fold_write_read:
  assumes "apart (map fst ps)" "\<forall>x \<in> set ps. length (snd (snd x)) \<le> 960" "i < length ps"
  shows "mem_read (fst (fst (ps ! i)) + off) (length (snd (snd (ps ! i))))
    (fold (\<lambda>(b, m). mem_write (fst b + off) (snd m)) ps mem) = snd (snd (ps ! i))"
  using assms
proof (induction ps rule: rev_induct)
  case (snoc x xs)
  let ?w = "mem_write (fst (fst x) + off) (snd (snd x))" and ?m = "fold (\<lambda>(b, m). mem_write (fst b + off) (snd m)) xs mem"
  have fold: "fold (\<lambda>(b, m). mem_write (fst b + off) (snd m)) (xs @ [x]) mem = ?w ?m"
    by (simp add: case_prod_unfold)
  show ?case
  proof (cases "i = length xs")
    case True
    have "length (snd (snd x)) \<le> 2 ^ 63"
      using snoc.prems(2) by auto
    then show ?thesis
      unfolding fold using True by (simp add: mem_read_write_same)
  next
    case False
    then have i: "i < length xs"
      using snoc.prems(3) by simp
    let ?a = "fst (fst (xs ! i))" and ?b = "fst (fst x)" and ?n = "length (snd (snd (xs ! i)))"
    have d: "1000 \<le> unat (?a - ?b)" "1000 \<le> unat (- (?a - ?b))"
      using snoc.prems(1) [unfolded apart_def, rule_format, of i "length xs"]
        snoc.prems(1) [unfolded apart_def, rule_format, of "length xs" i] i by (auto simp: nth_append)
    have len: "?n \<le> 960" "length (snd (snd x)) \<le> 960"
      using snoc.prems(2) i by auto
    have far: "length (snd (snd x)) \<le> unat (?a + off + of_nat j - (?b + off))" if "j < ?n" for j
    proof -
      have e: "?a + off + of_nat j - (?b + off) = ?a - ?b + of_nat j"
        by simp
      have "960 \<le> unat (?a - ?b + of_nat j)"
        using that len(1) by (intro far_apart d) simp
      with len(2) show ?thesis
        unfolding e by (rule le_trans)
    qed
    have "apart (map fst xs)"
      unfolding apart_def
    proof (intro allI impI)
      fix k l
      assume "k < length (map fst xs) \<and> l < length (map fst xs) \<and> k \<noteq> l"
      then show "1000 \<le> unat (fst (map fst xs ! l) - fst (map fst xs ! k))"
        using snoc.prems(1) [unfolded apart_def, rule_format, of k l] by (simp add: nth_append)
    qed
    then have "mem_read (?a + off) ?n ?m = snd (snd (xs ! i))"
      using snoc.IH snoc.prems(2) i by simp
    moreover have "mem_read (?a + off) ?n (?w ?m) = mem_read (?a + off) ?n ?m"
      by (rule mem_read_write_other) (rule far)
    ultimately show ?thesis
      unfolding fold using i by (simp add: nth_append)
  qed
qed simp

lemma dg_recv_poll_law: "recv_lawful (dg_verbs h c) (\<lambda>d. dg_rq (snd d)) h c"
proof -
  have count: "dg_count h n g < 2 ^ 31" "dg_count h n g \<le> n" "dg_count h n g \<le> length (dg_inq g)" "dg_count h n g \<le> length (dg_rq g h)" for n g
    by (auto simp: dg_count_def)
  have c: "\<not> (of_nat (dg_count h n g) :: c_int) <s 0" "unat (of_nat (dg_count h n g) :: c_int) = dg_count h n g" for n g
    using count(1) [of n g] by (simp_all add: word_sless_alt signed_of_nat signed_take_bit_int_eq_self unat_of_nat)
  have "recv_poll_law (dg_verbs h c) (\<lambda>d. dg_rq (snd d)) h c"
    unfolding recv_poll_law_def
  proof (intro allI impI)
    fix n d k ws d'
    assume "v_poll_cq (dg_verbs h c) (Some c) n d = ((k, ws), d')"
    then have r: "dg_recv_poll h n (snd d) = ((k, ws), snd d')"
      by (auto simp: dg_verbs_def on_snd_def split: prod.splits)
    let ?k = "dg_count h n (snd d)"
    have "k = fst (fst (dg_recv_poll h n (snd d)))" "ws = snd (fst (dg_recv_poll h n (snd d)))" "snd d' = snd (dg_recv_poll h n (snd d))"
      using r by simp_all
    then have "k = of_nat ?k" "dg_rq (snd d') h = drop ?k (dg_rq (snd d) h)"
        "ws = map (\<lambda>(b, m). \<lparr>wc_id = fst b, wc_ok = True, wc_imm = fst m\<rparr>) (zip (take ?k (dg_rq (snd d) h)) (take ?k (dg_inq (snd d))))"
      by (simp_all add: dg_recv_poll_def Let_def)
    moreover from this(3) have "length ws = ?k" "map wc_id ws = map fst (take ?k (dg_rq (snd d) h))"
      using count [of n "snd d"] by (auto simp: case_prod_unfold intro!: nth_equalityI)
    ultimately have "k = of_nat ?k" "length ws = ?k" "map wc_id ws = map fst (take ?k (dg_rq (snd d) h))"
        "dg_rq (snd d) h = take ?k (dg_rq (snd d) h) @ dg_rq (snd d') h"
      by simp_all
    then show "if k <s 0 then ws = [] \<and> dg_rq (snd d') h = dg_rq (snd d) h
        else length ws = unat k \<and> unat k \<le> n \<and> (\<exists>used. dg_rq (snd d) h = used @ dg_rq (snd d') h \<and> map wc_id ws = map fst used)"
      using c [of n "snd d"] count(2) [of n "snd d"] by metis
  qed
  moreover have "recv_post_law (dg_verbs h c) (\<lambda>d. dg_rq (snd d))"
    by (simp add: recv_post_law_def dg_verbs_def dg_post_recv_def)
  ultimately show ?thesis
    by (simp add: recv_lawful_def dg_verbs_def dg_post_recv_def)
qed

lemma dg_datagrams:
  assumes "sc \<noteq> Some c"
  shows "datagram_law (dg_verbs h c) dg_post dg_memory id (\<lambda>d. dg_rq (snd d)) h c sc (\<lambda>d. dg_pend (snd d)) (\<lambda>d. dg_inq (snd d))"
proof -
  have v: "v_signaled (dg_verbs h c) = 2" "v_now (dg_verbs h c) = (\<lambda>d. (0, d))"
      "v_poll_cq (dg_verbs h c) = (\<lambda>q n. on_snd (if q = Some c then dg_recv_poll h n else dg_send_poll))"
    by (simp_all add: dg_verbs_def setup_verbs_def null_verbs_def)
  have post: "fst (dg_post p wr d) = 0 \<and> dg_pend (snd (snd (dg_post p wr d))) = [True] \<and> dg_rq (snd (snd (dg_post p wr d))) h = dg_rq (snd d) h \<and>
      dg_inq (snd (snd (dg_post p wr d))) = dg_inq (snd d) @
        [(uw_imm wr, mem_read (sge_addr (uw_sge wr)) (unat (sge_length (uw_sge wr))) (mem_of dg_memory d))]"
    if "dg_pend (snd d) = []" "uw_flags wr AND 2 \<noteq> 0" for p wr d
    using that by (simp add: dg_post_def dg_memory_def)
  have send: "dg_inq (snd (dg_send_poll g)) = dg_inq g" "dg_rq (snd (dg_send_poll g)) = dg_rq g" for g
    by (simp_all add: dg_send_poll_def)
  have polled: "polled (of_nat (dg_count h n g)) = dg_count h n g" for n g
    by (simp add: polled_def dg_count_def word_sless_alt signed_of_nat signed_take_bit_int_eq_self unat_of_nat)
  have recv: "polled k \<le> length (dg_inq g) \<and> (\<forall>i < polled k. wc_imm (ws ! i) = fst (dg_inq g ! i) \<and>
      mem_read (wc_id (ws ! i) + ucast kGRHSz) (length (snd (dg_inq g ! i))) (dg_mem g') = snd (dg_inq g ! i))"
    if r: "dg_recv_poll h n g = ((k, ws), g')" and room: "room_for (dg_inq g) (dg_rq g h)" for n g k ws g'
  proof -
    let ?k = "dg_count h n g"
    let ?ps = "zip (take ?k (dg_rq g h)) (take ?k (dg_inq g))"
    have k: "?k \<le> length (dg_inq g)" "?k \<le> length (dg_rq g h)"
      by (simp_all add: dg_count_def)
    have p: "polled k = ?k" "ws = map (\<lambda>(b, m). \<lparr>wc_id = fst b, wc_ok = True, wc_imm = fst m\<rparr>) ?ps"
        "dg_mem g' = fold (\<lambda>(b, m). mem_write (fst b + ucast kGRHSz) (snd m)) ?ps (dg_mem g)"
      using r polled [of n g] by (auto simp: dg_recv_poll_def Let_def)
    have "apart (map fst ?ps)"
      using room k by (auto simp: apart_def room_for_def)
    moreover have "\<forall>x \<in> set ?ps. length (snd (snd x)) \<le> 960"
      using room by (auto simp: room_for_def dest!: set_zip_rightD in_set_takeD)
    ultimately have "mem_read (fst (fst (?ps ! i)) + ucast kGRHSz) (length (snd (snd (?ps ! i)))) (dg_mem g') = snd (snd (?ps ! i))"
      if "i < ?k" for i
      unfolding p(3) using that k by (intro fold_write_read) simp_all
    then show ?thesis
      using p(1,2) k by simp
  qed
  have all: "polled (fst (fst (dg_recv_poll h n g))) = min n (length (dg_inq g))"
    if "n < 2 ^ 31" "room_for (dg_inq g) (dg_rq g h)" for n g
    using that polled [of n g] by (simp add: dg_recv_poll_def Let_def dg_count_def room_for_def)
  show ?thesis
    unfolding datagram_law_def v
  proof (intro conjI)
    show "\<forall>n d k ws d'. on_snd (if Some c = Some c then dg_recv_poll h n else dg_send_poll) d = ((k, ws), d') \<and>
        room_for (dg_inq (snd d)) (dg_rq (snd d) h) \<longrightarrow>
        polled k \<le> length (dg_inq (snd d)) \<and>
        (\<forall>i<polled k. wc_imm (ws ! i) = fst (dg_inq (snd d) ! i) \<and>
           mem_read (wc_id (ws ! i) + ucast kGRHSz) (length (snd (dg_inq (snd d) ! i))) (mem_of dg_memory d') = snd (dg_inq (snd d) ! i))"
      using recv by (auto simp: on_snd_def dg_memory_def split: prod.splits)
  qed (use post send all assms in \<open>auto simp: id_def\<close>)
qed

lemma dg_device:
  assumes "own_ud (dg_verbs 7 6) d = (Inr (nic, q), d1)" "d_qp q = Some 7" "d_cq q = Some 5" "d_recv_cq q = Some 6"
  shows "ud_device (dg_verbs 7 6) dg_post dg_memory id 1 2 (\<lambda>d. map_of (sim_qps (fst d))) (\<lambda>d. dg_rq (snd d))
    (\<lambda>d. dg_pend (snd d)) (\<lambda>d. dg_inq (snd d)) (\<lambda>_. 0) d"
proof -
  let ?V = "dg_verbs 7 6"
  have e: "?V = setup_verbs\<lparr>v_post_send := v_post_send setup_verbs, v_post_recv := (\<lambda>p wrs. on_snd (dg_post_recv p wrs)),
      v_poll_cq := (\<lambda>q n. on_snd (if q = Some 6 then dg_recv_poll 7 n else dg_send_poll))\<rparr>"
    by (simp add: dg_verbs_def)
  have hw: "rc_hardware ?V 1 2 (\<lambda>d. map_of (sim_qps (fst d))) (\<lambda>d. (dg_pend (snd d), dg_inq (snd d), dg_rq (snd d)))"
    unfolding e by (rule setup_hardware [where obs = "\<lambda>g. (dg_pend g, dg_inq g, dg_rq g)"])
  have v: "v_poll_cq ?V = (\<lambda>q n. on_snd (if q = Some 6 then dg_recv_poll 7 n else dg_send_poll))" "v_now ?V = (\<lambda>d. (0, d))"
      "v_signaled ?V = 2" "v_post_recv ?V = (\<lambda>p wrs. on_snd (dg_post_recv p wrs))" "v_create_ah ?V = (\<lambda>pd a. on_fst sim_new)"
    by (simp_all add: dg_verbs_def setup_verbs_def null_verbs_def checked_verbs_def sim_verbs_def)
  have "poll_law ?V (Some 5) (\<lambda>d. dg_pend (snd d)) (\<lambda>_. 0)"
    by (simp add: poll_law_def v dg_send_poll_def)
  moreover have "put_law dg_memory (\<lambda>d. (dg_pend (snd d), dg_inq (snd d), dg_rq (snd d) h))" for h
    by (simp add: put_law_def dg_memory_def case_prod_unfold)
  moreover have "clock_range ?V"
    by (simp add: clock_range_def v)
  ultimately show ?thesis
    using hw assms dg_recv_poll_law [of 7 6] dg_datagrams [of "Some 5" 6 7]
    by (auto simp: ud_device_def v dg_post_recv_def sim_new_def split: option.splits)
qed

theorem test_ud_passes_witness:
  "\<exists>d'. test_ud (dg_verbs 7 6) dg_post 2 dg_memory (\<lambda>_. Some 4096) 0 (\<lambda>_. 64) id (sim_start, dg_start) = (Inr (), d')"
proof -
  have "case own_ud (dg_verbs 7 6) (sim_start, dg_start) of
      (Inr (nic, q), d) \<Rightarrow> d_qp q = Some 7 \<and> d_cq q = Some 5 \<and> d_recv_cq q = Some 6 | _ \<Rightarrow> False"
    by code_simp
  then obtain nic q d1 where q: "own_ud (dg_verbs 7 6) (sim_start, dg_start) = (Inr (nic, q), d1)" "d_qp q = Some 7" "d_cq q = Some 5"
      "d_recv_cq q = Some 6"
    by (auto split: prod.splits sum.splits)
  have c: "(\<lambda>_. Some 4096 :: ptr) (16 * 1024 * 1024 :: u64) = Some 4096" "(0 :: nat) < 4096" "(4096 :: nat) + 16 * 1024 * 1024 < 2 ^ 64"
      "dg_pend (snd (sim_start, dg_start)) = []" "dg_inq (snd (sim_start, dg_start)) = []"
      "\<forall>h. dg_rq (snd (sim_start, dg_start)) h = []" "\<forall>i :: nat. (\<lambda>_. 64 :: u64) i \<noteq> 0"
    by (simp_all add: dg_start_def)
  show ?thesis
    by (rule test_ud_passes [where af = "\<lambda>_. Some 4096" and place = "\<lambda>_. 64", OF dg_device [OF q] c])
qed

end
