(* ===== verification/Spec2Isabelle.thy ===== *)
theory Spec2Isabelle
  imports MsgIter DaemonSpec Logging DynamicSpec ThreadsSpec LegacySpec UDTestSpec
begin

text \<open>
  \<^bold>\<open>Verification of the RLib RDMA library\<close> (rlibv2, the headers of \<open>src/core\<close>, the measuring
  programs of \<open>src/benchs\<close>, what the programs of \<open>src/examples\<close> add to them, and the tests of \<open>src/tests\<close>).

  \<^bold>\<open>The program.\<close> RLib wraps libibverbs. A server opens a device (\<open>RNic\<close>), registers memory
  (\<open>RMem\<close>, \<open>RegHandler\<close>) and runs a control daemon (\<open>RCtrl\<close>) that keeps named registries of
  memory regions, queue pairs and devices and answers remote procedure calls (\<open>SRpc\<close>) sent as
  UDP datagrams (\<open>SendChannel\<close>, \<open>RecvChannel\<close>). A client's \<open>ConnectManager\<close> asks the daemon to
  create the remote half of a reliable connection (\<open>RC\<close>), connects its own half with the
  attribute of the reply, fetches the attributes of remote memory, and then posts one-sided
  operations itself (\<open>Op\<close>, \<open>DoorbellHelper\<close>, \<open>RC::send_normal\<close>) and waits for their
  completions. Two-sided communication posts receive buffers in a ring (\<open>RecvEntries\<close>) and
  iterates over what arrived (\<open>RecvIter\<close>); \<open>RecvManager\<close> creates connections with such a ring.

  \<^bold>\<open>How code becomes definitions.\<close> A class is a record, an enumeration a datatype, a machine
  integer a word of its width (\<open>u8\<close> to \<open>u64\<close>, \<open>usize\<close>, \<open>c_int\<close>, and \<open>i8\<close> for the index of the
  doorbell helper), a buffer a list of bytes, \<open>std::string\<close> a list of bytes, \<open>Option\<close> an
  \<open>option\<close>, \<open>Result<T>\<close> the record \<open>result\<close> of a code and a description. A shared object that
  the code reaches through several \<open>Arc\<close> pointers is an index into a heap (\<open>qp_heap\<close>). An
  operation with effects is a value of \<open>('s, 'a) act\<close> (theory Prelude), a function of the
  state to an outcome and a new state, composed with \<open>bindA\<close>, \<open>retA\<close>, \<open>failA\<close>, \<open>callA\<close> and
  \<open>catchA\<close>. The failures of an outcome are \<open>Aborted\<close> (an assertion or \<open>exit\<close>), \<open>Thrown\<close> (a C++
  exception), \<open>Undefined\<close> (undefined behaviour: a null pointer, falling off a function's end,
  reading outside a buffer) and \<open>Diverged\<close>; so every assertion, exception and early return
  of the source is a branch of a definition.

  \<^bold>\<open>Parameters.\<close> What is not in the repository is an argument. libibverbs is the record
  \<open>verbs\<close> (theory Verbs), one field for each call, over an arbitrary state \<open>'d\<close> of the driver;
  the clock \<open>v_now\<close> is one of its fields. The name resolver and the socket calls are
  \<open>resolver\<close> and \<open>netlib\<close>; what the socket receives is the list of events \<open>inbox\<close> of a \<open>net\<close>,
  and which \<open>sendto\<close> calls fail the list \<open>send_fails\<close>. \<open>rand()\<close> is a function of the
  generator's state. The numbers of the access flags and opcodes are \<open>access_consts\<close> and
  \<open>wr_opcodes\<close>. The memory allocator of receive buffers is a locale's parameter
  (\<open>recv_allocator\<close>). Hypotheses on a parameter are predicates with a name:
  \<^item> \<open>lawful\<close> (QPsSpec): creation of queue pairs and completion queues, \<open>modify\<close> and \<open>query\<close>
    behave as the state machine of the InfiniBand specification, with the attributes that each
    transition requires; \<open>sim_verbs\<close> is a driver that satisfies it, used by the witnesses.
  \<^item> \<open>recv_lawful\<close> (RecvSpec): posted receives are consumed from the front, in order.
  \<^item> \<open>post_law\<close>, \<open>poll_law\<close>, \<open>clock_range\<close> (BenchSpec): a send queue of fixed size whose signalled
    requests complete in order and free the requests before them, and a 63-bit clock;
    \<open>queue_verbs\<close> and \<open>steady_verbs\<close> satisfy them.
  \<^item> \<open>put_law\<close>, \<open>trace_law\<close>, \<open>deliver_law\<close> (TwoSidedSpec): stores to memory, the bytes of a message that is
    sent, and messages that arrive in order in the oldest buffers; \<open>link_verbs\<close> satisfies them.
  \<^item> \<open>dc_device\<close> (DynamicSpec): a device with several completion queues, on each of which one request
    at a time completes; \<open>dcd_verbs\<close> satisfies it.
  \<^item> \<open>exec_law\<close> (UnitTestsSpec): an accepted request is performed on the memory at some time before
    it completes; \<open>exec_verbs\<close> satisfies it.
  \<^item> \<open>hardware\<close> (NetTestsSpec), \<open>quiet_law\<close> and \<open>rc_hardware\<close> (QPTestsSpec), \<open>dct_law\<close> (DynamicSpec): devices that open and
    register memory, and set-up calls that leave the queues alone; \<open>setup_verbs\<close> satisfies them.
  \<^item> \<open>loopback\<close> (NetTestsSpec) and \<open>datagram_law\<close> (UDTestSpec): datagrams of one process to itself, over
    sockets and over a device; \<open>sample_loopback\<close> and \<open>dg_verbs\<close> satisfy them.
  \<^item> \<open>clocked\<close> (QPsSpec): the clock advances with every reading. It is the only hypothesis of
    the theorem that waiting returns.

  \<^bold>\<open>The theories.\<close> In the order of imports; each opens with a text on its contents.
  \<^item> Prelude, Results, Marshal: \<open>common.hh\<close>, \<open>result.hh\<close>, \<open>utils/marshal.hh\<close>; the locale
    \<open>packed\<close> is the contract of a packed struct (decoding inverts encoding, fixed size),
    interpreted on every struct that travels.
  \<^item> MultiMsg, MsgIter: \<open>bootstrap/multi_msg.hh\<close> and \<open>multi_msg_iter.hh\<close>. The locale
    \<open>msg_container\<close> is what the iterator needs of the container, interpreted on \<open>mmsg\<close>.
  \<^item> Registry: \<open>utils/abs_factory.hh\<close>; the locale \<open>registry\<close> states the laws of registration
    with authentication, interpreted on \<open>reg\<close>, \<open>query\<close> and \<open>dereg\<close>.
  \<^item> QPConf: \<open>qps/config.hh\<close>, \<open>rmem/config.hh\<close>.
  \<^item> Proto: \<open>bootstrap/proto.hh\<close> and the structs of \<open>naming.hh\<close>, \<open>rmem/handler.hh\<close>, \<open>qps/mod.hh\<close>,
    \<open>qps/dc.hh\<close>, \<open>bootstrap/srpc.hh\<close> that are sent, byte by byte.
  \<^item> Ipname: \<open>utils/timer.hh\<close>, \<open>utils/ipname.hh\<close>. Channel: \<open>bootstrap/channel.hh\<close>.
  \<^item> SRpc, SRpcSpec: \<open>bootstrap/srpc.hh\<close>: calls, replies, checksums, the handlers' table, the
    server's loop; an abstract server (\<open>run_all\<close>, \<open>answers\<close>) that the loop refines.
  \<^item> Verbs, Nic, Impl, QPs, QPsSpec: the driver's interface; \<open>naming.hh\<close>, \<open>nic.hh\<close>, \<open>nicinfo.hh\<close>,
    \<open>rmem/mem.hh\<close>, \<open>rmem/handler.hh\<close>; \<open>qps/impl.hh\<close>; \<open>qps/mod.hh\<close>, \<open>rc.hh\<close>, \<open>ud.hh\<close>, \<open>dc.hh\<close>: the
    progress marks, creation, connection, sending, polling with a timeout.
  \<^item> RCtrl, RCtrlSpec, DaemonSpec: \<open>rctrl.hh\<close>: registries, the seven handlers, the daemon;
    DaemonSpec relates a run of the daemon to the inductive relation \<open>ctrl_step\<close>, in which
    any handler is called with any bytes, and proves an invariant of its reachable states.
  \<^item> ConnMgr, ConnMgrSpec: \<open>lib.hh\<close>, and client and daemon composed over one network.
  \<^item> Chain, Recv, RecvSpec, RecvAlloc: work requests linked inside an array; \<open>qps/recv_helper.hh\<close>,
    \<open>qps/recv_iter.hh\<close>, \<open>post_recvs\<close> of \<open>qps/mod.hh\<close>; \<open>qps/abs_recv_allocator.hh\<close> as the locale
    \<open>recv_allocator\<close>, interpreted on the allocator that the example programs pass.
  \<^item> Ops, OpsSpec: \<open>qps/op.hh\<close> and \<open>qps/doorbell_helper.hh\<close>.
  \<^item> RecvMgr, RecvMgrSpec: \<open>qps/rc_recv_manager.hh\<close>.
  \<^item> Logging: \<open>utils/logging.hh\<close>, with \<open>loglevel\<close> an instance of \<open>linorder\<close>.
  \<^item> Bench, BenchSpec: \<open>tests/random.hh\<close>, \<open>benchs/statics.hh\<close>, \<open>reporter.hh\<close>, \<open>bench_op.hh\<close> and the
    loops of \<open>bench_client.cc\<close>, \<open>or_bench\<close>, \<open>fly_bench\<close> and \<open>db_bench\<close>.
  \<^item> Clients, ClientsSpec: the same clients and those of \<open>examples/rc_pingpong\<close> and \<open>rc_write\<close>
    from their first line to their last, over the state \<open>host\<close> of a process (sockets, address
    cache, driver). Servers, ServersSpec: the servers of the two examples, \<open>bench_server.cc\<close>
    and \<open>dc_server.cc\<close>, up to the start of the daemon, and both sides together.
  \<^item> TwoSided, TwoSidedSpec: the clients and servers of \<open>examples/rc_overflow\<close>, \<open>ud_overflow\<close> and
    \<open>ud_pingpong\<close>, with the memory that the device reads and writes.
  \<^item> Dynamic, DynamicSpec: the client of \<open>benchs/dc_bench\<close>, and \<open>dc_server\<close> with what a client learns of it.
  \<^item> Threads, ThreadsSpec: \<open>benchs/thread.hh\<close>, the loop of \<open>reporter.hh\<close> and the function \<open>main\<close> of the
    measuring clients as an inductive step relation \<open>bench_step\<close>, in which the main thread
    and the workers are interleaved.
  \<^item> Legacy, LegacySpec: \<open>utils/util.hpp\<close> and \<open>utils/marshal.hpp\<close>.
  \<^item> UnitTests, UnitTestsSpec: the unit tests \<open>test_common\<close>, \<open>test_qp_progress\<close>, \<open>test_marshal\<close>,
    \<open>test_mmsg\<close> and the bodies of \<open>test_op\<close> as programs, and that they pass.
  \<^item> NetTests, NetTestsSpec: \<open>test_channel\<close>, \<open>test_rpc\<close>, \<open>test_nicinfo\<close> and \<open>test_mem\<close>.
  \<^item> QPTests, QPTestsSpec, UDTest, UDTestSpec: \<open>test_rc\<close>, the fixture of \<open>test_op\<close>, \<open>test_cm\<close> with client and daemon, and
    \<open>test_ud\<close>, from their first lines.

  \<^bold>\<open>What the theorems show.\<close> The properties are named C1 to C40 in the text before each.
  \<^item> Composition: connecting a queue pair and fetching a memory region through client,
    network and daemon (ConnMgrSpec), a call through client and server (SRpcSpec), the
    creation of a connection that receives (RecvMgrSpec), the example rc_pingpong from the
    first lines of both programs to the twelve words read (ServersSpec), the numbers that
    rc_overflow's client sends and its server counts (TwoSidedSpec), dc_server and the target, handle and
    region that a client of dc_bench learns (DynamicSpec), the tests of one-sided operations (QPTestsSpec).
  \<^item> Invariants: the daemon's registries under arbitrary datagrams and an arbitrary device
    (DaemonSpec); a refused request changes nothing (RCtrlSpec); the ring of receive buffers
    over any number of passes (RecvSpec); the marks count the outstanding requests across
    the wrap-around of 16 bits (QPsSpec); the threads of a measuring client in every
    interleaving, which also end, with the contract \<open>worker_contract\<close> of a worker, which the workers of
    or_bench, fly_bench, bench_client and db_bench keep (ThreadsSpec).
  \<^item> Refinement: creation and connection of queue pairs against the state machine of the
    specification, \<open>append\<close> against appending to a list, the server's loop against a fold.
  \<^item> Round trips: batches of messages, every wire struct, request numbers.
  \<^item> Bounds and liveness: \<open>dc_bench\<close> reads within the regions; \<open>or_bench\<close> never fills the send queue, \<open>fly_bench\<close> drains it, waiting
    returns once the clock passes the timeout.
  \<^item> Errors, where the code does not do what it means to: 16-bit overflow of a batch's size
    check, a late reply accepted as the answer to the next call, an empty datagram that runs
    the previous request again, the overflow of \<open>db_bench\<close>, the
    names under which \<open>bench_server\<close> and its clients do not meet.

  \<^bold>\<open>Loops and fuel.\<close> A loop over a container is structural recursion. The walk along \<open>next\<close>
  pointers of a chain (Chain) takes the array's length as fuel, which every chain without
  repetition respects. A loop whose end depends on the driver, the clock or the random generator
  (\<open>poll_until\<close>, \<open>poll_rc_until\<close>, \<open>generate_key\<close>) is a \<open>partial_function (option)\<close>: not returning
  is the value \<open>None\<close>, which the calling operation turns into \<open>Diverged\<close>. Where the code loops
  while a flag \<open>running\<close> is set that another thread clears, the number of rounds is an argument
  and the theorems hold for every number.

  \<^bold>\<open>Not modelled.\<close> The daemon's thread: each registry operation holds the mutex, so the
  sequential model orders operations as the mutex does. In Threads the turn of a worker is one
  step and every worker has its own objects. The text of log messages, except in Logging,
  and of \<open>Op\<close>'s printing. The report's division by elapsed seconds, in floating point (the sums
  it divides are modelled). The parsing of the command line, whose flags are arguments, and the
  seconds that the programs sleep. The function \<open>main\<close> of dc_bench, whose worker falls off its end without a value.
  \<open>test_rc_send.cc\<close> and \<open>test_rc_send_cm.cc\<close>, whose bodies are disabled by \<open>#if 0\<close>.
\<close>

end
